(* ===== verification/Prelude.thy ===== *)
theory Prelude
  imports Main "HOL-Library.Word" "HOL-Library.Char_ord" "HOL-Library.List_Lexorder" "HOL-Library.Multiset"
begin

text \<open>
  Shared vocabulary of the development: the byte and identifier types, the
  transaction monad in which every service of the warehouse runs, the table
  primitives the SQL statements are made of, and the generic lemmas on lists
  that the components share.

  \<^item> A UUID of the Go code is an array of 16 bytes compared by
    \<^verbatim>\<open>bytes.Compare\<close>; here it is a 128-bit word, and
    \<open>be_bytes_less\<close> shows that the unsigned order of the word is the order of its
    big-endian bytes. A \<^verbatim>\<open>[32]byte\<close> is a 256-bit word likewise.
  \<^item> A transaction body is a function from the database to a result (an
    error or a value) and the database it leaves. \<open>WithTx\<close> keeps the new
    database on success and the old one on an error.
\<close>

named_theorems tx_simps "evaluation of transaction combinators"
named_theorems tx_rules "closure of two-state relations under transaction combinators"

section \<open>Bytes and identifiers\<close>

type_synonym byte = "8 word"
type_synonym bytes = "byte list"
type_synonym uuid = "128 word"
type_synonym bytes32 = "256 word"
type_synonym timestamp = int

text \<open>\<^verbatim>\<open>uuid.Nil\<close>, the zero identifier every service refuses.\<close>

abbreviation uuid_Nil :: uuid where
  "uuid_Nil \<equiv> 0"

primrec be_bytes :: "nat \<Rightarrow> nat \<Rightarrow> bytes" where
  "be_bytes 0 x = []"
| "be_bytes (Suc n) x = be_bytes n (x div 256) @ [word_of_nat (x mod 256)]"

definition uuid_bytes :: "uuid \<Rightarrow> bytes" where
  "uuid_bytes u = be_bytes 16 (unat u)"

definition word32_bytes :: "bytes32 \<Rightarrow> bytes" where
  "word32_bytes w = be_bytes 32 (unat w)"

text \<open>\<^verbatim>\<open>bytes.Compare(a, b) < 0\<close>.\<close>

fun bytes_less :: "bytes \<Rightarrow> bytes \<Rightarrow> bool" where
  "bytes_less _ [] = False"
| "bytes_less [] (_ # _) = True"
| "bytes_less (a # as) (b # bs) = (a < b \<or> a = b \<and> bytes_less as bs)"

lemma length_be_bytes [simp]: "length (be_bytes n x) = n"
  by (induction n arbitrary: x) auto

lemma word_of_nat_byte_eq:
  assumes "x < 256" "y < 256"
  shows "(word_of_nat x = (word_of_nat y :: byte)) = (x = y)"
  using assms by (simp add: word_of_nat_eq_iff take_bit_eq_mod)

lemma word_of_nat_byte_less:
  assumes "x < 256" "y < 256"
  shows "(word_of_nat x < (word_of_nat y :: byte)) = (x < y)"
  using assms by (simp add: word_of_nat_less_iff take_bit_eq_mod)

lemma bytes_less_append_same_length:
  "length xs = length ys \<Longrightarrow>
   bytes_less (xs @ us) (ys @ vs) = (bytes_less xs ys \<or> xs = ys \<and> bytes_less us vs)"
  by (induction xs ys rule: list_induct2) auto

lemma be_bytes_eq_iff:
  "x < 256 ^ n \<Longrightarrow> y < 256 ^ n \<Longrightarrow> (be_bytes n x = be_bytes n y) = (x = y)"
proof (induction n arbitrary: x y)
  case (Suc n)
  have "x div 256 < 256 ^ n" "y div 256 < 256 ^ n"
    using Suc.prems by (auto simp: less_mult_imp_div_less)
  moreover have "(x = y) = (x div 256 = y div 256 \<and> x mod 256 = y mod 256)"
    by (metis div_mod_decomp)
  ultimately show ?case
    using Suc.IH [of "x div 256" "y div 256"] by (auto simp: word_of_nat_byte_eq)
qed simp

lemma less_by_digit:
  fixes x y b :: nat
  assumes "0 < b"
  shows "(x < y) = (x div b < y div b \<or> x div b = y div b \<and> x mod b < y mod b)"
proof (cases "x div b = y div b")
  case True
  then show ?thesis
    using div_mod_decomp [of x b] div_mod_decomp [of y b] by (metis add_less_cancel_left nat_neq_iff)
next
  case False
  then show ?thesis
    by (metis div_le_mono le_neq_implies_less less_imp_le_nat not_less)
qed

theorem be_bytes_less:
  "x < 256 ^ n \<Longrightarrow> y < 256 ^ n \<Longrightarrow> bytes_less (be_bytes n x) (be_bytes n y) = (x < y)"
proof (induction n arbitrary: x y)
  case (Suc n)
  have d: "x div 256 < 256 ^ n" "y div 256 < 256 ^ n"
    using Suc.prems by (auto simp: less_mult_imp_div_less)
  have "(x < y) = (x div 256 < y div 256 \<or> x div 256 = y div 256 \<and> x mod 256 < y mod 256)"
    by (rule less_by_digit) simp
  then show ?case
    using Suc.IH [OF d] d
    by (simp add: bytes_less_append_same_length be_bytes_eq_iff word_of_nat_byte_less)
qed simp

lemma unat_uuid_bound: "unat (u :: uuid) < 256 ^ 16"
  using unsigned_less [where ?'a = nat, of u] by simp

lemma unat_word32_bound: "unat (w :: bytes32) < 256 ^ 32"
  using unsigned_less [where ?'a = nat, of w] by simp

lemma uuid_bytes_inject [simp]: "(uuid_bytes u = uuid_bytes v) = (u = v)"
  unfolding uuid_bytes_def
  by (simp only: be_bytes_eq_iff [OF unat_uuid_bound unat_uuid_bound] word_unat_eq_iff)

lemma word32_bytes_inject [simp]: "(word32_bytes u = word32_bytes v) = (u = v)"
  unfolding word32_bytes_def
  by (simp only: be_bytes_eq_iff [OF unat_word32_bound unat_word32_bound] word_unat_eq_iff)

lemma uuid_order_is_byte_order: "bytes_less (uuid_bytes u) (uuid_bytes v) = (u < v)"
  unfolding uuid_bytes_def
  by (simp only: be_bytes_less [OF unat_uuid_bound unat_uuid_bound] word_less_nat_alt)

lemma word32_order_is_byte_order: "bytes_less (word32_bytes u) (word32_bytes v) = (u < v)"
  unfolding word32_bytes_def
  by (simp only: be_bytes_less [OF unat_word32_bound unat_word32_bound] word_less_nat_alt)

lemma length_uuid_bytes [simp]: "length (uuid_bytes u) = 16"
  by (simp add: uuid_bytes_def)

lemma length_word32_bytes [simp]: "length (word32_bytes u) = 32"
  by (simp add: word32_bytes_def)

section \<open>Transactions\<close>

text \<open>
  \<open>('s, 'e, 'a) tx\<close> is a Go function body that runs on one connection: it
  reads and updates the database and returns either \<open>Inl\<close> an error or
  \<open>Inr\<close> a value. \<open>tx_bind\<close> is \<^verbatim>\<open>x, err := m(); if err != nil { return err }\<close>.
\<close>

type_synonym ('s, 'e, 'a) tx = "'s \<Rightarrow> ('e + 'a) \<times> 's"

definition tx_return :: "'a \<Rightarrow> ('s, 'e, 'a) tx" where
  "tx_return a = (\<lambda>s. (Inr a, s))"

definition tx_fail :: "'e \<Rightarrow> ('s, 'e, 'a) tx" where
  "tx_fail e = (\<lambda>s. (Inl e, s))"

definition tx_bind :: "('s, 'e, 'a) tx \<Rightarrow> ('a \<Rightarrow> ('s, 'e, 'b) tx) \<Rightarrow> ('s, 'e, 'b) tx" where
  "tx_bind m f = (\<lambda>s. case m s of (Inl e, s') \<Rightarrow> (Inl e, s') | (Inr a, s') \<Rightarrow> f a s')"

definition tx_seq :: "('s, 'e, unit) tx \<Rightarrow> ('s, 'e, 'b) tx \<Rightarrow> ('s, 'e, 'b) tx" where
  "tx_seq m n = tx_bind m (\<lambda>_. n)"

definition tx_query :: "('s \<Rightarrow> 'e + 'a) \<Rightarrow> ('s, 'e, 'a) tx" where
  "tx_query q = (\<lambda>s. (q s, s))"

definition tx_get :: "('s \<Rightarrow> 'a) \<Rightarrow> ('s, 'e, 'a) tx" where
  "tx_get q = (\<lambda>s. (Inr (q s), s))"

definition tx_modify :: "('s \<Rightarrow> 's) \<Rightarrow> ('s, 'e, unit) tx" where
  "tx_modify g = (\<lambda>s. (Inr (), g s))"

text \<open>An early return: \<^verbatim>\<open>if bad { return err }\<close>.\<close>

definition tx_check :: "bool \<Rightarrow> 'e \<Rightarrow> ('s, 'e, unit) tx" where
  "tx_check ok e = (if ok then tx_return () else tx_fail e)"

definition tx_lift :: "'e + 'a \<Rightarrow> ('s, 'e, 'a) tx" where
  "tx_lift r = (\<lambda>s. (r, s))"

text \<open>Inspecting an error with \<^verbatim>\<open>errors.Is\<close> instead of returning it.\<close>

definition tx_handle :: "('s, 'e, 'a) tx \<Rightarrow> ('e \<Rightarrow> ('s, 'f, 'a) tx) \<Rightarrow> ('s, 'f, 'a) tx" where
  "tx_handle m h = (\<lambda>s. case m s of (Inl e, s') \<Rightarrow> h e s' | (Inr a, s') \<Rightarrow> (Inr a, s'))"

primrec tx_each :: "('x \<Rightarrow> ('s, 'e, unit) tx) \<Rightarrow> 'x list \<Rightarrow> ('s, 'e, unit) tx" where
  "tx_each f [] = tx_return ()"
| "tx_each f (x # xs) = tx_seq (f x) (tx_each f xs)"

text \<open>Begin, run the body, commit; the deferred rollback undoes a body that failed.\<close>

definition WithTx :: "('s, 'e, 'a) tx \<Rightarrow> ('s, 'e, 'a) tx" where
  "WithTx m = (\<lambda>s. case m s of (Inl e, _) \<Rightarrow> (Inl e, s) | (Inr a, s') \<Rightarrow> (Inr a, s'))"

lemma tx_return_apply [tx_simps]: "tx_return a s = (Inr a, s)"
  by (simp add: tx_return_def)

lemma tx_fail_apply [tx_simps]: "tx_fail e s = (Inl e, s)"
  by (simp add: tx_fail_def)

lemma tx_bind_apply [tx_simps]:
  "tx_bind m f s = (case fst (m s) of Inl e \<Rightarrow> (Inl e, snd (m s)) | Inr a \<Rightarrow> f a (snd (m s)))"
  by (auto simp: tx_bind_def split: prod.splits sum.splits)

lemma tx_seq_apply [tx_simps]:
  "tx_seq m n s = (case fst (m s) of Inl e \<Rightarrow> (Inl e, snd (m s)) | Inr _ \<Rightarrow> n (snd (m s)))"
  by (auto simp: tx_seq_def tx_bind_apply split: sum.splits)

lemma tx_query_apply [tx_simps]: "tx_query q s = (q s, s)"
  by (simp add: tx_query_def)

lemma tx_get_apply [tx_simps]: "tx_get q s = (Inr (q s), s)"
  by (simp add: tx_get_def)

lemma tx_modify_apply [tx_simps]: "tx_modify g s = (Inr (), g s)"
  by (simp add: tx_modify_def)

lemma tx_check_apply [tx_simps]: "tx_check b e s = (if b then Inr () else Inl e, s)"
  by (simp add: tx_check_def tx_return_def tx_fail_def)

lemma tx_lift_apply [tx_simps]: "tx_lift r s = (r, s)"
  by (simp add: tx_lift_def)

lemma tx_handle_apply [tx_simps]:
  "tx_handle m h s = (case fst (m s) of Inl e \<Rightarrow> h e (snd (m s)) | Inr a \<Rightarrow> (Inr a, snd (m s)))"
  by (auto simp: tx_handle_def split: prod.splits sum.splits)

lemma WithTx_apply [tx_simps]:
  "WithTx m s = (case fst (m s) of Inl e \<Rightarrow> (Inl e, s) | Inr a \<Rightarrow> (Inr a, snd (m s)))"
  by (auto simp: WithTx_def split: prod.splits sum.splits)

text \<open>Inversion of a successful or failed run, for reasoning forwards through a body.\<close>

lemma tx_bind_ok:
  "tx_bind m f s = (Inr b, s') \<longleftrightarrow> (\<exists>a t. m s = (Inr a, t) \<and> f a t = (Inr b, s'))"
  by (auto simp: tx_bind_def split: prod.splits sum.splits)

lemma tx_seq_ok:
  "tx_seq m n s = (Inr b, s') \<longleftrightarrow> (\<exists>t. m s = (Inr (), t) \<and> n t = (Inr b, s'))"
  by (auto simp: tx_seq_def tx_bind_ok)

lemma tx_check_ok: "tx_check b e s = (Inr u, s') \<longleftrightarrow> b \<and> s' = s"
  by (auto simp: tx_check_apply split: if_splits)

lemma tx_query_ok: "tx_query q s = (Inr a, s') \<longleftrightarrow> q s = Inr a \<and> s' = s"
  by (auto simp: tx_query_apply)

lemma tx_get_ok: "tx_get q s = (Inr a, s') \<longleftrightarrow> a = q s \<and> s' = s"
  by (auto simp: tx_get_apply)

lemma tx_modify_ok: "tx_modify g s = (Inr u, s') \<longleftrightarrow> s' = g s"
  by (auto simp: tx_modify_apply)

lemma tx_return_ok: "tx_return a s = (Inr b, s') \<longleftrightarrow> b = a \<and> s' = s"
  by (auto simp: tx_return_apply)

lemma tx_fail_ok [simp]: "tx_fail e s \<noteq> (Inr b, s')"
  by (simp add: tx_fail_apply)

lemma tx_case_option_ok:
  "(case y of None \<Rightarrow> m | Some a \<Rightarrow> f a) s = (Inr b, s') \<longleftrightarrow>
     y = None \<and> m s = (Inr b, s') \<or> (\<exists>a. y = Some a \<and> f a s = (Inr b, s'))"
  by (cases y) auto

lemma tx_case_sum_ok:
  "(case y of Inl e \<Rightarrow> g e | Inr a \<Rightarrow> f a) s = (Inr b, s') \<longleftrightarrow>
     (\<exists>e. y = Inl e \<and> g e s = (Inr b, s')) \<or> (\<exists>a. y = Inr a \<and> f a s = (Inr b, s'))"
  by (cases y) auto

lemmas tx_case_oks = tx_case_option_ok tx_case_sum_ok

text \<open>A read that succeeds, decided by its nested tests.\<close>

lemma query_case_option:
  "(case y of None \<Rightarrow> Inl e | Some a \<Rightarrow> f a) = Inr b \<longleftrightarrow> (\<exists>a. y = Some a \<and> f a = Inr b)"
  by (cases y) auto

lemma query_if_Inl: "(if c then Inl e else r) = Inr b \<longleftrightarrow> \<not> c \<and> r = Inr b"
  by simp

lemma query_if_Inr: "(if c then r else Inl e) = Inr b \<longleftrightarrow> c \<and> r = Inr b"
  by simp

lemmas query_oks = query_case_option query_if_Inl query_if_Inr sum.inject

lemma tx_lift_ok: "tx_lift r s = (Inr b, s') \<longleftrightarrow> r = Inr b \<and> s' = s"
  by (auto simp: tx_lift_apply)

lemma WithTx_ok: "WithTx m s = (Inr b, s') \<longleftrightarrow> m s = (Inr b, s')"
  by (auto simp: WithTx_def split: prod.splits sum.splits)

lemma WithTx_error: "WithTx m s = (Inl e, s') \<Longrightarrow> s' = s"
  by (auto simp: WithTx_def split: prod.splits sum.splits)

lemmas tx_oks = tx_bind_ok tx_seq_ok tx_check_ok tx_query_ok tx_get_ok tx_modify_ok tx_return_ok
  tx_lift_ok WithTx_ok

section \<open>Tables\<close>

text \<open>
  A table is the list of its rows in insertion order. \<open>sql_exec\<close> is an
  \<^verbatim>\<open>UPDATE ... SET ... WHERE\<close> that reports \<^verbatim>\<open>RowsAffected\<close>; \<open>sql_insert\<close> is an
  \<^verbatim>\<open>INSERT\<close> into a table with a unique key, which reports an error on a clash.
\<close>

definition sql_update :: "('r \<Rightarrow> bool) \<Rightarrow> ('r \<Rightarrow> 'r) \<Rightarrow> 'r list \<Rightarrow> 'r list" where
  "sql_update P f t = map (\<lambda>r. if P r then f r else r) t"

definition sql_count :: "('r \<Rightarrow> bool) \<Rightarrow> 'r list \<Rightarrow> nat" where
  "sql_count P t = length (filter P t)"

definition sql_row :: "'e \<Rightarrow> ('r \<Rightarrow> bool) \<Rightarrow> 'r list \<Rightarrow> 'e + 'r" where
  "sql_row e P t = (case List.find P t of None \<Rightarrow> Inl e | Some r \<Rightarrow> Inr r)"

definition sql_exec ::
  "('s \<Rightarrow> 'r list) \<Rightarrow> (('r list \<Rightarrow> 'r list) \<Rightarrow> 's \<Rightarrow> 's) \<Rightarrow> ('r \<Rightarrow> bool) \<Rightarrow> ('r \<Rightarrow> 'r) \<Rightarrow> ('s, 'e, nat) tx" where
  "sql_exec get upd P f = (\<lambda>s. (Inr (sql_count P (get s)), upd (sql_update P f) s))"

definition sql_insert ::
  "('s \<Rightarrow> 'r list) \<Rightarrow> (('r list \<Rightarrow> 'r list) \<Rightarrow> 's \<Rightarrow> 's) \<Rightarrow> ('r \<Rightarrow> 'k) \<Rightarrow> 'e \<Rightarrow> 'r \<Rightarrow> ('s, 'e, unit) tx" where
  "sql_insert get upd key e r = (\<lambda>s.
     if key r \<in> key ` set (get s) then (Inl e, s) else (Inr (), upd (\<lambda>t. t @ [r]) s))"

lemma sql_exec_apply [tx_simps]:
  "sql_exec get upd P f s = (Inr (sql_count P (get s)), upd (sql_update P f) s)"
  by (simp add: sql_exec_def)

lemma sql_insert_apply [tx_simps]:
  "sql_insert get upd key e r s =
     (if key r \<in> key ` set (get s) then (Inl e, s) else (Inr (), upd (\<lambda>t. t @ [r]) s))"
  by (simp add: sql_insert_def)

lemma sql_exec_ok:
  "sql_exec get upd P f s = (Inr n, s') \<longleftrightarrow> n = sql_count P (get s) \<and> s' = upd (sql_update P f) s"
  by (auto simp: sql_exec_def)

lemma sql_insert_ok:
  "sql_insert get upd key e r s = (Inr u, s') \<longleftrightarrow>
     key r \<notin> key ` set (get s) \<and> s' = upd (\<lambda>t. t @ [r]) s"
  by (auto simp: sql_insert_def)

lemmas sql_oks = sql_exec_ok sql_insert_ok

lemma sql_row_Inr [simp]: "(sql_row e P t = Inr r) = (List.find P t = Some r)"
  by (auto simp: sql_row_def split: option.splits)

lemma sql_row_Inl [simp]: "(sql_row e P t = Inl e') = (e' = e \<and> (\<forall>r\<in>set t. \<not> P r))"
  by (induction t) (auto simp: sql_row_def)

lemma find_Some_set: "List.find P t = Some r \<Longrightarrow> r \<in> set t \<and> P r"
  by (auto simp: find_Some_iff in_set_conv_nth)

lemma find_key: "distinct (map k xs) \<Longrightarrow> x \<in> set xs \<Longrightarrow> List.find (\<lambda>y. k y = k x) xs = Some x"
  by (induction xs) auto

lemma find_append_None: "List.find P xs = None \<Longrightarrow> List.find P (xs @ ys) = List.find P ys"
  by (induction xs) (auto split: if_splits)

lemma length_sql_update [simp]: "length (sql_update P f t) = length t"
  by (simp add: sql_update_def)

lemma sql_count_zero: "(sql_count P t = 0) = (\<forall>r\<in>set t. \<not> P r)"
  by (auto simp: sql_count_def filter_empty_conv)

lemma map_sql_update [simp]:
  "(\<And>r. P r \<Longrightarrow> g (f r) = g r) \<Longrightarrow> map g (sql_update P f t) = map g t"
  by (auto simp: sql_update_def)

lemma set_sql_update: "set (sql_update P f t) = (\<lambda>r. if P r then f r else r) ` set t"
  by (simp add: sql_update_def)

text \<open>Updating the row of one key replaces that row.\<close>

lemma set_sql_update_key:
  assumes "distinct (map key t)" and x: "x \<in> set t"
  shows "set (sql_update (\<lambda>r. key r = key x) f t) = insert (f x) (set t - {x})"
proof -
  have inj: "inj_on key (set t)" using assms(1) by (simp add: distinct_map)
  have "(\<lambda>r. if key r = key x then f r else r) ` (set t - {x}) = (\<lambda>r. r) ` (set t - {x})"
    using inj x by (intro image_cong) (auto dest: inj_onD)
  then have "(\<lambda>r. if key r = key x then f r else r) ` insert x (set t - {x}) = insert (f x) (set t - {x})"
    by (simp only: image_insert image_ident) simp
  then show ?thesis
    using x by (simp only: set_sql_update insert_Diff)
qed

text \<open>Rows are matched by their position: an update neither adds, drops nor reorders rows.\<close>

lemma list_all2_sql_update:
  "(\<And>r. r \<in> set t \<Longrightarrow> P r \<Longrightarrow> R r (f r)) \<Longrightarrow> (\<And>r. R r r) \<Longrightarrow> list_all2 R t (sql_update P f t)"
  by (induction t) (auto simp: sql_update_def)

text \<open>
  \<open>grows R t t'\<close>: the rows of \<open>t\<close> are still the first rows of \<open>t'\<close>, each related to
  what it was; rows may have been added, none removed.
\<close>

definition grows :: "('r \<Rightarrow> 'r \<Rightarrow> bool) \<Rightarrow> 'r list \<Rightarrow> 'r list \<Rightarrow> bool" where
  "grows R t t' \<longleftrightarrow> (\<exists>u v. t' = u @ v \<and> list_all2 R t u)"

lemma grows_refl: "(\<And>r. R r r) \<Longrightarrow> grows R t t"
  by (auto simp: grows_def intro: list_all2_refl)

lemma grows_append: "(\<And>r. R r r) \<Longrightarrow> grows R t (t @ v)"
  by (auto simp: grows_def intro: list_all2_refl)

lemma grows_update:
  "(\<And>r. R r r) \<Longrightarrow> (\<And>r. r \<in> set t \<Longrightarrow> P r \<Longrightarrow> R r (f r)) \<Longrightarrow> grows R t (sql_update P f t)"
  unfolding grows_def by (metis append_Nil2 list_all2_sql_update)

lemma grows_trans:
  assumes R: "\<And>a b c. R a b \<Longrightarrow> R b c \<Longrightarrow> R a c" and tu: "grows R t u" and uv: "grows R u v"
  shows "grows R t v"
proof -
  obtain u1 u2 where u: "u = u1 @ u2" "list_all2 R t u1" using tu by (auto simp: grows_def)
  obtain v1 v2 where v: "v = v1 @ v2" "list_all2 R u v1" using uv by (auto simp: grows_def)
  obtain w1 w2 where w: "v1 = w1 @ w2" "list_all2 R u1 w1"
    using v(2) unfolding u(1) list_all2_append1 by blast
  have "list_all2 R t w1" using R u(2) w(2) by (rule list_all2_trans)
  then show ?thesis unfolding grows_def v(1) w(1) append_assoc by blast
qed

lemma grows_row: "grows R t t' \<Longrightarrow> r \<in> set t \<Longrightarrow> \<exists>r'\<in>set t'. R r r'"
  by (fastforce simp: grows_def list_all2_conv_all_nth in_set_conv_nth)

text \<open>
  What a table of the database record gives a statement: reading it after an
  update yields the updated rows, and updates compose. The rows a loop of inserts
  adds are the rows it was given, in order, under keys that were all free.
\<close>

locale sql_table =
  fixes get :: "'s \<Rightarrow> 'r list"
    and upd :: "('r list \<Rightarrow> 'r list) \<Rightarrow> 's \<Rightarrow> 's"
  assumes get_upd: "get (upd g s) = g (get s)"
    and upd_upd: "upd g (upd h s) = upd (\<lambda>t. g (h t)) s"
    and upd_id: "upd (\<lambda>t. t) s = s"
begin

lemma insert_each_ok:
  "tx_each (\<lambda>x. sql_insert get upd key e (f x)) xs s = (Inr u, s') \<longleftrightarrow>
     distinct (map (key \<circ> f) xs) \<and> (key \<circ> f) ` set xs \<inter> key ` set (get s) = {}
     \<and> s' = upd (\<lambda>t. t @ map f xs) s"
proof (induction xs arbitrary: s)
  case Nil
  then show ?case by (simp add: tx_return_ok upd_id)
next
  case (Cons x xs)
  then show ?case
    by (auto simp: tx_seq_ok sql_insert_ok get_upd upd_upd)
qed

lemma insert_each_error:
  "fst (tx_each (\<lambda>x. sql_insert get upd key e (f x)) xs s) \<noteq> Inr () \<Longrightarrow>
   fst (tx_each (\<lambda>x. sql_insert get upd key e (f x)) xs s) = Inl e"
  by (induction xs arbitrary: s) (auto simp: tx_simps split: sum.splits if_splits)

lemma exec_get: "get (snd (sql_exec get upd P f s)) = sql_update P f (get s)"
  by (simp add: tx_simps get_upd)

end

section \<open>Two-state properties of transactions\<close>

text \<open>
  \<open>tx_rel R m\<close>: whatever \<open>m\<close> returns, the database it leaves is related by
  \<open>R\<close> to the one it started from. For a preorder \<open>R\<close> the combinators are
  closed under it, so an operation is related as soon as its SQL statements
  are. The components interpret the locale on their own relations (status
  progress, preserved invariants).
\<close>

definition tx_rel :: "('s \<Rightarrow> 's \<Rightarrow> bool) \<Rightarrow> ('s, 'e, 'a) tx \<Rightarrow> bool" where
  "tx_rel R m = (\<forall>s. R s (snd (m s)))"

lemma tx_relD: "tx_rel R m \<Longrightarrow> m s = (r, s') \<Longrightarrow> R s s'"
  by (metis snd_conv tx_rel_def)

locale tx_preorder =
  fixes R :: "'s \<Rightarrow> 's \<Rightarrow> bool"
  assumes R_refl: "R s s"
    and R_trans: "R s t \<Longrightarrow> R t u \<Longrightarrow> R s u"
begin

lemma rel_return [tx_rules]: "tx_rel R (tx_return a)"
  by (simp add: tx_rel_def tx_simps R_refl)

lemma rel_fail [tx_rules]: "tx_rel R (tx_fail e)"
  by (simp add: tx_rel_def tx_simps R_refl)

lemma rel_query [tx_rules]: "tx_rel R (tx_query q)"
  by (simp add: tx_rel_def tx_simps R_refl)

lemma rel_get [tx_rules]: "tx_rel R (tx_get q)"
  by (simp add: tx_rel_def tx_simps R_refl)

lemma rel_check [tx_rules]: "tx_rel R (tx_check b e)"
  by (simp add: tx_rel_def tx_simps R_refl)

lemma rel_lift [tx_rules]: "tx_rel R (tx_lift r)"
  by (simp add: tx_rel_def tx_simps R_refl)

lemma rel_bind [tx_rules]:
  "tx_rel R m \<Longrightarrow> (\<And>a. tx_rel R (f a)) \<Longrightarrow> tx_rel R (tx_bind m f)"
  by (auto simp: tx_rel_def tx_bind_apply split: sum.splits intro: R_trans)

lemma rel_seq [tx_rules]: "tx_rel R m \<Longrightarrow> tx_rel R n \<Longrightarrow> tx_rel R (tx_seq m n)"
  by (auto simp: tx_rel_def tx_seq_apply split: sum.splits intro: R_trans)

lemma rel_handle [tx_rules]:
  "tx_rel R m \<Longrightarrow> (\<And>e. tx_rel R (h e)) \<Longrightarrow> tx_rel R (tx_handle m h)"
  by (auto simp: tx_rel_def tx_handle_apply split: sum.splits intro: R_trans)

lemma rel_WithTx [tx_rules]: "tx_rel R m \<Longrightarrow> tx_rel R (WithTx m)"
  by (auto simp: tx_rel_def WithTx_apply R_refl split: sum.splits)

lemma rel_each [tx_rules]: "(\<And>x. x \<in> set xs \<Longrightarrow> tx_rel R (f x)) \<Longrightarrow> tx_rel R (tx_each f xs)"
  by (induction xs) (auto intro: rel_return rel_seq)

end

lemma tx_rel_If [tx_rules]: "(b \<Longrightarrow> tx_rel R m) \<Longrightarrow> (\<not> b \<Longrightarrow> tx_rel R n) \<Longrightarrow> tx_rel R (if b then m else n)"
  by simp

lemma rel_get_at:
  "(\<And>s. R s (snd (f (q s) s))) \<Longrightarrow> tx_rel R (tx_bind (tx_get q) f)"
  by (simp add: tx_rel_def tx_simps)

lemma get_bind_apply: "tx_bind (tx_get q) f s = f (q s) s"
  by (simp add: tx_simps)

lemma rel_query_at:
  "(\<And>s e. R s s) \<Longrightarrow> (\<And>s a. q s = Inr a \<Longrightarrow> R s (snd (f a s))) \<Longrightarrow> tx_rel R (tx_bind (tx_query q) f)"
  by (auto simp: tx_rel_def tx_simps split: sum.splits)

lemma tx_rel_case_option [tx_rules]:
  "(y = None \<Longrightarrow> tx_rel R m) \<Longrightarrow> (\<And>a. y = Some a \<Longrightarrow> tx_rel R (f a)) \<Longrightarrow>
   tx_rel R (case y of None \<Rightarrow> m | Some a \<Rightarrow> f a)"
  by (cases y) auto

lemma tx_rel_case_sum [tx_rules]:
  "(\<And>e. y = Inl e \<Longrightarrow> tx_rel R (g e)) \<Longrightarrow> (\<And>a. y = Inr a \<Longrightarrow> tx_rel R (f a)) \<Longrightarrow>
   tx_rel R (case y of Inl e \<Rightarrow> g e | Inr a \<Rightarrow> f a)"
  by (cases y) auto

lemma sort_key_Nil [simp]: "sort_key f xs = [] \<longleftrightarrow> xs = []"
  by (metis length_0_conv length_sort)

lemma tx_rel_Let [tx_rules]: "tx_rel R (f x) \<Longrightarrow> tx_rel R (Let x f)"
  by simp

end
