(* ===== verification/Domain.thy ===== *)
theory Domain
  imports Complex_Main Prelude
begin

text \<open>
  The data of the warehouse service: the rows of its PostgreSQL tables
  (\<^verbatim>\<open>wms/internal/domain\<close>, with the nullable columns as \<open>option\<close>) and the database
  as a record of tables. Status columns are datatypes with the constants of the
  code. Columns that no modelled statement reads (\<^verbatim>\<open>created_at\<close>/\<^verbatim>\<open>updated_at\<close> of
  most tables, SKU volume, addresses) are left out; surrogate \<^verbatim>\<open>bigserial\<close> keys are
  the row positions. Field names carry a two-letter prefix of their table.
\<close>

section \<open>Status columns\<close>

datatype shipment_status = ShipmentCreated | ShipmentGateInProgress | ShipmentGateClosed

datatype cargoplace_status =
    CargoplaceExpected | CargoplaceReceivedAtGate | CargoplaceNotReceived
  | CargoplaceTableInProgress | CargoplaceTableClosed

datatype box_status = BoxOpen | BoxClosed

datatype product_status =
    ProductStatusReceived | ProductStatusStored | ProductStatusAllocated
  | ProductStatusAssembled | ProductStatusReadyToShip | ProductStatusShipped

datatype order_status =
    OrderStatusNew | OrderStatusAllocated | OrderStatusAssembled
  | OrderStatusPartiallyShipped | OrderStatusShipped

datatype task_status =
    TaskStatusPending | TaskStatusInProgress | TaskStatusDone | TaskStatusCancelled

datatype dispatch_status =
    OutboundDispatchStatusScheduled | OutboundDispatchStatusAtGate
  | OutboundDispatchStatusDeparted | OutboundDispatchStatusCancelled

datatype passkey_status =
    PasskeyStatusPending | PasskeyStatusActive | PasskeyStatusRejected | PasskeyStatusRevoked

datatype user_role = UserRoleAdmin | UserRoleOperator | UserRoleCustomer | UserRoleAuditor

datatype onchain_status = OnchainPending | OnchainSent | OnchainCommitted | OnchainFailed

section \<open>Inventory rows\<close>

record inbound_shipment =
  sh_id :: uuid
  sh_warehouse :: int
  sh_ttn :: string
  sh_status :: shipment_status

record cargoplace =
  cp_id :: uuid
  cp_shipment :: uuid
  cp_code :: string
  cp_status :: cargoplace_status
  cp_received_at :: "timestamp option"

record box =
  bx_id :: uuid
  bx_cargoplace :: uuid
  bx_barcode :: string
  bx_status :: box_status

record expected_cargoplace_sku =
  ex_cargoplace :: uuid
  ex_sku :: uuid
  ex_qty :: int

record sku =
  sk_id :: uuid
  sk_name :: string

record sku_barcode =
  sb_sku :: uuid
  sb_barcode :: string

record bin =
  bn_id :: uuid
  bn_warehouse :: int
  bn_code :: string
  bn_section :: "string option"
  bn_destination :: "uuid option"
  bn_volume :: "rat option"

record product =
  pr_id :: uuid
  pr_sku :: uuid
  pr_shipment :: uuid
  pr_cargoplace :: uuid
  pr_box :: "uuid option"
  pr_qr :: string
  pr_bin :: "uuid option"
  pr_order :: "uuid option"
  pr_status :: product_status
  pr_created :: timestamp

record order_row =
  or_id :: uuid
  or_external_no :: string
  or_customer :: uuid
  or_warehouse :: int
  or_destination :: uuid
  or_status :: order_status
  or_created :: timestamp

record order_line =
  ol_id :: int
  ol_order :: uuid
  ol_sku :: uuid
  ol_qty :: int

record destination =
  de_id :: uuid
  de_code :: string
  de_name :: string
  de_address :: "string option"
  de_warehouse :: int

record outbound_dispatch =
  dp_id :: uuid
  dp_code :: string
  dp_warehouse :: int
  dp_destination :: uuid
  dp_vehicle :: string
  dp_driver :: string
  dp_phone :: "string option"
  dp_status :: dispatch_status
  dp_scheduled :: timestamp
  dp_arrived :: "timestamp option"
  dp_departed :: "timestamp option"
  dp_created :: timestamp

section \<open>Operation history rows\<close>

record receiving_gate_entry =
  gl_event :: uuid
  gl_ttn :: "string option"
  gl_code :: "string option"
  gl_shipment :: "uuid option"
  gl_cargoplace :: "uuid option"
  gl_operator :: uuid
  gl_action :: string
  gl_occurred :: timestamp

record receiving_table_entry =
  tl_event :: uuid
  tl_cargoplace :: uuid
  tl_box :: "uuid option"
  tl_operator :: uuid
  tl_action :: string
  tl_barcode :: "string option"
  tl_sku :: "uuid option"
  tl_qr :: "string option"
  tl_product :: "uuid option"
  tl_buffer :: "uuid option"
  tl_operation :: "uuid option"
  tl_occurred :: timestamp

record putaway_row =
  pw_event :: uuid
  pw_product :: uuid
  pw_from_bin :: uuid
  pw_bin :: uuid
  pw_operator :: uuid
  pw_occurred :: timestamp
  pw_action :: "uuid option"

record assembly_task =
  at_event :: uuid
  at_order :: uuid
  at_product :: uuid
  at_sku :: uuid
  at_from_bin :: uuid
  at_destination :: uuid
  at_section :: "string option"
  at_status :: task_status
  at_operator :: "uuid option"
  at_occurred :: "timestamp option"
  at_action :: "uuid option"
  at_unloaded :: "timestamp option"

record shipping_row =
  sp_event :: uuid
  sp_product :: uuid
  sp_dispatch :: uuid
  sp_operator :: uuid
  sp_shipped_at :: timestamp
  sp_occurred :: timestamp
  sp_action :: "uuid option"

section \<open>Signed actions, keys and the chain mirror\<close>

text \<open>
  The \<^verbatim>\<open>details\<close> column holds the JSON document of one of four Go structs; a
  document is the constructor of the struct that produced it.
\<close>

datatype action_details =
    ReceiveDetails (rd_cargoplace: uuid) (rd_ms: int)
  | PutawayDetails (pd_bin: uuid) (pd_ms: int)
  | PickDetails (ud_bin: uuid) (ud_ms: int)
  | ShipDetails (sd_dispatch: uuid) (sd_bin: uuid) (sd_ms: int)

record warehouse_action =
  wa_id :: uuid
  wa_operation :: uuid
  wa_part :: nat
  wa_type :: byte
  wa_signer :: bytes
  wa_created_by :: uuid
  wa_items :: "uuid list"
  wa_salt :: bytes32
  wa_details_hash :: bytes32
  wa_challenge :: bytes32
  wa_details :: action_details
  wa_submitted :: "timestamp option"

record outbox_event =
  ob_event :: uuid
  ob_aggregate :: uuid
  ob_aggregate_type :: string
  ob_event_type :: string
  ob_hash :: string
  ob_payload :: string

record onchain_event =
  oe_event :: uuid
  oe_aggregate :: string
  oe_tx :: "string option"
  oe_status :: onchain_status
  oe_reject :: "int option"
  oe_error :: "string option"
  oe_updated :: timestamp

record p256_point =
  px :: bytes32
  py :: bytes32

record passkey =
  pk_credential :: bytes
  pk_user :: uuid
  pk_org :: uuid
  pk_key :: p256_point
  pk_key_id :: bytes32
  pk_role :: user_role
  pk_status :: passkey_status
  pk_created :: timestamp

record key_action =
  ka_id :: uuid
  ka_org :: uuid
  ka_type :: byte
  ka_target :: bytes
  ka_signer :: bytes
  ka_challenge :: bytes32
  ka_created_by :: uuid
  ka_submitted :: "timestamp option"

record user =
  us_id :: uuid
  us_name :: string
  us_password_hash :: string
  us_role :: user_role
  us_active :: bool
  us_org :: "uuid option"

record organization =
  og_id :: uuid
  og_name :: string

section \<open>The database\<close>

record wms_db =
  inbound_shipments :: "inbound_shipment list"
  cargoplaces :: "cargoplace list"
  boxes :: "box list"
  expected_cargoplace_skus :: "expected_cargoplace_sku list"
  skus :: "sku list"
  sku_barcodes :: "sku_barcode list"
  bins :: "bin list"
  products :: "product list"
  orders :: "order_row list"
  order_lines :: "order_line list"
  destinations :: "destination list"
  outbound_dispatches :: "outbound_dispatch list"
  receiving_gate :: "receiving_gate_entry list"
  receiving_table :: "receiving_table_entry list"
  putaways :: "putaway_row list"
  assembly_tasks :: "assembly_task list"
  shippings :: "shipping_row list"
  warehouse_actions :: "warehouse_action list"
  outbox_events :: "outbox_event list"
  onchain_events :: "onchain_event list"
  passkey_credentials :: "passkey list"
  key_actions :: "key_action list"
  users :: "user list"
  organizations :: "organization list"

interpretation cargoplaces: sql_table cargoplaces cargoplaces_update
  by unfold_locales simp_all

interpretation boxes: sql_table boxes boxes_update
  by unfold_locales simp_all

interpretation products: sql_table products products_update
  by unfold_locales simp_all

interpretation orders: sql_table orders orders_update
  by unfold_locales simp_all

interpretation shippings: sql_table shippings shippings_update
  by unfold_locales simp_all

interpretation putaways: sql_table putaways putaways_update
  by unfold_locales simp_all

interpretation assembly_tasks: sql_table assembly_tasks assembly_tasks_update
  by unfold_locales simp_all

interpretation warehouse_actions: sql_table warehouse_actions warehouse_actions_update
  by unfold_locales simp_all

interpretation outbox_events: sql_table outbox_events outbox_events_update
  by unfold_locales simp_all

interpretation onchain_events: sql_table onchain_events onchain_events_update
  by unfold_locales simp_all

interpretation expected_cargoplace_skus: sql_table expected_cargoplace_skus expected_cargoplace_skus_update
  by unfold_locales simp_all

text \<open>
  What one service call takes from outside the database: the \<open>k\<close>-th reading of
  the clock (in nanoseconds since the Unix epoch), the \<open>k\<close>-th identifier it
  generates and the \<open>k\<close>-th 32 random bytes it draws.
\<close>

record call_env =
  clock :: "nat \<Rightarrow> timestamp"
  fresh :: "nat \<Rightarrow> uuid"
  random :: "nat \<Rightarrow> bytes32"

text \<open>\<^verbatim>\<open>Truncate(time.Millisecond)\<close>, \<^verbatim>\<open>UnixMilli\<close> and \<^verbatim>\<open>time.UnixMilli\<close>.\<close>

definition truncate_ms :: "timestamp \<Rightarrow> timestamp" where
  "truncate_ms t = t - t mod 1000000"

definition unix_milli :: "timestamp \<Rightarrow> int" where
  "unix_milli t = t div 1000000"

definition of_unix_milli :: "int \<Rightarrow> timestamp" where
  "of_unix_milli ms = ms * 1000000"

text \<open>A draft's time survives the trip through its details document.\<close>

lemma of_unix_milli_truncate [simp]: "of_unix_milli (unix_milli (truncate_ms t)) = truncate_ms t"
  by (simp add: of_unix_milli_def unix_milli_def truncate_ms_def minus_mod_eq_div_mult)

section \<open>Concrete values\<close>

text \<open>The empty database and a concrete environment, from which the examples of the development start.\<close>

definition empty_db :: wms_db where
  "empty_db = \<lparr> inbound_shipments = [], cargoplaces = [], boxes = [], expected_cargoplace_skus = [],
     skus = [], sku_barcodes = [], bins = [], products = [], orders = [], order_lines = [],
     destinations = [], outbound_dispatches = [], receiving_gate = [], receiving_table = [],
     putaways = [], assembly_tasks = [], shippings = [], warehouse_actions = [],
     outbox_events = [], onchain_events = [], passkey_credentials = [], key_actions = [],
     users = [], organizations = [] \<rparr>"

definition demo_env :: call_env where
  "demo_env = \<lparr> clock = (\<lambda>k. 7000000 * int k), fresh = (\<lambda>k. word_of_nat (100 + k)),
     random = (\<lambda>k. word_of_nat k) \<rparr>"

lemma demo_env_simps [simp]:
  "clock demo_env k = 7000000 * int k" "fresh demo_env k = word_of_nat (100 + k)"
  "random demo_env k = word_of_nat k"
  by (simp_all add: demo_env_def)

end
