(* ===== verification/SignedAction.thy ===== *)
theory SignedAction
  imports Domain
begin

text \<open>
  \<^verbatim>\<open>wms/internal/signedaction\<close>: the preimages of the hashes an operator signs
  (\<^verbatim>\<open>challenge.go\<close>), the check of a browser assertion (\<^verbatim>\<open>assertion.go\<close>), the
  contract's check of the stored tuple (\<^verbatim>\<open>onchain.go\<close>) and the envelope
  (\<^verbatim>\<open>envelope.go\<close>).

  Cryptography, the ASN.1 and JSON codecs and the textual form of a UUID are
  fields of the parameter record \<open>crypto\<close>; every definition that needs one
  takes the record as its first argument. Hex and base64url are written out.
\<close>

record client_data =
  cd_type :: string
  cd_challenge :: string
  cd_origin :: string

record envelope_webauthn =
  ew_authenticator_data :: string
  ew_client_data_json :: string
  ew_challenge_index :: int
  ew_type_index :: int
  ew_r :: string
  ew_s :: string

text \<open>The envelope documents of a warehouse action and of a key action.\<close>

record envelope_doc =
  ed_version :: int
  ed_action_id :: string
  ed_action_type :: byte
  ed_item_ids :: "string list"
  ed_details_hash :: string
  ed_key_id :: string
  ed_webauthn :: envelope_webauthn

record key_envelope_doc =
  kd_version :: int
  kd_action_id :: string
  kd_action_type :: byte
  kd_item_ids :: "string list"
  kd_subject_qx :: string
  kd_subject_qy :: string
  kd_key_id :: string
  kd_webauthn :: envelope_webauthn

record crypto =
  keccak :: "bytes \<Rightarrow> bytes32"
  sha256 :: "bytes \<Rightarrow> bytes32"
  uuid_string :: "uuid \<Rightarrow> string"
  on_curve :: "nat \<Rightarrow> nat \<Rightarrow> bool"
  curve_order :: int
  ecdsa_verify :: "p256_point \<Rightarrow> bytes32 \<Rightarrow> int \<Rightarrow> int \<Rightarrow> bool"
  asn1_signature :: "bytes \<Rightarrow> (int \<times> int \<times> bytes) option"
  json_client_data :: "string \<Rightarrow> client_data option"
  json_envelope :: "envelope_doc \<Rightarrow> string"
  json_key_envelope :: "key_envelope_doc \<Rightarrow> string"

definition string_bytes :: "string \<Rightarrow> bytes" where
  "string_bytes s = map of_char s"

section \<open>Challenge and details hashes\<close>

definition TypeReceive :: byte where "TypeReceive = 1"
definition TypePutAway :: byte where "TypePutAway = 2"
definition TypePick :: byte where "TypePick = 3"
definition TypeShip :: byte where "TypeShip = 4"
definition TypeKeyRegister :: byte where "TypeKeyRegister = 5"
definition TypeKeyRevoke :: byte where "TypeKeyRevoke = 6"

lemmas action_types =
  TypeReceive_def TypePutAway_def TypePick_def TypeShip_def TypeKeyRegister_def TypeKeyRevoke_def

definition TypeHash :: "crypto \<Rightarrow> bytes32" where
  "TypeHash X = keccak X (string_bytes ''avalanche-wms/SignedAction/v1'')"

definition NoItems :: "crypto \<Rightarrow> bytes32" where
  "NoItems X = keccak X []"

text \<open>A left-aligned \<^verbatim>\<open>bytes16\<close> ABI word, and a \<^verbatim>\<open>uint64\<close> in the last eight bytes.\<close>

definition uuid_word :: "uuid \<Rightarrow> bytes" where
  "uuid_word u = uuid_bytes u @ replicate 16 0"

definition uint64_word :: "64 word \<Rightarrow> bytes" where
  "uint64_word n = replicate 24 0 @ be_bytes 8 (unat n)"

definition uint8_word :: "byte \<Rightarrow> bytes" where
  "uint8_word t = replicate 31 0 @ [t]"

definition challenge_preimage :: "crypto \<Rightarrow> uuid \<Rightarrow> byte \<Rightarrow> bytes32 \<Rightarrow> bytes32 \<Rightarrow> bytes" where
  "challenge_preimage X actionID actionType itemsHash detailsHash =
     word32_bytes (TypeHash X) @ uuid_word actionID @ uint8_word actionType
     @ word32_bytes itemsHash @ word32_bytes detailsHash"

definition Challenge :: "crypto \<Rightarrow> uuid \<Rightarrow> byte \<Rightarrow> bytes32 \<Rightarrow> bytes32 \<Rightarrow> bytes32" where
  "Challenge X actionID actionType itemsHash detailsHash =
     keccak X (challenge_preimage X actionID actionType itemsHash detailsHash)"

definition ItemID :: "crypto \<Rightarrow> uuid \<Rightarrow> bytes32" where
  "ItemID X productID = keccak X (string_bytes (uuid_string X productID))"

definition SortByItemID :: "crypto \<Rightarrow> uuid list \<Rightarrow> uuid list" where
  "SortByItemID X ids = sort_key (ItemID X) ids"

definition items_preimage :: "crypto \<Rightarrow> uuid list \<Rightarrow> bytes" where
  "items_preimage X sortedIDs = concat (map (\<lambda>id. word32_bytes (ItemID X id)) sortedIDs)"

definition ItemsHash :: "crypto \<Rightarrow> uuid list \<Rightarrow> bytes32" where
  "ItemsHash X sortedIDs = keccak X (items_preimage X sortedIDs)"

definition entityDetailsHash :: "crypto \<Rightarrow> bytes32 \<Rightarrow> bytes \<Rightarrow> uuid \<Rightarrow> 64 word \<Rightarrow> bytes32" where
  "entityDetailsHash X salt entity operatorID occurredAtMs =
     keccak X (word32_bytes salt @ entity @ uuid_word operatorID @ uint64_word occurredAtMs)"

definition ReceiveDetailsHash :: "crypto \<Rightarrow> bytes32 \<Rightarrow> uuid \<Rightarrow> uuid \<Rightarrow> 64 word \<Rightarrow> bytes32" where
  "ReceiveDetailsHash X salt cargoplaceID operatorID occurredAtMs =
     entityDetailsHash X salt (uuid_word cargoplaceID) operatorID occurredAtMs"

definition PutAwayDetailsHash :: "crypto \<Rightarrow> bytes32 \<Rightarrow> uuid \<Rightarrow> uuid \<Rightarrow> 64 word \<Rightarrow> bytes32" where
  "PutAwayDetailsHash X salt storageBinID operatorID occurredAtMs =
     entityDetailsHash X salt (uuid_word storageBinID) operatorID occurredAtMs"

text \<open>
  \<^verbatim>\<open>sortedUniqueOrderIDs\<close> sorts a copy and then compacts it in place: the result
  slice \<^verbatim>\<open>out\<close> is a prefix of the array it reads. One iteration works on the
  array and the length of \<^verbatim>\<open>out\<close>.
\<close>

definition dedup_step :: "uuid list \<times> nat \<Rightarrow> nat \<Rightarrow> uuid list \<times> nat" where
  "dedup_step = (\<lambda>(array, out) i.
     if i > 0 \<and> array ! i = array ! (i - 1) then (array, out)
     else (array[out := array ! i], Suc out))"

definition sortedUniqueOrderIDs :: "uuid list \<Rightarrow> uuid list" where
  "sortedUniqueOrderIDs ids =
     (let (array, out) = foldl dedup_step (sort ids, 0) [0..<length ids]
      in take out array)"

definition orderedListPreimage ::
  "bytes32 \<Rightarrow> uuid list \<Rightarrow> uuid list \<Rightarrow> uuid \<Rightarrow> 64 word \<Rightarrow> bytes" where
  "orderedListPreimage salt entities orderIDs operatorID occurredAtMs =
     (let orders = sortedUniqueOrderIDs orderIDs in
      word32_bytes salt
      @ concat (map uuid_word entities)
      @ uint64_word (of_nat (32 * (length entities + 4)))
      @ uuid_word operatorID
      @ uint64_word occurredAtMs
      @ uint64_word (of_nat (length orders))
      @ concat (map uuid_word orders))"

definition orderedListDetailsHash ::
  "crypto \<Rightarrow> bytes32 \<Rightarrow> uuid list \<Rightarrow> uuid list \<Rightarrow> uuid \<Rightarrow> 64 word \<Rightarrow> bytes32" where
  "orderedListDetailsHash X salt entities orderIDs operatorID occurredAtMs =
     keccak X (orderedListPreimage salt entities orderIDs operatorID occurredAtMs)"

definition PickDetailsHash ::
  "crypto \<Rightarrow> bytes32 \<Rightarrow> uuid \<Rightarrow> uuid list \<Rightarrow> uuid \<Rightarrow> 64 word \<Rightarrow> bytes32" where
  "PickDetailsHash X salt shippingBufferBinID orderIDs operatorID occurredAtMs =
     orderedListDetailsHash X salt [shippingBufferBinID] orderIDs operatorID occurredAtMs"

definition ShipDetailsHash ::
  "crypto \<Rightarrow> bytes32 \<Rightarrow> uuid \<Rightarrow> uuid \<Rightarrow> uuid list \<Rightarrow> uuid \<Rightarrow> 64 word \<Rightarrow> bytes32" where
  "ShipDetailsHash X salt dispatchID shippingBufferBinID orderIDs operatorID occurredAtMs =
     orderedListDetailsHash X salt [dispatchID, shippingBufferBinID] orderIDs operatorID occurredAtMs"

definition KeyDetailsHash :: "crypto \<Rightarrow> p256_point \<Rightarrow> bytes32" where
  "KeyDetailsHash X key = keccak X (word32_bytes (px key) @ word32_bytes (py key))"

definition KeyID :: "crypto \<Rightarrow> p256_point \<Rightarrow> bytes32" where
  "KeyID X key = KeyDetailsHash X key"

section \<open>Text encodings\<close>

definition hex_digit :: "nat \<Rightarrow> char" where
  "hex_digit n = ''0123456789abcdef'' ! n"

definition hex_encode :: "bytes \<Rightarrow> string" where
  "hex_encode bs = concat (map (\<lambda>b. [hex_digit (unat b div 16), hex_digit (unat b mod 16)]) bs)"

definition Hex32 :: "bytes32 \<Rightarrow> string" where
  "Hex32 v = ''0x'' @ hex_encode (word32_bytes v)"

definition b64_alphabet :: string where
  "b64_alphabet = ''ABCDEFGHIJKLMNOPQRSTUVWXYZabcdefghijklmnopqrstuvwxyz0123456789-_''"

definition b64_char :: "nat \<Rightarrow> char" where
  "b64_char n = b64_alphabet ! n"

text \<open>\<^verbatim>\<open>base64.RawURLEncoding.EncodeToString\<close>.\<close>

fun b64_sextets :: "bytes \<Rightarrow> nat list" where
  "b64_sextets [] = []"
| "b64_sextets [a] = [unat a div 4, unat a mod 4 * 16]"
| "b64_sextets [a, b] =
     [unat a div 4, unat a mod 4 * 16 + unat b div 16, unat b mod 16 * 4]"
| "b64_sextets (a # b # c # rest) =
     unat a div 4 # (unat a mod 4 * 16 + unat b div 16)
     # (unat b mod 16 * 4 + unat c div 64) # unat c mod 64 # b64_sextets rest"

definition b64_encode :: "bytes \<Rightarrow> string" where
  "b64_encode bs = map b64_char (b64_sextets bs)"

primrec position :: "'a \<Rightarrow> 'a list \<Rightarrow> nat option" where
  "position x [] = None"
| "position x (y # ys) = (if x = y then Some 0 else map_option Suc (position x ys))"

definition b64_value :: "char \<Rightarrow> nat option" where
  "b64_value c = position c b64_alphabet"

text \<open>\<^verbatim>\<open>DecodeString\<close> of the same encoding: line breaks are skipped, a last group of one
  character is an error and the unused low bits of a short last group are ignored.\<close>

fun b64_decode_values :: "nat list \<Rightarrow> bytes option" where
  "b64_decode_values [] = Some []"
| "b64_decode_values [p] = None"
| "b64_decode_values [p, q] = Some [word_of_nat (p * 4 + q div 16)]"
| "b64_decode_values [p, q, r] =
     Some [word_of_nat (p * 4 + q div 16), word_of_nat (q mod 16 * 16 + r div 4)]"
| "b64_decode_values (p # q # r # s # rest) =
     map_option (\<lambda>bs. word_of_nat (p * 4 + q div 16) # word_of_nat (q mod 16 * 16 + r div 4)
                      # word_of_nat (r mod 4 * 64 + s) # bs)
       (b64_decode_values rest)"

primrec all_some :: "'a option list \<Rightarrow> 'a list option" where
  "all_some [] = Some []"
| "all_some (x # xs) =
     (case x of None \<Rightarrow> None | Some a \<Rightarrow> map_option (\<lambda>as. a # as) (all_some xs))"

definition b64_decode :: "string \<Rightarrow> bytes option" where
  "b64_decode s =
     Option.bind (all_some (map b64_value (filter (\<lambda>c. c \<noteq> CHR 0x0A \<and> c \<noteq> CHR 0x0D) s)))
       b64_decode_values"

section \<open>Checking an assertion\<close>

record assertion =
  as_credential :: bytes
  as_authenticator_data :: bytes
  as_client_data_json :: string
  as_signature :: bytes

record webauthn =
  wn_authenticator_data :: bytes
  wn_client_data_json :: string
  wn_challenge_index :: int
  wn_type_index :: int
  wn_r :: bytes32
  wn_s :: bytes32

datatype verify_err =
    BadClientDataJSON | BadClientDataType | ChallengeMismatch | OriginNotAllowed
  | AuthenticatorDataTooShort | RpIdHashMismatch | UserPresenceMissing | UserVerificationMissing
  | BackupFlagsInvalid | KeyNotOnCurve | BadSignatureDER | SignatureTrailingBytes
  | SignatureInvalid | TypeOrChallengeMissing | FillBytesPanic | TypeIndexInvalid
  | ChallengeIndexInvalid | HighS

definition has_prefix :: "string \<Rightarrow> string \<Rightarrow> bool" where
  "has_prefix p s = (take (length p) s = p)"

text \<open>\<^verbatim>\<open>strings.Index\<close>: the first position of \<open>p\<close>, or -1.\<close>

fun str_index :: "string \<Rightarrow> string \<Rightarrow> int" where
  "str_index p s =
     (if has_prefix p s then 0
      else case s of [] \<Rightarrow> -1
           | c # cs \<Rightarrow> (let i = str_index p cs in if i < 0 then -1 else i + 1))"

declare str_index.simps [simp del]

definition type_json :: string where
  "type_json = ''\"type\":\"webauthn.get\"''"

definition challenge_json :: string where
  "challenge_json = ''\"challenge\":\"''"

text \<open>\<^verbatim>\<open>fill32\<close> panics on a number of more than 32 bytes; it drops the sign.\<close>

definition fill32 :: "int \<Rightarrow> bytes32 option" where
  "fill32 v = (if \<bar>v\<bar> < 2 ^ 256 then Some (word_of_int \<bar>v\<bar>) else None)"

definition flag_set :: "byte \<Rightarrow> nat \<Rightarrow> bool" where
  "flag_set flags k = bit flags k"

definition signed_digest :: "crypto \<Rightarrow> bytes \<Rightarrow> string \<Rightarrow> bytes32" where
  "signed_digest X authData cdj =
     sha256 X (authData @ word32_bytes (sha256 X (string_bytes cdj)))"

definition low_s :: "crypto \<Rightarrow> int \<Rightarrow> int" where
  "low_s X s = (if s > curve_order X div 2 then curve_order X - s else s)"

definition key_on_curve :: "crypto \<Rightarrow> p256_point \<Rightarrow> bool" where
  "key_on_curve X key = on_curve X (unat (px key)) (unat (py key))"

definition Verify ::
  "crypto \<Rightarrow> assertion \<Rightarrow> bytes32 \<Rightarrow> p256_point \<Rightarrow> string \<Rightarrow> string list \<Rightarrow> verify_err + webauthn" where
  "Verify X a challenge key rpID origins =
    (case json_client_data X (as_client_data_json a) of
       None \<Rightarrow> Inl BadClientDataJSON
     | Some cdj \<Rightarrow>
       if cd_type cdj \<noteq> ''webauthn.get'' then Inl BadClientDataType
       else if cd_challenge cdj \<noteq> b64_encode (word32_bytes challenge) then Inl ChallengeMismatch
       else if cd_origin cdj \<notin> set origins then Inl OriginNotAllowed
       else if length (as_authenticator_data a) < 37 then Inl AuthenticatorDataTooShort
       else if take 32 (as_authenticator_data a) \<noteq> word32_bytes (sha256 X (string_bytes rpID))
         then Inl RpIdHashMismatch
       else let flags = as_authenticator_data a ! 32 in
       if \<not> flag_set flags 0 then Inl UserPresenceMissing
       else if \<not> flag_set flags 2 then Inl UserVerificationMissing
       else if flag_set flags 4 \<and> \<not> flag_set flags 3 then Inl BackupFlagsInvalid
       else if \<not> key_on_curve X key then Inl KeyNotOnCurve
       else (case asn1_signature X (as_signature a) of
         None \<Rightarrow> Inl BadSignatureDER
       | Some (r, s, rest) \<Rightarrow>
         if rest \<noteq> [] then Inl SignatureTrailingBytes
         else if \<not> ecdsa_verify X key
                     (signed_digest X (as_authenticator_data a) (as_client_data_json a)) r s
           then Inl SignatureInvalid
         else let s' = low_s X s;
                  typeIndex = str_index type_json (as_client_data_json a);
                  challengeIndex = str_index challenge_json (as_client_data_json a) in
         if typeIndex < 0 \<or> challengeIndex < 0 then Inl TypeOrChallengeMissing
         else (case (fill32 r, fill32 s') of
           (Some rb, Some sb) \<Rightarrow>
             Inr \<lparr> wn_authenticator_data = as_authenticator_data a,
                   wn_client_data_json = as_client_data_json a,
                   wn_challenge_index = challengeIndex,
                   wn_type_index = typeIndex,
                   wn_r = rb, wn_s = sb \<rparr>
         | _ \<Rightarrow> Inl FillBytesPanic)))"

text \<open>The contract's view: \<^verbatim>\<open>Some\<close> is the reason of the refusal.\<close>

definition VerifyOnChain ::
  "crypto \<Rightarrow> webauthn \<Rightarrow> bytes32 \<Rightarrow> p256_point \<Rightarrow> verify_err option" where
  "VerifyOnChain X wa challenge key =
    (let cdj = wn_client_data_json wa;
         want = challenge_json @ b64_encode (word32_bytes challenge) @ ''\"'' in
     if wn_type_index wa < 0 \<or> wn_type_index wa > int (length cdj)
        \<or> \<not> has_prefix type_json (drop (nat (wn_type_index wa)) cdj)
       then Some TypeIndexInvalid
     else if wn_challenge_index wa < 0 \<or> wn_challenge_index wa > int (length cdj)
        \<or> \<not> has_prefix want (drop (nat (wn_challenge_index wa)) cdj)
       then Some ChallengeIndexInvalid
     else if length (wn_authenticator_data wa) < 37 then Some AuthenticatorDataTooShort
     else let flags = wn_authenticator_data wa ! 32 in
     if \<not> flag_set flags 0 then Some UserPresenceMissing
     else if \<not> flag_set flags 2 then Some UserVerificationMissing
     else if \<not> key_on_curve X key then Some KeyNotOnCurve
     else if int (unat (wn_s wa)) > curve_order X div 2 then Some HighS
     else if \<not> ecdsa_verify X key (signed_digest X (wn_authenticator_data wa) cdj)
                 (int (unat (wn_r wa))) (int (unat (wn_s wa)))
       then Some SignatureInvalid
     else None)"

section \<open>The envelope and its confirmation\<close>

datatype confirmation_state =
  ConfirmationSent | ConfirmationApplied | ConfirmationRejected | ConfirmationFailed

definition ConfirmationStateOf ::
  "onchain_status option \<Rightarrow> int option \<Rightarrow> confirmation_state \<times> int option" where
  "ConfirmationStateOf status reason =
    (case status of
       None \<Rightarrow> (ConfirmationSent, None)
     | Some OnchainCommitted \<Rightarrow> (ConfirmationApplied, None)
     | Some OnchainFailed \<Rightarrow>
         (if reason \<noteq> None then (ConfirmationRejected, reason) else (ConfirmationFailed, None))
     | Some _ \<Rightarrow> (ConfirmationSent, None))"

definition NewEnvelopeWebAuthn :: "webauthn \<Rightarrow> envelope_webauthn" where
  "NewEnvelopeWebAuthn wa =
     \<lparr> ew_authenticator_data = ''0x'' @ hex_encode (wn_authenticator_data wa),
       ew_client_data_json = wn_client_data_json wa,
       ew_challenge_index = wn_challenge_index wa,
       ew_type_index = wn_type_index wa,
       ew_r = ''0x'' @ hex_encode (word32_bytes (wn_r wa)),
       ew_s = ''0x'' @ hex_encode (word32_bytes (wn_s wa)) \<rparr>"

record assertion_request =
  ar_credential_id :: string
  ar_authenticator_data :: string
  ar_client_data_json :: string
  ar_signature :: string

definition bytes_string :: "bytes \<Rightarrow> string" where
  "bytes_string bs = map (\<lambda>b. char_of (unat b)) bs"

definition AssertionRequest_Decode :: "assertion_request \<Rightarrow> assertion option" where
  "AssertionRequest_Decode r =
    (case b64_decode (ar_credential_id r) of None \<Rightarrow> None | Some credID \<Rightarrow>
     case b64_decode (ar_authenticator_data r) of None \<Rightarrow> None | Some authData \<Rightarrow>
     case b64_decode (ar_client_data_json r) of None \<Rightarrow> None | Some cdj \<Rightarrow>
     case b64_decode (ar_signature r) of None \<Rightarrow> None | Some sig \<Rightarrow>
       Some \<lparr> as_credential = credID, as_authenticator_data = authData,
              as_client_data_json = bytes_string cdj, as_signature = sig \<rparr>)"

section \<open>What a challenge commits to\<close>

lemma length_uuid_word [simp]: "length (uuid_word u) = 32"
  by (simp add: uuid_word_def)

lemma length_uint64_word [simp]: "length (uint64_word n) = 32"
  by (simp add: uint64_word_def)

lemma length_uint8_word [simp]: "length (uint8_word t) = 32"
  by (simp add: uint8_word_def)

lemma uuid_word_inject [simp]: "(uuid_word u = uuid_word v) = (u = v)"
  by (simp add: uuid_word_def)

lemma uint8_word_inject [simp]: "(uint8_word t = uint8_word t') = (t = t')"
  by (simp add: uint8_word_def)

lemma uint64_word_inject [simp]: "(uint64_word m = uint64_word n) = (m = n)"
proof -
  have "unat m < 256 ^ 8" "unat n < 256 ^ 8"
    using unsigned_less [where ?'a = nat, of m] unsigned_less [where ?'a = nat, of n] by simp_all
  then show ?thesis
    by (simp add: uint64_word_def be_bytes_eq_iff word_unat_eq_iff)
qed

lemma append_eq_fixed:
  "length xs = length ys \<Longrightarrow> (xs @ us = ys @ vs) = (xs = ys \<and> us = vs)"
  by (rule append_eq_append_conv) simp

lemma challenge_preimage_inject:
  "challenge_preimage X a t i d = challenge_preimage X a' t' i' d' \<longleftrightarrow>
   a = a' \<and> t = t' \<and> i = i' \<and> d = d'"
  unfolding challenge_preimage_def by (simp add: append_eq_fixed)

lemma concat_map_fixed_inject:
  assumes len: "\<And>x. length (f x) = n" and n: "0 < n" and inj: "\<And>x y. f x = f y \<longleftrightarrow> x = y"
  shows "concat (map f xs) = concat (map f ys) \<longleftrightarrow> xs = ys"
proof (induction xs arbitrary: ys)
  case Nil
  show ?case
    using len n by (cases ys) (auto dest: arg_cong [where f = length])
next
  case (Cons x xs)
  show ?case
  proof (cases ys)
    case Nil
    then show ?thesis
      using len [of x] n by (auto dest: arg_cong [where f = length])
  next
    case (Cons y ys')
    then show ?thesis
      using Cons.IH [of ys'] by (simp add: append_eq_fixed len inj)
  qed
qed

lemma items_preimage_inject:
  "items_preimage X xs = items_preimage X ys \<longleftrightarrow> map (ItemID X) xs = map (ItemID X) ys"
proof -
  have "concat (map word32_bytes us) = concat (map word32_bytes vs) \<longleftrightarrow> us = vs" for us vs
    by (rule concat_map_fixed_inject [where n = 32]) simp_all
  from this [of "map (ItemID X) xs" "map (ItemID X) ys"] show ?thesis
    by (simp add: items_preimage_def comp_def)
qed

section \<open>Sorting\<close>

lemma mset_SortByItemID [simp]: "mset (SortByItemID X ids) = mset ids"
  by (simp add: SortByItemID_def)

lemma set_SortByItemID [simp]: "set (SortByItemID X ids) = set ids"
  by (simp add: SortByItemID_def)

lemma length_SortByItemID [simp]: "length (SortByItemID X ids) = length ids"
  by (simp add: SortByItemID_def)

lemma distinct_SortByItemID [simp]: "distinct (SortByItemID X ids) = distinct ids"
  by (simp add: SortByItemID_def)

lemma sorted_SortByItemID: "sorted (map (ItemID X) (SortByItemID X ids))"
  by (simp add: SortByItemID_def)

text \<open>Sorting is canonical as soon as the identifiers of the items differ.\<close>

lemma SortByItemID_canonical:
  assumes "set xs = set ys" "distinct xs" "distinct ys" "inj_on (ItemID X) (set xs)"
  shows "SortByItemID X xs = SortByItemID X ys"
proof -
  have m: "mset xs = mset ys"
    using assms by (metis mset_set_set)
  have "map (ItemID X) (SortByItemID X zs) = sort (map (ItemID X) zs)" for zs
    by (rule sym, rule properties_for_sort) (simp_all add: sorted_SortByItemID)
  moreover have "sort (map (ItemID X) xs) = sort (map (ItemID X) ys)"
    by (rule properties_for_sort) (simp_all add: m)
  ultimately have "map (ItemID X) (SortByItemID X xs) = map (ItemID X) (SortByItemID X ys)"
    by metis
  then show ?thesis
    by (rule map_inj_on) (use assms in simp)
qed

lemma SortByItemID_idem [simp]: "SortByItemID X (SortByItemID X ids) = SortByItemID X ids"
  unfolding SortByItemID_def by (rule sort_key_id_if_sorted) simp

text \<open>The in-place compaction never reads a cell it has overwritten.\<close>

definition dedup_inv :: "uuid list \<Rightarrow> nat \<Rightarrow> uuid list \<times> nat \<Rightarrow> bool" where
  "dedup_inv s i st \<longleftrightarrow>
     length (fst st) = length s \<and> snd st \<le> i \<and> take (snd st) (fst st) = remdups_adj (take i s)
     \<and> drop (i - 1) (fst st) = drop (i - 1) s"

lemma remdups_adj_snoc:
  "remdups_adj (xs @ [x]) =
     (if xs \<noteq> [] \<and> last xs = x then remdups_adj xs else remdups_adj xs @ [x])"
  by (induction xs rule: remdups_adj.induct) auto

lemma dedup_inv_step:
  assumes inv: "dedup_inv s i st" and i: "i < length s"
  shows "dedup_inv s (Suc i) (dedup_step st i)"
proof -
  obtain a n where st: "st = (a, n)" by (cases st)
  have len: "length a = length s" and n: "n \<le> i" and pre: "take n a = remdups_adj (take i s)"
    and suf: "drop (i - 1) a = drop (i - 1) s"
    using inv by (auto simp: dedup_inv_def st)
  have nth: "a ! j = s ! j" if "i - 1 \<le> j" "j < length s" for j
    using arg_cong [OF suf, of "\<lambda>xs. xs ! (j - (i - 1))"] that len by simp
  have last: "i > 0 \<Longrightarrow> last (take i s) = s ! (i - 1)"
    using i take_Suc_conv_app_nth [of "i - 1" s] by simp
  have take: "take (Suc i) s = take i s @ [s ! i]"
    using i by (simp add: take_Suc_conv_app_nth)
  show ?thesis
  proof (cases "i > 0 \<and> s ! i = s ! (i - 1)")
    case True
    then have "dedup_step st i = (a, n)"
      using nth [of i] nth [of "i - 1"] i by (simp add: st dedup_step_def)
    moreover have "drop i a = drop i s"
      using arg_cong [OF suf, of "drop 1"] True by simp
    ultimately show ?thesis
      using True last take len n pre i by (auto simp: dedup_inv_def remdups_adj_snoc)
  next
    case False
    then have step: "dedup_step st i = (a[n := s ! i], Suc n)"
      using nth [of i] nth [of "i - 1"] i by (auto simp: st dedup_step_def)
    have "drop i (a[n := s ! i]) = drop i s"
      using nth n i len by (intro nth_equalityI) (auto simp: nth_list_update)
    moreover have "take (Suc n) (a[n := s ! i]) = take n a @ [s ! i]"
      using n i len by (simp add: take_Suc_conv_app_nth)
    ultimately show ?thesis
      using False last take len n pre i by (auto simp: dedup_inv_def step remdups_adj_snoc)
  qed
qed

lemma dedup_inv_foldl:
  "i \<le> length s \<Longrightarrow> dedup_inv s i (foldl dedup_step (s, 0) [0..<i])"
proof (induction i)
  case (Suc i)
  then show ?case
    using dedup_inv_step [of s i "foldl dedup_step (s, 0) [0..<i]"] by simp
qed (simp add: dedup_inv_def)

lemma sortedUniqueOrderIDs_eq: "sortedUniqueOrderIDs ids = remdups_adj (sort ids)"
  using dedup_inv_foldl [of "length ids" "sort ids"]
  by (auto simp: sortedUniqueOrderIDs_def dedup_inv_def split: prod.splits)

lemma set_sortedUniqueOrderIDs [simp]: "set (sortedUniqueOrderIDs ids) = set ids"
  by (simp add: sortedUniqueOrderIDs_eq)

lemma distinct_remdups_adj_sorted: "sorted xs \<Longrightarrow> distinct (remdups_adj xs)"
  by (induction xs rule: remdups_adj.induct) auto

lemma sorted_distinct_sortedUniqueOrderIDs:
  "sorted (sortedUniqueOrderIDs ids)" "distinct (sortedUniqueOrderIDs ids)"
  by (simp_all add: sortedUniqueOrderIDs_eq sorted_remdups_adj distinct_remdups_adj_sorted)

section \<open>Base64url\<close>

lemma unat_byte_bound: "unat (a :: byte) < 256"
  using unsigned_less [where ?'a = nat, of a] by simp

lemma b64_sextets_bound: "v \<in> set (b64_sextets bs) \<Longrightarrow> v < 64"
proof (induction bs rule: b64_sextets.induct)
  case (2 a)
  then show ?case using unat_byte_bound [of a] by auto
next
  case (3 a b)
  then show ?case using unat_byte_bound [of a] unat_byte_bound [of b] by auto
next
  case (4 a b c rest)
  then show ?case
    using unat_byte_bound [of a] unat_byte_bound [of b] unat_byte_bound [of c] by auto
qed simp

lemma b64_char_ok:
  assumes "v < 64"
  shows "b64_value (b64_char v) = Some v" "b64_char v \<noteq> CHR 0x0A" "b64_char v \<noteq> CHR 0x0D"
proof -
  have "\<forall>v\<in>set [0..<64]. b64_value (b64_char v) = Some v
          \<and> b64_char v \<noteq> CHR 0x0A \<and> b64_char v \<noteq> CHR 0x0D"
    by code_simp
  then show "b64_value (b64_char v) = Some v" "b64_char v \<noteq> CHR 0x0A" "b64_char v \<noteq> CHR 0x0D"
    using assms by (simp_all del: upt_Suc)
qed

lemma byte_recombine: "word_of_nat (unat (a :: byte) div k * k + unat a mod k) = a"
  by (simp add: unat_of_nat)

lemma b64_decode_sextets: "b64_decode_values (b64_sextets bs) = Some bs"
proof (induction bs rule: b64_sextets.induct)
  case (2 a)
  show ?case by (simp add: byte_recombine)
next
  case (3 a b)
  have b: "unat b div 16 < 16" using unat_byte_bound [of b] by simp
  show ?case
    using b byte_recombine [of a 4] byte_recombine [of b 16] by simp
next
  case (4 a b c rest)
  have b: "unat b div 16 < 16" "unat c div 64 < 4"
    using unat_byte_bound [of b] unat_byte_bound [of c] by simp_all
  show ?case
    using b 4 byte_recombine [of a 4] byte_recombine [of b 16] byte_recombine [of c 64] by simp
qed simp

lemma all_some_values:
  "(\<And>v. v \<in> set vs \<Longrightarrow> v < 64) \<Longrightarrow> all_some (map b64_value (map b64_char vs)) = Some vs"
  by (induction vs) (auto simp: b64_char_ok)

lemma b64_decode_encode: "b64_decode (b64_encode bs) = Some bs"
proof -
  have "filter (\<lambda>c. c \<noteq> CHR 0x0A \<and> c \<noteq> CHR 0x0D) (b64_encode bs) = b64_encode bs"
    by (auto simp: b64_encode_def filter_id_conv b64_char_ok dest: b64_sextets_bound)
  then show ?thesis
    using all_some_values [of "b64_sextets bs"] b64_sextets_bound [of _ bs]
    by (simp add: b64_decode_def b64_decode_sextets b64_encode_def del: map_map)
qed

lemma b64_encode_value:
  assumes "c \<in> set (b64_encode bs)" shows "b64_value c \<noteq> None"
proof -
  obtain v where "v \<in> set (b64_sextets bs)" "c = b64_char v" using assms by (auto simp: b64_encode_def)
  then show ?thesis using b64_char_ok(1) [OF b64_sextets_bound] by simp
qed

lemma b64_encode_inject: "b64_encode xs = b64_encode ys \<longleftrightarrow> xs = ys"
  by (metis b64_decode_encode option.inject)

lemma unat_of_char: "unat (of_char c :: byte) = of_char c"
proof -
  have "(of_char c :: byte) = word_of_nat (of_char c)"
    by (simp add: of_nat_of_char)
  then show ?thesis
    by (simp add: unat_of_nat)
qed

lemma bytes_string_bytes: "bytes_string (string_bytes s) = s"
  by (induction s) (simp_all add: bytes_string_def string_bytes_def unat_of_char)

section \<open>Order lists\<close>

lemma orderedListPreimage_inject:
  assumes "length es = length es'"
    and "length (sortedUniqueOrderIDs os) < 2 ^ 64" "length (sortedUniqueOrderIDs os') < 2 ^ 64"
  shows "orderedListPreimage s es os u t = orderedListPreimage s' es' os' u' t' \<longleftrightarrow>
         s = s' \<and> es = es' \<and> sortedUniqueOrderIDs os = sortedUniqueOrderIDs os' \<and> u = u' \<and> t = t'"
proof -
  have c: "concat (map uuid_word us) = concat (map uuid_word vs) \<longleftrightarrow> us = vs" for us vs
    by (rule concat_map_fixed_inject [where n = 32]) simp_all
  have l: "length (concat (map uuid_word es)) = length (concat (map uuid_word es'))"
    using assms(1) by (simp add: length_concat comp_def sum_list_triv)
  show ?thesis
    unfolding orderedListPreimage_def Let_def
    using assms by (auto simp: append_eq_fixed l c append_eq_append_conv)
qed

section \<open>From the service's check to the contract's check\<close>

text \<open>
  What the code relies on of ECDSA over P-256: an accepted signature has both
  numbers in range, and negating \<open>s\<close> gives another signature of the same digest.
\<close>

definition ecdsa_laws :: "crypto \<Rightarrow> bool" where
  "ecdsa_laws X \<longleftrightarrow>
     0 < curve_order X \<and> curve_order X < 2 ^ 256 \<and>
     (\<forall>k d r s. ecdsa_verify X k d r s \<longrightarrow>
        0 < r \<and> r < curve_order X \<and> 0 < s \<and> s < curve_order X
        \<and> ecdsa_verify X k d r (curve_order X - s))"

text \<open>The serialisation of the client data that browsers produce, up to the challenge.\<close>

definition canonical_client_data :: "bytes32 \<Rightarrow> string \<Rightarrow> string" where
  "canonical_client_data challenge rest =
     ''{'' @ type_json @ '','' @ challenge_json @ b64_encode (word32_bytes challenge) @ ''\"'' @ rest"

lemma has_prefix_append [simp]: "has_prefix p (p @ s)"
  by (simp add: has_prefix_def)

lemma str_index_bounds:
  "0 \<le> str_index p s \<Longrightarrow>
   str_index p s \<le> int (length s) \<and> has_prefix p (drop (nat (str_index p s)) s)"
proof (induction s)
  case Nil
  then show ?case by (simp add: str_index.simps split: if_splits)
next
  case (Cons c cs)
  then show ?case
    by (subst (asm) str_index.simps, subst str_index.simps, subst (2) str_index.simps)
       (auto simp: Let_def nat_add_distrib split: if_splits)
qed

lemma type_index_canonical: "str_index type_json (canonical_client_data ch rest) = 1"
  by (simp add: canonical_client_data_def str_index.simps has_prefix_def type_json_def)

lemma challenge_index_canonical: "str_index challenge_json (canonical_client_data ch rest) = 23"
  by (simp add: canonical_client_data_def str_index.simps has_prefix_def type_json_def
      challenge_json_def)

lemma Verify_ok:
  assumes "Verify X a ch key rpID origins = Inr wa"
  obtains cdj r s where
    "json_client_data X (as_client_data_json a) = Some cdj"
    "cd_type cdj = ''webauthn.get''" "cd_challenge cdj = b64_encode (word32_bytes ch)"
    "cd_origin cdj \<in> set origins"
    "37 \<le> length (as_authenticator_data a)"
    "take 32 (as_authenticator_data a) = word32_bytes (sha256 X (string_bytes rpID))"
    "bit (as_authenticator_data a ! 32) 0" "bit (as_authenticator_data a ! 32) 2"
    "key_on_curve X key"
    "asn1_signature X (as_signature a) = Some (r, s, [])"
    "ecdsa_verify X key (signed_digest X (as_authenticator_data a) (as_client_data_json a)) r s"
    "0 \<le> str_index type_json (as_client_data_json a)"
    "0 \<le> str_index challenge_json (as_client_data_json a)"
    "wn_authenticator_data wa = as_authenticator_data a"
    "wn_client_data_json wa = as_client_data_json a"
    "wn_challenge_index wa = str_index challenge_json (as_client_data_json a)"
    "wn_type_index wa = str_index type_json (as_client_data_json a)"
    "fill32 r = Some (wn_r wa)" "fill32 (low_s X s) = Some (wn_s wa)"
  using assms unfolding Verify_def
  by (auto simp: Let_def flag_set_def not_less split: if_splits option.splits prod.splits)

lemma fill32_of_range:
  "fill32 v = Some w \<Longrightarrow> 0 \<le> v \<Longrightarrow> v < 2 ^ 256 \<Longrightarrow> int (unat w) = v"
  by (auto simp: fill32_def uint_word_of_int split: if_splits)

lemma low_s_range:
  assumes "ecdsa_laws X" "ecdsa_verify X key d r s"
  shows "0 \<le> low_s X s" "low_s X s \<le> curve_order X div 2" "low_s X s < 2 ^ 256"
    "ecdsa_verify X key d r (low_s X s)"
  using assms unfolding ecdsa_laws_def low_s_def by (auto split: if_splits) (smt (verit))+

lemma challenge_prefix_canonical:
  "has_prefix (challenge_json @ b64_encode (word32_bytes ch) @ ''\"'')
     (drop 23 (canonical_client_data ch rest))"
  by (simp add: canonical_client_data_def has_prefix_def type_json_def challenge_json_def)

text \<open>What the contract looks for at the index of the challenge.\<close>

definition challenge_at_index :: "assertion \<Rightarrow> bytes32 \<Rightarrow> bool" where
  "challenge_at_index a challenge \<longleftrightarrow>
     has_prefix (challenge_json @ b64_encode (word32_bytes challenge) @ ''\"'')
       (drop (nat (str_index challenge_json (as_client_data_json a))) (as_client_data_json a))"

lemma VerifyOnChain_verified:
  assumes laws: "ecdsa_laws X" and ok: "Verify X a challenge key rpID origins = Inr wa"
  shows "VerifyOnChain X wa challenge key = (if challenge_at_index a challenge then None else Some ChallengeIndexInvalid)"
  using ok
proof (rule Verify_ok)
  fix cdj r s
  assume v: "ecdsa_verify X key (signed_digest X (as_authenticator_data a) (as_client_data_json a)) r s"
    and wa: "wn_authenticator_data wa = as_authenticator_data a"
      "wn_client_data_json wa = as_client_data_json a"
      "wn_challenge_index wa = str_index challenge_json (as_client_data_json a)"
      "wn_type_index wa = str_index type_json (as_client_data_json a)"
    and ix: "0 \<le> str_index type_json (as_client_data_json a)" "0 \<le> str_index challenge_json (as_client_data_json a)"
    and fill: "fill32 r = Some (wn_r wa)" "fill32 (low_s X s) = Some (wn_s wa)"
    and flags: "37 \<le> length (as_authenticator_data a)" "bit (as_authenticator_data a ! 32) 0"
      "bit (as_authenticator_data a ! 32) 2" "key_on_curve X key"
  have "0 < r" "r < 2 ^ 256"
    using laws v unfolding ecdsa_laws_def by (auto, smt (verit))
  then have r: "int (unat (wn_r wa)) = r"
    using fill(1) by (intro fill32_of_range) auto
  have s: "int (unat (wn_s wa)) = low_s X s"
    using low_s_range [OF laws v] fill(2) by (intro fill32_of_range) auto
  show ?thesis
    unfolding VerifyOnChain_def Let_def wa r s challenge_at_index_def
    using low_s_range [OF laws v] str_index_bounds [OF ix(1)] str_index_bounds [OF ix(2)] ix flags
    by (simp add: flag_set_def not_less)
qed

lemma canonical_at_index:
  "as_client_data_json a = canonical_client_data challenge rest \<Longrightarrow> challenge_at_index a challenge"
  by (simp add: challenge_at_index_def challenge_index_canonical challenge_prefix_canonical)

lemma verified_tuple:
  assumes "ecdsa_laws X" "Verify X a challenge key rpID origins = Inr wa"
    "as_client_data_json a = canonical_client_data challenge rest"
  shows "VerifyOnChain X wa challenge key = None"
  using VerifyOnChain_verified [OF assms(1,2)] canonical_at_index [OF assms(3)] by simp

lemma verified_indices:
  assumes "Verify X a challenge key rpID origins = Inr wa" "as_client_data_json a = canonical_client_data challenge rest"
  shows "wn_challenge_index wa = 23" "wn_type_index wa = 1"
  using assms(1) by (rule Verify_ok, simp add: assms(2) type_index_canonical challenge_index_canonical)+

text \<open>C5: an assertion that the service accepts passes every check the contract makes of the tuple the
  service stores, with one exception: the index of the challenge. The type stands at its index, the flag
  checks and the key check are implied, and the stored signature is the low-s one and still verifies. The
  contract refuses only when the text at the first member name \<^verbatim>\<open>"challenge":"\<close> of the client data is not the
  signed challenge, which the service, reading the parsed document, does not check; in the form that browsers
  produce it is.\<close>

theorem Verify_implies_VerifyOnChain:
  assumes laws: "ecdsa_laws X"
    and ok: "Verify X a challenge key rpID origins = Inr wa"
  shows "VerifyOnChain X wa challenge key = (if challenge_at_index a challenge then None else Some ChallengeIndexInvalid)
    \<and> ((\<exists>rest. as_client_data_json a = canonical_client_data challenge rest) \<longrightarrow> VerifyOnChain X wa challenge key = None)"
  using VerifyOnChain_verified [OF assms] canonical_at_index [of a challenge] by auto

text \<open>
  A concrete \<open>crypto\<close> for the witnesses: hashes that read the head of their
  input, one accepted signature and a decoder that reads the challenge off the
  canonical form.
\<close>

definition demo_crypto :: crypto where
  "demo_crypto = \<lparr> keccak = (\<lambda>bs. case bs of [] \<Rightarrow> 0 | b # _ \<Rightarrow> of_nat (unat b)),
     sha256 = (\<lambda>bs. 0), uuid_string = (\<lambda>u. [char_of (unat u mod 256)]),
     on_curve = (\<lambda>x y. True), curve_order = 7,
     ecdsa_verify = (\<lambda>k d r s. r = 3 \<and> (s = 2 \<or> s = 5)),
     asn1_signature = (\<lambda>bs. case bs of [r, s] \<Rightarrow> Some (int (unat r), int (unat s), []) | _ \<Rightarrow> None),
     json_client_data = (\<lambda>s. Some \<lparr> cd_type = ''webauthn.get'',
        cd_challenge = take (length s - 38) (drop 36 s), cd_origin = ''https://wms'' \<rparr>),
     json_envelope = ed_action_id, json_key_envelope = kd_action_id \<rparr>"

definition demo_assertion :: assertion where
  "demo_assertion = \<lparr> as_credential = [1],
     as_authenticator_data = replicate 32 0 @ [5, 0, 0, 0, 0],
     as_client_data_json = canonical_client_data 9 '','',
     as_signature = [3, 5] \<rparr>"

definition demo_key :: p256_point where
  "demo_key = \<lparr> px = 1, py = 2 \<rparr>"

definition demo_webauthn :: webauthn where
  "demo_webauthn = \<lparr> wn_authenticator_data = replicate 32 0 @ [5, 0, 0, 0, 0],
     wn_client_data_json = canonical_client_data 9 '','',
     wn_challenge_index = 23, wn_type_index = 1, wn_r = 3, wn_s = 2 \<rparr>"

lemma demo_laws: "ecdsa_laws demo_crypto"
  by (auto simp: ecdsa_laws_def demo_crypto_def)

lemma demo_challenge:
  "take (length (canonical_client_data ch '','') - 38) (drop 36 (canonical_client_data ch '',''))
     = b64_encode (word32_bytes ch)"
  by (simp add: canonical_client_data_def type_json_def challenge_json_def)

lemma word32_bytes_zero: "word32_bytes 0 = replicate 32 0"
proof -
  have "be_bytes n 0 = replicate n 0" for n
    by (induction n) (simp_all flip: replicate_append_same)
  then show ?thesis
    by (simp add: word32_bytes_def)
qed

lemma demo_Verify:
  "Verify demo_crypto demo_assertion 9 demo_key ''wms'' [''https://wms''] = Inr demo_webauthn"
  using demo_challenge [of 9]
  by (simp add: Verify_def demo_crypto_def demo_assertion_def demo_webauthn_def Let_def nth_append
      type_index_canonical challenge_index_canonical fill32_def low_s_def key_on_curve_def
      flag_set_def word32_bytes_zero)

text \<open>Client data that names two challenges; the decoder of Go keeps the last one.\<close>

definition two_challenges :: assertion where
  "two_challenges = demo_assertion\<lparr>as_client_data_json := ''{'' @ challenge_json @ ''\",'' @ type_json @ '','' @
     challenge_json @ b64_encode (word32_bytes 9) @ ''\"}''\<rparr>"

definition last_wins :: crypto where
  "last_wins = demo_crypto\<lparr>json_client_data := (\<lambda>_. Some \<lparr> cd_type = ''webauthn.get'',
     cd_challenge = b64_encode (word32_bytes 9), cd_origin = ''https://wms'' \<rparr>)\<rparr>"

lemma two_challenges_index:
  "str_index challenge_json (as_client_data_json two_challenges) = 1"
  "str_index type_json (as_client_data_json two_challenges) = 16"
  by (simp_all add: two_challenges_def str_index.simps has_prefix_def type_json_def challenge_json_def)

lemma two_challenges_Verify: "\<exists>wa. Verify last_wins two_challenges 9 demo_key ''wms'' [''https://wms''] = Inr wa"
  using two_challenges_index
  by (simp add: Verify_def last_wins_def demo_crypto_def two_challenges_def demo_assertion_def Let_def nth_append
      fill32_def low_s_def key_on_curve_def flag_set_def word32_bytes_zero)

theorem Verify_implies_VerifyOnChain_witness:
  "Verify demo_crypto demo_assertion 9 demo_key ''wms'' [''https://wms''] = Inr demo_webauthn
   \<and> VerifyOnChain demo_crypto demo_webauthn 9 demo_key = None
   \<and> (\<exists>wa. Verify last_wins two_challenges 9 demo_key ''wms'' [''https://wms''] = Inr wa
        \<and> VerifyOnChain last_wins wa 9 demo_key = Some ChallengeIndexInvalid)"
proof -
  have laws: "ecdsa_laws last_wins" using demo_laws by (simp add: ecdsa_laws_def last_wins_def)
  obtain wa where wa: "Verify last_wins two_challenges 9 demo_key ''wms'' [''https://wms''] = Inr wa"
    using two_challenges_Verify by blast
  obtain c cs where c: "b64_encode (word32_bytes 9) = c # cs" "c \<noteq> CHR 0x22"
  proof (cases "b64_encode (word32_bytes 9)")
    case Nil
    then have "word32_bytes 9 = []" using b64_decode_encode [of "word32_bytes 9"] by (simp add: b64_decode_def)
    then have "length (word32_bytes 9) = 0" by simp
    then show ?thesis unfolding length_word32_bytes by simp
  next
    case (Cons c cs)
    moreover have "b64_value (CHR 0x22) = None" by code_simp
    moreover have "b64_value c \<noteq> None" by (rule b64_encode_value [of _ "word32_bytes 9"]) (simp add: Cons)
    ultimately show ?thesis using that by metis
  qed
  have "\<not> challenge_at_index two_challenges 9"
    unfolding challenge_at_index_def two_challenges_index
    using c(2) by (auto simp: two_challenges_def c(1) has_prefix_def challenge_json_def type_json_def)
  then show ?thesis
    using Verify_implies_VerifyOnChain [OF demo_laws demo_Verify] Verify_implies_VerifyOnChain [OF laws wa] wa demo_Verify
    by (auto simp: demo_assertion_def)
qed

text \<open>The in-place compaction behind the order lists of Pick and Ship, which shrinks a slice over
  the array it is reading, returns exactly the orders of the input, each once, in ascending byte
  order; so the details hash does not depend on the order or the multiplicity in which the caller
  collected the orders.\<close>

theorem sortedUniqueOrderIDs_spec:
  "set (sortedUniqueOrderIDs ids) = set ids \<and> distinct (sortedUniqueOrderIDs ids)
   \<and> sorted (sortedUniqueOrderIDs ids)
   \<and> (set ids = set ids' \<longrightarrow>
      ShipDetailsHash X salt disp bin ids op t = ShipDetailsHash X salt disp bin ids' op t)"
proof -
  have "sortedUniqueOrderIDs ids = sortedUniqueOrderIDs ids'" if "set ids = set ids'"
    by (rule sorted_distinct_set_unique) (simp_all add: sorted_distinct_sortedUniqueOrderIDs that)
  then show ?thesis
    by (simp add: sorted_distinct_sortedUniqueOrderIDs ShipDetailsHash_def
        orderedListDetailsHash_def orderedListPreimage_def)
qed

theorem sortedUniqueOrderIDs_spec_witness:
  "sortedUniqueOrderIDs [7, 3, 7] = [3, 7] \<and>
   ShipDetailsHash demo_crypto 1 2 3 [7, 3, 7] 4 5 = ShipDetailsHash demo_crypto 1 2 3 [3, 7] 4 5"
  using sortedUniqueOrderIDs_spec [of "[7, 3, 7]" "[3, 7]" demo_crypto 1 2 3 4 5]
  by (auto simp: sortedUniqueOrderIDs_eq)

text \<open>C32: the details a shipping operator signs determine the dispatch, the buffer bin, the operator,
  the time, the salt and the set of orders: equal details hashes of two shipments mean equal
  details, or the two byte strings that were hashed are different and collide.\<close>

theorem ShipDetailsHash_binding:
  assumes eq: "ShipDetailsHash X s disp bin os u t = ShipDetailsHash X s' disp' bin' os' u' t'"
    and small: "length os < 2 ^ 64" "length os' < 2 ^ 64"
  shows "(s, disp, bin, u, t) = (s', disp', bin', u', t') \<and> set os = set os' \<or>
         (orderedListPreimage s [disp, bin] os u t \<noteq> orderedListPreimage s' [disp', bin'] os' u' t' \<and>
          keccak X (orderedListPreimage s [disp, bin] os u t)
            = keccak X (orderedListPreimage s' [disp', bin'] os' u' t'))"
proof -
  have len: "length (sortedUniqueOrderIDs ids) \<le> length ids" for ids
    using remdups_adj_length [of "sort ids"] by (simp add: sortedUniqueOrderIDs_eq)
  have "length (sortedUniqueOrderIDs os) < 2 ^ 64" "length (sortedUniqueOrderIDs os') < 2 ^ 64"
    using len [of os] len [of os'] small by linarith+
  from orderedListPreimage_inject [OF _ this, of "[disp, bin]" "[disp', bin']" s u t s' u' t'] eq
  show ?thesis
    unfolding ShipDetailsHash_def orderedListDetailsHash_def
    by (metis (no_types, lifting) list.inject length_Cons list.size(3) set_sortedUniqueOrderIDs)
qed

theorem ShipDetailsHash_binding_witness:
  "ShipDetailsHash demo_crypto 1 2 3 [7] 4 5 = ShipDetailsHash demo_crypto 1 2 3 [7, 7] 4 5
   \<and> ((1 :: bytes32, 2 :: uuid, 3 :: uuid, 4 :: uuid, 5 :: 64 word) = (1, 2, 3, 4, 5)
     \<and> set [7 :: uuid] = set [7, 7]
    \<or> (orderedListPreimage 1 [2, 3] [7] 4 5 \<noteq> orderedListPreimage 1 [2, 3] [7, 7] 4 5 \<and>
       keccak demo_crypto (orderedListPreimage 1 [2, 3] [7] 4 5)
         = keccak demo_crypto (orderedListPreimage 1 [2, 3] [7, 7] 4 5)))"
proof -
  have eq: "ShipDetailsHash demo_crypto 1 2 3 [7] 4 5 = ShipDetailsHash demo_crypto 1 2 3 [7, 7] 4 5"
    by (simp add: ShipDetailsHash_def orderedListDetailsHash_def orderedListPreimage_def
        sortedUniqueOrderIDs_eq)
  then show ?thesis
    using ShipDetailsHash_binding [OF eq] by simp
qed

text \<open>the four base64url fields of a submit request decode to the bytes the browser encoded,
  whatever the bytes are.\<close>

theorem AssertionRequest_roundtrip:
  "AssertionRequest_Decode
     \<lparr> ar_credential_id = b64_encode (as_credential a),
       ar_authenticator_data = b64_encode (as_authenticator_data a),
       ar_client_data_json = b64_encode (string_bytes (as_client_data_json a)),
       ar_signature = b64_encode (as_signature a) \<rparr> = Some a"
  by (simp add: AssertionRequest_Decode_def b64_decode_encode bytes_string_bytes)

end
