(* ===== verification/SignedOps.thy ===== *)
theory SignedOps
  imports SignedAction
begin

text \<open>
  \<^verbatim>\<open>wms/internal/signedops\<close>: an operation is a draft of parts, each part is signed
  on its own (\<^verbatim>\<open>operation.go\<close>), and the parts are stored, locked and written to the
  outbox together (\<^verbatim>\<open>repository.go\<close>). The four services that submit signed actions
  share these definitions and the locale \<open>lock_once\<close> below.

  A part index is a natural number; the column is a \<^verbatim>\<open>smallint\<close>, so the model is
  exact for operations of fewer than \<open>2 ^ 15\<close> parts.
\<close>

section \<open>Operations\<close>

definition MaxItemsPerAction :: nat where
  "MaxItemsPerAction = 2000"

record part =
  pt_action :: uuid
  pt_items :: "uuid list"
  pt_salt :: bytes32
  pt_details_hash :: bytes32
  pt_challenge :: bytes32

record operation =
  op_id :: uuid
  op_type :: byte
  op_created_by :: uuid
  op_signer :: bytes
  op_signer_key_id :: bytes32
  op_details :: action_details
  op_parts :: "part list"
  op_submitted :: bool

datatype sops_err =
    ErrOperationNotFound | ErrOperationSubmitted | ErrOperationNotSubmitted
  | ErrSignerNotActive | ErrInvalidAssertion | ErrInvalidRequest
  | PayloadCountMismatch | OpsConstraintViolation

text \<open>The \<open>k\<close>-th part of a call takes the identifier after the operation's own and the \<open>k\<close>-th salt.\<close>

definition newPart ::
  "crypto \<Rightarrow> call_env \<Rightarrow> nat \<Rightarrow> byte \<Rightarrow> uuid list \<Rightarrow> (bytes32 \<Rightarrow> uuid list \<Rightarrow> bytes32) \<Rightarrow> part" where
  "newPart X E k actionType items detailsHash =
    (let actionID = fresh E (Suc k);
         salt = random E k;
         details = detailsHash salt items
     in \<lparr> pt_action = actionID, pt_items = items, pt_salt = salt, pt_details_hash = details,
          pt_challenge = Challenge X actionID actionType (ItemsHash X items) details \<rparr>)"

function new_parts ::
  "crypto \<Rightarrow> call_env \<Rightarrow> byte \<Rightarrow> (bytes32 \<Rightarrow> uuid list \<Rightarrow> bytes32) \<Rightarrow> uuid list \<Rightarrow> nat \<Rightarrow> nat \<Rightarrow> part list" where
  "new_parts X E actionType detailsHash ids start k =
    (if start < length ids then
       let stop = min (start + MaxItemsPerAction) (length ids) in
       newPart X E k actionType (take (stop - start) (drop start ids)) detailsHash
       # new_parts X E actionType detailsHash ids (start + MaxItemsPerAction) (Suc k)
     else [])"
  by pat_completeness auto
termination
  by (relation "measure (\<lambda>(X, E, t, h, ids, start, k). length ids - start)")
     (auto simp: MaxItemsPerAction_def)

declare new_parts.simps [simp del]

definition NewOperation ::
  "crypto \<Rightarrow> call_env \<Rightarrow> byte \<Rightarrow> uuid \<Rightarrow> passkey \<Rightarrow> action_details \<Rightarrow> uuid list
   \<Rightarrow> (bytes32 \<Rightarrow> uuid list \<Rightarrow> bytes32) \<Rightarrow> operation" where
  "NewOperation X E actionType createdBy signer details items detailsHash =
     \<lparr> op_id = fresh E 0, op_type = actionType, op_created_by = createdBy,
       op_signer = pk_credential signer, op_signer_key_id = pk_key_id signer,
       op_details = details,
       op_parts = new_parts X E actionType detailsHash (SortByItemID X items) 0 0,
       op_submitted = False \<rparr>"

definition envelope_of ::
  "crypto \<Rightarrow> operation \<Rightarrow> passkey \<Rightarrow> part \<Rightarrow> webauthn \<Rightarrow> envelope_doc" where
  "envelope_of X op signer p wa =
     \<lparr> ed_version = 1, ed_action_id = uuid_string X (pt_action p), ed_action_type = op_type op,
       ed_item_ids = map (uuid_string X) (pt_items p),
       ed_details_hash = Hex32 (pt_details_hash p),
       ed_key_id = Hex32 (pk_key_id signer), ed_webauthn = NewEnvelopeWebAuthn wa \<rparr>"

text \<open>
  The body of the loop of \<^verbatim>\<open>Envelopes\<close> for one part. The Go map of assertions is
  represented by an association list: its value at a key is \<open>map_of\<close>, its \<^verbatim>\<open>len\<close>
  the number of distinct keys.
\<close>

definition envelope_part ::
  "crypto \<Rightarrow> operation \<Rightarrow> passkey \<Rightarrow> (uuid \<times> assertion) list \<Rightarrow> string \<Rightarrow> string list \<Rightarrow> part
   \<Rightarrow> sops_err + string" where
  "envelope_part X op signer assertions rpID origins p =
    (case map_of assertions (pt_action p) of
       None \<Rightarrow> Inl ErrInvalidAssertion
     | Some a \<Rightarrow>
       if as_credential a \<noteq> pk_credential signer then Inl ErrInvalidAssertion
       else (case Verify X a (pt_challenge p) (pk_key signer) rpID origins of
           Inl _ \<Rightarrow> Inl ErrInvalidAssertion
         | Inr wa \<Rightarrow> Inr (json_envelope X (envelope_of X op signer p wa))))"

primrec envelope_parts ::
  "(part \<Rightarrow> sops_err + string) \<Rightarrow> part list \<Rightarrow> sops_err + string list" where
  "envelope_parts f [] = Inr []"
| "envelope_parts f (p # ps) =
    (case f p of Inl e \<Rightarrow> Inl e
     | Inr raw \<Rightarrow> (case envelope_parts f ps of Inl e \<Rightarrow> Inl e | Inr out \<Rightarrow> Inr (raw # out)))"

definition Envelopes ::
  "crypto \<Rightarrow> operation \<Rightarrow> passkey \<Rightarrow> (uuid \<times> assertion) list \<Rightarrow> string \<Rightarrow> string list
   \<Rightarrow> sops_err + string list" where
  "Envelopes X op signer assertions rpID origins =
    (if length (remdups (map fst assertions)) \<noteq> length (op_parts op) then Inl ErrInvalidAssertion
     else envelope_parts (envelope_part X op signer assertions rpID origins) (op_parts op))"

section \<open>The operation store\<close>

definition action_row :: "operation \<Rightarrow> nat \<times> part \<Rightarrow> warehouse_action" where
  "action_row op = (\<lambda>(i, p).
     \<lparr> wa_id = pt_action p, wa_operation = op_id op, wa_part = i, wa_type = op_type op,
       wa_signer = op_signer op, wa_created_by = op_created_by op, wa_items = pt_items p,
       wa_salt = pt_salt p, wa_details_hash = pt_details_hash p, wa_challenge = pt_challenge p,
       wa_details = op_details op, wa_submitted = None \<rparr>)"

text \<open>Two unique keys: the action id, and the part index within its operation.\<close>

definition insert_action :: "warehouse_action \<Rightarrow> (wms_db, sops_err, unit) tx" where
  "insert_action r = (\<lambda>s.
     if (\<exists>q\<in>set (warehouse_actions s). wa_operation q = wa_operation r \<and> wa_part q = wa_part r)
     then (Inl OpsConstraintViolation, s)
     else sql_insert warehouse_actions warehouse_actions_update wa_id OpsConstraintViolation r s)"

definition InsertOperation :: "operation \<Rightarrow> (wms_db, sops_err, unit) tx" where
  "InsertOperation op =
     WithTx (tx_each (\<lambda>ip. insert_action (action_row op ip)) (enumerate 0 (op_parts op)))"

definition part_of_row :: "warehouse_action \<Rightarrow> part" where
  "part_of_row r = \<lparr> pt_action = wa_id r, pt_items = wa_items r, pt_salt = wa_salt r,
     pt_details_hash = wa_details_hash r, pt_challenge = wa_challenge r \<rparr>"

definition scan_row :: "operation \<Rightarrow> warehouse_action \<Rightarrow> operation" where
  "scan_row op r = op
     \<lparr> op_signer := wa_signer r, op_created_by := wa_created_by r, op_type := wa_type r,
       op_details := wa_details r, op_submitted := (wa_submitted r \<noteq> None \<or> op_submitted op),
       op_parts := op_parts op @ [part_of_row r] \<rparr>"

definition empty_operation :: "uuid \<Rightarrow> operation" where
  "empty_operation operationID =
     \<lparr> op_id = operationID, op_type = 0, op_created_by = 0, op_signer = [], op_signer_key_id = 0,
       op_details = ReceiveDetails 0 0, op_parts = [], op_submitted = False \<rparr>"

definition scanOperation :: "warehouse_action list \<Rightarrow> uuid \<Rightarrow> operation option" where
  "scanOperation rows operationID =
    (let op = foldl scan_row (empty_operation operationID) rows in
     if op_parts op = [] then None else Some op)"

definition operation_rows :: "(warehouse_action \<Rightarrow> bool) \<Rightarrow> wms_db \<Rightarrow> warehouse_action list" where
  "operation_rows P s = sort_key wa_part (filter P (warehouse_actions s))"

definition load_operation :: "uuid \<Rightarrow> (wms_db, sops_err, operation option) tx" where
  "load_operation operationID = tx_get (\<lambda>s.
     scanOperation (operation_rows (\<lambda>r. wa_operation r = operationID) s) operationID)"

definition LockOperation :: "uuid \<Rightarrow> uuid \<Rightarrow> (wms_db, sops_err, operation) tx" where
  "LockOperation operationID createdBy = tx_query (\<lambda>s.
     case scanOperation
            (operation_rows (\<lambda>r. wa_operation r = operationID \<and> wa_created_by r = createdBy) s)
            operationID of
       None \<Rightarrow> Inl ErrOperationNotFound
     | Some op \<Rightarrow> if op_submitted op then Inl ErrOperationSubmitted else Inr op)"

definition onchain_row :: "wms_db \<Rightarrow> uuid \<Rightarrow> onchain_event option" where
  "onchain_row s eventID = List.find (\<lambda>ev. oe_event ev = eventID) (onchain_events s)"

definition revoke_in_flight :: "bytes \<Rightarrow> wms_db \<Rightarrow> bool" where
  "revoke_in_flight credentialID s \<longleftrightarrow>
     (\<exists>ka\<in>set (key_actions s). ka_target ka = credentialID \<and> ka_type ka = 6
        \<and> ka_submitted ka \<noteq> None
        \<and> map_option oe_status (onchain_row s (ka_id ka)) \<noteq> Some OnchainFailed)"

definition LockSigner :: "bytes \<Rightarrow> (wms_db, sops_err, unit) tx" where
  "LockSigner credentialID = tx_query (\<lambda>s.
     case List.find (\<lambda>p. pk_credential p = credentialID) (passkey_credentials s) of
       None \<Rightarrow> Inl ErrSignerNotActive
     | Some p \<Rightarrow>
         if pk_status p \<noteq> PasskeyStatusActive then Inl ErrSignerNotActive
         else if revoke_in_flight credentialID s then Inl ErrSignerNotActive
         else Inr ())"

definition outbox_row :: "part \<Rightarrow> string \<Rightarrow> outbox_event" where
  "outbox_row p payload =
     \<lparr> ob_event = pt_action p, ob_aggregate = pt_action p, ob_aggregate_type = ''signed_action'',
       ob_event_type = ''wms.action.v1'', ob_hash = hex_encode (word32_bytes (pt_challenge p)),
       ob_payload = payload \<rparr>"

definition WriteActions ::
  "timestamp \<Rightarrow> operation \<Rightarrow> string list \<Rightarrow> (wms_db, sops_err, unit) tx" where
  "WriteActions now op payloads =
     tx_seq (tx_check (length payloads = length (op_parts op)) PayloadCountMismatch)
    (tx_seq (tx_each (\<lambda>(p, payload).
               sql_insert outbox_events outbox_events_update ob_event OpsConstraintViolation
                 (outbox_row p payload)) (zip (op_parts op) payloads))
    (tx_bind (sql_exec warehouse_actions warehouse_actions_update
               (\<lambda>r. wa_operation r = op_id op) (\<lambda>r. r\<lparr> wa_submitted := Some now \<rparr>))
    (\<lambda>_. tx_return ())))"

record part_status =
  ps_action :: uuid
  ps_state :: confirmation_state
  ps_reject :: "int option"

definition OperationStatus :: "uuid \<Rightarrow> uuid \<Rightarrow> (wms_db, sops_err, part_status list) tx" where
  "OperationStatus operationID userID = tx_query (\<lambda>s.
    let rows = operation_rows (\<lambda>r. wa_operation r = operationID \<and> wa_created_by r = userID) s;
        out = map (\<lambda>r. let oe = onchain_row s (wa_id r);
                            (state, reason) = ConfirmationStateOf (map_option oe_status oe)
                                                (Option.bind oe oe_reject)
                        in \<lparr> ps_action = wa_id r, ps_state = state, ps_reject = reason \<rparr>) rows
    in if out = [] then Inl ErrOperationNotFound
       else if (\<exists>r\<in>set rows. wa_submitted r = None) then Inl ErrOperationNotSubmitted
       else Inr out)"

section \<open>Splitting into parts\<close>

lemma MaxItems_pos [simp]: "0 < MaxItemsPerAction"
  by (simp add: MaxItemsPerAction_def)

lemma new_parts_unfold:
  "new_parts X E t h ids start k =
     (if start < length ids
      then newPart X E k t (take MaxItemsPerAction (drop start ids)) h
           # new_parts X E t h ids (start + MaxItemsPerAction) (Suc k)
      else [])"
  by (subst new_parts.simps) (auto simp: Let_def min_def)

lemma new_parts_items:
  "concat (map pt_items (new_parts X E t h ids start k)) = drop start ids"
proof (induction X E t h ids start k rule: new_parts.induct)
  case (1 X E t h ids start k)
  then show ?case
    by (subst new_parts_unfold)
       (simp add: newPart_def Let_def add.commute append_take_drop_id flip: drop_drop)
qed

lemma new_parts_sizes:
  "p \<in> set (new_parts X E t h ids start k) \<Longrightarrow>
   pt_items p \<noteq> [] \<and> length (pt_items p) \<le> MaxItemsPerAction"
proof (induction X E t h ids start k rule: new_parts.induct)
  case (1 X E t h ids start k)
  then show ?case
    using MaxItems_pos
    by (subst (asm) (2) new_parts_unfold)
       (auto simp: newPart_def Let_def simp del: MaxItems_pos split: if_splits)
qed

lemma length_new_parts:
  "length (new_parts X E t h ids start k) * MaxItemsPerAction < length ids - start + MaxItemsPerAction
   \<and> length ids - start \<le> length (new_parts X E t h ids start k) * MaxItemsPerAction"
proof (induction X E t h ids start k rule: new_parts.induct)
  case (1 X E t h ids start k)
  have "new_parts X E t h ids (start + MaxItemsPerAction) (Suc k) = []"
    if "length ids \<le> start + MaxItemsPerAction"
    using that by (simp add: new_parts_unfold)
  with 1 show ?case
    by (cases "length ids \<le> start + MaxItemsPerAction"; subst (1 2) new_parts_unfold) (auto simp: not_less)
qed

lemma new_parts_challenge:
  "p \<in> set (new_parts X E t h ids start k) \<Longrightarrow>
   pt_details_hash p = h (pt_salt p) (pt_items p) \<and>
   pt_challenge p = Challenge X (pt_action p) t (ItemsHash X (pt_items p)) (pt_details_hash p)"
proof (induction X E t h ids start k rule: new_parts.induct)
  case (1 X E t h ids start k)
  then show ?case
    by (subst (asm) (2) new_parts_unfold) (auto simp: newPart_def Let_def split: if_splits)
qed

lemma new_parts_ids:
  "map pt_action (new_parts X E t h ids start k) =
     map (\<lambda>i. fresh E (Suc i)) [k..<k + length (new_parts X E t h ids start k)]"
proof (induction X E t h ids start k rule: new_parts.induct)
  case (1 X E t h ids start k)
  then show ?case
    by (subst (1 2) new_parts_unfold) (simp add: newPart_def Let_def upt_conv_Cons del: upt_Suc)
qed

lemma NewOperation_simps [simp]:
  "op_id (NewOperation X E t u signer details items h) = fresh E 0"
  "op_type (NewOperation X E t u signer details items h) = t"
  "op_created_by (NewOperation X E t u signer details items h) = u"
  "op_signer (NewOperation X E t u signer details items h) = pk_credential signer"
  "op_details (NewOperation X E t u signer details items h) = details"
  "op_submitted (NewOperation X E t u signer details items h) = False"
  "op_parts (NewOperation X E t u signer details items h) = new_parts X E t h (SortByItemID X items) 0 0"
  by (simp_all add: NewOperation_def)

text \<open>Splitting loses, repeats and reorders nothing. The parts of a new operation, read one after
  the other, are the items sorted by item id; no part is empty or exceeds the contract's limit; there
  are no more parts than needed; and every part's challenge commits to exactly its own items and to
  the details hash of its own salt.\<close>

theorem NewOperation_parts:
  "let ps = op_parts (NewOperation X E t u signer details items h) in
     concat (map pt_items ps) = SortByItemID X items
   \<and> list_all (\<lambda>p. pt_items p \<noteq> [] \<and> length (pt_items p) \<le> MaxItemsPerAction) ps
   \<and> length ps = (length items + (MaxItemsPerAction - 1)) div MaxItemsPerAction
   \<and> list_all (\<lambda>p. pt_challenge p =
         Challenge X (pt_action p) t (ItemsHash X (pt_items p)) (h (pt_salt p) (pt_items p))) ps"
proof -
  have "length (new_parts X E t h (SortByItemID X items) 0 0)
        = (length items + (MaxItemsPerAction - 1)) div MaxItemsPerAction"
    using length_new_parts [of X E t h "SortByItemID X items" 0 0]
    by (simp add: MaxItemsPerAction_def) linarith
  then show ?thesis
    by (auto simp: Let_def new_parts_items list_all_iff dest: new_parts_sizes new_parts_challenge)
qed

section \<open>Envelopes\<close>

lemma envelope_parts_ok:
  "envelope_parts f ps = Inr out \<longleftrightarrow> list_all2 (\<lambda>p raw. f p = Inr raw) ps out"
proof (induction ps arbitrary: out)
  case (Cons p ps)
  then show ?case
    by (cases "f p"; cases "envelope_parts f ps") (auto simp: list_all2_Cons1 simp flip: Cons.IH)
qed auto

text \<open>C4: nothing unsigned is ever queued. When \<^verbatim>\<open>Envelopes\<close> succeeds there is exactly one payload per
  part, in part order, and each is the envelope of that part's own id, items and details hash around
  an assertion made by the signer's credential that \<^verbatim>\<open>Verify\<close> accepted for that part's challenge
  under the signer's key.\<close>

theorem Envelopes_verified:
  assumes "Envelopes X op signer assertions rpID origins = Inr payloads"
  shows "list_all2 (\<lambda>p payload. \<exists>a wa.
             map_of assertions (pt_action p) = Some a \<and> as_credential a = pk_credential signer
           \<and> Verify X a (pt_challenge p) (pk_key signer) rpID origins = Inr wa
           \<and> payload = json_envelope X (envelope_of X op signer p wa)) (op_parts op) payloads"
proof -
  have "list_all2 (\<lambda>p raw. envelope_part X op signer assertions rpID origins p = Inr raw)
          (op_parts op) payloads"
    using assms by (simp add: Envelopes_def envelope_parts_ok split: if_splits)
  then show ?thesis
    by (rule list_all2_mono)
       (auto simp: envelope_part_def split: option.splits if_splits sum.splits)
qed

text \<open>A concrete signer, and an operation of one part that signer has signed.\<close>

definition demo_passkey :: passkey where
  "demo_passkey = \<lparr> pk_credential = [1], pk_user = 2, pk_org = 3, pk_key = demo_key, pk_key_id = 4,
     pk_role = UserRoleOperator, pk_status = PasskeyStatusActive, pk_created = 0 \<rparr>"

definition demo_part :: part where
  "demo_part = \<lparr> pt_action = 65, pt_items = [11, 12], pt_salt = 1, pt_details_hash = 2, pt_challenge = 9 \<rparr>"

definition demo_operation :: operation where
  "demo_operation = \<lparr> op_id = 64, op_type = TypeShip, op_created_by = 2, op_signer = [1],
     op_signer_key_id = 4, op_details = ShipDetails 7 8 21, op_parts = [demo_part],
     op_submitted = False \<rparr>"

theorem Envelopes_verified_witness:
  "Envelopes demo_crypto demo_operation demo_passkey [(65, demo_assertion)] ''wms'' [''https://wms'']
     = Inr [uuid_string demo_crypto 65]
   \<and> list_all2 (\<lambda>p payload. \<exists>a wa.
             map_of [(65, demo_assertion)] (pt_action p) = Some a
           \<and> as_credential a = pk_credential demo_passkey
           \<and> Verify demo_crypto a (pt_challenge p) (pk_key demo_passkey) ''wms'' [''https://wms''] = Inr wa
           \<and> payload = json_envelope demo_crypto (envelope_of demo_crypto demo_operation demo_passkey p wa))
       (op_parts demo_operation) [uuid_string demo_crypto 65]"
proof -
  have "as_credential demo_assertion = [1]" by (simp add: demo_assertion_def)
  moreover have "json_envelope demo_crypto = ed_action_id" by (simp add: demo_crypto_def)
  ultimately have "Envelopes demo_crypto demo_operation demo_passkey [(65, demo_assertion)] ''wms'' [''https://wms'']
     = Inr [uuid_string demo_crypto 65]"
    by (simp add: Envelopes_def envelope_part_def demo_operation_def demo_part_def demo_passkey_def
        demo_Verify envelope_of_def)
  then show ?thesis
    using Envelopes_verified by blast
qed

section \<open>Storing and loading an operation\<close>

lemma scan_row_fold:
  "op_parts (foldl scan_row op rows) = op_parts op @ map part_of_row rows"
  "op_submitted (foldl scan_row op rows) = (op_submitted op \<or> (\<exists>r\<in>set rows. wa_submitted r \<noteq> None))"
  "op_id (foldl scan_row op rows) = op_id op"
  "op_signer_key_id (foldl scan_row op rows) = op_signer_key_id op"
  by (induction rows arbitrary: op) (auto simp: scan_row_def)

lemma scanOperation_Some:
  "scanOperation rows oid = Some op \<longleftrightarrow> rows \<noteq> [] \<and> op = foldl scan_row (empty_operation oid) rows"
  by (auto simp: scanOperation_def Let_def scan_row_fold empty_operation_def)

lemma scanOperation_None: "scanOperation rows oid = None \<longleftrightarrow> rows = []"
  by (auto simp: scanOperation_def Let_def scan_row_fold empty_operation_def)

lemma insert_action_ok:
  "insert_action r s = (Inr u, s') \<longleftrightarrow>
     (\<forall>q\<in>set (warehouse_actions s). wa_operation q = wa_operation r \<longrightarrow> wa_part q \<noteq> wa_part r)
     \<and> wa_id r \<notin> wa_id ` set (warehouse_actions s)
     \<and> s' = warehouse_actions_update (\<lambda>t. t @ [r]) s"
  by (auto simp: insert_action_def sql_oks)

lemma scan_draft_rows:
  assumes "rows \<noteq> []"
    and "\<And>r. r \<in> set rows \<Longrightarrow> wa_signer r = sg \<and> wa_created_by r = u \<and> wa_type r = t
           \<and> wa_details r = d \<and> wa_submitted r = None"
  shows "foldl scan_row (empty_operation oid) rows =
     \<lparr> op_id = oid, op_type = t, op_created_by = u, op_signer = sg, op_signer_key_id = 0,
       op_details = d, op_parts = map part_of_row rows, op_submitted = False \<rparr>"
  using assms
proof (induction rows rule: rev_induct)
  case (snoc r rows)
  then show ?case
    by (cases "rows = []") (simp_all add: scan_row_def empty_operation_def)
qed simp

lemma InsertOperation_ok:
  "InsertOperation op s = (Inr (), s') \<Longrightarrow>
   s' = warehouse_actions_update (\<lambda>t. t @ map (action_row op) (enumerate 0 (op_parts op))) s"
proof -
  have "tx_each (\<lambda>ip. insert_action (action_row op ip)) ips s = (Inr (), s') \<Longrightarrow>
        s' = warehouse_actions_update (\<lambda>t. t @ map (action_row op) ips) s" for ips s
  proof (induction ips arbitrary: s)
    case (Cons ip ips)
    then have "tx_each (\<lambda>ip. insert_action (action_row op ip)) ips
                 (warehouse_actions_update (\<lambda>t. t @ [action_row op ip]) s) = (Inr (), s')"
      by (auto simp: tx_seq_ok insert_action_ok)
    then show ?case by (auto simp: comp_def dest!: Cons.IH)
  qed (simp add: tx_return_ok warehouse_actions.upd_id)
  then show "InsertOperation op s = (Inr (), s') \<Longrightarrow> ?thesis"
    by (simp add: InsertOperation_def WithTx_ok)
qed

lemma sort_key_action_rows:
  "sort_key wa_part (map (action_row op) (enumerate n ps)) = map (action_row op) (enumerate n ps)"
proof -
  have "map wa_part (map (action_row op) (enumerate n ps)) = [n..<n + length ps]"
    by (induction ps arbitrary: n) (simp_all add: action_row_def upt_conv_Cons del: upt_Suc)
  then show ?thesis by (intro sort_key_id_if_sorted) (simp del: upt_Suc)
qed

lemma part_of_action_row [simp]: "part_of_row (action_row op ip) = snd ip"
  by (cases ip) (simp add: part_of_row_def action_row_def)

text \<open>A stored draft reads back as it was. An operation with parts that was inserted under a fresh
  operation id is loaded again part for part, unsubmitted; only the signer's key id, which the
  table does not hold, comes back zero.\<close>

theorem InsertOperation_roundtrip:
  assumes "InsertOperation op s = (Inr (), s')" and "op_parts op \<noteq> []" and "\<not> op_submitted op"
    and fresh: "op_id op \<notin> wa_operation ` set (warehouse_actions s)"
  shows "load_operation (op_id op) s' = (Inr (Some (op\<lparr>op_signer_key_id := 0\<rparr>)), s')"
proof -
  let ?rows = "map (action_row op) (enumerate 0 (op_parts op))"
  have none: "filter (\<lambda>r. wa_operation r = op_id op) (warehouse_actions s) = []"
    using fresh by (force simp: filter_empty_conv)
  have all: "filter (\<lambda>r. wa_operation r = op_id op) ?rows = ?rows"
    by (auto simp: filter_id_conv action_row_def)
  have rows: "operation_rows (\<lambda>r. wa_operation r = op_id op) s' = ?rows"
    by (simp add: InsertOperation_ok [OF assms(1)] operation_rows_def none all sort_key_action_rows)
  have "?rows \<noteq> []" using assms(2) by (cases "op_parts op") auto
  moreover have "\<And>r. r \<in> set ?rows \<Longrightarrow> wa_signer r = op_signer op \<and> wa_created_by r = op_created_by op
      \<and> wa_type r = op_type op \<and> wa_details r = op_details op \<and> wa_submitted r = None"
    by (auto simp: action_row_def)
  moreover have "map part_of_row ?rows = op_parts op" by (simp add: comp_def)
  ultimately have "foldl scan_row (empty_operation (op_id op)) ?rows =
     \<lparr> op_id = op_id op, op_type = op_type op, op_created_by = op_created_by op,
       op_signer = op_signer op, op_signer_key_id = 0, op_details = op_details op,
       op_parts = op_parts op, op_submitted = False \<rparr>"
    using scan_draft_rows [of ?rows "op_signer op" "op_created_by op" "op_type op" "op_details op"]
    by simp
  then have "foldl scan_row (empty_operation (op_id op)) ?rows = op\<lparr>op_signer_key_id := 0\<rparr>"
    using assms(3) by (simp only:) simp
  then show ?thesis
    using \<open>?rows \<noteq> []\<close> by (simp add: load_operation_def tx_simps rows scanOperation_Some)
qed

theorem InsertOperation_roundtrip_witness:
  "load_operation 64 (snd (InsertOperation demo_operation empty_db))
     = (Inr (Some (demo_operation\<lparr>op_signer_key_id := 0\<rparr>)), snd (InsertOperation demo_operation empty_db))"
proof -
  have "fst (InsertOperation demo_operation empty_db) = Inr ()"
    by (simp add: InsertOperation_def demo_operation_def insert_action_def empty_db_def tx_simps)
  then show ?thesis
    using InsertOperation_roundtrip [of demo_operation empty_db "snd (InsertOperation demo_operation empty_db)"]
    by (simp add: prod_eq_iff) (simp add: demo_operation_def empty_db_def)
qed

section \<open>Locking and submitting\<close>

text \<open>Warehouse actions only ever gain rows and submission times.\<close>

definition wa_forward :: "wms_db \<Rightarrow> wms_db \<Rightarrow> bool" where
  "wa_forward s s' \<longleftrightarrow> (\<forall>r\<in>set (warehouse_actions s). \<exists>t. r\<lparr>wa_submitted := t\<rparr> \<in> set (warehouse_actions s')
     \<and> (wa_submitted r \<noteq> None \<longrightarrow> t \<noteq> None))"

lemma wa_forward_refl: "wa_forward s s"
  by (auto simp: wa_forward_def intro!: bexI exI [of _ "wa_submitted _"])

lemma wa_forward_trans:
  assumes "wa_forward s t" and "wa_forward t u"
  shows "wa_forward s u"
  unfolding wa_forward_def
proof
  fix r assume "r \<in> set (warehouse_actions s)"
  then obtain x where x: "r\<lparr>wa_submitted := x\<rparr> \<in> set (warehouse_actions t)"
      "wa_submitted r \<noteq> None \<longrightarrow> x \<noteq> None"
    using assms(1) by (auto simp: wa_forward_def)
  then obtain y where "r\<lparr>wa_submitted := y\<rparr> \<in> set (warehouse_actions u)" "x \<noteq> None \<longrightarrow> y \<noteq> None"
    using assms(2) by (fastforce simp: wa_forward_def)
  with x show "\<exists>t. r\<lparr>wa_submitted := t\<rparr> \<in> set (warehouse_actions u)
      \<and> (wa_submitted r \<noteq> None \<longrightarrow> t \<noteq> None)"
    by blast
qed

interpretation waf: tx_preorder wa_forward
  by unfold_locales (auto intro: wa_forward_refl wa_forward_trans)

text \<open>The operation of this caller has been submitted, in one of its parts at least.\<close>

definition submitted_op :: "uuid \<Rightarrow> uuid \<Rightarrow> wms_db \<Rightarrow> bool" where
  "submitted_op oid u s \<longleftrightarrow> (\<exists>r\<in>set (warehouse_actions s).
     wa_operation r = oid \<and> wa_created_by r = u \<and> wa_submitted r \<noteq> None)"

lemma submitted_op_forward: "wa_forward s s' \<Longrightarrow> submitted_op oid u s \<Longrightarrow> submitted_op oid u s'"
proof -
  assume f: "wa_forward s s'" and "submitted_op oid u s"
  then obtain r where r: "r \<in> set (warehouse_actions s)" "wa_operation r = oid" "wa_created_by r = u"
      "wa_submitted r \<noteq> None"
    by (auto simp: submitted_op_def)
  then obtain t where "r\<lparr>wa_submitted := t\<rparr> \<in> set (warehouse_actions s')" "t \<noteq> None"
    using f by (auto simp: wa_forward_def)
  with r show "submitted_op oid u s'"
    unfolding submitted_op_def by (intro bexI [of _ "r\<lparr>wa_submitted := t\<rparr>"]) auto
qed

lemma set_operation_rows [simp]:
  "set (operation_rows P s) = {r \<in> set (warehouse_actions s). P r}"
  by (auto simp: operation_rows_def)

lemma scanOperation_parts:
  "scanOperation rows oid = Some op \<Longrightarrow> op_id op = oid \<and> op_parts op = map part_of_row rows \<and> rows \<noteq> []
   \<and> op_submitted op = (\<exists>r\<in>set rows. wa_submitted r \<noteq> None)"
  by (auto simp: scanOperation_Some scan_row_fold empty_operation_def)

lemma LockOperation_ok:
  "LockOperation oid u s = (Inr op, s') \<longleftrightarrow>
     s' = s \<and> \<not> submitted_op oid u s
     \<and> scanOperation (operation_rows (\<lambda>r. wa_operation r = oid \<and> wa_created_by r = u) s) oid = Some op"
  (is "_ \<longleftrightarrow> _ \<and> _ \<and> scanOperation ?rows oid = _")
proof (cases "scanOperation ?rows oid")
  case (Some a)
  then have "op_submitted a = submitted_op oid u s"
    using scanOperation_parts [OF Some] by (auto simp: submitted_op_def)
  with Some show ?thesis by (auto simp: LockOperation_def tx_query_ok)
qed (simp add: LockOperation_def tx_query_ok)

lemma LockOperation_submitted:
  assumes "submitted_op oid u s"
  shows "LockOperation oid u s = (Inl ErrOperationSubmitted, s)"
proof -
  let ?rows = "operation_rows (\<lambda>r. wa_operation r = oid \<and> wa_created_by r = u) s"
  obtain r where "r \<in> set ?rows" "wa_submitted r \<noteq> None"
    using assms by (auto simp: submitted_op_def)
  moreover from this obtain op where "scanOperation ?rows oid = Some op"
    by (cases "scanOperation ?rows oid") (auto simp: scanOperation_None simp del: set_operation_rows)
  moreover from this have "op_submitted op = (\<exists>r\<in>set ?rows. wa_submitted r \<noteq> None)"
    using scanOperation_parts by blast
  ultimately show ?thesis by (auto simp: LockOperation_def tx_simps)
qed

lemma LockOperation_rows:
  assumes "LockOperation oid u s = (Inr op, s')"
  shows "op_id op = oid"
    and "\<exists>r\<in>set (warehouse_actions s). wa_operation r = oid \<and> wa_created_by r = u"
    and "set (op_parts op) = part_of_row ` {r \<in> set (warehouse_actions s). wa_operation r = oid \<and> wa_created_by r = u}"
    and "op_parts op \<noteq> []"
proof -
  let ?rows = "operation_rows (\<lambda>r. wa_operation r = oid \<and> wa_created_by r = u) s"
  have *: "op_id op = oid \<and> op_parts op = map part_of_row ?rows \<and> ?rows \<noteq> []"
    using assms by (auto simp: LockOperation_ok simp del: set_operation_rows dest!: scanOperation_parts)
  then show "op_id op = oid" "op_parts op \<noteq> []" by auto
  have "set ?rows \<noteq> {}" using * by (simp del: set_operation_rows)
  then show "\<exists>r\<in>set (warehouse_actions s). wa_operation r = oid \<and> wa_created_by r = u" by auto
  show "set (op_parts op) = part_of_row ` {r \<in> set (warehouse_actions s). wa_operation r = oid \<and> wa_created_by r = u}"
    using * by auto
qed

lemma LockSigner_ok:
  "LockSigner c s = (Inr v, s') \<longleftrightarrow> s' = s \<and> \<not> revoke_in_flight c s \<and>
     (\<exists>p. List.find (\<lambda>p. pk_credential p = c) (passkey_credentials s) = Some p
        \<and> pk_status p = PasskeyStatusActive)"
  by (auto simp: LockSigner_def tx_query_ok split: option.splits if_splits)

lemma WriteActions_ok:
  "WriteActions now op payloads s = (Inr v, s') \<longleftrightarrow>
     length payloads = length (op_parts op)
     \<and> distinct (map pt_action (op_parts op))
     \<and> pt_action ` set (op_parts op) \<inter> ob_event ` set (outbox_events s) = {}
     \<and> s' = warehouse_actions_update (sql_update (\<lambda>r. wa_operation r = op_id op) (\<lambda>r. r\<lparr>wa_submitted := Some now\<rparr>))
              (outbox_events_update (\<lambda>t. t @ map2 outbox_row (op_parts op) payloads) s)"
proof -
  have f: "(\<lambda>(p, payload). sql_insert outbox_events outbox_events_update ob_event OpsConstraintViolation
               (outbox_row p payload)) =
    (\<lambda>pp. sql_insert outbox_events outbox_events_update ob_event OpsConstraintViolation
               ((\<lambda>(p, payload). outbox_row p payload) pp))"
    by (auto simp: fun_eq_iff)
  have k: "ob_event \<circ> (\<lambda>(p, payload). outbox_row p payload) = pt_action \<circ> fst"
    by (auto simp: fun_eq_iff outbox_row_def)
  show ?thesis
    by (cases "length payloads = length (op_parts op)")
       (auto simp: WriteActions_def tx_oks f outbox_events.insert_each_ok k sql_oks map_fst_zip
         simp flip: map_map image_image set_map)
qed

section \<open>The contract of a signed submission\<close>

text \<open>
  What a successful submission of an operation leaves: exactly one new outbox row
  per part, in part order, and the operation marked as submitted.
\<close>

definition queued :: "uuid \<Rightarrow> uuid \<Rightarrow> wms_db \<Rightarrow> wms_db \<Rightarrow> bool" where
  "queued oid u s s' \<longleftrightarrow> (\<exists>op payloads now.
     LockOperation oid u s = (Inr op, s) \<and> length payloads = length (op_parts op)
   \<and> outbox_events s' = outbox_events s @ map2 outbox_row (op_parts op) payloads
   \<and> warehouse_actions s' = sql_update (\<lambda>r. wa_operation r = oid) (\<lambda>r. r\<lparr>wa_submitted := Some now\<rparr>)
       (warehouse_actions s))"

lemma queued_submitted:
  assumes "queued oid u s s'"
  shows "submitted_op oid u s'"
proof -
  obtain op now where l: "LockOperation oid u s = (Inr op, s)" and
    w: "warehouse_actions s' = sql_update (\<lambda>r. wa_operation r = oid) (\<lambda>r. r\<lparr>wa_submitted := Some now\<rparr>)
      (warehouse_actions s)"
    using assms by (auto simp: queued_def)
  obtain r where "r \<in> set (warehouse_actions s)" "wa_operation r = oid" "wa_created_by r = u"
    using LockOperation_rows(2) [OF l] by auto
  then show ?thesis
    by (auto simp: submitted_op_def w set_sql_update
        intro!: bexI [of _ "r\<lparr>wa_submitted := Some now\<rparr>"])
qed

lemma wa_forward_mark:
  "warehouse_actions s' = sql_update P (\<lambda>r. r\<lparr>wa_submitted := Some now\<rparr>) (warehouse_actions s) \<Longrightarrow>
   wa_forward s s'"
  unfolding wa_forward_def
proof
  fix r assume s': "warehouse_actions s' = sql_update P (\<lambda>r. r\<lparr>wa_submitted := Some now\<rparr>) (warehouse_actions s)"
    and r: "r \<in> set (warehouse_actions s)"
  then have "(if P r then r\<lparr>wa_submitted := Some now\<rparr> else r) \<in> set (warehouse_actions s')"
    by (auto simp: set_sql_update)
  then have "r\<lparr>wa_submitted := (if P r then Some now else wa_submitted r)\<rparr> \<in> set (warehouse_actions s')"
    by (cases "P r") simp_all
  then show "\<exists>t. r\<lparr>wa_submitted := t\<rparr> \<in> set (warehouse_actions s') \<and> (wa_submitted r \<noteq> None \<longrightarrow> t \<noteq> None)"
    by (rule exI [where x = "if P r then Some now else wa_submitted r", OF conjI]) simp
qed

lemma queued_wa_forward: "queued oid u s s' \<Longrightarrow> wa_forward s s'"
  by (auto simp: queued_def intro: wa_forward_mark)

text \<open>
  Before its transaction a submit asks the key registry, which may refresh the
  stored key statuses and nothing else.
\<close>

definition keys_only :: "wms_db \<Rightarrow> wms_db \<Rightarrow> bool" where
  "keys_only s s' \<longleftrightarrow> (\<exists>ks. s' = s\<lparr>passkey_credentials := ks\<rparr>)"

lemma keys_only_refl [simp]: "keys_only s s"
  by (auto simp: keys_only_def intro: exI [of _ "passkey_credentials s"])

lemma keys_only_trans: "keys_only s t \<Longrightarrow> keys_only t u \<Longrightarrow> keys_only s u"
  by (auto simp: keys_only_def)

interpretation ko: tx_preorder keys_only
  by unfold_locales (auto intro: keys_only_trans)

lemma keys_only_tables:
  assumes "keys_only s s'"
  shows "warehouse_actions s' = warehouse_actions s" "outbox_events s' = outbox_events s"
    "onchain_events s' = onchain_events s" "key_actions s' = key_actions s"
    "products s' = products s" "cargoplaces s' = cargoplaces s" "boxes s' = boxes s"
    "bins s' = bins s" "orders s' = orders s" "order_lines s' = order_lines s"
    "assembly_tasks s' = assembly_tasks s" "outbound_dispatches s' = outbound_dispatches s"
    "shippings s' = shippings s" "putaways s' = putaways s"
    "expected_cargoplace_skus s' = expected_cargoplace_skus s" "skus s' = skus s"
    "destinations s' = destinations s" "receiving_table s' = receiving_table s"
    "receiving_gate s' = receiving_gate s" "inbound_shipments s' = inbound_shipments s"
  using assms by (auto simp: keys_only_def)

lemma keys_only_wa_forward: "keys_only s s' \<Longrightarrow> wa_forward s s'"
  using wa_forward_refl [of s] by (simp add: wa_forward_def keys_only_tables(1))

lemma LockOperation_cong:
  "warehouse_actions s' = warehouse_actions s \<Longrightarrow>
   LockOperation oid u s' = (fst (LockOperation oid u s), s')"
  by (simp add: LockOperation_def operation_rows_def tx_simps)

text \<open>
  The interface the four services share. \<open>submit x u oid\<close> is the service's submit
  operation with its request, its configuration and its environment in \<open>x\<close>; \<open>err\<close> is
  how the service reports an error of this package.
\<close>

locale lock_once =
  fixes submit :: "'x \<Rightarrow> uuid \<Rightarrow> uuid \<Rightarrow> (wms_db, 'e, 'a) tx"
    and err :: "sops_err \<Rightarrow> 'e"
  assumes lands: "submit x u oid s = (Inr a, s') \<Longrightarrow> queued oid u s s'"
    and rolls_back: "submit x u oid s = (Inl e, s') \<Longrightarrow> keys_only s s'"
    and refuses: "submitted_op oid u s \<Longrightarrow>
      submit x u oid s \<in> {(Inl (err ErrOperationNotFound), s), (Inl (err ErrOperationSubmitted), s)}"
begin

lemma submit_forward: "tx_rel wa_forward (submit x u oid)"
  unfolding tx_rel_def
proof
  fix s show "wa_forward s (snd (submit x u oid s))"
  proof (cases "submit x u oid s")
    case (Pair r s')
    then show ?thesis
      by (cases r) (auto dest!: lands rolls_back simp: queued_wa_forward keys_only_wa_forward)
  qed
qed

text \<open>Once submitted, always refused: by the same or any later state of the warehouse.\<close>

lemma submitted_once:
  assumes "submit x u oid s = (Inr a, s')" and "wa_forward s' t"
  shows "submit y u oid t \<in> {(Inl (err ErrOperationNotFound), t), (Inl (err ErrOperationSubmitted), t)}"
  using assms by (intro refuses submitted_op_forward [OF assms(2)] queued_submitted lands)

text \<open>Every part is queued, in order, and nothing else.\<close>

lemma queues_every_part:
  assumes "submit x u oid s = (Inr a, s')"
  shows "\<exists>op. LockOperation oid u s = (Inr op, s)
     \<and> map ob_event (outbox_events s') = map ob_event (outbox_events s) @ map pt_action (op_parts op)
     \<and> map ob_hash (outbox_events s') = map ob_hash (outbox_events s)
         @ map (\<lambda>p. hex_encode (word32_bytes (pt_challenge p))) (op_parts op)"
proof -
  have o: "map (ob_event \<circ> (\<lambda>(p, payload). outbox_row p payload)) (zip ps pl) = map pt_action ps"
    "map (ob_hash \<circ> (\<lambda>(p, payload). outbox_row p payload)) (zip ps pl)
       = map (\<lambda>p. hex_encode (word32_bytes (pt_challenge p))) ps"
    if "length pl = length ps" for ps :: "part list" and pl
    using that by (induction rule: list_induct2) (auto simp: outbox_row_def)
  show ?thesis
    using lands [OF assms] by (auto simp: queued_def o)
qed

end

end
