(* ===== verification/LedgerGate.thy ===== *)
theory LedgerGate
  imports SignedOps
begin

text \<open>
  \<^verbatim>\<open>wms/internal/ledger/chain_status.go\<close>: the two gates that let the chain mirror hold
  back the next step of a product. \<open>CheckChainStatus\<close> refuses a batch that touches
  a failed action of a stage; \<open>UnconfirmedProducts\<close> lists the products whose stage
  is not committed yet. A stage name maps to its signed action type; Go's map gives
  zero, which no action has, for any other name.
\<close>

definition AggregateReceiving :: string where "AggregateReceiving = ''receiving''"
definition AggregatePutaway :: string where "AggregatePutaway = ''putaway''"
definition AggregatePicking :: string where "AggregatePicking = ''picking''"
definition AggregateShipping :: string where "AggregateShipping = ''shipping''"

lemmas aggregates =
  AggregateReceiving_def AggregatePutaway_def AggregatePicking_def AggregateShipping_def

definition actionTypeByAggregate :: "string \<Rightarrow> byte" where
  "actionTypeByAggregate a =
     (if a = AggregateReceiving then 1 else if a = AggregatePutaway then 2
      else if a = AggregatePicking then 3 else if a = AggregateShipping then 4 else 0)"

text \<open>\<^verbatim>\<open>wa.item_ids && ids\<close>, joined to the chain mirror on the action id.\<close>

definition chain_rejected :: "uuid list \<Rightarrow> byte \<Rightarrow> wms_db \<Rightarrow> bool" where
  "chain_rejected ids t s \<longleftrightarrow>
     (\<exists>wa\<in>set (warehouse_actions s). set (wa_items wa) \<inter> set ids \<noteq> {} \<and> wa_type wa = t
        \<and> (\<exists>ev\<in>set (onchain_events s). oe_event ev = wa_id wa \<and> oe_status ev = OnchainFailed))"

definition CheckChainStatus :: "'e \<Rightarrow> uuid list \<Rightarrow> string \<Rightarrow> (wms_db, 'e, unit) tx" where
  "CheckChainStatus ErrChainEventRejected productIDs aggregateType = tx_query (\<lambda>s.
     if productIDs = [] then Inr ()
     else if chain_rejected productIDs (actionTypeByAggregate aggregateType) s
     then Inl ErrChainEventRejected else Inr ())"

definition confirmed_on_chain :: "byte \<Rightarrow> uuid \<Rightarrow> wms_db \<Rightarrow> bool" where
  "confirmed_on_chain t p s \<longleftrightarrow>
     (\<exists>wa\<in>set (warehouse_actions s). p \<in> set (wa_items wa) \<and> wa_type wa = t \<and> wa_submitted wa \<noteq> None
        \<and> map_option oe_status (onchain_row s (wa_id wa)) = Some OnchainCommitted)"

definition UnconfirmedProducts :: "uuid list \<Rightarrow> string \<Rightarrow> wms_db \<Rightarrow> uuid list" where
  "UnconfirmedProducts productIDs aggregate s =
     (if productIDs = [] then []
      else sort (filter (\<lambda>p. \<not> confirmed_on_chain (actionTypeByAggregate aggregate) p s) productIDs))"

section \<open>What the gates decide\<close>

lemma CheckChainStatus_apply [tx_simps]:
  "CheckChainStatus e ids a s =
     (if ids \<noteq> [] \<and> chain_rejected ids (actionTypeByAggregate a) s then Inl e else Inr (), s)"
  by (simp add: CheckChainStatus_def tx_simps)

lemma CheckChainStatus_ok:
  "CheckChainStatus e ids a s = (Inr v, s') \<longleftrightarrow> s' = s \<and> \<not> chain_rejected ids (actionTypeByAggregate a) s"
  by (auto simp: CheckChainStatus_apply chain_rejected_def split: if_splits)

lemma UnconfirmedProducts_Nil:
  "UnconfirmedProducts ids a s = [] \<longleftrightarrow>
     (\<forall>p\<in>set ids. confirmed_on_chain (actionTypeByAggregate a) p s)"
  by (auto simp: UnconfirmedProducts_def filter_empty_conv dest: arg_cong [where f = length])

text \<open>The batch gate is as strict as checking every product on its own: a batch passes exactly
  when each of its products passes, in any order and whatever repetitions it has.\<close>

theorem CheckChainStatus_each:
  "CheckChainStatus e ids a s = (Inr (), s) \<longleftrightarrow>
     list_all (\<lambda>p. CheckChainStatus e [p] a s = (Inr (), s)) ids"
  by (auto simp: CheckChainStatus_ok chain_rejected_def list_all_iff disjoint_iff)

text \<open>A product with no signed action of the stage at all counts as unconfirmed: everything the
  caller asks about is returned when nothing has been written.\<close>

theorem UnconfirmedProducts_unwritten:
  assumes "\<And>wa. wa \<in> set (warehouse_actions s) \<Longrightarrow> wa_type wa \<noteq> actionTypeByAggregate a"
  shows "UnconfirmedProducts ids a s = sort ids"
proof -
  have "\<not> confirmed_on_chain (actionTypeByAggregate a) p s" for p
    using assms by (auto simp: confirmed_on_chain_def)
  then show ?thesis by (simp add: UnconfirmedProducts_def)
qed

theorem UnconfirmedProducts_unwritten_witness:
  "UnconfirmedProducts [7, 3] AggregatePicking empty_db = [3, 7]"
  using UnconfirmedProducts_unwritten [of empty_db AggregatePicking "[7, 3]"]
  by (simp add: empty_db_def)

end
