(* ===== verification/Passkeys.thy ===== *)
theory Passkeys
  imports LedgerGate "HOL-Library.AList"
begin

text \<open>
  \<^verbatim>\<open>wms/internal/passkeys\<close>: operators' WebAuthn keys, their mirror of the on-chain
  key registry, and the signed key actions of an administrator
  (\<^verbatim>\<open>service.go\<close>, \<^verbatim>\<open>actions.go\<close>, \<^verbatim>\<open>status.go\<close>, both repositories).

  The ledger adapter's answer to a batch of key ids is a parameter: \<open>None\<close> when
  no adapter is configured, otherwise a function that fails (\<open>None\<close>) or returns a
  map. The WebAuthn library is a parameter of the registration. A service body is
  a plain \<open>tx\<close>: its statements run outside a transaction and stay when a later
  step fails; the two repository methods that open one use \<open>WithTx\<close>.
\<close>

section \<open>Data\<close>

datatype passkey_err =
    ErrNoOrganization | ErrForbidden | ErrPasskeyExists | ErrInvalidRegistration
  | ErrPasskeyNotFound | ErrSignerKeyNotActive | ErrRegistryUnavailable
  | ErrTargetNotPending | ErrTargetNotActive | ErrActionInProgress
  | ErrActionNotFound | ErrActionAlreadySubmitted
  | ErrKeyInvalidAssertion | ErrKeyInvalidRequest | KeyNoRows | KeyConstraintViolation

record registry_key =
  rk_found :: bool
  rk_org :: string
  rk_role :: string
  rk_active :: bool

type_synonym registry = "(string list \<Rightarrow> (string \<Rightarrow> registry_key option) option) option"

record member =
  mb_user :: uuid
  mb_name :: string
  mb_role :: user_role
  mb_org :: "uuid option"
  mb_org_name :: string

record key_confirmation =
  kc_action :: uuid
  kc_type :: byte
  kc_state :: confirmation_state
  kc_reason :: "int option"

section \<open>The repository\<close>

definition GetMember :: "uuid \<Rightarrow> (wms_db, passkey_err, member) tx" where
  "GetMember userID = tx_query (\<lambda>s.
     case List.find (\<lambda>u. us_id u = userID) (users s) of
       None \<Rightarrow> Inl KeyNoRows
     | Some u \<Rightarrow>
         let org = Option.bind (us_org u) (\<lambda>oid. List.find (\<lambda>g. og_id g = oid) (organizations s)) in
         Inr \<lparr> mb_user = us_id u, mb_name = us_name u, mb_role = us_role u, mb_org = us_org u,
               mb_org_name = (case org of None \<Rightarrow> [] | Some g \<Rightarrow> og_name g) \<rparr>)"

definition ListOrgMembers :: "uuid \<Rightarrow> wms_db \<Rightarrow> member list" where
  "ListOrgMembers orgID s =
     map (\<lambda>u. \<lparr> mb_user = us_id u, mb_name = us_name u, mb_role = us_role u, mb_org = us_org u,
                mb_org_name = [] \<rparr>)
       (sort_key us_name (filter (\<lambda>u. us_org u = Some orgID
          \<and> (us_role u = UserRoleAdmin \<or> us_role u = UserRoleOperator)) (users s)))"

text \<open>\<^verbatim>\<open>ORDER BY created_at DESC LIMIT 1\<close>.\<close>

definition newest_passkey :: "passkey list \<Rightarrow> passkey option" where
  "newest_passkey ps = (case sort_key (\<lambda>p. - pk_created p) ps of [] \<Rightarrow> None | p # _ \<Rightarrow> Some p)"

definition LatestPasskey :: "uuid \<Rightarrow> wms_db \<Rightarrow> passkey option" where
  "LatestPasskey userID s = newest_passkey (filter (\<lambda>p. pk_user p = userID) (passkey_credentials s))"

definition LatestPasskeysByOrg :: "uuid \<Rightarrow> wms_db \<Rightarrow> uuid \<Rightarrow> passkey option" where
  "LatestPasskeysByOrg orgID s userID =
     newest_passkey (filter (\<lambda>p. pk_org p = orgID \<and> pk_user p = userID) (passkey_credentials s))"

definition live :: "passkey \<Rightarrow> bool" where
  "live p \<longleftrightarrow> pk_status p = PasskeyStatusPending \<or> pk_status p = PasskeyStatusActive"

text \<open>Three unique keys: the credential, the key id, and the user among the live keys.\<close>

definition InsertPasskey :: "passkey \<Rightarrow> (wms_db, passkey_err, unit) tx" where
  "InsertPasskey p = (\<lambda>s.
     if (\<exists>q\<in>set (passkey_credentials s). pk_credential q = pk_credential p \<or> pk_key_id q = pk_key_id p
           \<or> pk_user q = pk_user p \<and> live q \<and> live p)
     then (Inl ErrPasskeyExists, s)
     else (Inr (), passkey_credentials_update (\<lambda>t. t @ [p]) s))"

definition UpdatePasskeyStatus :: "bytes \<Rightarrow> passkey_status \<Rightarrow> (wms_db, passkey_err, unit) tx" where
  "UpdatePasskeyStatus credentialID status = tx_modify
     (passkey_credentials_update (sql_update (\<lambda>p. pk_credential p = credentialID) (\<lambda>p. p\<lparr>pk_status := status\<rparr>)))"

definition PasskeyByKeyID :: "bytes32 \<Rightarrow> wms_db \<Rightarrow> passkey option" where
  "PasskeyByKeyID keyID s = List.find (\<lambda>p. pk_key_id p = keyID) (passkey_credentials s)"

definition PasskeyByCredentialID :: "bytes \<Rightarrow> wms_db \<Rightarrow> passkey option" where
  "PasskeyByCredentialID c s = List.find (\<lambda>p. pk_credential p = c) (passkey_credentials s)"

definition InsertKeyAction :: "key_action \<Rightarrow> (wms_db, passkey_err, unit) tx" where
  "InsertKeyAction a = sql_insert key_actions key_actions_update ka_id KeyConstraintViolation a"

definition KeyAction :: "uuid \<Rightarrow> wms_db \<Rightarrow> key_action option" where
  "KeyAction actionID s = List.find (\<lambda>a. ka_id a = actionID) (key_actions s)"

definition key_action_state :: "wms_db \<Rightarrow> key_action \<Rightarrow> confirmation_state \<times> int option" where
  "key_action_state s a =
     (let ev = onchain_row s (ka_id a)
      in ConfirmationStateOf (map_option oe_status ev) (Option.bind ev oe_reject))"

text \<open>The rows of a target with a submission time, the latest one first.\<close>

definition submitted_for :: "(key_action \<Rightarrow> bool) \<Rightarrow> wms_db \<Rightarrow> key_action list" where
  "submitted_for P s =
     sort_key (\<lambda>a. - the (ka_submitted a)) (filter (\<lambda>a. P a \<and> ka_submitted a \<noteq> None) (key_actions s))"

definition LatestConfirmations :: "uuid \<Rightarrow> wms_db \<Rightarrow> bytes \<Rightarrow> key_confirmation option" where
  "LatestConfirmations orgID s c =
     (case submitted_for (\<lambda>a. ka_org a = orgID \<and> ka_target a = c) s of
        [] \<Rightarrow> None
      | a # _ \<Rightarrow> Some \<lparr> kc_action = ka_id a, kc_type = ka_type a, kc_state = fst (key_action_state s a),
                       kc_reason = snd (key_action_state s a) \<rparr>)"

definition keyActionInFlight :: "bytes \<Rightarrow> wms_db \<Rightarrow> (byte \<times> confirmation_state) option" where
  "keyActionInFlight c s =
     (case submitted_for (\<lambda>a. ka_target a = c) s of
        [] \<Rightarrow> None
      | a # _ \<Rightarrow> Some (ka_type a, fst (key_action_state s a)))"

record key_action_submission =
  ks_action :: uuid
  ks_type :: byte
  ks_target :: bytes
  ks_signer :: bytes
  ks_hash :: string
  ks_payload :: string

definition credential_status :: "bytes \<Rightarrow> wms_db \<Rightarrow> passkey_err + passkey_status" where
  "credential_status c s = (case PasskeyByCredentialID c s of None \<Rightarrow> Inl KeyNoRows | Some p \<Rightarrow> Inr (pk_status p))"

definition key_action_blocked :: "byte \<Rightarrow> (byte \<times> confirmation_state) option \<Rightarrow> bool" where
  "key_action_blocked actionType inFlight =
     (case inFlight of None \<Rightarrow> False
      | Some (lastType, state) \<Rightarrow>
          state = ConfirmationSent
          \<or> state = ConfirmationApplied \<and> (actionType = TypeKeyRegister \<or> lastType = TypeKeyRevoke))"

definition SubmitKeyAction_tx :: "timestamp \<Rightarrow> key_action_submission \<Rightarrow> (wms_db, passkey_err, unit) tx" where
  "SubmitKeyAction_tx now k = WithTx (
     tx_bind (tx_query (\<lambda>s. case KeyAction (ks_action k) s of None \<Rightarrow> Inl KeyNoRows
                            | Some a \<Rightarrow> Inr (ka_submitted a)))
       (\<lambda>submittedAt.
     tx_seq (tx_check (submittedAt = None) ErrActionAlreadySubmitted)
    (tx_bind (tx_query (credential_status (ks_target k))) (\<lambda>targetStatus.
     tx_seq (tx_check (targetStatus = (if ks_type k = TypeKeyRevoke then PasskeyStatusActive
                                       else PasskeyStatusPending))
              (if ks_type k = TypeKeyRevoke then ErrTargetNotActive else ErrTargetNotPending))
    (tx_bind (tx_get (keyActionInFlight (ks_target k))) (\<lambda>inFlight.
     tx_seq (tx_check (\<not> key_action_blocked (ks_type k) inFlight) ErrActionInProgress)
    (tx_bind (tx_query (credential_status (ks_signer k))) (\<lambda>signerStatus.
     tx_seq (tx_check (signerStatus = PasskeyStatusActive) ErrSignerKeyNotActive)
    (tx_seq (sql_insert outbox_events outbox_events_update ob_event KeyConstraintViolation
              \<lparr> ob_event = ks_action k, ob_aggregate = ks_action k, ob_aggregate_type = ''signed_action'',
                ob_event_type = ''wms.action.v1'', ob_hash = ks_hash k, ob_payload = ks_payload k \<rparr>)
    (tx_modify (key_actions_update
       (sql_update (\<lambda>a. ka_id a = ks_action k) (\<lambda>a. a\<lparr>ka_submitted := Some now\<rparr>)))))))))))))"

definition RejectPendingPasskey :: "bytes \<Rightarrow> (wms_db, passkey_err, unit) tx" where
  "RejectPendingPasskey c = WithTx (
     tx_bind (tx_query (credential_status c)) (\<lambda>status.
     tx_seq (tx_check (status = PasskeyStatusPending) ErrTargetNotPending)
    (tx_bind (tx_get (keyActionInFlight c)) (\<lambda>inFlight.
     tx_seq (tx_check (case inFlight of None \<Rightarrow> True
               | Some (_, state) \<Rightarrow> \<not> (state = ConfirmationSent \<or> state = ConfirmationApplied))
              ErrActionInProgress)
     (UpdatePasskeyStatus c PasskeyStatusRejected)))))"

section \<open>The mirror of the registry\<close>

text \<open>\<^verbatim>\<open>strings.EqualFold\<close> on the role names, which are ASCII.\<close>

definition role_name :: "user_role \<Rightarrow> string" where
  "role_name r = (case r of UserRoleAdmin \<Rightarrow> ''ADMIN'' | UserRoleOperator \<Rightarrow> ''OPERATOR''
     | UserRoleCustomer \<Rightarrow> ''CUSTOMER'' | UserRoleAuditor \<Rightarrow> ''AUDITOR'')"

definition ascii_upper :: "char \<Rightarrow> char" where
  "ascii_upper c = (if CHR ''a'' \<le> c \<and> c \<le> CHR ''z'' then char_of (of_char c - 32 :: nat) else c)"

definition EqualFold :: "string \<Rightarrow> string \<Rightarrow> bool" where
  "EqualFold s t \<longleftrightarrow> map ascii_upper s = map ascii_upper t"

definition registryKeyMatches :: "crypto \<Rightarrow> registry_key \<Rightarrow> passkey \<Rightarrow> bool" where
  "registryKeyMatches X key p \<longleftrightarrow>
     rk_org key = uuid_string X (pk_org p) \<and> EqualFold (rk_role key) (role_name (pk_role p))"

definition registry_id :: "passkey \<Rightarrow> string" where
  "registry_id p = ''0x'' @ hex_encode (word32_bytes (pk_key_id p))"

text \<open>The status the registry's answer gives a key, \<open>None\<close> when it says nothing of this key.\<close>

definition registry_status :: "crypto \<Rightarrow> (string \<Rightarrow> registry_key option) \<Rightarrow> passkey \<Rightarrow> passkey_status option" where
  "registry_status X statuses p =
     (case statuses (registry_id p) of
        None \<Rightarrow> None
      | Some key \<Rightarrow>
          if \<not> rk_found key \<or> \<not> registryKeyMatches X key p then None
          else Some (if rk_active key then PasskeyStatusActive else PasskeyStatusRevoked))"

text \<open>The keys asked about: the live ones, the last of those with one id.\<close>

primrec by_id :: "passkey list \<Rightarrow> passkey list" where
  "by_id [] = []"
| "by_id (p # ps) =
     (if live p \<and> (\<forall>q\<in>set ps. live q \<longrightarrow> registry_id q \<noteq> registry_id p) then p # by_id ps else by_id ps)"

definition refreshed :: "crypto \<Rightarrow> (string \<Rightarrow> registry_key option) \<Rightarrow> passkey \<Rightarrow> passkey" where
  "refreshed X statuses p =
     (case registry_status X statuses p of None \<Rightarrow> p | Some next \<Rightarrow> p\<lparr>pk_status := next\<rparr>)"

definition store_refreshed :: "crypto \<Rightarrow> (string \<Rightarrow> registry_key option) \<Rightarrow> passkey \<Rightarrow> (wms_db, passkey_err, unit) tx" where
  "store_refreshed X statuses p =
     (let q = refreshed X statuses p in
      if pk_status q = pk_status p then tx_return ()
      else UpdatePasskeyStatus (pk_credential p) (pk_status q))"

definition syncStatuses :: "crypto \<Rightarrow> registry \<Rightarrow> passkey list \<Rightarrow> (wms_db, passkey_err, passkey list) tx" where
  "syncStatuses X chain keys =
     (case chain of None \<Rightarrow> tx_return keys
      | Some ask \<Rightarrow>
          if by_id keys = [] then tx_return keys
          else (case ask (map registry_id (by_id keys)) of
              None \<Rightarrow> tx_return keys
            | Some statuses \<Rightarrow>
                tx_seq (tx_each (store_refreshed X statuses) (by_id keys))
                  (tx_return (map (\<lambda>p. if p \<in> set (by_id keys) then refreshed X statuses p else p) keys))))"

definition confirmActive :: "crypto \<Rightarrow> (string list \<Rightarrow> (string \<Rightarrow> registry_key option) option) \<Rightarrow> passkey
    \<Rightarrow> (wms_db, passkey_err, passkey) tx" where
  "confirmActive X ask p =
     (case ask [registry_id p] of
        None \<Rightarrow> tx_fail ErrRegistryUnavailable
      | Some statuses \<Rightarrow>
          (case registry_status X statuses p of
             None \<Rightarrow> tx_fail ErrSignerKeyNotActive
           | Some next \<Rightarrow>
               tx_seq (if next \<noteq> pk_status p then UpdatePasskeyStatus (pk_credential p) next else tx_return ())
              (tx_seq (tx_check (next = PasskeyStatusActive) ErrSignerKeyNotActive)
                 (tx_return (p\<lparr>pk_status := next\<rparr>)))))"

definition ActiveSigner :: "crypto \<Rightarrow> registry \<Rightarrow> uuid \<Rightarrow> (wms_db, passkey_err, passkey) tx" where
  "ActiveSigner X chain userID =
     tx_bind (tx_get (LatestPasskey userID)) (\<lambda>latest.
     case latest of None \<Rightarrow> tx_fail ErrPasskeyNotFound
     | Some signer \<Rightarrow>
        if \<not> live signer then tx_fail ErrSignerKeyNotActive
        else (case chain of
            None \<Rightarrow> if pk_status signer \<noteq> PasskeyStatusActive then tx_fail ErrSignerKeyNotActive
                    else tx_return signer
          | Some ask \<Rightarrow> confirmActive X ask signer))"

section \<open>The service\<close>

definition authorize :: "user_role list \<Rightarrow> uuid \<Rightarrow> (wms_db, passkey_err, member) tx" where
  "authorize roles userID =
     tx_bind (GetMember userID) (\<lambda>m.
     tx_seq (tx_check (mb_org m \<noteq> None) ErrNoOrganization)
    (tx_seq (tx_check (mb_role m \<in> set roles) ErrForbidden)
     (tx_return m)))"

definition ensureNoLiveKey :: "uuid \<Rightarrow> (wms_db, passkey_err, unit) tx" where
  "ensureNoLiveKey userID = tx_query (\<lambda>s.
     case LatestPasskey userID s of Some p \<Rightarrow> if live p then Inl ErrPasskeyExists else Inr ()
     | None \<Rightarrow> Inr ())"

definition MyPasskey :: "crypto \<Rightarrow> registry \<Rightarrow> uuid \<Rightarrow> (wms_db, passkey_err, passkey option) tx" where
  "MyPasskey X chain userID =
     tx_bind (tx_get (LatestPasskey userID)) (\<lambda>latest.
     case latest of None \<Rightarrow> tx_return None
     | Some p \<Rightarrow> tx_bind (syncStatuses X chain [p]) (\<lambda>ps. tx_return (Some (hd ps))))"

record admin_key_export =
  ax_org :: string
  ax_name :: string
  ax_qx :: string
  ax_qy :: string

definition AdminKeyExport :: "crypto \<Rightarrow> registry \<Rightarrow> uuid \<Rightarrow> (wms_db, passkey_err, admin_key_export) tx" where
  "AdminKeyExport X chain userID =
     tx_bind (authorize [UserRoleAdmin] userID) (\<lambda>m.
     tx_bind (tx_get (LatestPasskey userID)) (\<lambda>latest.
     case latest of None \<Rightarrow> tx_fail ErrPasskeyNotFound
     | Some p0 \<Rightarrow>
       tx_bind (syncStatuses X chain [p0]) (\<lambda>ps.
       let p = hd ps in
       tx_seq (tx_check (live p) ErrPasskeyNotFound)
         (tx_return \<lparr> ax_org = uuid_string X (the (mb_org m)), ax_name = mb_org_name m,
            ax_qx = ''0x'' @ hex_encode (word32_bytes (px (pk_key p))),
            ax_qy = ''0x'' @ hex_encode (word32_bytes (py (pk_key p))) \<rparr>))))"

record org_member =
  om_user :: uuid
  om_name :: string
  om_role :: user_role
  om_passkey :: "passkey option"
  om_confirmation :: "key_confirmation option"

definition Organization :: "crypto \<Rightarrow> registry \<Rightarrow> uuid \<Rightarrow> (wms_db, passkey_err, uuid \<times> string \<times> org_member list) tx" where
  "Organization X chain userID =
     tx_bind (authorize [UserRoleAdmin] userID) (\<lambda>m.
     let orgID = the (mb_org m) in
     tx_bind (tx_get (ListOrgMembers orgID)) (\<lambda>members.
     tx_bind (tx_get (LatestPasskeysByOrg orgID)) (\<lambda>keys.
     tx_bind (tx_get (LatestConfirmations orgID)) (\<lambda>confirmations.
     let liveKeys = List.map_filter (\<lambda>u. keys (mb_user u)) members in
     tx_bind (syncStatuses X chain liveKeys) (\<lambda>synced.
     tx_return (orgID, mb_org_name m,
       map (\<lambda>u. \<lparr> om_user = mb_user u, om_name = mb_name u, om_role = mb_role u,
                  om_passkey = List.find (\<lambda>p. map_option pk_credential (keys (mb_user u)) = Some (pk_credential p)) synced,
                  om_confirmation = Option.bind (keys (mb_user u)) (\<lambda>p. confirmations (pk_credential p)) \<rparr>)
         members))))))"

text \<open>\<^verbatim>\<open>parseKeyID\<close>: \<^verbatim>\<open>0x\<close> and 64 hex digits of either case.\<close>

definition hex_value :: "char \<Rightarrow> nat option" where
  "hex_value c =
     (if CHR ''0'' \<le> c \<and> c \<le> CHR ''9'' then Some (of_char c - 48)
      else if CHR ''a'' \<le> c \<and> c \<le> CHR ''f'' then Some (of_char c - 87)
      else if CHR ''A'' \<le> c \<and> c \<le> CHR ''F'' then Some (of_char c - 55)
      else None)"

fun hex_decode :: "string \<Rightarrow> bytes option" where
  "hex_decode [] = Some []"
| "hex_decode [_] = None"
| "hex_decode (c # d # s) =
     (case (hex_value c, hex_value d, hex_decode s) of
        (Some x, Some y, Some bs) \<Rightarrow> Some (word_of_nat (16 * x + y) # bs)
      | _ \<Rightarrow> None)"

definition bytes_word32 :: "bytes \<Rightarrow> bytes32" where
  "bytes_word32 bs = word_of_nat (foldl (\<lambda>acc b. acc * 256 + unat b) 0 bs)"

definition parseKeyID :: "string \<Rightarrow> bytes32 option" where
  "parseKeyID s =
     (if \<not> has_prefix ''0x'' s then None
      else (case hex_decode (drop 2 s) of None \<Rightarrow> None
            | Some raw \<Rightarrow> if length raw \<noteq> 32 then None else Some (bytes_word32 raw)))"

definition operatorTarget :: "crypto \<Rightarrow> registry \<Rightarrow> uuid \<Rightarrow> string \<Rightarrow> (wms_db, passkey_err, passkey) tx" where
  "operatorTarget X chain orgID targetKeyID =
     (case parseKeyID targetKeyID of None \<Rightarrow> tx_fail ErrKeyInvalidRequest
      | Some keyID \<Rightarrow>
        tx_bind (tx_get (PasskeyByKeyID keyID)) (\<lambda>target.
        case target of None \<Rightarrow> tx_fail ErrPasskeyNotFound
        | Some p \<Rightarrow>
          if pk_org p \<noteq> orgID \<or> pk_role p \<noteq> UserRoleOperator then tx_fail ErrPasskeyNotFound
          else tx_bind (syncStatuses X chain [p]) (\<lambda>ps. tx_return (hd ps))))"

definition requireNoConfirmation :: "uuid \<Rightarrow> passkey \<Rightarrow> confirmation_state list \<Rightarrow> (wms_db, passkey_err, unit) tx" where
  "requireNoConfirmation orgID target blocking = tx_query (\<lambda>s.
     case LatestConfirmations orgID s (pk_credential target) of
       Some c \<Rightarrow> if kc_state c \<in> set blocking then Inl ErrActionInProgress else Inr ()
     | None \<Rightarrow> Inr ())"

definition pendingOperatorTarget :: "crypto \<Rightarrow> registry \<Rightarrow> uuid \<Rightarrow> string \<Rightarrow> (wms_db, passkey_err, passkey) tx" where
  "pendingOperatorTarget X chain orgID targetKeyID =
     tx_bind (operatorTarget X chain orgID targetKeyID) (\<lambda>target.
     tx_seq (tx_check (pk_status target = PasskeyStatusPending) ErrTargetNotPending)
    (tx_seq (requireNoConfirmation orgID target [ConfirmationSent, ConfirmationApplied])
     (tx_return target)))"

definition activeOperatorTarget :: "crypto \<Rightarrow> registry \<Rightarrow> uuid \<Rightarrow> string \<Rightarrow> (wms_db, passkey_err, passkey) tx" where
  "activeOperatorTarget X chain orgID targetKeyID =
     tx_bind (operatorTarget X chain orgID targetKeyID) (\<lambda>target.
     tx_seq (tx_check (pk_status target = PasskeyStatusActive) ErrTargetNotActive)
    (tx_seq (requireNoConfirmation orgID target [ConfirmationSent])
     (tx_return target)))"

record key_action_draft =
  kf_action :: key_action
  kf_subject :: p256_point
  kf_details_hash :: bytes32
  kf_signer_key_id :: bytes32

definition draftKeyAction ::
  "crypto \<Rightarrow> registry \<Rightarrow> call_env \<Rightarrow> uuid \<Rightarrow> byte \<Rightarrow> (uuid \<Rightarrow> (wms_db, passkey_err, passkey) tx)
   \<Rightarrow> (wms_db, passkey_err, key_action_draft) tx" where
  "draftKeyAction X chain E userID actionType target =
     tx_bind (authorize [UserRoleAdmin] userID) (\<lambda>m.
     tx_bind (ActiveSigner X chain userID) (\<lambda>signer.
     tx_bind (target (the (mb_org m))) (\<lambda>subject.
     let actionID = fresh E 0;
         detailsHash = KeyDetailsHash X (pk_key subject);
         action = \<lparr> ka_id = actionID, ka_org = the (mb_org m), ka_type = actionType,
                    ka_target = pk_credential subject, ka_signer = pk_credential signer,
                    ka_challenge = Challenge X actionID actionType (NoItems X) detailsHash,
                    ka_created_by = userID, ka_submitted = None \<rparr>
     in tx_seq (InsertKeyAction action)
          (tx_return \<lparr> kf_action = action, kf_subject = pk_key subject, kf_details_hash = detailsHash,
                       kf_signer_key_id = pk_key_id signer \<rparr>))))"

definition DraftKeyRegister ::
  "crypto \<Rightarrow> registry \<Rightarrow> call_env \<Rightarrow> uuid \<Rightarrow> string \<Rightarrow> (wms_db, passkey_err, key_action_draft) tx" where
  "DraftKeyRegister X chain E userID targetKeyID =
     draftKeyAction X chain E userID TypeKeyRegister
       (\<lambda>orgID. pendingOperatorTarget X chain orgID targetKeyID)"

definition DraftKeyRevoke ::
  "crypto \<Rightarrow> registry \<Rightarrow> call_env \<Rightarrow> uuid \<Rightarrow> string \<Rightarrow> (wms_db, passkey_err, key_action_draft) tx" where
  "DraftKeyRevoke X chain E userID targetKeyID =
     draftKeyAction X chain E userID TypeKeyRevoke
       (\<lambda>orgID. activeOperatorTarget X chain orgID targetKeyID)"

definition RejectKey :: "crypto \<Rightarrow> registry \<Rightarrow> uuid \<Rightarrow> string \<Rightarrow> (wms_db, passkey_err, unit) tx" where
  "RejectKey X chain userID targetKeyID =
     tx_bind (authorize [UserRoleAdmin] userID) (\<lambda>m.
     tx_bind (pendingOperatorTarget X chain (the (mb_org m)) targetKeyID) (\<lambda>target.
     RejectPendingPasskey (pk_credential target)))"

definition keyActionEnvelope :: "crypto \<Rightarrow> key_action \<Rightarrow> passkey \<Rightarrow> bytes32 \<Rightarrow> webauthn \<Rightarrow> key_envelope_doc" where
  "keyActionEnvelope X action target signerKeyID wa =
     \<lparr> kd_version = 1, kd_action_id = uuid_string X (ka_id action), kd_action_type = ka_type action,
       kd_item_ids = [], kd_subject_qx = Hex32 (px (pk_key target)), kd_subject_qy = Hex32 (py (pk_key target)),
       kd_key_id = Hex32 signerKeyID, kd_webauthn = NewEnvelopeWebAuthn wa \<rparr>"

definition SubmitKeyAction ::
  "crypto \<Rightarrow> call_env \<Rightarrow> string \<Rightarrow> string list \<Rightarrow> uuid \<Rightarrow> uuid \<Rightarrow> assertion
   \<Rightarrow> (wms_db, passkey_err, key_confirmation) tx" where
  "SubmitKeyAction X E rpID origins userID actionID a =
     tx_bind (authorize [UserRoleAdmin] userID) (\<lambda>_.
     tx_bind (tx_query (\<lambda>s. case KeyAction actionID s of
         None \<Rightarrow> Inl ErrActionNotFound
       | Some k \<Rightarrow> if ka_created_by k \<noteq> userID then Inl ErrActionNotFound
                   else if ka_submitted k \<noteq> None then Inl ErrActionAlreadySubmitted else Inr k)) (\<lambda>action.
     tx_bind (tx_query (\<lambda>s. case PasskeyByCredentialID (ka_signer action) s of
         None \<Rightarrow> Inl ErrPasskeyNotFound | Some p \<Rightarrow> Inr p)) (\<lambda>signer.
     tx_bind (tx_query (\<lambda>s. case PasskeyByCredentialID (ka_target action) s of
         None \<Rightarrow> Inl ErrPasskeyNotFound | Some p \<Rightarrow> Inr p)) (\<lambda>target.
     tx_seq (tx_check (as_credential a = pk_credential signer) ErrKeyInvalidAssertion)
    (case Verify X a (ka_challenge action) (pk_key signer) rpID origins of
       Inl _ \<Rightarrow> tx_fail ErrKeyInvalidAssertion
     | Inr wa \<Rightarrow>
         tx_seq (SubmitKeyAction_tx (clock E 0)
           \<lparr> ks_action = actionID, ks_type = ka_type action, ks_target = ka_target action,
             ks_signer = ka_signer action, ks_hash = hex_encode (word32_bytes (ka_challenge action)),
             ks_payload = json_key_envelope X (keyActionEnvelope X action target (pk_key_id signer) wa) \<rparr>)
           (tx_return \<lparr> kc_action = actionID, kc_type = ka_type action, kc_state = ConfirmationSent,
                        kc_reason = None \<rparr>))))))"

section \<open>Registration\<close>

text \<open>
  The WebAuthn library is a parameter: it opens a session for a user, and turns a
  session and a response body into a credential with its COSE key. The sessions
  live in the memory of the process, beside the database.
\<close>

datatype cose_key = EC2PublicKeyData (ec_alg: int) (ec_curve: int) (ec_x: bytes) (ec_y: bytes) | OtherPublicKey

record webauthn_credential =
  wc_id :: bytes
  wc_user_verified :: bool
  wc_key :: "cose_key option"

record ('sess, 'body, 'creation) webauthn_lib =
  wl_begin :: "uuid \<Rightarrow> string \<Rightarrow> ('creation \<times> 'sess) option"
  wl_create :: "uuid \<Rightarrow> string \<Rightarrow> 'sess \<Rightarrow> 'body \<Rightarrow> webauthn_credential option"

record 'sess passkey_service =
  sv_sessions :: "(uuid \<times> 'sess \<times> timestamp) list"
  sv_db :: wms_db

definition on_db :: "(wms_db, passkey_err, 'a) tx \<Rightarrow> ('sess passkey_service, passkey_err, 'a) tx" where
  "on_db m = (\<lambda>v. case m (sv_db v) of (r, s') \<Rightarrow> (r, v\<lparr>sv_db := s'\<rparr>))"

definition registrationSessionTTL :: int where
  "registrationSessionTTL = 5 * 60 * 1000000000"

definition p256Coordinates :: "cose_key option \<Rightarrow> p256_point option" where
  "p256Coordinates parsed =
     (case parsed of
        Some (EC2PublicKeyData alg curve x y) \<Rightarrow>
          if alg \<noteq> -7 \<or> curve \<noteq> 1 then None
          else if 32 < length x \<or> 32 < length y then None
          else Some \<lparr> px = bytes_word32 x, py = bytes_word32 y \<rparr>
      | _ \<Rightarrow> None)"

definition BeginRegistration ::
  "('sess, 'body, 'creation) webauthn_lib \<Rightarrow> call_env \<Rightarrow> uuid
   \<Rightarrow> ('sess passkey_service, passkey_err, 'creation) tx" where
  "BeginRegistration W E userID =
     tx_bind (on_db (authorize [UserRoleAdmin, UserRoleOperator] userID)) (\<lambda>m.
     tx_seq (on_db (ensureNoLiveKey userID))
    (case wl_begin W (mb_user m) (mb_name m) of
       None \<Rightarrow> tx_fail ErrInvalidRegistration
     | Some (creation, session) \<Rightarrow>
         tx_seq (tx_modify (sv_sessions_update
             (AList.update userID (session, clock E 0 + registrationSessionTTL))))
           (tx_return creation)))"

definition takeSession :: "timestamp \<Rightarrow> uuid \<Rightarrow> ('sess passkey_service, passkey_err, 'sess) tx" where
  "takeSession now userID = (\<lambda>v.
     case map_of (sv_sessions v) userID of
       None \<Rightarrow> (Inl ErrInvalidRegistration, v)
     | Some (session, expires) \<Rightarrow>
         (if now > expires then Inl ErrInvalidRegistration else Inr session,
          v\<lparr>sv_sessions := AList.delete userID (sv_sessions v)\<rparr>))"

definition FinishRegistration ::
  "crypto \<Rightarrow> ('sess, 'body, 'creation) webauthn_lib \<Rightarrow> call_env \<Rightarrow> uuid \<Rightarrow> 'body
   \<Rightarrow> ('sess passkey_service, passkey_err, passkey) tx" where
  "FinishRegistration X W E userID body =
     tx_bind (on_db (authorize [UserRoleAdmin, UserRoleOperator] userID)) (\<lambda>m.
     tx_seq (on_db (ensureNoLiveKey userID))
    (tx_bind (takeSession (clock E 0) userID) (\<lambda>session.
     case wl_create W (mb_user m) (mb_name m) session body of
       None \<Rightarrow> tx_fail ErrInvalidRegistration
     | Some cred \<Rightarrow>
        if \<not> wc_user_verified cred then tx_fail ErrInvalidRegistration
        else (case p256Coordinates (wc_key cred) of
            None \<Rightarrow> tx_fail ErrInvalidRegistration
          | Some key \<Rightarrow>
              let p = \<lparr> pk_credential = wc_id cred, pk_user = mb_user m, pk_org = the (mb_org m),
                        pk_key = key, pk_key_id = KeyID X key, pk_role = mb_role m,
                        pk_status = PasskeyStatusPending, pk_created = clock E 1 \<rparr>
              in tx_seq (on_db (InsertPasskey p)) (tx_return p)))))"

section \<open>Key ids\<close>

lemma hex_value_digit: "n < 16 \<Longrightarrow> hex_value (hex_digit n) = Some n"
proof -
  have "\<forall>n\<in>set [0..<16]. hex_value (hex_digit n) = Some n"
    by code_simp
  then show "n < 16 \<Longrightarrow> ?thesis" by (simp del: upt_Suc)
qed

lemma hex_decode_encode: "hex_decode (hex_encode bs) = Some bs"
proof (induction bs)
  case (Cons b bs)
  have "unat b div 16 < 16" using unat_byte_bound [of b] by linarith
  moreover have "(word_of_nat (16 * (unat b div 16) + unat b mod 16) :: byte) = b"
    using byte_recombine [of b 16] by (simp add: mult.commute)
  ultimately show ?case
    using Cons by (simp add: hex_encode_def hex_value_digit)
qed (simp add: hex_encode_def)

lemma foldl_be_bytes:
  "x < 256 ^ n \<Longrightarrow> foldl (\<lambda>acc (b :: byte). acc * 256 + unat b) a (be_bytes n x) = a * 256 ^ n + x"
proof (induction n arbitrary: x a)
  case (Suc n)
  have "x div 256 < 256 ^ n" using Suc.prems by (simp add: less_mult_imp_div_less)
  moreover have "unat (word_of_nat (x mod 256) :: byte) = x mod 256" by (simp add: unat_of_nat)
  ultimately show ?case using Suc.IH by (simp add: algebra_simps)
qed simp

text \<open>a key id printed for the API is read back as the same key id.\<close>

theorem parseKeyID_Hex32: "parseKeyID (Hex32 keyID) = Some keyID"
proof -
  have "bytes_word32 (word32_bytes keyID) = keyID"
    using foldl_be_bytes [OF unat_word32_bound, of 0 keyID]
    by (simp add: bytes_word32_def word32_bytes_def)
  then show ?thesis
    by (simp add: parseKeyID_def Hex32_def hex_decode_encode has_prefix_def)
qed

section \<open>The life of a key\<close>

text \<open>
  Credential ids and action ids are primary keys. A key's status only moves
  forward: a pending key may become anything, an active one may be revoked, and
  a rejected or revoked key never changes again.
\<close>

definition pk_wf :: "wms_db \<Rightarrow> bool" where
  "pk_wf s \<longleftrightarrow> distinct (map pk_credential (passkey_credentials s))"

definition pk_step :: "passkey_status \<Rightarrow> passkey_status \<Rightarrow> bool" where
  "pk_step a b \<longleftrightarrow> a = b \<or> a = PasskeyStatusPending \<or> a = PasskeyStatusActive \<and> b = PasskeyStatusRevoked"

definition pk_forward :: "wms_db \<Rightarrow> wms_db \<Rightarrow> bool" where
  "pk_forward s s' \<longleftrightarrow> (pk_wf s \<longrightarrow> pk_wf s' \<and>
     (\<forall>p\<in>set (passkey_credentials s). \<exists>st. p\<lparr>pk_status := st\<rparr> \<in> set (passkey_credentials s')
        \<and> pk_step (pk_status p) st))"

lemma pk_step_trans: "pk_step a b \<Longrightarrow> pk_step b c \<Longrightarrow> pk_step a c"
  by (auto simp: pk_step_def)

lemma pk_forward_same: "passkey_credentials s' = passkey_credentials s \<Longrightarrow> pk_forward s s'"
  unfolding pk_forward_def pk_wf_def pk_step_def
  by (metis passkey.surjective passkey.update_convs(7))

lemma pk_forward_trans:
  assumes "pk_forward s t" and "pk_forward t u"
  shows "pk_forward s u"
  unfolding pk_forward_def
proof (intro impI conjI ballI)
  assume wf: "pk_wf s"
  then have t: "pk_wf t" using assms(1) by (simp add: pk_forward_def)
  then show "pk_wf u" using assms(2) by (simp add: pk_forward_def)
  fix p assume "p \<in> set (passkey_credentials s)"
  then obtain st where st: "p\<lparr>pk_status := st\<rparr> \<in> set (passkey_credentials t)" "pk_step (pk_status p) st"
    using assms(1) wf by (auto simp: pk_forward_def)
  then obtain st' where "p\<lparr>pk_status := st'\<rparr> \<in> set (passkey_credentials u)" "pk_step st st'"
    using assms(2) t by (fastforce simp: pk_forward_def)
  then show "\<exists>st. p\<lparr>pk_status := st\<rparr> \<in> set (passkey_credentials u) \<and> pk_step (pk_status p) st"
    using st(2) pk_step_trans by blast
qed

interpretation pkf: tx_preorder pk_forward
  by unfold_locales (auto intro: pk_forward_same pk_forward_trans)

lemma pk_forward_update:
  assumes "\<And>q. q \<in> set (passkey_credentials s) \<Longrightarrow> pk_credential q = c \<Longrightarrow> pk_step (pk_status q) st"
  shows "pk_forward s (snd (UpdatePasskeyStatus c st s))"
  unfolding pk_forward_def
proof (intro impI conjI ballI)
  assume "pk_wf s"
  then show "pk_wf (snd (UpdatePasskeyStatus c st s))"
    by (simp add: pk_wf_def UpdatePasskeyStatus_def tx_simps)
  fix p assume p: "p \<in> set (passkey_credentials s)"
  let ?q = "if pk_credential p = c then p\<lparr>pk_status := st\<rparr> else p"
  have q: "?q \<in> set (passkey_credentials (snd (UpdatePasskeyStatus c st s)))"
    using p by (auto simp: UpdatePasskeyStatus_def tx_simps set_sql_update)
  show "\<exists>st'. p\<lparr>pk_status := st'\<rparr> \<in> set (passkey_credentials (snd (UpdatePasskeyStatus c st s)))
          \<and> pk_step (pk_status p) st'"
  proof (cases "pk_credential p = c")
    case True
    then show ?thesis using q assms [OF p] by auto
  next
    case False
    then have "p\<lparr>pk_status := pk_status p\<rparr> \<in> set (passkey_credentials (snd (UpdatePasskeyStatus c st s)))"
      using q by simp
    then show ?thesis using pk_step_def by blast
  qed
qed

lemma pk_unique:
  "pk_wf s \<Longrightarrow> p \<in> set (passkey_credentials s) \<Longrightarrow> q \<in> set (passkey_credentials s) \<Longrightarrow>
   pk_credential p = pk_credential q \<Longrightarrow> p = q"
  by (auto simp: pk_wf_def distinct_map inj_on_def)

lemma refreshed_step: "live p \<Longrightarrow> pk_step (pk_status p) (pk_status (refreshed X st p))"
  by (auto simp: refreshed_def registry_status_def pk_step_def live_def split: option.splits if_splits)

lemma by_id_subset: "set (by_id ps) \<subseteq> set ps"
  by (induction ps) auto

lemma by_id_live: "p \<in> set (by_id ps) \<Longrightarrow> live p"
  by (induction ps) (auto split: if_splits)

lemma by_id_distinct: "distinct (by_id ps)"
proof (induction ps)
  case (Cons p ps)
  then show ?case using by_id_subset [of ps] by_id_live [of p ps] by auto
qed simp

lemma store_refreshed_forward:
  assumes "live p" and "pk_wf s \<Longrightarrow> p \<in> set (passkey_credentials s)"
  shows "pk_forward s (snd (store_refreshed X st p s))"
proof (cases "pk_wf s")
  case True
  have p: "p \<in> set (passkey_credentials s)" using assms True by simp
  have "pk_forward s (snd (UpdatePasskeyStatus (pk_credential p) (pk_status (refreshed X st p)) s))"
    using refreshed_step [OF assms(1)] pk_unique [OF True _ p] by (intro pk_forward_update) auto
  then show ?thesis
    by (simp add: store_refreshed_def Let_def tx_simps pk_forward_same)
qed (simp add: pk_forward_def)

text \<open>Refreshing one key leaves the rows of the others in place.\<close>

lemma store_refreshed_other:
  "q \<in> set (passkey_credentials s) \<Longrightarrow> pk_credential q \<noteq> pk_credential p \<Longrightarrow>
   q \<in> set (passkey_credentials (snd (store_refreshed X st p s)))"
  by (auto simp: store_refreshed_def Let_def UpdatePasskeyStatus_def tx_simps set_sql_update)

lemma store_refreshed_ok [simp]: "fst (store_refreshed X st p s) = Inr ()"
  by (auto simp: store_refreshed_def Let_def UpdatePasskeyStatus_def tx_simps)

lemma store_refreshed_each:
  assumes "distinct ps" "\<And>p. p \<in> set ps \<Longrightarrow> live p" "pk_wf s \<Longrightarrow> set ps \<subseteq> set (passkey_credentials s)"
  shows "pk_forward s (snd (tx_each (store_refreshed X st) ps s))"
  using assms
proof (induction ps arbitrary: s)
  case Nil
  then show ?case by (simp add: tx_simps pk_forward_same)
next
  case (Cons p ps)
  let ?t = "snd (store_refreshed X st p s)"
  have st: "pk_forward s ?t" using Cons.prems by (intro store_refreshed_forward) auto
  show ?case
  proof (cases "pk_wf s")
    case True
    have "set ps \<subseteq> set (passkey_credentials ?t)"
    proof
      fix q assume "q \<in> set ps"
      then have "q \<in> set (passkey_credentials s)" "q \<noteq> p" "p \<in> set (passkey_credentials s)"
        using Cons.prems True by auto
      then show "q \<in> set (passkey_credentials ?t)"
        using pk_unique [OF True] store_refreshed_other by blast
    qed
    then have "pk_forward ?t (snd (tx_each (store_refreshed X st) ps ?t))"
      using Cons.prems by (intro Cons.IH) auto
    then show ?thesis using st by (simp add: tx_simps pk_forward_trans)
  qed (simp add: pk_forward_def)
qed

lemma syncStatuses_forward:
  assumes "set keys \<subseteq> set (passkey_credentials s)"
  shows "pk_forward s (snd (syncStatuses X chain keys s))"
proof -
  have "pk_forward s (snd (tx_each (store_refreshed X st) (by_id keys) s))" for st
    using by_id_distinct by_id_live by_id_subset assms by (intro store_refreshed_each) blast+
  then show ?thesis
    by (auto simp: syncStatuses_def tx_simps pk_forward_same split: option.splits sum.splits)
qed

lemma newest_passkey_in: "newest_passkey ps = Some p \<Longrightarrow> p \<in> set ps"
  using set_sort [of "\<lambda>p. - pk_created p" ps]
  by (cases "sort_key (\<lambda>p. - pk_created p) ps") (auto simp: newest_passkey_def)

lemma LatestPasskey_in: "LatestPasskey u s = Some p \<Longrightarrow> p \<in> set (passkey_credentials s) \<and> pk_user p = u"
  by (auto simp: LatestPasskey_def dest!: newest_passkey_in)


lemma sync_bind_forward:
  assumes "set keys \<subseteq> set (passkey_credentials s)" and "\<And>a. tx_rel pk_forward (f a)"
  shows "pk_forward s (snd (tx_bind (syncStatuses X chain keys) f s))"
  using syncStatuses_forward [OF assms(1), of X chain] assms(2)
  by (auto simp: tx_simps tx_rel_def split: sum.splits intro: pk_forward_trans)

lemma same_keys_forward:
  "(\<And>s. passkey_credentials (snd (m s)) = passkey_credentials s) \<Longrightarrow> tx_rel pk_forward m"
  by (simp add: tx_rel_def pk_forward_same)

lemma authorize_forward [tx_rules]: "tx_rel pk_forward (authorize roles u)"
  unfolding authorize_def GetMember_def by (intro tx_rules)

lemma requireNoConfirmation_forward [tx_rules]: "tx_rel pk_forward (requireNoConfirmation o' p b)"
  unfolding requireNoConfirmation_def by (intro tx_rules)

lemma InsertKeyAction_forward [tx_rules]: "tx_rel pk_forward (InsertKeyAction a)"
  by (rule same_keys_forward) (simp add: InsertKeyAction_def tx_simps)

lemma MyPasskey_forward: "tx_rel pk_forward (MyPasskey X chain u)"
  unfolding MyPasskey_def
  by (rule rel_get_at)
     (auto simp: tx_return_apply pk_forward_same split: option.splits
       intro!: sync_bind_forward pkf.rel_return dest!: LatestPasskey_in)

lemma AdminKeyExport_forward: "tx_rel pk_forward (AdminKeyExport X chain u)"
  unfolding AdminKeyExport_def Let_def
  by (rule pkf.rel_bind, rule authorize_forward, rule rel_get_at)
     (auto simp: tx_fail_apply pk_forward_same split: option.splits
       intro!: sync_bind_forward tx_rules dest!: LatestPasskey_in)

lemma Organization_forward: "tx_rel pk_forward (Organization X chain u)"
proof -
  have "LatestPasskeysByOrg org s v = Some p \<Longrightarrow> p \<in> set (passkey_credentials s)" for org s v p
    by (auto simp: LatestPasskeysByOrg_def dest!: newest_passkey_in)
  then have sub: "set (List.map_filter (\<lambda>u. LatestPasskeysByOrg org s (mb_user u)) ms)
      \<subseteq> set (passkey_credentials s)" for org s and ms :: "member list"
    by (auto simp: map_filter_def)
  show ?thesis
    unfolding Organization_def Let_def
    by (rule pkf.rel_bind, rule authorize_forward, rule rel_get_at)
       (auto simp: get_bind_apply intro!: sync_bind_forward pkf.rel_return subsetD [OF sub])
qed

lemma operatorTarget_forward [tx_rules]: "tx_rel pk_forward (operatorTarget X chain org k)"
proof -
  have "tx_rel pk_forward (tx_bind (tx_get (PasskeyByKeyID key)) (\<lambda>target.
      case target of None \<Rightarrow> tx_fail ErrPasskeyNotFound
      | Some p \<Rightarrow> if pk_org p \<noteq> org \<or> pk_role p \<noteq> UserRoleOperator then tx_fail ErrPasskeyNotFound
          else tx_bind (syncStatuses X chain [p]) (\<lambda>ps. tx_return (hd ps))))" for key
    by (rule rel_get_at)
       (auto simp: PasskeyByKeyID_def tx_fail_apply pk_forward_same split: option.splits
         intro!: sync_bind_forward pkf.rel_return dest!: find_Some_set)
  then show ?thesis
    unfolding operatorTarget_def by (intro tx_rel_case_option pkf.rel_fail)
qed

lemma pendingOperatorTarget_forward [tx_rules]: "tx_rel pk_forward (pendingOperatorTarget X chain org k)"
  unfolding pendingOperatorTarget_def by (intro tx_rules)

lemma activeOperatorTarget_forward [tx_rules]: "tx_rel pk_forward (activeOperatorTarget X chain org k)"
  unfolding activeOperatorTarget_def by (intro tx_rules)

lemma update_found_forward:
  assumes "p \<in> set (passkey_credentials s)" "pk_step (pk_status p) st"
  shows "pk_forward s (snd (UpdatePasskeyStatus (pk_credential p) st s))"
proof (cases "pk_wf s")
  case True
  then show ?thesis
    using assms pk_unique [OF True _ assms(1)] by (intro pk_forward_update) auto
qed (simp add: pk_forward_def)

lemma ActiveSigner_forward [tx_rules]: "tx_rel pk_forward (ActiveSigner X chain u)"
proof -
  have "pk_forward s (snd (confirmActive X ask p s))"
    if "live p" "p \<in> set (passkey_credentials s)" for ask p s
    using that update_found_forward [OF that(2)]
    by (auto simp: confirmActive_def tx_simps pk_forward_same registry_status_def pk_step_def live_def
        UpdatePasskeyStatus_def split: option.splits sum.splits if_splits)
  then show ?thesis
    unfolding ActiveSigner_def
    by (intro rel_get_at)
       (auto simp: tx_simps pk_forward_same split: option.splits dest!: LatestPasskey_in)
qed

lemma draftKeyAction_forward:
  "(\<And>org. tx_rel pk_forward (target org)) \<Longrightarrow> tx_rel pk_forward (draftKeyAction X chain E u t target)"
  unfolding draftKeyAction_def by (intro tx_rules)

lemma RejectPendingPasskey_forward [tx_rules]: "tx_rel pk_forward (RejectPendingPasskey c)"
proof -
  have "pk_forward s (snd (UpdatePasskeyStatus c PasskeyStatusRejected s))"
    if st: "credential_status c s = Inr PasskeyStatusPending" for s
  proof -
    obtain p where p: "p \<in> set (passkey_credentials s)" "pk_credential p = c"
        "pk_status p = PasskeyStatusPending"
      using st by (auto simp: credential_status_def PasskeyByCredentialID_def split: option.splits
          dest!: find_Some_set)
    then show ?thesis using update_found_forward [of p s PasskeyStatusRejected] by (simp add: pk_step_def)
  qed
  then show ?thesis
    unfolding RejectPendingPasskey_def
    by (intro pkf.rel_WithTx rel_query_at)
       (auto simp: tx_simps pk_forward_same split: sum.splits)
qed

lemma SubmitKeyAction_tx_keys: "passkey_credentials (snd (SubmitKeyAction_tx now k s)) = passkey_credentials s"
  by (auto simp: SubmitKeyAction_tx_def tx_simps split: sum.splits)

lemma SubmitKeyAction_forward: "tx_rel pk_forward (SubmitKeyAction X E rp os u aid a)"
  unfolding SubmitKeyAction_def
  by (intro tx_rules same_keys_forward [of "SubmitKeyAction_tx _ _"] SubmitKeyAction_tx_keys)

text \<open>The registration acts on the service, whose database is one part.\<close>

abbreviation sv_forward :: "'sess passkey_service \<Rightarrow> 'sess passkey_service \<Rightarrow> bool" where
  "sv_forward v w \<equiv> pk_forward (sv_db v) (sv_db w)"

interpretation svf: tx_preorder sv_forward
  by unfold_locales (auto intro: pk_forward_same pk_forward_trans)

lemma on_db_forward [tx_rules]: "tx_rel pk_forward m \<Longrightarrow> tx_rel sv_forward (on_db m)"
  by (simp add: tx_rel_def on_db_def case_prod_unfold)

lemma InsertPasskey_forward [tx_rules]: "tx_rel pk_forward (InsertPasskey p)"
proof -
  have "pk_forward s (passkey_credentials_update (\<lambda>t. t @ [p]) s)"
    if "\<forall>q\<in>set (passkey_credentials s). pk_credential q \<noteq> pk_credential p" for s
    using that unfolding pk_forward_def pk_wf_def pk_step_def
    by (auto intro!: exI [of _ "pk_status q" for q])
  then show ?thesis by (auto simp: tx_rel_def InsertPasskey_def pk_forward_same)
qed

lemma session_forward [tx_rules]:
  "tx_rel sv_forward (takeSession now u)" "tx_rel sv_forward (tx_modify (sv_sessions_update f))"
  by (auto simp: tx_rel_def takeSession_def tx_simps pk_forward_same split: option.splits)

lemma registration_forward:
  "tx_rel sv_forward (BeginRegistration W E u)" "tx_rel sv_forward (FinishRegistration X W E u body)"
  unfolding BeginRegistration_def FinishRegistration_def ensureNoLiveKey_def Let_def split_def by (intro tx_rules)+

text \<open>C35: over every operation of the key service, registration included, in every state and whatever the
  registry and the WebAuthn library answer, no key is lost, credential ids stay unique, and statuses only
  move forward: a rejected or revoked key is final and an active key can only become revoked.\<close>

theorem passkey_status_forward:
  "tx_rel pk_forward (MyPasskey X chain u) \<and> tx_rel pk_forward (Organization X chain u)
   \<and> tx_rel pk_forward (AdminKeyExport X chain u) \<and> tx_rel pk_forward (ActiveSigner X chain u)
   \<and> tx_rel pk_forward (DraftKeyRegister X chain E u k) \<and> tx_rel pk_forward (DraftKeyRevoke X chain E u k)
   \<and> tx_rel pk_forward (RejectKey X chain u k)
   \<and> tx_rel pk_forward (SubmitKeyAction X E rp os u aid a)
   \<and> tx_rel sv_forward (BeginRegistration W E u) \<and> tx_rel sv_forward (FinishRegistration X W E u body)"
  unfolding DraftKeyRegister_def DraftKeyRevoke_def RejectKey_def
  by (intro conjI MyPasskey_forward Organization_forward AdminKeyExport_forward
      SubmitKeyAction_forward draftKeyAction_forward registration_forward tx_rules)

section \<open>Who may sign\<close>

text \<open>C34: signing needs a live answer. With the registry configured, a key is returned for signing only
  when the registry, asked about exactly that key, answered right now that it is there, active, and
  of the same organization and role; the key is the caller's own, and it is stored as active. When
  the registry does not answer, nothing is written.\<close>

theorem ActiveSigner_confirmed:
  "case ActiveSigner X (Some ask) u s of
     (Inr p, s') \<Rightarrow>
       pk_user p = u \<and> pk_status p = PasskeyStatusActive \<and> p \<in> set (passkey_credentials s')
     \<and> (\<exists>key. Option.bind (ask [registry_id p]) (\<lambda>st. st (registry_id p)) = Some key
          \<and> rk_found key \<and> rk_active key \<and> rk_org key = uuid_string X (pk_org p)
          \<and> EqualFold (rk_role key) (role_name (pk_role p)))
   | (Inl e, s') \<Rightarrow> e = ErrRegistryUnavailable \<longrightarrow> s' = s"
proof -
  have id: "registry_id (p\<lparr>pk_status := st\<rparr>) = registry_id p" for p st
    by (simp add: registry_id_def)
  have conf: "case confirmActive X ask p s of
     (Inr q, s') \<Rightarrow> q = p\<lparr>pk_status := PasskeyStatusActive\<rparr> \<and> q \<in> set (passkey_credentials s')
     \<and> (\<exists>key. Option.bind (ask [registry_id p]) (\<lambda>st. st (registry_id p)) = Some key
          \<and> rk_found key \<and> rk_active key \<and> registryKeyMatches X key p)
   | (Inl e, s') \<Rightarrow> e = ErrRegistryUnavailable \<longrightarrow> s' = s"
    if p: "p \<in> set (passkey_credentials s)" for p
    using p
    by (auto simp: confirmActive_def tx_simps UpdatePasskeyStatus_def registry_status_def set_sql_update
        split: option.splits if_splits intro!: bexI [of _ p])
  show ?thesis
  proof (cases "LatestPasskey u s")
    case (Some p)
    show ?thesis
      using conf [of p] LatestPasskey_in [OF Some]
      by (auto simp: ActiveSigner_def get_bind_apply Some tx_fail_apply id registryKeyMatches_def
          split: prod.splits sum.splits)
  qed (simp add: ActiveSigner_def get_bind_apply tx_fail_apply)
qed

theorem ActiveSigner_confirmed_witness:
  "case ActiveSigner demo_crypto (Some (\<lambda>_. None)) 2 (empty_db\<lparr>passkey_credentials := [demo_passkey]\<rparr>) of
     (Inr p, s') \<Rightarrow> False
   | (Inl e, s') \<Rightarrow> e = ErrRegistryUnavailable \<and> s' = empty_db\<lparr>passkey_credentials := [demo_passkey]\<rparr>"
  using ActiveSigner_confirmed [where X = demo_crypto and ask = "\<lambda>_. None" and u = 2
      and s = "empty_db\<lparr>passkey_credentials := [demo_passkey]\<rparr>"]
  by (simp add: ActiveSigner_def get_bind_apply LatestPasskey_def newest_passkey_def demo_passkey_def
      live_def confirmActive_def tx_fail_apply split: sum.splits)

section \<open>One key action at a time\<close>

text \<open>
  Of two submitted actions for one key, the one that still waits for the chain is
  strictly the later one; so at most one waits.
\<close>

definition waiting :: "wms_db \<Rightarrow> key_action \<Rightarrow> bool" where
  "waiting s a \<longleftrightarrow> ka_submitted a \<noteq> None \<and> fst (key_action_state s a) = ConfirmationSent"

definition actions_serial :: "wms_db \<Rightarrow> bool" where
  "actions_serial s \<longleftrightarrow> distinct (map ka_id (key_actions s)) \<and>
     (\<forall>a\<in>set (key_actions s). \<forall>b\<in>set (key_actions s).
        waiting s a \<and> ka_submitted b \<noteq> None \<and> ka_target a = ka_target b \<and> a \<noteq> b
        \<longrightarrow> the (ka_submitted b) < the (ka_submitted a))"

lemma newest_first:
  assumes "sort_key f xs = h # t" and "x \<in> set xs"
  shows "f h \<le> f x"
proof -
  have "sorted (map f (h # t))" using sorted_sort_key [of f xs] assms(1) by simp
  moreover have "x \<in> set (h # t)" using assms by (metis set_sort)
  ultimately show ?thesis by auto
qed

lemma SubmitKeyAction_tx_ok:
  assumes "SubmitKeyAction_tx now k s = (Inr v, s')"
  shows "key_actions s' = sql_update (\<lambda>a. ka_id a = ks_action k) (\<lambda>a. a\<lparr>ka_submitted := Some now\<rparr>) (key_actions s)"
    and "onchain_events s' = onchain_events s"
    and "\<exists>a. KeyAction (ks_action k) s = Some a \<and> ka_submitted a = None"
    and "\<not> key_action_blocked (ks_type k) (keyActionInFlight (ks_target k) s)"
    and "credential_status (ks_signer k) s = Inr PasskeyStatusActive"
    and "credential_status (ks_target k) s =
           Inr (if ks_type k = TypeKeyRevoke then PasskeyStatusActive else PasskeyStatusPending)"
  using assms
  by (auto simp: SubmitKeyAction_tx_def tx_oks sql_oks split: option.splits if_splits)

lemma not_blocked_none_waiting:
  assumes "\<not> key_action_blocked t (keyActionInFlight c s)" and "actions_serial s"
    and "a \<in> set (key_actions s)" "ka_target a = c"
  shows "\<not> waiting s a"
proof
  assume w: "waiting s a"
  let ?P = "\<lambda>a. ka_target a = c \<and> ka_submitted a \<noteq> None"
  have a: "a \<in> set (filter ?P (key_actions s))" using assms(3,4) w by (auto simp: waiting_def)
  then obtain h r where h: "submitted_for (\<lambda>a. ka_target a = c) s = h # r"
    using set_sort [of "\<lambda>a. - the (ka_submitted a)" "filter ?P (key_actions s)"]
    by (cases "submitted_for (\<lambda>a. ka_target a = c) s") (auto simp: submitted_for_def filter_empty_conv)
  have hP: "h \<in> set (filter ?P (key_actions s))"
    using h set_sort [of "\<lambda>a. - the (ka_submitted a)" "filter ?P (key_actions s)"]
    by (auto simp: submitted_for_def)
  have "- the (ka_submitted h) \<le> - the (ka_submitted a)"
    using newest_first [OF h [unfolded submitted_for_def] a] by simp
  moreover have "h \<noteq> a"
    using assms(1) h w by (auto simp: key_action_blocked_def keyActionInFlight_def waiting_def)
  ultimately show False
    using assms(2) w a hP by (fastforce simp: actions_serial_def)
qed

lemma SubmitKeyAction_ok:
  assumes "SubmitKeyAction X E rp os u aid a s = (Inr c, s')"
  obtains k0 signer target wa where "KeyAction aid s = Some k0" "ka_submitted k0 = None"
    "ka_created_by k0 = u" "PasskeyByCredentialID (ka_signer k0) s = Some signer"
    "PasskeyByCredentialID (ka_target k0) s = Some target"
    "as_credential a = pk_credential signer"
    "Verify X a (ka_challenge k0) (pk_key signer) rp os = Inr wa"
    "SubmitKeyAction_tx (clock E 0)
       \<lparr> ks_action = aid, ks_type = ka_type k0, ks_target = ka_target k0,
         ks_signer = ka_signer k0, ks_hash = hex_encode (word32_bytes (ka_challenge k0)),
         ks_payload = json_key_envelope X (keyActionEnvelope X k0 target (pk_key_id signer) wa) \<rparr> s
       = (Inr (), s')"
proof -
  have auth: "tx_bind (authorize [UserRoleAdmin] u) f s = (Inr b, s') \<Longrightarrow> \<exists>m. f m s = (Inr b, s')" for f b
    by (auto simp: authorize_def GetMember_def tx_oks query_oks Let_def)
  show thesis
    using auth [OF assms [unfolded SubmitKeyAction_def]]
    apply (simp only: tx_oks tx_case_oks query_oks tx_fail_ok)
    apply (elim exE conjE disjE)
     apply simp
    apply (rule that)
    apply (assumption | simp)+
    done
qed

text \<open>When submissions happen at increasing times, a successful submit
  keeps the order: whatever action still waits for the chain is strictly later than every other
  submitted action for its key, so no key ever has two actions in flight.\<close>

theorem SubmitKeyAction_serial:
  assumes serial: "actions_serial s"
    and later: "\<And>a t. a \<in> set (key_actions s) \<Longrightarrow> ka_submitted a = Some t \<Longrightarrow> t < clock E 0"
    and ok: "SubmitKeyAction X E rp os u aid a s = (Inr c, s')"
  shows "actions_serial s'"
proof -
  obtain k0 hash payload where k0: "KeyAction aid s = Some k0" "ka_submitted k0 = None" and
    tx: "SubmitKeyAction_tx (clock E 0) \<lparr> ks_action = aid, ks_type = ka_type k0, ks_target = ka_target k0,
        ks_signer = ka_signer k0, ks_hash = hash, ks_payload = payload \<rparr> s = (Inr (), s')"
    using ok by (rule SubmitKeyAction_ok) blast
  note fin = SubmitKeyAction_tx_ok [OF tx, simplified]
  have k0in: "k0 \<in> set (key_actions s)" "ka_id k0 = aid"
    using k0(1) by (auto simp: KeyAction_def dest!: find_Some_set)
  have id: "distinct (map ka_id (key_actions s))" using serial by (simp add: actions_serial_def)
  let ?k = "k0\<lparr>ka_submitted := Some (clock E 0)\<rparr>"
  have rows: "set (key_actions s') = insert ?k (set (key_actions s) - {k0})"
    using set_sql_update_key [OF id k0in(1)] by (simp add: fin(1) k0in(2))
  have state: "key_action_state s' x = key_action_state s x" for x
    by (simp add: key_action_state_def onchain_row_def fin(2))
  have free: "\<not> waiting s x" if "x \<in> set (key_actions s)" "ka_target x = ka_target k0" for x
    using that not_blocked_none_waiting [OF fin(4) serial] by simp
  have "the (ka_submitted y) < the (ka_submitted x)"
    if x: "x \<in> set (key_actions s')" and y: "y \<in> set (key_actions s')" and w: "waiting s' x"
      and sub: "ka_submitted y \<noteq> None" and t: "ka_target x = ka_target y" and ne: "x \<noteq> y" for x y
  proof (cases "x = ?k")
    case True
    then have "y \<in> set (key_actions s)" using y ne rows by auto
    then show ?thesis using True sub later by auto
  next
    case False
    then have xs: "x \<in> set (key_actions s)" "waiting s x"
      using x w rows by (auto simp: waiting_def state)
    then have "y \<noteq> ?k" using free [of x] t by auto
    then have "y \<in> set (key_actions s)" using y rows by auto
    then show ?thesis using xs sub t ne serial unfolding actions_serial_def by blast
  qed
  moreover have "distinct (map ka_id (key_actions s'))" using id by (simp add: fin(1))
  ultimately show ?thesis by (auto simp: actions_serial_def)
qed

text \<open>An administrator, the administrator's active key, and the signed registration of an operator's key.\<close>

definition demo_key_action :: key_action where
  "demo_key_action = \<lparr> ka_id = 70, ka_org = 3, ka_type = TypeKeyRegister, ka_target = [2], ka_signer = [1],
     ka_challenge = 9, ka_created_by = 2, ka_submitted = None \<rparr>"

definition demo_key_db :: wms_db where
  "demo_key_db = empty_db
     \<lparr> users := [\<lparr> us_id = 2, us_name = ''a'', us_password_hash = [], us_role = UserRoleAdmin,
                  us_active = True, us_org = Some 3 \<rparr>],
       key_actions := [demo_key_action],
       passkey_credentials := [demo_passkey, demo_passkey
         \<lparr> pk_credential := [2], pk_user := 5, pk_key_id := 6, pk_status := PasskeyStatusPending \<rparr>] \<rparr>"

lemma demo_submit_key_action:
  "fst (SubmitKeyAction demo_crypto demo_env ''wms'' [''https://wms''] 2 70 demo_assertion demo_key_db)
     = Inr \<lparr> kc_action = 70, kc_type = TypeKeyRegister, kc_state = ConfirmationSent, kc_reason = None \<rparr>"
proof -
  have "as_credential demo_assertion = [1]" by (simp add: demo_assertion_def)
  then show ?thesis
    using demo_Verify
    by (simp add: SubmitKeyAction_def SubmitKeyAction_tx_def tx_simps authorize_def GetMember_def
        KeyAction_def PasskeyByCredentialID_def credential_status_def demo_key_db_def demo_key_action_def
        demo_passkey_def keyActionInFlight_def submitted_for_def key_action_blocked_def action_types
        empty_db_def Let_def)
qed

theorem SubmitKeyAction_serial_witness:
  "actions_serial (snd (SubmitKeyAction demo_crypto demo_env ''wms'' [''https://wms''] 2 70
     demo_assertion demo_key_db))"
proof (rule SubmitKeyAction_serial)
  show "actions_serial demo_key_db"
    by (simp add: actions_serial_def demo_key_db_def)
  show "SubmitKeyAction demo_crypto demo_env ''wms'' [''https://wms''] 2 70 demo_assertion demo_key_db =
      (Inr \<lparr> kc_action = 70, kc_type = TypeKeyRegister, kc_state = ConfirmationSent, kc_reason = None \<rparr>,
       snd (SubmitKeyAction demo_crypto demo_env ''wms'' [''https://wms''] 2 70 demo_assertion demo_key_db))"
    by (simp add: demo_submit_key_action prod_eq_iff)
qed (auto simp: demo_key_db_def demo_key_action_def)

text \<open>C3: a revocation stops the key at once. From the moment a revoke is submitted, and in every later
  state that keeps the submitted action and in which the chain has not failed it, no signed warehouse
  action of that key can be submitted any more, whatever the stored status says.\<close>

theorem revoke_blocks_signer:
  assumes ok: "SubmitKeyAction X E rp os u aid a s = (Inr c, s')"
    and k: "KeyAction aid s = Some k" "ka_type k = TypeKeyRevoke"
    and later: "\<And>r. r \<in> set (key_actions s') \<Longrightarrow> ka_submitted r \<noteq> None \<Longrightarrow> r \<in> set (key_actions t)"
    and chain: "map_option oe_status (onchain_row t aid) \<noteq> Some OnchainFailed"
  shows "LockSigner (ka_target k) t = (Inl ErrSignerNotActive, t)"
proof -
  obtain hash payload where
    tx: "SubmitKeyAction_tx (clock E 0) \<lparr> ks_action = aid, ks_type = ka_type k, ks_target = ka_target k,
        ks_signer = ka_signer k, ks_hash = hash, ks_payload = payload \<rparr> s = (Inr (), s')"
    using ok by (rule SubmitKeyAction_ok) (use k in auto)
  have "k \<in> set (key_actions s)" "ka_id k = aid"
    using k(1) by (auto simp: KeyAction_def dest!: find_Some_set)
  then have "k\<lparr>ka_submitted := Some (clock E 0)\<rparr> \<in> set (key_actions s')"
    using SubmitKeyAction_tx_ok(1) [OF tx] by (force simp: set_sql_update)
  then have "k\<lparr>ka_submitted := Some (clock E 0)\<rparr> \<in> set (key_actions t)" by (rule later) simp
  then have "revoke_in_flight (ka_target k) t"
    using k(2) chain \<open>ka_id k = aid\<close>
    by (auto simp: revoke_in_flight_def TypeKeyRevoke_def
        intro!: bexI [of _ "k\<lparr>ka_submitted := Some (clock E 0)\<rparr>"])
  then show ?thesis
    by (auto simp: LockSigner_def tx_simps split: option.splits)
qed

text \<open>The example again, with a revocation of an active key.\<close>

definition demo_revoke_db :: wms_db where
  "demo_revoke_db = demo_key_db
     \<lparr> key_actions := [demo_key_action\<lparr>ka_type := TypeKeyRevoke\<rparr>],
       passkey_credentials := [demo_passkey, demo_passkey
         \<lparr> pk_credential := [2], pk_user := 5, pk_key_id := 6 \<rparr>] \<rparr>"

theorem revoke_blocks_signer_witness:
  "let s' = snd (SubmitKeyAction demo_crypto demo_env ''wms'' [''https://wms''] 2 70 demo_assertion demo_revoke_db)
   in LockSigner [2] demo_revoke_db = (Inr (), demo_revoke_db)
      \<and> LockSigner [2] s' = (Inl ErrSignerNotActive, s')"
proof -
  let ?r = "SubmitKeyAction demo_crypto demo_env ''wms'' [''https://wms''] 2 70 demo_assertion demo_revoke_db"
  have "as_credential demo_assertion = [1]" by (simp add: demo_assertion_def)
  then have r: "fst ?r = Inr \<lparr> kc_action = 70, kc_type = TypeKeyRevoke, kc_state = ConfirmationSent, kc_reason = None \<rparr>
      \<and> onchain_events (snd ?r) = []"
    using demo_Verify
    by (simp add: SubmitKeyAction_def SubmitKeyAction_tx_def tx_simps authorize_def GetMember_def
        KeyAction_def PasskeyByCredentialID_def credential_status_def demo_key_db_def demo_revoke_db_def
        demo_key_action_def demo_passkey_def keyActionInFlight_def submitted_for_def key_action_blocked_def
        action_types empty_db_def Let_def)
  have k: "KeyAction 70 demo_revoke_db = Some (demo_key_action\<lparr>ka_type := TypeKeyRevoke\<rparr>)"
    by (simp add: KeyAction_def demo_revoke_db_def demo_key_action_def)
  have "LockSigner (ka_target (demo_key_action\<lparr>ka_type := TypeKeyRevoke\<rparr>)) (snd ?r)
      = (Inl ErrSignerNotActive, snd ?r)"
    by (rule revoke_blocks_signer [OF _ k]) (use r in \<open>auto simp: prod_eq_iff onchain_row_def\<close>)
  moreover have "LockSigner [2] demo_revoke_db = (Inr (), demo_revoke_db)"
    by (simp add: LockSigner_def tx_simps demo_revoke_db_def demo_key_db_def demo_passkey_def
        revoke_in_flight_def demo_key_action_def)
  ultimately show ?thesis by (simp add: demo_key_action_def Let_def)
qed

end
