(* ===== verification/SignedSubmit.thy ===== *)
theory SignedSubmit
  imports Passkeys
begin

text \<open>
  What the four signed service operations have in common, line for line: the tail
  of a draft (active signer, time cut to milliseconds, new operation, insert) and
  the head of a submit (load, owner and type, not submitted, active signer, same
  credential, envelopes). Receiving, Putaway, Assembly and Shipping compose them
  with their own checks and effects.

  An error of a service is one of its own package, of \<^verbatim>\<open>signedops\<close>, of
  \<^verbatim>\<open>passkeys\<close>, or a violated unique key.
\<close>

datatype 'e svc_err = Svc 'e | Ops sops_err | Key passkey_err | SqlConflict

definition ops_tx :: "(wms_db, sops_err, 'a) tx \<Rightarrow> (wms_db, 'e svc_err, 'a) tx" where
  "ops_tx m = tx_handle m (\<lambda>e. tx_fail (Ops e))"

definition key_tx :: "(wms_db, passkey_err, 'a) tx \<Rightarrow> (wms_db, 'e svc_err, 'a) tx" where
  "key_tx m = tx_handle m (\<lambda>e. tx_fail (Key e))"

text \<open>\<^verbatim>\<open>tag.RowsAffected() == 0\<close> reported as an error.\<close>

definition sql_exec_some ::
  "('s \<Rightarrow> 'r list) \<Rightarrow> (('r list \<Rightarrow> 'r list) \<Rightarrow> 's \<Rightarrow> 's) \<Rightarrow> 'e \<Rightarrow> ('r \<Rightarrow> bool) \<Rightarrow> ('r \<Rightarrow> 'r) \<Rightarrow> ('s, 'e, unit) tx" where
  "sql_exec_some get upd e P f = tx_bind (sql_exec get upd P f) (\<lambda>n. tx_check (n \<noteq> 0) e)"

text \<open>The service's configuration: cryptography, the registry adapter, and the WebAuthn relying party.\<close>

record config =
  cf_crypto :: crypto
  cf_chain :: registry
  cf_rp :: string
  cf_origins :: "string list"

text \<open>Each service decodes the stored document into its own struct; a field the document lacks is zero.\<close>

primrec details_ms :: "action_details \<Rightarrow> int" where
  "details_ms (ReceiveDetails c ms) = ms"
| "details_ms (PutawayDetails b ms) = ms"
| "details_ms (PickDetails b ms) = ms"
| "details_ms (ShipDetails d b ms) = ms"

primrec details_cargoplace :: "action_details \<Rightarrow> uuid" where
  "details_cargoplace (ReceiveDetails c ms) = c"
| "details_cargoplace (PutawayDetails b ms) = uuid_Nil"
| "details_cargoplace (PickDetails b ms) = uuid_Nil"
| "details_cargoplace (ShipDetails d b ms) = uuid_Nil"

primrec details_storage_bin :: "action_details \<Rightarrow> uuid" where
  "details_storage_bin (ReceiveDetails c ms) = uuid_Nil"
| "details_storage_bin (PutawayDetails b ms) = b"
| "details_storage_bin (PickDetails b ms) = uuid_Nil"
| "details_storage_bin (ShipDetails d b ms) = uuid_Nil"

primrec details_shipping_bin :: "action_details \<Rightarrow> uuid" where
  "details_shipping_bin (ReceiveDetails c ms) = uuid_Nil"
| "details_shipping_bin (PutawayDetails b ms) = uuid_Nil"
| "details_shipping_bin (PickDetails b ms) = b"
| "details_shipping_bin (ShipDetails d b ms) = b"

primrec details_dispatch :: "action_details \<Rightarrow> uuid" where
  "details_dispatch (ReceiveDetails c ms) = uuid_Nil"
| "details_dispatch (PutawayDetails b ms) = uuid_Nil"
| "details_dispatch (PickDetails b ms) = uuid_Nil"
| "details_dispatch (ShipDetails d b ms) = d"

text \<open>All items of an operation, in part order.\<close>

definition op_items :: "operation \<Rightarrow> uuid list" where
  "op_items op = concat (map pt_items (op_parts op))"

definition draft_operation ::
  "config \<Rightarrow> call_env \<Rightarrow> byte \<Rightarrow> uuid \<Rightarrow> (int \<Rightarrow> action_details) \<Rightarrow> uuid list
   \<Rightarrow> (64 word \<Rightarrow> bytes32 \<Rightarrow> uuid list \<Rightarrow> bytes32) \<Rightarrow> (wms_db, 'e svc_err, operation) tx" where
  "draft_operation C E actionType operatorID details items detailsHash =
     tx_bind (key_tx (ActiveSigner (cf_crypto C) (cf_chain C) operatorID)) (\<lambda>signer.
     let occurredAtMs = unix_milli (truncate_ms (clock E 0));
         op = NewOperation (cf_crypto C) E actionType operatorID signer (details occurredAtMs) items
                (detailsHash (word_of_int occurredAtMs))
     in tx_seq (ops_tx (InsertOperation op)) (tx_return op))"

definition load_submission ::
  "config \<Rightarrow> byte \<Rightarrow> uuid \<Rightarrow> uuid \<Rightarrow> (uuid \<times> assertion) list
   \<Rightarrow> (wms_db, 'e svc_err, operation \<times> string list) tx" where
  "load_submission C actionType operatorID operationID assertions =
     tx_bind (ops_tx (load_operation operationID)) (\<lambda>loaded.
     case loaded of None \<Rightarrow> tx_fail (Ops ErrOperationNotFound)
     | Some op \<Rightarrow>
         if op_created_by op \<noteq> operatorID \<or> op_type op \<noteq> actionType then tx_fail (Ops ErrOperationNotFound)
         else if op_submitted op then tx_fail (Ops ErrOperationSubmitted)
         else
           tx_bind (key_tx (ActiveSigner (cf_crypto C) (cf_chain C) operatorID)) (\<lambda>signer.
           if pk_credential signer \<noteq> op_signer op then tx_fail (Ops ErrSignerNotActive)
           else (case Envelopes (cf_crypto C) op signer assertions (cf_rp C) (cf_origins C) of
               Inl e \<Rightarrow> tx_fail (Ops e)
             | Inr payloads \<Rightarrow> tx_return (op, payloads))))"

section \<open>Lemmas\<close>

lemma ops_tx_ok: "ops_tx m s = (Inr a, s') \<longleftrightarrow> m s = (Inr a, s')"
  by (auto simp: ops_tx_def tx_handle_def tx_fail_apply split: prod.splits sum.splits)

lemma key_tx_ok: "key_tx m s = (Inr a, s') \<longleftrightarrow> m s = (Inr a, s')"
  by (auto simp: key_tx_def tx_handle_def tx_fail_apply split: prod.splits sum.splits)

lemma ops_tx_error: "ops_tx m s = (Inl e, s') \<longleftrightarrow> (\<exists>f. e = Ops f \<and> m s = (Inl f, s'))"
  by (auto simp: ops_tx_def tx_handle_def tx_fail_apply split: prod.splits sum.splits)

lemma ops_tx_snd [simp]: "snd (ops_tx m s) = snd (m s)"
  by (auto simp: ops_tx_def tx_handle_def tx_fail_apply split: prod.splits sum.splits)

lemma key_tx_snd [simp]: "snd (key_tx m s) = snd (m s)"
  by (auto simp: key_tx_def tx_handle_def tx_fail_apply split: prod.splits sum.splits)

lemma rel_ops_tx [tx_rules]: "tx_rel R m \<Longrightarrow> tx_rel R (ops_tx m)"
  by (simp add: tx_rel_def)

lemma rel_key_tx [tx_rules]: "tx_rel R m \<Longrightarrow> tx_rel R (key_tx m)"
  by (simp add: tx_rel_def)

lemma sql_exec_some_ok:
  "sql_exec_some get upd e P f s = (Inr u, s') \<longleftrightarrow>
     (\<exists>r\<in>set (get s). P r) \<and> s' = upd (sql_update P f) s"
  by (auto simp: sql_exec_some_def tx_oks sql_oks sql_count_zero simp del: neq0_conv)

lemma sql_exec_some_apply [tx_simps]:
  "sql_exec_some get upd e P f s =
     (if \<exists>r\<in>set (get s). P r then Inr () else Inl e, upd (sql_update P f) s)"
  using sql_count_zero [of P "get s"] by (auto simp: sql_exec_some_def tx_simps)

lemmas svc_oks = tx_oks tx_case_oks query_oks sql_oks ops_tx_ok key_tx_ok sql_exec_some_ok

lemma ActiveSigner_keys_only [tx_rules]: "tx_rel keys_only (ActiveSigner X chain u)"
proof -
  have "tx_rel keys_only (UpdatePasskeyStatus c st)" for c st
    unfolding tx_rel_def keys_only_def
  proof
    fix s :: wms_db
    show "\<exists>ks. snd (UpdatePasskeyStatus c st s) = s\<lparr>passkey_credentials := ks\<rparr>"
      by (cases s) (auto simp: UpdatePasskeyStatus_def tx_simps)
  qed
  then show ?thesis
    unfolding ActiveSigner_def confirmActive_def by (intro tx_rules)
qed

lemma load_operation_keys_only [tx_rules]: "tx_rel keys_only (load_operation oid)"
  unfolding load_operation_def by (intro tx_rules)

lemma load_submission_keys_only [tx_rules]: "tx_rel keys_only (load_submission C t u oid as)"
  unfolding load_submission_def by (intro tx_rules)

lemma load_submission_ok:
  assumes "load_submission C t u oid as s = (Inr (op, payloads), s')"
  obtains signer where "keys_only s s'"
    "load_operation oid s = (Inr (Some op), s)" "op_created_by op = u" "op_type op = t" "\<not> op_submitted op"
    "ActiveSigner (cf_crypto C) (cf_chain C) u s = (Inr signer, s')" "pk_credential signer = op_signer op"
    "Envelopes (cf_crypto C) op signer as (cf_rp C) (cf_origins C) = Inr payloads"
proof -
  have ko: "keys_only s s'"
    using load_submission_keys_only assms by (rule tx_relD)
  have l: "load_operation oid s = (fst (load_operation oid s), s)"
    by (simp add: load_operation_def tx_simps)
  show thesis
    using assms l unfolding load_submission_def
    by (auto simp: svc_oks load_operation_def split: if_splits option.splits intro: that [OF ko])
qed

lemma load_operation_submitted:
  assumes "submitted_op oid u s"
  obtains op where "load_operation oid s = (Inr (Some op), s)" "op_submitted op"
proof -
  let ?rows = "operation_rows (\<lambda>r. wa_operation r = oid) s"
  obtain r where "r \<in> set ?rows" "wa_submitted r \<noteq> None"
    using assms by (auto simp: submitted_op_def)
  moreover from this obtain op where "scanOperation ?rows oid = Some op"
    by (cases "scanOperation ?rows oid") (auto simp: scanOperation_None simp del: set_operation_rows)
  moreover from this have "op_submitted op = (\<exists>r\<in>set ?rows. wa_submitted r \<noteq> None)"
    using scanOperation_parts by blast
  ultimately show thesis
    by (intro that [of op]) (auto simp: load_operation_def tx_simps)
qed

text \<open>A submitted operation is refused before anything is asked or written.\<close>

lemma load_submission_refuses:
  assumes "submitted_op oid u s"
  shows "tx_bind (load_submission C t v oid as) f s
     \<in> {(Inl (Ops ErrOperationNotFound), s), (Inl (Ops ErrOperationSubmitted), s)}"
proof -
  obtain op where "load_operation oid s = (Inr (Some op), s)" "op_submitted op"
    using assms by (rule load_operation_submitted)
  then show ?thesis
    by (simp add: load_submission_def tx_bind_def ops_tx_def tx_handle_def tx_fail_apply)
qed

text \<open>A body that leaves \<open>queued\<close> from the state after the head leaves it from the state before.\<close>

lemma LockOperation_keys_only:
  assumes "warehouse_actions t = warehouse_actions s" and "LockOperation oid u t = (Inr op, t)"
  shows "LockOperation oid u s = (Inr op, s)"
  using LockOperation_cong [OF assms(1) [symmetric], of oid u] assms(2) by simp

lemma queued_keys_only:
  assumes "keys_only s t" and "queued oid u t s'"
  shows "queued oid u s s'"
proof -
  obtain op payloads now where q: "LockOperation oid u t = (Inr op, t)"
    "length payloads = length (op_parts op)"
    "outbox_events s' = outbox_events t @ map2 outbox_row (op_parts op) payloads"
    "warehouse_actions s' = sql_update (\<lambda>r. wa_operation r = oid) (\<lambda>r. r\<lparr>wa_submitted := Some now\<rparr>)
       (warehouse_actions t)"
    using assms(2) unfolding queued_def by blast
  show ?thesis
    unfolding queued_def
    using q LockOperation_keys_only [OF keys_only_tables(1) [OF assms(1)] q(1)]
    unfolding keys_only_tables(1,2) [OF assms(1)] by blast
qed

text \<open>The effect of the last statements of a body, once the operation is locked.\<close>

lemma queued_intro:
  assumes "LockOperation oid u t = (Inr op, t)" "WriteActions now op payloads t' = (Inr v, s')"
    and "warehouse_actions t = warehouse_actions s" "warehouse_actions t' = warehouse_actions s"
      "outbox_events t' = outbox_events s"
  shows "queued oid u s s'"
  unfolding queued_def
proof (intro exI conjI)
  show "LockOperation oid u s = (Inr op, s)"
    using assms(3,1) by (rule LockOperation_keys_only)
  have id: "op_id op = oid" using LockOperation_rows(1) [OF assms(1)] .
  show "length payloads = length (op_parts op)"
    "outbox_events s' = outbox_events s @ map2 outbox_row (op_parts op) payloads"
    "warehouse_actions s' = sql_update (\<lambda>r. wa_operation r = oid) (\<lambda>r. r\<lparr>wa_submitted := Some now\<rparr>) (warehouse_actions s)"
    using assms(2,4,5) by (auto simp: WriteActions_ok id)
qed

text \<open>
  The rows of an operation have one creator: an operation occupies part index 0, so no
  second insert under its id can succeed. With that, the operation a submit loaded is
  the operation it locks.
\<close>

definition ops_wf :: "wms_db \<Rightarrow> bool" where
  "ops_wf s \<longleftrightarrow>
     (\<forall>r\<in>set (warehouse_actions s). \<forall>q\<in>set (warehouse_actions s).
        wa_operation r = wa_operation q \<longrightarrow> wa_created_by r = wa_created_by q)
   \<and> (\<forall>r\<in>set (warehouse_actions s). \<exists>q\<in>set (warehouse_actions s).
        wa_operation q = wa_operation r \<and> wa_part q = 0)"

lemma ops_wf_keys_only: "keys_only s t \<Longrightarrow> ops_wf s \<Longrightarrow> ops_wf t"
  unfolding ops_wf_def by (simp only: keys_only_tables(1) [of s t])

lemma scanOperation_creator:
  assumes "scanOperation rows oid = Some op"
  shows "\<exists>r\<in>set rows. op_created_by op = wa_created_by r"
proof -
  obtain rs r where "rows = rs @ [r]" and op: "op = foldl scan_row (empty_operation oid) rows"
    using assms by (cases rows rule: rev_cases) (simp_all add: scanOperation_Some)
  then have "r \<in> set rows" "op_created_by op = wa_created_by r"
    by (simp_all add: scan_row_def)
  then show ?thesis by blast
qed

lemma LockOperation_loaded:
  assumes wf: "ops_wf s" and l: "load_operation oid s = (Inr (Some op), s)" and u: "op_created_by op = u"
    and "\<not> op_submitted op"
  shows "LockOperation oid u s = (Inr op, s)"
proof -
  let ?rows = "operation_rows (\<lambda>r. wa_operation r = oid) s"
  have sc: "scanOperation ?rows oid = Some op"
    using l by (simp add: load_operation_def tx_simps)
  obtain r where r: "r \<in> set ?rows" and "op_created_by op = wa_created_by r"
    using scanOperation_creator [OF sc] by (rule bexE)
  with u have ru: "wa_created_by r = u" by simp
  have "wa_created_by q = u" if "q \<in> set (warehouse_actions s)" "wa_operation q = oid" for q
  proof -
    have "r \<in> set (warehouse_actions s)" "wa_operation r = oid" using r by simp_all
    then show ?thesis using that ru wf unfolding ops_wf_def by metis
  qed
  then have "filter (\<lambda>r. wa_operation r = oid \<and> wa_created_by r = u) (warehouse_actions s)
      = filter (\<lambda>r. wa_operation r = oid) (warehouse_actions s)"
    by (intro filter_cong) auto
  then have rows: "operation_rows (\<lambda>r. wa_operation r = oid \<and> wa_created_by r = u) s = ?rows"
    by (simp add: operation_rows_def)
  have "op_submitted op = (\<exists>r\<in>set ?rows. wa_submitted r \<noteq> None)"
    using scanOperation_parts [OF sc] by blast
  then have "\<not> submitted_op oid u s"
    using assms(4) unfolding submitted_op_def set_operation_rows by blast
  then show ?thesis unfolding LockOperation_ok rows using sc by simp
qed

lemma InsertOperation_first_free:
  assumes "InsertOperation op s = (Inr (), s')" and "op_parts op \<noteq> []"
    and "q \<in> set (warehouse_actions s)" "wa_part q = 0"
  shows "wa_operation q \<noteq> op_id op"
proof -
  obtain p ps where p: "op_parts op = p # ps" using assms(2) by (cases "op_parts op") auto
  obtain t where "insert_action (action_row op (0, p)) s = (Inr (), t)"
    using assms(1) by (auto simp: InsertOperation_def WithTx_ok p tx_seq_ok)
  then show ?thesis
    using assms(3,4) by (auto simp: insert_action_ok action_row_def)
qed

lemma action_row_simps [simp]:
  "wa_operation (action_row op ip) = op_id op" "wa_created_by (action_row op ip) = op_created_by op"
  "wa_part (action_row op ip) = fst ip" "wa_id (action_row op ip) = pt_action (snd ip)"
  "wa_submitted (action_row op ip) = None"
  by (simp_all add: action_row_def split_beta)

lemma InsertOperation_wf:
  assumes ok: "InsertOperation op s = (Inr (), s')" and wf: "ops_wf s"
  shows "ops_wf s'"
proof (cases "op_parts op")
  case Nil
  then have "s' = s" using ok by (simp add: InsertOperation_def WithTx_ok tx_return_ok)
  then show ?thesis using wf by simp
next
  case (Cons p ps)
  let ?new = "map (action_row op) (enumerate 0 (op_parts op))"
  have rows: "set (warehouse_actions s') = set (warehouse_actions s) \<union> set ?new"
    using InsertOperation_ok [OF ok] by simp
  have fresh: "wa_operation r \<noteq> op_id op" if "r \<in> set (warehouse_actions s)" for r
    using that wf InsertOperation_first_free [OF ok] Cons unfolding ops_wf_def by fastforce
  have zero: "action_row op (0, p) \<in> set ?new" by (simp add: Cons)
  have new: "wa_operation r = op_id op \<and> wa_created_by r = op_created_by op" if "r \<in> set ?new" for r
    using that by auto
  have old: "wa_operation r = wa_operation q \<longrightarrow> wa_created_by r = wa_created_by q"
    if "r \<in> set (warehouse_actions s)" "q \<in> set (warehouse_actions s)" for r q
    using that wf unfolding ops_wf_def by blast
  show ?thesis
    unfolding ops_wf_def rows
  proof (intro conjI ballI impI)
    fix r q assume "r \<in> set (warehouse_actions s) \<union> set ?new" "q \<in> set (warehouse_actions s) \<union> set ?new"
      "wa_operation r = wa_operation q"
    then show "wa_created_by r = wa_created_by q" using old new fresh by (metis UnE)
  next
    fix r assume "r \<in> set (warehouse_actions s) \<union> set ?new"
    then show "\<exists>q\<in>set (warehouse_actions s) \<union> set ?new. wa_operation q = wa_operation r \<and> wa_part q = 0"
    proof
      assume "r \<in> set (warehouse_actions s)"
      then show ?thesis using wf unfolding ops_wf_def by blast
    next
      assume "r \<in> set ?new"
      then show ?thesis using zero new by (intro bexI [of _ "action_row op (0, p)"]) auto
    qed
  qed
qed

lemma ops_wf_mark:
  assumes wf: "ops_wf s"
    and s': "warehouse_actions s' = sql_update P (\<lambda>r. r\<lparr>wa_submitted := t\<rparr>) (warehouse_actions s)"
  shows "ops_wf s'"
proof -
  have "set (warehouse_actions s') = (\<lambda>r. if P r then r\<lparr>wa_submitted := t\<rparr> else r) ` set (warehouse_actions s)"
    by (simp add: s' set_sql_update)
  moreover have "wa_operation (if P r then r\<lparr>wa_submitted := t\<rparr> else r) = wa_operation r"
    "wa_created_by (if P r then r\<lparr>wa_submitted := t\<rparr> else r) = wa_created_by r"
    "wa_part (if P r then r\<lparr>wa_submitted := t\<rparr> else r) = wa_part r" for r
    by simp_all
  ultimately show ?thesis
    using wf unfolding ops_wf_def by (simp only: ball_simps bex_simps)
qed

lemma queued_wf: "queued oid u s s' \<Longrightarrow> ops_wf s \<Longrightarrow> ops_wf s'"
  by (auto simp: queued_def intro: ops_wf_mark)

end
