(* ===== verification/ReceivingStore.thy ===== *)
theory ReceivingStore
  imports SignedSubmit
begin

text \<open>
  \<^verbatim>\<open>wms/internal/receiving/repository.go\<close> and \<^verbatim>\<open>helpers.go\<close>: the SQL statements of
  the receiving service and its pure helpers. A statement that finds no row reports
  the error the code reports. \<^verbatim>\<open>ORDER BY\<close> sorts by the byte order of the column.
\<close>

datatype receiving_err =
    ErrTTNNotFound | ErrShipmentNotFound | ErrShipmentAlreadyClosed | ErrShipmentNotInProgress
  | ErrCargoplaceNotInShipment | ErrCargoplaceAlreadyReceived | ReceivingInvalidInput
  | ErrCargoplaceNotFound | ErrCargoplaceNotReceivedAtGate | ErrCargoplaceNotInProgress
  | ErrCargoplaceEmpty | ReceivingDraftStale | ErrBoxNotFound | ErrBoxNotOpen | ErrBoxNotInCargoplace
  | ErrBarcodeNotFound | ErrSKUNotFound | ErrQRAlreadyExists | ReceivingBinNotFound | ErrBinNotBuffer

type_synonym 'a receiving_tx = "(wms_db, receiving_err svc_err, 'a) tx"

section \<open>Shipments and cargoplaces\<close>

definition GetShipmentByTTN :: "string \<Rightarrow> inbound_shipment receiving_tx" where
  "GetShipmentByTTN ttnCode = tx_query (\<lambda>s.
     sql_row (Svc ErrTTNNotFound) (\<lambda>r. sh_ttn r = ttnCode) (inbound_shipments s))"

definition GetShipmentByID :: "uuid \<Rightarrow> inbound_shipment receiving_tx" where
  "GetShipmentByID shipmentID = tx_query (\<lambda>s.
     sql_row (Svc ErrShipmentNotFound) (\<lambda>r. sh_id r = shipmentID) (inbound_shipments s))"

definition ListCargoplacesByShipment :: "uuid \<Rightarrow> wms_db \<Rightarrow> cargoplace list" where
  "ListCargoplacesByShipment shipmentID s =
     sort_key cp_code (filter (\<lambda>c. cp_shipment c = shipmentID) (cargoplaces s))"

definition GetCargoplaceByShipmentAndCode :: "uuid \<Rightarrow> string \<Rightarrow> cargoplace receiving_tx" where
  "GetCargoplaceByShipmentAndCode shipmentID code = tx_query (\<lambda>s.
     sql_row (Svc ErrCargoplaceNotInShipment) (\<lambda>c. cp_shipment c = shipmentID \<and> cp_code c = code) (cargoplaces s))"

definition GetCargoplaceByID :: "uuid \<Rightarrow> cargoplace receiving_tx" where
  "GetCargoplaceByID cargoplaceID = tx_query (\<lambda>s.
     sql_row (Svc ErrCargoplaceNotFound) (\<lambda>c. cp_id c = cargoplaceID) (cargoplaces s))"

text \<open>The same row, locked; transactions run one after the other here, so the lock has no further effect.\<close>

definition GetCargoplaceByIDForUpdate :: "uuid \<Rightarrow> cargoplace receiving_tx" where
  "GetCargoplaceByIDForUpdate cargoplaceID = tx_query (\<lambda>s.
     sql_row (Svc ErrCargoplaceNotFound) (\<lambda>c. cp_id c = cargoplaceID) (cargoplaces s))"

definition UpdateShipmentStatus :: "uuid \<Rightarrow> shipment_status \<Rightarrow> shipment_status \<Rightarrow> unit receiving_tx" where
  "UpdateShipmentStatus shipmentID newStatus expectedStatus =
     sql_exec_some inbound_shipments inbound_shipments_update (Svc ErrShipmentNotFound)
       (\<lambda>r. sh_id r = shipmentID \<and> sh_status r = expectedStatus) (\<lambda>r. r\<lparr>sh_status := newStatus\<rparr>)"

definition UpdateCargoplaceReceivedAtGate ::
  "uuid \<Rightarrow> cargoplace_status \<Rightarrow> cargoplace_status \<Rightarrow> timestamp \<Rightarrow> unit receiving_tx" where
  "UpdateCargoplaceReceivedAtGate cargoplaceID newStatus expectedStatus receivedAt =
     sql_exec_some cargoplaces cargoplaces_update (Svc ErrCargoplaceAlreadyReceived)
       (\<lambda>c. cp_id c = cargoplaceID \<and> cp_status c = expectedStatus)
       (\<lambda>c. c\<lparr>cp_status := newStatus, cp_received_at := Some receivedAt\<rparr>)"

definition UpdateCargoplaceStatus :: "uuid \<Rightarrow> cargoplace_status \<Rightarrow> cargoplace_status \<Rightarrow> unit receiving_tx" where
  "UpdateCargoplaceStatus cargoplaceID newStatus expectedStatus =
     sql_exec_some cargoplaces cargoplaces_update (Svc ErrCargoplaceNotFound)
       (\<lambda>c. cp_id c = cargoplaceID \<and> cp_status c = expectedStatus) (\<lambda>c. c\<lparr>cp_status := newStatus\<rparr>)"

section \<open>Logs\<close>

record gate_log_params =
  gp_ttn :: "string option"
  gp_code :: "string option"
  gp_shipment :: "uuid option"
  gp_cargoplace :: "uuid option"
  gp_operator :: uuid
  gp_action :: string
  gp_occurred :: timestamp

definition InsertReceivingGateLog :: "uuid \<Rightarrow> gate_log_params \<Rightarrow> unit receiving_tx" where
  "InsertReceivingGateLog eventID p =
     sql_insert receiving_gate receiving_gate_update gl_event SqlConflict
       \<lparr> gl_event = eventID, gl_ttn = gp_ttn p, gl_code = gp_code p, gl_shipment = gp_shipment p,
         gl_cargoplace = gp_cargoplace p, gl_operator = gp_operator p, gl_action = gp_action p,
         gl_occurred = gp_occurred p \<rparr>"

record table_log_params =
  tp_cargoplace :: uuid
  tp_box :: "uuid option"
  tp_operator :: uuid
  tp_action :: string
  tp_barcode :: "string option"
  tp_sku :: "uuid option"
  tp_qr :: "string option"
  tp_product :: "uuid option"
  tp_buffer :: "uuid option"
  tp_operation :: "uuid option"
  tp_occurred :: timestamp

text \<open>A log entry with the optional columns empty.\<close>

definition table_log :: "uuid \<Rightarrow> uuid \<Rightarrow> string \<Rightarrow> timestamp \<Rightarrow> table_log_params" where
  "table_log cargoplaceID operatorID action occurredAt =
     \<lparr> tp_cargoplace = cargoplaceID, tp_box = None, tp_operator = operatorID, tp_action = action,
       tp_barcode = None, tp_sku = None, tp_qr = None, tp_product = None, tp_buffer = None,
       tp_operation = None, tp_occurred = occurredAt \<rparr>"

text \<open>Outside the closing transaction the column \<^verbatim>\<open>operation_id\<close> is not written.\<close>

definition InsertReceivingTableLog :: "uuid \<Rightarrow> table_log_params \<Rightarrow> unit receiving_tx" where
  "InsertReceivingTableLog eventID p =
     sql_insert receiving_table receiving_table_update tl_event SqlConflict
       \<lparr> tl_event = eventID, tl_cargoplace = tp_cargoplace p, tl_box = tp_box p,
         tl_operator = tp_operator p, tl_action = tp_action p, tl_barcode = tp_barcode p,
         tl_sku = tp_sku p, tl_qr = tp_qr p, tl_product = tp_product p, tl_buffer = tp_buffer p,
         tl_operation = None, tl_occurred = tp_occurred p \<rparr>"

definition insertReceivingTableLogTx :: "uuid \<Rightarrow> table_log_params \<Rightarrow> unit receiving_tx" where
  "insertReceivingTableLogTx eventID p =
     sql_insert receiving_table receiving_table_update tl_event SqlConflict
       \<lparr> tl_event = eventID, tl_cargoplace = tp_cargoplace p, tl_box = tp_box p,
         tl_operator = tp_operator p, tl_action = tp_action p, tl_barcode = tp_barcode p,
         tl_sku = tp_sku p, tl_qr = tp_qr p, tl_product = tp_product p, tl_buffer = tp_buffer p,
         tl_operation = tp_operation p, tl_occurred = tp_occurred p \<rparr>"

definition MarkExpectedAsNotReceived ::
  "uuid \<Rightarrow> timestamp \<Rightarrow> uuid \<Rightarrow> cargoplace_status \<Rightarrow> uuid \<Rightarrow> unit receiving_tx" where
  "MarkExpectedAsNotReceived eventID now shipmentID notReceivedStatus operatorID =
     tx_bind (sql_exec cargoplaces cargoplaces_update
        (\<lambda>c. cp_shipment c = shipmentID \<and> cp_status c = CargoplaceExpected)
        (\<lambda>c. c\<lparr>cp_status := notReceivedStatus\<rparr>)) (\<lambda>affected.
     if affected > 0 then
       InsertReceivingGateLog eventID
         \<lparr> gp_ttn = None, gp_code = None, gp_shipment = Some shipmentID, gp_cargoplace = None,
           gp_operator = operatorID, gp_action = ''MARK_NOT_RECEIVED'', gp_occurred = now \<rparr>
     else tx_return ())"

definition CountCargoplaces :: "uuid \<Rightarrow> wms_db \<Rightarrow> nat" where
  "CountCargoplaces shipmentID s = sql_count (\<lambda>c. cp_shipment c = shipmentID) (cargoplaces s)"

definition CountCargoplacesByStatus :: "uuid \<Rightarrow> cargoplace_status \<Rightarrow> wms_db \<Rightarrow> nat" where
  "CountCargoplacesByStatus shipmentID status s =
     sql_count (\<lambda>c. cp_shipment c = shipmentID \<and> cp_status c = status) (cargoplaces s)"

section \<open>Expected and received items\<close>

record expected_sku =
  es_sku :: uuid
  es_name :: string
  es_qty :: int

record received_count =
  rc_sku :: uuid
  rc_name :: string
  rc_qty :: int

definition sku_row :: "wms_db \<Rightarrow> uuid \<Rightarrow> sku option" where
  "sku_row s skuID = List.find (\<lambda>k. sk_id k = skuID) (skus s)"

definition ListExpectedSKUsByCargoplace :: "uuid \<Rightarrow> wms_db \<Rightarrow> expected_sku list" where
  "ListExpectedSKUsByCargoplace cargoplaceID s = sort_key es_name
     (List.map_filter (\<lambda>x. if ex_cargoplace x \<noteq> cargoplaceID then None
        else map_option (\<lambda>k. \<lparr> es_sku = ex_sku x, es_name = sk_name k, es_qty = ex_qty x \<rparr>) (sku_row s (ex_sku x)))
       (expected_cargoplace_skus s))"

definition listReceivedProductCountsBySKU :: "uuid \<Rightarrow> wms_db \<Rightarrow> received_count list" where
  "listReceivedProductCountsBySKU cargoplaceID s =
     (let rows = filter (\<lambda>p. pr_cargoplace p = cargoplaceID \<and> pr_status p = ProductStatusReceived
                   \<and> sku_row s (pr_sku p) \<noteq> None) (products s)
      in sort_key rc_name (map (\<lambda>id. \<lparr> rc_sku = id, rc_name = sk_name (the (sku_row s id)),
            rc_qty = int (sql_count (\<lambda>p. pr_sku p = id) rows) \<rparr>) (remdups (map pr_sku rows))))"

definition CountProductsByCargoplace :: "uuid \<Rightarrow> wms_db \<Rightarrow> nat" where
  "CountProductsByCargoplace cargoplaceID s = sql_count (\<lambda>p. pr_cargoplace p = cargoplaceID) (products s)"

definition CountExpectedItemsByCargoplace :: "uuid \<Rightarrow> wms_db \<Rightarrow> int" where
  "CountExpectedItemsByCargoplace cargoplaceID s =
     sum_list (map ex_qty (filter (\<lambda>x. ex_cargoplace x = cargoplaceID) (expected_cargoplace_skus s)))"

section \<open>Boxes, products and bins\<close>

definition GetBoxByID :: "uuid \<Rightarrow> box receiving_tx" where
  "GetBoxByID boxID = tx_query (\<lambda>s. sql_row (Svc ErrBoxNotFound) (\<lambda>b. bx_id b = boxID) (boxes s))"

definition GetBoxByCargoplaceAndBarcode :: "uuid \<Rightarrow> string \<Rightarrow> box receiving_tx" where
  "GetBoxByCargoplaceAndBarcode cargoplaceID barcode = tx_query (\<lambda>s.
     sql_row (Svc ErrBoxNotFound) (\<lambda>b. bx_cargoplace b = cargoplaceID \<and> bx_barcode b = barcode) (boxes s))"

text \<open>\<^verbatim>\<open>INSERT ... ON CONFLICT DO UPDATE ... WHERE status != 'CLOSED' RETURNING\<close>.\<close>

definition UpsertBox :: "uuid \<Rightarrow> uuid \<Rightarrow> string \<Rightarrow> box_status \<Rightarrow> box receiving_tx" where
  "UpsertBox boxID cargoplaceID barcode status = tx_bind (tx_get boxes) (\<lambda>t.
     case List.find (\<lambda>b. bx_cargoplace b = cargoplaceID \<and> bx_barcode b = barcode) t of
       None \<Rightarrow>
         let b = \<lparr> bx_id = boxID, bx_cargoplace = cargoplaceID, bx_barcode = barcode, bx_status = status \<rparr>
         in tx_seq (sql_insert boxes boxes_update bx_id SqlConflict b) (tx_return b)
     | Some b \<Rightarrow>
         if bx_status b = BoxClosed then tx_fail (Svc ErrBoxNotOpen)
         else tx_seq (tx_modify (boxes_update
                (sql_update (\<lambda>b. bx_cargoplace b = cargoplaceID \<and> bx_barcode b = barcode \<and> bx_status b \<noteq> BoxClosed)
                   (\<lambda>b. b\<lparr>bx_status := status\<rparr>))))
              (tx_return (b\<lparr>bx_status := status\<rparr>)))"

definition UpdateBoxStatus :: "uuid \<Rightarrow> box_status \<Rightarrow> unit receiving_tx" where
  "UpdateBoxStatus boxID status =
     sql_exec_some boxes boxes_update (Svc ErrBoxNotFound) (\<lambda>b. bx_id b = boxID) (\<lambda>b. b\<lparr>bx_status := status\<rparr>)"

definition CountProductsByBox :: "uuid \<Rightarrow> wms_db \<Rightarrow> nat" where
  "CountProductsByBox boxID s = sql_count (\<lambda>p. pr_box p = Some boxID) (products s)"

definition GetSKUByBarcode :: "string \<Rightarrow> sku receiving_tx" where
  "GetSKUByBarcode barcode = tx_query (\<lambda>s.
     case List.find (\<lambda>b. sb_barcode b = barcode \<and> sku_row s (sb_sku b) \<noteq> None) (sku_barcodes s) of
       None \<Rightarrow> Inl (Svc ErrBarcodeNotFound) | Some b \<Rightarrow> Inr (the (sku_row s (sb_sku b))))"

definition GetSKUByID :: "uuid \<Rightarrow> sku receiving_tx" where
  "GetSKUByID skuID = tx_query (\<lambda>s. sql_row (Svc ErrSKUNotFound) (\<lambda>k. sk_id k = skuID) (skus s))"

text \<open>Unique keys: the product and its QR code; a clash of either is reported as an existing QR code.\<close>

definition InsertProduct :: "product \<Rightarrow> unit receiving_tx" where
  "InsertProduct p = (\<lambda>s.
     if (\<exists>q\<in>set (products s). pr_id q = pr_id p \<or> pr_qr q = pr_qr p)
     then (Inl (Svc ErrQRAlreadyExists), s)
     else (Inr (), products_update (\<lambda>t. t @ [p]) s))"

definition GetBinByID :: "uuid \<Rightarrow> bin receiving_tx" where
  "GetBinByID binID = tx_query (\<lambda>s. sql_row (Svc ReceivingBinNotFound) (\<lambda>b. bn_id b = binID) (bins s))"

text \<open>Received, and in a closed box: what moves to the buffer and what a close signs.\<close>

definition closable :: "wms_db \<Rightarrow> uuid \<Rightarrow> product \<Rightarrow> bool" where
  "closable s cargoplaceID p \<longleftrightarrow>
     pr_cargoplace p = cargoplaceID \<and> pr_status p = ProductStatusReceived
     \<and> (\<exists>b\<in>set (boxes s). pr_box p = Some (bx_id b) \<and> bx_status b = BoxClosed)"

definition ScanBufferWithLog :: "uuid \<Rightarrow> uuid \<Rightarrow> uuid \<Rightarrow> table_log_params \<Rightarrow> nat receiving_tx" where
  "ScanBufferWithLog eventID cargoplaceID bufferBinID logParams =
     tx_bind (\<lambda>s. sql_exec products products_update (closable s cargoplaceID)
                    (\<lambda>p. p\<lparr>pr_bin := Some bufferBinID\<rparr>) s) (\<lambda>moved.
     if moved > 0 then tx_seq (InsertReceivingTableLog eventID logParams) (tx_return moved)
     else tx_return moved)"

definition listClosableProductIDs :: "uuid \<Rightarrow> wms_db \<Rightarrow> uuid list" where
  "listClosableProductIDs cargoplaceID s =
     sort (map pr_id (filter (closable s cargoplaceID) (products s)))"

definition cargoplaceExists :: "uuid \<Rightarrow> wms_db \<Rightarrow> bool" where
  "cargoplaceExists cargoplaceID s \<longleftrightarrow> (\<exists>c\<in>set (cargoplaces s). cp_id c = cargoplaceID)"

section \<open>Closing a cargoplace\<close>

record close_result =
  cr_expected :: "expected_sku list"
  cr_received :: "received_count list"
  cr_events :: nat

definition CloseCargoplaceWithOutbox ::
  "crypto \<Rightarrow> call_env \<Rightarrow> uuid \<Rightarrow> uuid \<Rightarrow> timestamp \<Rightarrow> uuid \<Rightarrow> string list \<Rightarrow> close_result receiving_tx" where
  "CloseCargoplaceWithOutbox X E cargoplaceID operatorID occurredAt operationID payloads = WithTx (
     tx_bind (tx_query (\<lambda>s. sql_row (Svc ErrCargoplaceNotFound) (\<lambda>c. cp_id c = cargoplaceID) (cargoplaces s))) (\<lambda>cp.
     tx_seq (tx_check (cp_status cp = CargoplaceTableInProgress) (Svc ErrCargoplaceNotInProgress))
    (tx_bind (ops_tx (LockOperation operationID operatorID)) (\<lambda>op.
     tx_bind (tx_get (listClosableProductIDs cargoplaceID)) (\<lambda>productIDs.
     tx_seq (tx_check (SortByItemID X productIDs = op_items op) (Svc ReceivingDraftStale))
    (tx_seq (ops_tx (LockSigner (op_signer op)))
    (tx_bind (sql_exec cargoplaces cargoplaces_update
                (\<lambda>c. cp_id c = cargoplaceID \<and> cp_status c = CargoplaceTableInProgress)
                (\<lambda>c. c\<lparr>cp_status := CargoplaceTableClosed\<rparr>)) (\<lambda>affected.
     tx_seq (if affected = 0 then tx_query (\<lambda>s. if \<not> cargoplaceExists cargoplaceID s
               then Inl (Svc ErrCargoplaceNotFound) else Inl (Svc ErrCargoplaceNotInProgress))
             else tx_return ())
    (tx_bind (tx_get (ListExpectedSKUsByCargoplace cargoplaceID)) (\<lambda>expectedSKUs.
     tx_bind (tx_get (listReceivedProductCountsBySKU cargoplaceID)) (\<lambda>receivedSKUCounts.
     tx_seq (insertReceivingTableLogTx (fresh E 0)
        ((table_log cargoplaceID operatorID ''CLOSE_CARGO'' occurredAt)\<lparr>tp_operation := Some operationID\<rparr>))
    (tx_seq (ops_tx (WriteActions (clock E 0) op payloads))
    (tx_return \<lparr> cr_expected = expectedSKUs, cr_received = receivedSKUCounts,
                 cr_events = length (op_parts op) \<rparr>)))))))))))))"

section \<open>Helpers\<close>

record shortage =
  sg_name :: string
  sg_expected :: int
  sg_received :: int
  sg_shortage :: int

record close_summary =
  cs_received :: int
  cs_expected :: int
  cs_shortage :: int
  cs_by_sku :: "shortage list"

text \<open>The body of the loop over the expected SKUs.\<close>

definition summary_step :: "(uuid \<Rightarrow> received_count option) \<Rightarrow> close_summary \<Rightarrow> expected_sku \<Rightarrow> close_summary" where
  "summary_step receivedBySKU acc x =
     (let receivedQty = (case receivedBySKU (es_sku x) of None \<Rightarrow> 0 | Some r \<Rightarrow> rc_qty r);
          missing = es_qty x - receivedQty;
          acc = acc\<lparr>cs_expected := cs_expected acc + es_qty x\<rparr>
      in if missing \<le> 0 then acc
         else acc\<lparr> cs_shortage := cs_shortage acc + missing,
                   cs_by_sku := cs_by_sku acc @ [\<lparr> sg_name = es_name x, sg_expected = es_qty x,
                      sg_received = receivedQty, sg_shortage = missing \<rparr>] \<rparr>)"

definition buildCloseCargoplaceSummary :: "expected_sku list \<Rightarrow> received_count list \<Rightarrow> close_summary" where
  "buildCloseCargoplaceSummary expectedSKUs receivedSKUs =
     (let receivedBySKU = foldl (\<lambda>m r. m(rc_sku r \<mapsto> r)) Map.empty receivedSKUs;
          totalReceived = foldl (\<lambda>n r. n + rc_qty r) 0 receivedSKUs
      in foldl (summary_step receivedBySKU)
           \<lparr> cs_received = totalReceived, cs_expected = 0, cs_shortage = 0, cs_by_sku = [] \<rparr> expectedSKUs)"

text \<open>
  \<^verbatim>\<open>strings.TrimSpace\<close>: the UTF-8 encodings of Unicode white space, taken off both
  ends. Upper case is written for ASCII: no other character has an upper-case form
  among the letters of \<^verbatim>\<open>BUFFER\<close>.
\<close>

definition white_space :: "string list" where
  "white_space =
     [[CHR 0x09], [CHR 0x0A], [CHR 0x0B], [CHR 0x0C], [CHR 0x0D], [CHR 0x20],
      [CHR 0xC2, CHR 0x85], [CHR 0xC2, CHR 0xA0], [CHR 0xE1, CHR 0x9A, CHR 0x80]]
     @ map (\<lambda>n. [CHR 0xE2, CHR 0x80, char_of (0x80 + n)]) [0..<11]
     @ [[CHR 0xE2, CHR 0x80, CHR 0xA8], [CHR 0xE2, CHR 0x80, CHR 0xA9], [CHR 0xE2, CHR 0x80, CHR 0xAF],
        [CHR 0xE2, CHR 0x81, CHR 0x9F], [CHR 0xE3, CHR 0x80, CHR 0x80]]"

function trim_prefix :: "string list \<Rightarrow> string \<Rightarrow> string" where
  "trim_prefix ws s =
     (case List.find (\<lambda>w. w \<noteq> [] \<and> has_prefix w s) ws of
        None \<Rightarrow> s | Some w \<Rightarrow> trim_prefix ws (drop (length w) s))"
  by pat_completeness auto
termination
proof (relation "measure (\<lambda>(ws, s). length s)")
  fix ws s w assume "List.find (\<lambda>w. w \<noteq> [] \<and> has_prefix w s) ws = Some w"
  then have "w \<noteq> []" "has_prefix w s" by (auto dest: find_Some_set)
  then have "0 < length w" "length w \<le> length s"
    by (simp, metis has_prefix_def length_take min.cobounded1)
  then show "((ws, drop (length w) s), ws, s) \<in> measure (\<lambda>(ws, s). length s)"
    by (simp del: length_greater_0_conv)
qed simp

declare trim_prefix.simps [simp del]

definition TrimSpace :: "string \<Rightarrow> string" where
  "TrimSpace s = rev (trim_prefix (map rev white_space) (rev (trim_prefix white_space s)))"

definition isBufferBin :: "bin \<Rightarrow> bool" where
  "isBufferBin b = (case bn_section b of None \<Rightarrow> False
     | Some section \<Rightarrow> map ascii_upper (TrimSpace section) = ''BUFFER'')"

definition scanCodeMaxLen :: nat where
  "scanCodeMaxLen = 256"

definition validateScanCode :: "string \<Rightarrow> receiving_err svc_err + string" where
  "validateScanCode raw =
     (let trimmed = TrimSpace raw in
      if trimmed = [] then Inl (Svc ReceivingInvalidInput)
      else if length trimmed > scanCodeMaxLen then Inl (Svc ReceivingInvalidInput)
      else Inr trimmed)"

end
