(* ===== verification/Receiving.thy ===== *)
theory Receiving
  imports ReceivingStore
begin

text \<open>
  \<^verbatim>\<open>wms/internal/receiving/service.go\<close> and \<^verbatim>\<open>close_signed.go\<close>: the gate (shipment and
  cargoplace scans, acceptance), the table (boxes, SKUs, QR codes, buffer) and the
  signed closing of a cargoplace. Each operation is the whole handler: its input
  checks, what runs before its transaction, the transaction body and what it reads
  afterwards. The \<open>k\<close>-th clock reading and identifier of a call are those of its
  \<open>k\<close>-th call site.
\<close>

record progress =
  pg_total :: int
  pg_received :: int
  pg_remaining :: int
  pg_not_received :: int

section \<open>The gate\<close>

record scan_ttn_result =
  st_shipment :: uuid
  st_ttn :: string
  st_status :: shipment_status
  st_cargoplaces :: "(uuid \<times> string \<times> cargoplace_status) list"
  st_total :: nat
  st_received :: nat

definition gate_log :: "inbound_shipment \<Rightarrow> uuid \<Rightarrow> string \<Rightarrow> timestamp \<Rightarrow> gate_log_params" where
  "gate_log shipment operatorID action now =
     \<lparr> gp_ttn = Some (sh_ttn shipment), gp_code = None, gp_shipment = Some (sh_id shipment),
       gp_cargoplace = None, gp_operator = operatorID, gp_action = action, gp_occurred = now \<rparr>"

text \<open>The status the shipment has after the first statement of the transaction of \<^verbatim>\<open>ScanTTN\<close>.\<close>

definition open_gate :: "inbound_shipment \<Rightarrow> shipment_status receiving_tx" where
  "open_gate shipment =
     (if sh_status shipment = ShipmentCreated then
        tx_handle (tx_seq (UpdateShipmentStatus (sh_id shipment) ShipmentGateInProgress ShipmentCreated)
                     (tx_return ShipmentGateInProgress))
          (\<lambda>e. if e = Svc ErrShipmentNotFound then
                 tx_bind (GetShipmentByID (sh_id shipment)) (\<lambda>current.
                 if sh_status current = ShipmentGateInProgress then tx_return ShipmentGateInProgress
                 else tx_fail (Svc ErrShipmentAlreadyClosed))
               else tx_fail e)
      else tx_return (sh_status shipment))"

definition ScanTTN :: "call_env \<Rightarrow> uuid \<Rightarrow> string \<Rightarrow> scan_ttn_result receiving_tx" where
  "ScanTTN E operatorID raw =
     tx_seq (tx_check (operatorID \<noteq> uuid_Nil) (Svc ReceivingInvalidInput))
    (tx_bind (tx_lift (validateScanCode raw)) (\<lambda>ttnCode.
     tx_bind (GetShipmentByTTN ttnCode) (\<lambda>shipment.
     tx_seq (tx_check (sh_status shipment \<noteq> ShipmentGateClosed) (Svc ErrShipmentAlreadyClosed))
    (tx_bind (WithTx (
        tx_bind (open_gate shipment) (\<lambda>status.
        tx_seq (InsertReceivingGateLog (fresh E 0) (gate_log shipment operatorID ''SCAN_TTN'' (clock E 0)))
          (tx_return status)))) (\<lambda>status.
     tx_bind (tx_get (ListCargoplacesByShipment (sh_id shipment))) (\<lambda>cs.
     tx_return \<lparr> st_shipment = sh_id shipment, st_ttn = sh_ttn shipment, st_status = status,
       st_cargoplaces = map (\<lambda>c. (cp_id c, cp_code c, cp_status c)) cs,
       st_total = length cs,
       st_received = length (filter (\<lambda>c. cp_status c = CargoplaceReceivedAtGate) cs) \<rparr>))))))"

definition countShipmentProgress :: "uuid \<Rightarrow> (nat \<times> nat) receiving_tx" where
  "countShipmentProgress shipmentID = tx_get (\<lambda>s.
     (CountCargoplaces shipmentID s, CountCargoplacesByStatus shipmentID CargoplaceReceivedAtGate s))"

definition tryAutoCloseShipment ::
  "uuid \<Rightarrow> timestamp \<Rightarrow> inbound_shipment \<Rightarrow> nat \<Rightarrow> nat \<Rightarrow> uuid \<Rightarrow> unit receiving_tx" where
  "tryAutoCloseShipment eventID now shipment all received operatorID =
     (if all = 0 \<or> received < all then tx_return ()
      else
        tx_bind (tx_handle
           (tx_seq (UpdateShipmentStatus (sh_id shipment) ShipmentGateClosed ShipmentGateInProgress) (tx_return True))
           (\<lambda>e. if e = Svc ErrShipmentNotFound then
                  tx_bind (GetShipmentByID (sh_id shipment)) (\<lambda>current.
                  if sh_status current = ShipmentGateClosed then tx_return False else tx_fail e)
                else tx_fail e)) (\<lambda>closed.
        if closed then InsertReceivingGateLog eventID (gate_log shipment operatorID ''SHIPMENT_ACCEPTED'' now)
        else tx_return ()))"

record scan_gate_result =
  sq_cargoplace :: uuid
  sq_code :: string
  sq_status :: cargoplace_status
  sq_received_at :: timestamp
  sq_progress :: progress

definition ScanCargoplace :: "call_env \<Rightarrow> uuid \<Rightarrow> uuid \<Rightarrow> string \<Rightarrow> scan_gate_result receiving_tx" where
  "ScanCargoplace E operatorID shipmentID raw =
     tx_seq (tx_check (operatorID \<noteq> uuid_Nil \<and> shipmentID \<noteq> uuid_Nil) (Svc ReceivingInvalidInput))
    (tx_bind (tx_lift (validateScanCode raw)) (\<lambda>code.
     let receivedAt = clock E 0 in
     tx_bind (WithTx (
        tx_bind (GetShipmentByID shipmentID) (\<lambda>shipment.
        tx_seq (tx_check (sh_status shipment = ShipmentGateInProgress) (Svc ErrShipmentNotInProgress))
       (tx_bind (GetCargoplaceByShipmentAndCode shipmentID code) (\<lambda>cp.
        tx_seq (tx_check (cp_status cp \<noteq> CargoplaceReceivedAtGate) (Svc ErrCargoplaceAlreadyReceived))
       (tx_seq (UpdateCargoplaceReceivedAtGate (cp_id cp) CargoplaceReceivedAtGate CargoplaceExpected receivedAt)
       (tx_seq (InsertReceivingGateLog (fresh E 0)
          \<lparr> gp_ttn = Some (sh_ttn shipment), gp_code = Some (cp_code cp), gp_shipment = Some (sh_id shipment),
            gp_cargoplace = Some (cp_id cp), gp_operator = operatorID, gp_action = ''SCAN_CARGOPLACE'',
            gp_occurred = receivedAt \<rparr>)
       (tx_bind (countShipmentProgress shipmentID) (\<lambda>(total, received).
        tx_seq (tryAutoCloseShipment (fresh E 1) (clock E 1) shipment total received operatorID)
          (tx_return (cp, total, received))))))))))) (\<lambda>(cp, total, received).
     tx_return \<lparr> sq_cargoplace = cp_id cp, sq_code = cp_code cp, sq_status = CargoplaceReceivedAtGate,
       sq_received_at = receivedAt,
       sq_progress = \<lparr> pg_total = int total, pg_received = int received,
                       pg_remaining = int total - int received, pg_not_received = 0 \<rparr> \<rparr>)))"

definition AcceptShipment :: "call_env \<Rightarrow> uuid \<Rightarrow> uuid \<Rightarrow> (uuid \<times> shipment_status \<times> progress) receiving_tx" where
  "AcceptShipment E operatorID shipmentID =
     tx_seq (tx_check (operatorID \<noteq> uuid_Nil \<and> shipmentID \<noteq> uuid_Nil) (Svc ReceivingInvalidInput))
    (tx_bind (GetShipmentByID shipmentID) (\<lambda>shipment.
     tx_seq (tx_check (sh_status shipment = ShipmentGateInProgress) (Svc ErrShipmentNotInProgress))
    (tx_bind (WithTx (
        tx_seq (MarkExpectedAsNotReceived (fresh E 0) (clock E 0) shipmentID CargoplaceNotReceived operatorID)
       (tx_seq (tx_handle (UpdateShipmentStatus shipmentID ShipmentGateClosed ShipmentGateInProgress)
          (\<lambda>e. tx_fail (if e = Svc ErrShipmentNotFound then Svc ErrShipmentNotInProgress else e)))
       (tx_seq (InsertReceivingGateLog (fresh E 1)
          \<lparr> gp_ttn = Some (sh_ttn shipment), gp_code = None, gp_shipment = Some shipmentID,
            gp_cargoplace = None, gp_operator = operatorID, gp_action = ''SHIPMENT_ACCEPTED'',
            gp_occurred = clock E 1 \<rparr>)
       (tx_bind (countShipmentProgress shipmentID) (\<lambda>(total, received).
        tx_bind (tx_get (CountCargoplacesByStatus shipmentID CargoplaceNotReceived)) (\<lambda>notReceived.
        tx_return (total, received, notReceived)))))))) (\<lambda>(total, received, notReceived).
     tx_return (shipmentID, ShipmentGateClosed,
       \<lparr> pg_total = int total, pg_received = int received, pg_remaining = 0,
         pg_not_received = int notReceived \<rparr>)))))"

section \<open>The table\<close>

definition ScanTableCargoplace ::
  "call_env \<Rightarrow> uuid \<Rightarrow> uuid \<Rightarrow> (uuid \<times> string \<times> cargoplace_status \<times> expected_sku list \<times> int) receiving_tx" where
  "ScanTableCargoplace E operatorID cargoplaceID =
     tx_seq (tx_check (operatorID \<noteq> uuid_Nil \<and> cargoplaceID \<noteq> uuid_Nil) (Svc ReceivingInvalidInput))
    (tx_bind (WithTx (
        tx_bind (GetCargoplaceByID cargoplaceID) (\<lambda>cp.
        tx_seq (tx_check (cp_status cp = CargoplaceReceivedAtGate) (Svc ErrCargoplaceNotReceivedAtGate))
       (tx_bind (tx_get (ListExpectedSKUsByCargoplace cargoplaceID)) (\<lambda>expectedSKUs.
        tx_seq (tx_handle (UpdateCargoplaceStatus cargoplaceID CargoplaceTableInProgress CargoplaceReceivedAtGate)
          (\<lambda>e. tx_fail (if e = Svc ErrCargoplaceNotFound then Svc ErrCargoplaceNotReceivedAtGate else e)))
       (tx_seq (InsertReceivingTableLog (fresh E 0) (table_log cargoplaceID operatorID ''SCAN_CARGOPLACE'' (clock E 0)))
          (tx_return (cp, expectedSKUs)))))))) (\<lambda>(cp, expectedSKUs).
     tx_return (cargoplaceID, cp_code cp, CargoplaceTableInProgress, expectedSKUs,
       sum_list (map es_qty expectedSKUs))))"

definition ScanBox :: "call_env \<Rightarrow> uuid \<Rightarrow> uuid \<Rightarrow> string \<Rightarrow> (uuid \<times> string \<times> box_status) receiving_tx" where
  "ScanBox E operatorID cargoplaceID raw =
     tx_seq (tx_check (operatorID \<noteq> uuid_Nil \<and> cargoplaceID \<noteq> uuid_Nil) (Svc ReceivingInvalidInput))
    (tx_bind (tx_lift (validateScanCode raw)) (\<lambda>barcode.
     tx_bind (WithTx (
        tx_bind (GetCargoplaceByIDForUpdate cargoplaceID) (\<lambda>cp.
        tx_seq (tx_check (cp_status cp = CargoplaceTableInProgress) (Svc ErrCargoplaceNotInProgress))
       (tx_bind (tx_handle
           (tx_bind (GetBoxByCargoplaceAndBarcode cargoplaceID barcode) (\<lambda>b. tx_return (Some b)))
           (\<lambda>e. if e = Svc ErrBoxNotFound then tx_return None else tx_fail e)) (\<lambda>found.
        tx_bind (case found of
            Some b \<Rightarrow> if bx_status b \<noteq> BoxOpen then tx_fail (Svc ErrBoxNotOpen) else tx_return b
          | None \<Rightarrow> UpsertBox (fresh E 0) cargoplaceID barcode BoxOpen) (\<lambda>b.
        tx_seq (InsertReceivingTableLog (fresh E 1)
            ((table_log cargoplaceID operatorID ''SCAN_BOX'' (clock E 0))
               \<lparr> tp_box := Some (bx_id b), tp_barcode := Some barcode \<rparr>))
          (tx_return b))))))) (\<lambda>b.
     tx_return (bx_id b, bx_barcode b, bx_status b))))"

text \<open>The guard \<^verbatim>\<open>ScanSKU\<close> and \<^verbatim>\<open>ScanQR\<close> share: a cargoplace on the table and an open box of it.\<close>

definition open_box_of :: "uuid \<Rightarrow> uuid \<Rightarrow> (cargoplace \<times> box) receiving_tx" where
  "open_box_of cargoplaceID boxID =
     tx_bind (GetCargoplaceByIDForUpdate cargoplaceID) (\<lambda>cp.
     tx_seq (tx_check (cp_status cp = CargoplaceTableInProgress) (Svc ErrCargoplaceNotInProgress))
    (tx_bind (GetBoxByID boxID) (\<lambda>b.
     tx_seq (tx_check (bx_cargoplace b = cargoplaceID) (Svc ErrBoxNotInCargoplace))
    (tx_seq (tx_check (bx_status b = BoxOpen) (Svc ErrBoxNotOpen))
    (tx_return (cp, b))))))"

definition ScanSKU :: "call_env \<Rightarrow> uuid \<Rightarrow> uuid \<Rightarrow> uuid \<Rightarrow> string \<Rightarrow> (uuid \<times> string \<times> string) receiving_tx" where
  "ScanSKU E operatorID cargoplaceID boxID raw =
     tx_seq (tx_check (operatorID \<noteq> uuid_Nil \<and> cargoplaceID \<noteq> uuid_Nil \<and> boxID \<noteq> uuid_Nil) (Svc ReceivingInvalidInput))
    (tx_bind (tx_lift (validateScanCode raw)) (\<lambda>barcode.
     tx_bind (WithTx (
        tx_bind (open_box_of cargoplaceID boxID) (\<lambda>_.
        tx_bind (GetSKUByBarcode barcode) (\<lambda>k.
        tx_seq (InsertReceivingTableLog (fresh E 0)
            ((table_log cargoplaceID operatorID ''SCAN_SKU'' (clock E 0))\<lparr> tp_box := Some boxID, tp_sku := Some (sk_id k) \<rparr>))
          (tx_return k))))) (\<lambda>k.
     tx_return (sk_id k, sk_name k, barcode))))"

record scan_qr_result =
  sr_product :: uuid
  sr_sku :: uuid
  sr_name :: string
  sr_qr :: string
  sr_status :: product_status
  sr_received :: nat
  sr_expected :: int

definition ScanQR :: "call_env \<Rightarrow> uuid \<Rightarrow> uuid \<Rightarrow> uuid \<Rightarrow> uuid \<Rightarrow> string \<Rightarrow> scan_qr_result receiving_tx" where
  "ScanQR E operatorID cargoplaceID boxID skuID raw =
     tx_seq (tx_check (operatorID \<noteq> uuid_Nil \<and> cargoplaceID \<noteq> uuid_Nil \<and> boxID \<noteq> uuid_Nil \<and> skuID \<noteq> uuid_Nil)
              (Svc ReceivingInvalidInput))
    (tx_bind (tx_lift (validateScanCode raw)) (\<lambda>qrCode.
     tx_bind (GetSKUByID skuID) (\<lambda>k.
     let productID = fresh E 0 in
     tx_seq (WithTx (
        tx_bind (open_box_of cargoplaceID boxID) (\<lambda>(cp, _).
        tx_seq (InsertProduct
            \<lparr> pr_id = productID, pr_sku = sk_id k, pr_shipment = cp_shipment cp, pr_cargoplace = cargoplaceID,
              pr_box = Some boxID, pr_qr = qrCode, pr_bin = None, pr_order = None,
              pr_status = ProductStatusReceived, pr_created = clock E 0 \<rparr>)
          (InsertReceivingTableLog (fresh E 1)
            ((table_log cargoplaceID operatorID ''SCAN_QR'' (clock E 1))
               \<lparr> tp_box := Some boxID, tp_sku := Some skuID, tp_qr := Some qrCode, tp_product := Some productID \<rparr>)))))
    (tx_bind (tx_get (CountProductsByCargoplace cargoplaceID)) (\<lambda>received.
     tx_bind (tx_get (CountExpectedItemsByCargoplace cargoplaceID)) (\<lambda>expected.
     tx_return \<lparr> sr_product = productID, sr_sku = sk_id k, sr_name = sk_name k, sr_qr = qrCode,
                 sr_status = ProductStatusReceived, sr_received = received, sr_expected = expected \<rparr>))))))"

definition CloseBox :: "call_env \<Rightarrow> uuid \<Rightarrow> uuid \<Rightarrow> (uuid \<times> box_status \<times> nat) receiving_tx" where
  "CloseBox E operatorID boxID =
     tx_seq (tx_check (operatorID \<noteq> uuid_Nil \<and> boxID \<noteq> uuid_Nil) (Svc ReceivingInvalidInput))
    (tx_seq (WithTx (
        tx_bind (GetBoxByID boxID) (\<lambda>b.
        tx_seq (tx_check (bx_status b = BoxOpen) (Svc ErrBoxNotOpen))
       (tx_bind (GetCargoplaceByIDForUpdate (bx_cargoplace b)) (\<lambda>cp.
        tx_seq (tx_check (cp_status cp = CargoplaceTableInProgress) (Svc ErrCargoplaceNotInProgress))
       (tx_seq (UpdateBoxStatus boxID BoxClosed)
          (InsertReceivingTableLog (fresh E 0)
            ((table_log (bx_cargoplace b) operatorID ''CLOSE_BOX'' (clock E 0))\<lparr>tp_box := Some boxID\<rparr>))))))))
    (tx_bind (tx_get (CountProductsByBox boxID)) (\<lambda>n. tx_return (boxID, BoxClosed, n))))"

definition ScanBuffer :: "call_env \<Rightarrow> uuid \<Rightarrow> uuid \<Rightarrow> uuid \<Rightarrow> (uuid \<times> string \<times> nat) receiving_tx" where
  "ScanBuffer E operatorID cargoplaceID bufferBinID =
     tx_seq (tx_check (operatorID \<noteq> uuid_Nil \<and> cargoplaceID \<noteq> uuid_Nil \<and> bufferBinID \<noteq> uuid_Nil)
              (Svc ReceivingInvalidInput))
    (tx_bind (GetBinByID bufferBinID) (\<lambda>bufferBin.
     tx_seq (tx_check (isBufferBin bufferBin) (Svc ErrBinNotBuffer))
    (tx_bind (WithTx (
        tx_bind (GetCargoplaceByIDForUpdate cargoplaceID) (\<lambda>cp.
        tx_seq (tx_check (cp_status cp = CargoplaceTableInProgress) (Svc ErrCargoplaceNotInProgress))
          (ScanBufferWithLog (fresh E 0) cargoplaceID bufferBinID
            ((table_log cargoplaceID operatorID ''SCAN_BUFFER'' (clock E 0))\<lparr>tp_buffer := Some bufferBinID\<rparr>))))) (\<lambda>moved.
     tx_return (bufferBinID, bn_code bufferBin, moved)))))"

section \<open>The signed close\<close>

definition DraftCloseCargoplace :: "config \<Rightarrow> call_env \<Rightarrow> uuid \<Rightarrow> uuid \<Rightarrow> operation receiving_tx" where
  "DraftCloseCargoplace C E operatorID cargoplaceID =
     tx_seq (tx_check (operatorID \<noteq> uuid_Nil \<and> cargoplaceID \<noteq> uuid_Nil) (Svc ReceivingInvalidInput))
    (tx_bind (GetCargoplaceByID cargoplaceID) (\<lambda>cp.
     tx_seq (tx_check (cp_status cp = CargoplaceTableInProgress) (Svc ErrCargoplaceNotInProgress))
    (tx_bind (tx_get (listClosableProductIDs cargoplaceID)) (\<lambda>items.
     tx_seq (tx_check (items \<noteq> []) (Svc ErrCargoplaceEmpty))
       (draft_operation C E TypeReceive operatorID (ReceiveDetails cargoplaceID) items
         (\<lambda>ms salt _. ReceiveDetailsHash (cf_crypto C) salt cargoplaceID operatorID ms))))))"

record close_cargoplace_result =
  cc_cargoplace :: uuid
  cc_operation :: uuid
  cc_status :: cargoplace_status
  cc_summary :: close_summary
  cc_events :: nat

definition SubmitCloseCargoplace ::
  "config \<Rightarrow> call_env \<Rightarrow> uuid \<Rightarrow> uuid \<Rightarrow> (uuid \<times> assertion) list \<Rightarrow> close_cargoplace_result receiving_tx" where
  "SubmitCloseCargoplace C E operatorID operationID assertions =
     tx_bind (load_submission C TypeReceive operatorID operationID assertions) (\<lambda>(op, payloads).
     let details = op_details op;
         occurredAt = of_unix_milli (details_ms details)
     in tx_bind (CloseCargoplaceWithOutbox (cf_crypto C) E (details_cargoplace details) operatorID occurredAt
                   (op_id op) payloads) (\<lambda>r.
        tx_return \<lparr> cc_cargoplace = details_cargoplace details, cc_operation = op_id op,
          cc_status = CargoplaceTableClosed,
          cc_summary = buildCloseCargoplaceSummary (cr_expected r) (cr_received r),
          cc_events = length payloads \<rparr>))"

end
