(* ===== verification/Stock.thy ===== *)
theory Stock
  imports SignedSubmit
begin

text \<open>
  What receiving, putaway, assembly and shipping share besides the signed operations:
  dropping repeated identifiers the way the Go loops do, the normalised section of a
  bin, and the relation every operation of the warehouse keeps: rows are never lost,
  their identity never changes and their status only moves forward.
\<close>

section \<open>Helpers of the services\<close>

text \<open>The \<^verbatim>\<open>seen\<close> loop: the first occurrence of a key stays.\<close>

primrec dedup :: "('x \<Rightarrow> 'k) \<Rightarrow> 'k set \<Rightarrow> 'x list \<Rightarrow> 'x list" where
  "dedup key seen [] = []"
| "dedup key seen (x # xs) =
     (if key x \<in> seen then dedup key seen xs else x # dedup key (insert (key x) seen) xs)"

lemma dedup_keys: "key ` set (dedup key seen xs) = key ` set xs - seen"
  by (induction xs arbitrary: seen) auto

lemma set_dedup_subset: "set (dedup key seen xs) \<subseteq> set xs"
  by (induction xs arbitrary: seen) auto

lemma distinct_dedup: "distinct (map key (dedup key seen xs))"
proof (induction xs arbitrary: seen)
  case (Cons x xs)
  have "key x \<notin> key ` set (dedup key (insert (key x) seen) xs)" by (simp add: dedup_keys)
  then show ?case using Cons by simp
qed simp

lemma set_dedup_id [simp]: "set (dedup (\<lambda>x. x) {} xs) = set xs"
  using dedup_keys [of "\<lambda>x. x" "{}" xs] by simp

lemma distinct_dedup_id [simp]: "distinct (dedup (\<lambda>x. x) seen xs)"
  using distinct_dedup [of "\<lambda>x. x" seen xs] by simp

lemma dedup_eq_Nil [simp]: "dedup key {} xs = [] \<longleftrightarrow> xs = []"
  by (cases xs) auto

lemma dedup_distinct: "distinct (map key xs) \<Longrightarrow> key ` set xs \<inter> seen = {} \<Longrightarrow> dedup key seen xs = xs"
  by (induction xs arbitrary: seen) auto

lemma distinct_keyD: "distinct (map key t) \<Longrightarrow> x \<in> set t \<Longrightarrow> y \<in> set t \<Longrightarrow> key x = key y \<Longrightarrow> x = y"
  unfolding distinct_map by (blast dest: inj_onD)

lemma set_sql_update_row:
  assumes "distinct (map key t)" "x \<in> set t" "\<And>r. P r \<Longrightarrow> key r = key x" "P x"
  shows "set (sql_update P f t) = insert (f x) (set t - {x})"
proof -
  have "P r = (key r = key x)" if "r \<in> set t" for r
    using that assms distinct_keyD [OF assms(1)] by blast
  then have "sql_update P f t = sql_update (\<lambda>r. key r = key x) f t"
    unfolding sql_update_def by (intro map_cong) simp_all
  then show ?thesis using set_sql_update_key [OF assms(1,2)] by simp
qed

lemma run_ok: "\<not> isl (fst x) \<Longrightarrow> \<exists>r s'. x = (Inr r, s')"
  by (cases x; cases "fst x") auto

lemma tx_handle_ok:
  "tx_handle m h s = (Inr b, s') \<longleftrightarrow>
     m s = (Inr b, s') \<or> (\<exists>e t. m s = (Inl e, t) \<and> h e t = (Inr b, s'))"
  by (auto simp: tx_handle_def split: prod.splits sum.splits)

lemma tx_if_ok:
  "(if b then m else n) s = (Inr a, s') \<longleftrightarrow> b \<and> m s = (Inr a, s') \<or> \<not> b \<and> n s = (Inr a, s')"
  by simp

lemma in_map_filter: "x \<in> set (List.map_filter f xs) \<longleftrightarrow> (\<exists>y\<in>set xs. f y = Some x)"
  by (induction xs) (auto simp: List.map_filter_simps split: option.splits)

lemma sql_count_update: "sql_count P (sql_update Q f t) = sql_count (\<lambda>r. P (if Q r then f r else r)) t"
  by (simp add: sql_count_def sql_update_def filter_map o_def)

lemma sql_count_disj:
  "(\<And>r. \<not> (P r \<and> Q r)) \<Longrightarrow> sql_count (\<lambda>r. P r \<or> Q r) t = sql_count P t + sql_count Q t"
  unfolding sql_count_def by (induction t) auto

lemma distinct_map_sort_key: "distinct (map f (sort_key g xs)) = distinct (map f xs)"
  by (rule mset_eq_imp_distinct_iff) (simp only: mset_map mset_sort)

text \<open>\<^verbatim>\<open>UPPER(TRIM(section))\<close>: \<^verbatim>\<open>TRIM\<close> takes blanks off; upper case is written for ASCII.\<close>

definition upper_trim :: "string \<Rightarrow> string" where
  "upper_trim s =
     (let left = dropWhile (\<lambda>c. c = CHR '' '') s in
      map ascii_upper (rev (dropWhile (\<lambda>c. c = CHR '' '') (rev left))))"

definition normal_section :: "bin \<Rightarrow> string option" where
  "normal_section b = map_option upper_trim (bn_section b)"

section \<open>What never goes back\<close>

text \<open>
  Row by row: \<open>x_step r r'\<close> says that \<open>r'\<close> is a later version of the row \<open>r\<close>. A product is
  received, stored, allocated, assembled, ready to ship, shipped; a cargoplace that is
  expected may be received at the gate or be reported missing; and so on.
\<close>

primrec product_rank :: "product_status \<Rightarrow> nat" where
  "product_rank ProductStatusReceived = 0"
| "product_rank ProductStatusStored = 1"
| "product_rank ProductStatusAllocated = 2"
| "product_rank ProductStatusAssembled = 3"
| "product_rank ProductStatusReadyToShip = 4"
| "product_rank ProductStatusShipped = 5"

definition product_step :: "product \<Rightarrow> product \<Rightarrow> bool" where
  "product_step p q \<longleftrightarrow>
     pr_id q = pr_id p \<and> pr_sku q = pr_sku p \<and> pr_shipment q = pr_shipment p
   \<and> pr_cargoplace q = pr_cargoplace p \<and> pr_box q = pr_box p \<and> pr_qr q = pr_qr p \<and> pr_created q = pr_created p
   \<and> product_rank (pr_status p) \<le> product_rank (pr_status q)
   \<and> (2 \<le> product_rank (pr_status p) \<longrightarrow> pr_order q = pr_order p)"

primrec shipment_rank :: "shipment_status \<Rightarrow> nat" where
  "shipment_rank ShipmentCreated = 0"
| "shipment_rank ShipmentGateInProgress = 1"
| "shipment_rank ShipmentGateClosed = 2"

definition shipment_step :: "inbound_shipment \<Rightarrow> inbound_shipment \<Rightarrow> bool" where
  "shipment_step r q \<longleftrightarrow> sh_id q = sh_id r \<and> sh_ttn q = sh_ttn r \<and> sh_warehouse q = sh_warehouse r
     \<and> shipment_rank (sh_status r) \<le> shipment_rank (sh_status q)"

definition cargoplace_next :: "cargoplace_status \<Rightarrow> cargoplace_status \<Rightarrow> bool" where
  "cargoplace_next a b \<longleftrightarrow> a = b \<or> a = CargoplaceExpected
     \<or> a = CargoplaceReceivedAtGate \<and> (b = CargoplaceTableInProgress \<or> b = CargoplaceTableClosed)
     \<or> a = CargoplaceTableInProgress \<and> b = CargoplaceTableClosed"

definition cargoplace_step :: "cargoplace \<Rightarrow> cargoplace \<Rightarrow> bool" where
  "cargoplace_step c d \<longleftrightarrow> cp_id d = cp_id c \<and> cp_shipment d = cp_shipment c \<and> cp_code d = cp_code c
     \<and> cargoplace_next (cp_status c) (cp_status d)"

definition box_step :: "box \<Rightarrow> box \<Rightarrow> bool" where
  "box_step b c \<longleftrightarrow> bx_id c = bx_id b \<and> bx_cargoplace c = bx_cargoplace b \<and> bx_barcode c = bx_barcode b
     \<and> (bx_status b = BoxClosed \<longrightarrow> bx_status c = BoxClosed)"

primrec order_rank :: "order_status \<Rightarrow> nat" where
  "order_rank OrderStatusNew = 0"
| "order_rank OrderStatusAllocated = 1"
| "order_rank OrderStatusAssembled = 2"
| "order_rank OrderStatusPartiallyShipped = 3"
| "order_rank OrderStatusShipped = 4"

definition order_step :: "order_row \<Rightarrow> order_row \<Rightarrow> bool" where
  "order_step r q \<longleftrightarrow> or_id q = or_id r \<and> or_external_no q = or_external_no r \<and> or_destination q = or_destination r
     \<and> order_rank (or_status r) \<le> order_rank (or_status q)"

definition task_step :: "assembly_task \<Rightarrow> assembly_task \<Rightarrow> bool" where
  "task_step t u \<longleftrightarrow> at_event u = at_event t \<and> at_order u = at_order t \<and> at_product u = at_product t
     \<and> at_from_bin u = at_from_bin t \<and> at_destination u = at_destination t
     \<and> (at_status t \<noteq> TaskStatusPending \<longrightarrow> at_status u = at_status t \<and> at_operator u = at_operator t)
     \<and> (at_action t \<noteq> None \<longrightarrow> at_action u = at_action t \<and> at_unloaded u = at_unloaded t)"

definition dispatch_next :: "dispatch_status \<Rightarrow> dispatch_status \<Rightarrow> bool" where
  "dispatch_next a b \<longleftrightarrow> a = b \<or> a = OutboundDispatchStatusScheduled
     \<or> a = OutboundDispatchStatusAtGate \<and> b = OutboundDispatchStatusDeparted"

definition dispatch_step :: "outbound_dispatch \<Rightarrow> outbound_dispatch \<Rightarrow> bool" where
  "dispatch_step d e \<longleftrightarrow> dp_id e = dp_id d \<and> dp_code e = dp_code d \<and> dp_destination e = dp_destination d
     \<and> dispatch_next (dp_status d) (dp_status e)"

definition action_step :: "warehouse_action \<Rightarrow> warehouse_action \<Rightarrow> bool" where
  "action_step a b \<longleftrightarrow> (\<exists>t. b = a\<lparr>wa_submitted := t\<rparr> \<and> (wa_submitted a \<noteq> None \<longrightarrow> t \<noteq> None))"

lemmas row_steps = product_step_def shipment_step_def cargoplace_step_def box_step_def order_step_def
  task_step_def dispatch_step_def cargoplace_next_def dispatch_next_def

text \<open>The primary key of the orders, under which they keep their places.\<close>

definition orders_forward :: "order_row list \<Rightarrow> order_row list \<Rightarrow> bool" where
  "orders_forward t t' \<longleftrightarrow> (distinct (map or_id t) \<longrightarrow> list_all2 order_step t t')"

text \<open>Everything but the products; the orders need their primary key.\<close>

definition rows_forward :: "wms_db \<Rightarrow> wms_db \<Rightarrow> bool" where
  "rows_forward s s' \<longleftrightarrow>
     grows shipment_step (inbound_shipments s) (inbound_shipments s')
   \<and> grows cargoplace_step (cargoplaces s) (cargoplaces s')
   \<and> grows box_step (boxes s) (boxes s')
   \<and> orders_forward (orders s) (orders s')
   \<and> grows task_step (assembly_tasks s) (assembly_tasks s')
   \<and> grows dispatch_step (outbound_dispatches s) (outbound_dispatches s')
   \<and> grows action_step (warehouse_actions s) (warehouse_actions s')
   \<and> grows (=) (receiving_gate s) (receiving_gate s')
   \<and> grows (=) (receiving_table s) (receiving_table s')
   \<and> grows (=) (putaways s) (putaways s')
   \<and> grows (=) (shippings s) (shippings s')
   \<and> grows (=) (outbox_events s) (outbox_events s')"

definition product_keys :: "wms_db \<Rightarrow> bool" where
  "product_keys s \<longleftrightarrow> distinct (map pr_id (products s)) \<and> distinct (map pr_qr (products s))"

definition products_forward :: "wms_db \<Rightarrow> wms_db \<Rightarrow> bool" where
  "products_forward s s' \<longleftrightarrow> (product_keys s \<longrightarrow>
     product_keys s' \<and> grows product_step (products s) (products s'))"

text \<open>Each row relation is a preorder.\<close>

lemma row_step_refl [simp]:
  "product_step p p" "shipment_step r r" "cargoplace_step c c" "box_step b b" "order_step q q"
  "task_step t t" "dispatch_step d d" "action_step a a"
  by (auto simp: row_steps action_step_def intro: exI [of _ "wa_submitted a"])

lemma action_step_mark [simp]: "action_step r (r\<lparr>wa_submitted := Some now\<rparr>)"
  by (auto simp: action_step_def)

lemma product_step_trans: "product_step a b \<Longrightarrow> product_step b c \<Longrightarrow> product_step a c"
  by (auto simp: product_step_def)

lemma shipment_step_trans: "shipment_step a b \<Longrightarrow> shipment_step b c \<Longrightarrow> shipment_step a c"
  by (auto simp: shipment_step_def)

lemma cargoplace_step_trans: "cargoplace_step a b \<Longrightarrow> cargoplace_step b c \<Longrightarrow> cargoplace_step a c"
  by (auto simp: cargoplace_step_def cargoplace_next_def)

lemma box_step_trans: "box_step a b \<Longrightarrow> box_step b c \<Longrightarrow> box_step a c"
  by (auto simp: box_step_def)

lemma order_step_trans: "order_step a b \<Longrightarrow> order_step b c \<Longrightarrow> order_step a c"
  by (auto simp: order_step_def)

lemma task_step_trans: "task_step a b \<Longrightarrow> task_step b c \<Longrightarrow> task_step a c"
  by (auto simp: task_step_def)

lemma dispatch_step_trans: "dispatch_step a b \<Longrightarrow> dispatch_step b c \<Longrightarrow> dispatch_step a c"
  by (auto simp: dispatch_step_def dispatch_next_def)

lemma action_step_trans: "action_step a b \<Longrightarrow> action_step b c \<Longrightarrow> action_step a c"
  by (auto simp: action_step_def)

lemmas step_trans = product_step_trans shipment_step_trans cargoplace_step_trans box_step_trans
  order_step_trans task_step_trans dispatch_step_trans action_step_trans

lemma orders_forward_refl [simp]: "orders_forward t t"
  by (simp add: orders_forward_def list_all2_refl)

lemma list_all2_order_ids: "list_all2 order_step t u \<Longrightarrow> map or_id u = map or_id t"
  by (induction rule: list_all2_induct) (auto simp: order_step_def)

lemma orders_forward_trans: "orders_forward t u \<Longrightarrow> orders_forward u v \<Longrightarrow> orders_forward t v"
  unfolding orders_forward_def
  by (auto intro: list_all2_trans [OF order_step_trans] simp: list_all2_order_ids)

lemma orders_forward_update:
  "(\<And>r. distinct (map or_id t) \<Longrightarrow> r \<in> set t \<Longrightarrow> P r \<Longrightarrow> order_step r (f r)) \<Longrightarrow> orders_forward t (sql_update P f t)"
  unfolding orders_forward_def by (intro impI list_all2_sql_update) auto

lemma rows_forward_refl [simp]: "rows_forward s s"
  by (simp add: rows_forward_def grows_refl)

lemma rows_forward_trans: "rows_forward s t \<Longrightarrow> rows_forward t u \<Longrightarrow> rows_forward s u"
  unfolding rows_forward_def
  by (intro conjI; elim conjE; blast intro: grows_trans step_trans trans orders_forward_trans)

lemma products_forward_refl [simp]: "products_forward s s"
  by (simp add: products_forward_def grows_refl)

lemma products_forward_trans: "products_forward s t \<Longrightarrow> products_forward t u \<Longrightarrow> products_forward s u"
  unfolding products_forward_def by (blast intro: grows_trans product_step_trans)

interpretation rowf: tx_preorder rows_forward
  by unfold_locales (simp, rule rows_forward_trans)

interpretation prodf: tx_preorder products_forward
  by unfold_locales (simp, rule products_forward_trans)

section \<open>Statements\<close>

text \<open>A statement changes one table; the others are equal before and after.\<close>

lemma rows_forwards:
  "grows shipment_step (inbound_shipments s) (f0 (inbound_shipments s)) \<Longrightarrow> rows_forward s (inbound_shipments_update f0 s)"
  "grows cargoplace_step (cargoplaces s) (f1 (cargoplaces s)) \<Longrightarrow> rows_forward s (cargoplaces_update f1 s)"
  "grows box_step (boxes s) (f2 (boxes s)) \<Longrightarrow> rows_forward s (boxes_update f2 s)"
  "orders_forward (orders s) (f3 (orders s)) \<Longrightarrow> rows_forward s (orders_update f3 s)"
  "grows task_step (assembly_tasks s) (f4 (assembly_tasks s)) \<Longrightarrow> rows_forward s (assembly_tasks_update f4 s)"
  "grows dispatch_step (outbound_dispatches s) (f5 (outbound_dispatches s)) \<Longrightarrow> rows_forward s (outbound_dispatches_update f5 s)"
  "grows action_step (warehouse_actions s) (f6 (warehouse_actions s)) \<Longrightarrow> rows_forward s (warehouse_actions_update f6 s)"
  "grows (=) (receiving_gate s) (f7 (receiving_gate s)) \<Longrightarrow> rows_forward s (receiving_gate_update f7 s)"
  "grows (=) (receiving_table s) (f8 (receiving_table s)) \<Longrightarrow> rows_forward s (receiving_table_update f8 s)"
  "grows (=) (putaways s) (f9 (putaways s)) \<Longrightarrow> rows_forward s (putaways_update f9 s)"
  "grows (=) (shippings s) (f10 (shippings s)) \<Longrightarrow> rows_forward s (shippings_update f10 s)"
  "grows (=) (outbox_events s) (f11 (outbox_events s)) \<Longrightarrow> rows_forward s (outbox_events_update f11 s)"
  by (simp_all add: rows_forward_def grows_refl)

lemmas row_updates = rows_forwards grows_update orders_forward_update

lemma rows_forward_products [simp]: "rows_forward s (products_update f s)"
  by (simp add: rows_forward_def grows_refl)

lemma products_forward_same: "products s' = products s \<Longrightarrow> products_forward s s'"
  by (simp add: products_forward_def product_keys_def grows_refl)

lemma products_forward_update:
  assumes "\<And>p. product_keys s \<Longrightarrow> p \<in> set (products s) \<Longrightarrow> P p \<Longrightarrow> product_step p (f p)"
  shows "products_forward s (products_update (sql_update P f) s)"
  unfolding products_forward_def
proof (intro impI conjI)
  assume k: "product_keys s"
  have id: "map g (sql_update P f (products s)) = map g (products s)"
    if "\<And>p. p \<in> set (products s) \<Longrightarrow> P p \<Longrightarrow> g (f p) = g p" for g :: "product \<Rightarrow> 'k"
    using that by (auto simp: sql_update_def)
  show "product_keys (products_update (sql_update P f) s)"
    using k assms [OF k] id [of pr_id] id [of pr_qr] by (simp add: product_keys_def product_step_def)
  show "grows product_step (products s) (products (products_update (sql_update P f) s))"
    using assms [OF k] by (simp add: grows_update)
qed

lemma rel_sql_exec: "(\<And>s. R s (upd (sql_update P f) s)) \<Longrightarrow> tx_rel R (sql_exec get upd P f)"
  by (simp add: tx_rel_def tx_simps)

lemma rel_sql_exec_some: "(\<And>s. R s (upd (sql_update P f) s)) \<Longrightarrow> tx_rel R (sql_exec_some get upd e P f)"
  by (simp add: tx_rel_def tx_simps)

lemma rel_sql_insert:
  "(\<And>s. R s s) \<Longrightarrow> (\<And>s. R s (upd (\<lambda>t. t @ [r]) s)) \<Longrightarrow> tx_rel R (sql_insert get upd key e r)"
  by (simp add: tx_rel_def tx_simps)

lemmas rel_statement = rel_sql_exec rel_sql_exec_some rel_sql_insert

lemma rel_modify: "(\<And>s. R s (g s)) \<Longrightarrow> tx_rel R (tx_modify g)"
  by (simp add: tx_rel_def tx_simps)

text \<open>The statements of signed operations and the key refresh.\<close>

lemma rows_forward_keys_only: "keys_only s s' \<Longrightarrow> rows_forward s s'"
  by (auto simp: keys_only_def rows_forward_def grows_refl)

lemma tx_rel_mono: "(\<And>s s'. R s s' \<Longrightarrow> Q s s') \<Longrightarrow> tx_rel R m \<Longrightarrow> tx_rel Q m"
  by (auto simp: tx_rel_def)

lemma ActiveSigner_rows [tx_rules]: "tx_rel rows_forward (ActiveSigner X chain u)"
  by (rule tx_rel_mono [OF rows_forward_keys_only ActiveSigner_keys_only])

lemma load_submission_rows [tx_rules]: "tx_rel rows_forward (load_submission C t u oid as)"
  by (rule tx_rel_mono [OF rows_forward_keys_only load_submission_keys_only])

lemma keys_only_products: "keys_only s s' \<Longrightarrow> products_forward s s'"
  by (rule products_forward_same) (rule keys_only_tables(5))

lemma ActiveSigner_products [tx_rules]: "tx_rel products_forward (ActiveSigner X chain u)"
  by (rule tx_rel_mono [OF keys_only_products ActiveSigner_keys_only])

lemma load_submission_products [tx_rules]: "tx_rel products_forward (load_submission C t u oid as)"
  by (rule tx_rel_mono [OF keys_only_products load_submission_keys_only])

lemma insert_action_rows [tx_rules]: "tx_rel rows_forward (insert_action r)"
  by (simp add: tx_rel_def insert_action_def tx_simps rows_forwards grows_append)

lemma insert_action_products [tx_rules]: "tx_rel products_forward (insert_action r)"
  by (simp add: tx_rel_def insert_action_def tx_simps products_forward_same)

lemma InsertOperation_rows [tx_rules]: "tx_rel rows_forward (InsertOperation op)"
  unfolding InsertOperation_def by (intro tx_rules)

lemma InsertOperation_products [tx_rules]: "tx_rel products_forward (InsertOperation op)"
  unfolding InsertOperation_def by (intro tx_rules)

lemma LockOperation_rel [tx_rules]:
  "tx_rel rows_forward (LockOperation oid u)" "tx_rel products_forward (LockOperation oid u)"
  "tx_rel rows_forward (LockSigner c)" "tx_rel products_forward (LockSigner c)"
  unfolding LockOperation_def LockSigner_def by (intro tx_rules)+

lemma WriteActions_rows [tx_rules]: "tx_rel rows_forward (WriteActions now op payloads)"
  unfolding WriteActions_def split_def
  by (intro tx_rules rel_statement rows_forwards)
     (auto simp: grows_append intro!: grows_update)

lemma WriteActions_products [tx_rules]: "tx_rel products_forward (WriteActions now op payloads)"
  unfolding WriteActions_def split_def by (intro tx_rules rel_statement products_forward_same) simp_all

lemma draft_operation_rows [tx_rules]: "tx_rel rows_forward (draft_operation C E t u d items h)"
  unfolding draft_operation_def by (intro tx_rules)

lemma draft_operation_products [tx_rules]: "tx_rel products_forward (draft_operation C E t u d items h)"
  unfolding draft_operation_def by (intro tx_rules)

section \<open>Failed operations\<close>

text \<open>
  \<open>tx_atomic R m\<close>: when \<open>m\<close> fails, what it leaves is related by \<open>R\<close> to what it found; with
  \<open>(=)\<close> nothing was written. Reads may come before a transaction, and what comes after it
  must not fail.
\<close>

definition tx_atomic :: "('s \<Rightarrow> 's \<Rightarrow> bool) \<Rightarrow> ('s, 'e, 'a) tx \<Rightarrow> bool" where
  "tx_atomic R m \<longleftrightarrow> (\<forall>s e s'. m s = (Inl e, s') \<longrightarrow> R s s')"

definition tx_total :: "('s, 'e, 'a) tx \<Rightarrow> bool" where
  "tx_total m \<longleftrightarrow> (\<forall>s. \<not> isl (fst (m s)))"

lemma tx_atomicD: "tx_atomic R m \<Longrightarrow> m s = (Inl e, s') \<Longrightarrow> R s s'"
  by (simp add: tx_atomic_def)

lemma total_rules:
  "tx_total (tx_return a)" "tx_total (tx_get q)"
  "tx_total m \<Longrightarrow> (\<And>a. tx_total (f a)) \<Longrightarrow> tx_total (tx_bind m f)"
  unfolding tx_total_def by (simp_all add: tx_simps split: sum.splits) (metis isl_def)+

context tx_preorder
begin

lemma atomic_rel: "tx_rel R m \<Longrightarrow> tx_atomic R m"
  unfolding tx_atomic_def by (blast intro: tx_relD)

lemma atomic_read: "tx_rel R m \<Longrightarrow> (\<And>a. tx_atomic R (f a)) \<Longrightarrow> tx_atomic R (tx_bind m f)"
  unfolding tx_atomic_def
proof (intro allI impI)
  fix s e s'
  assume m: "tx_rel R m" and f: "\<And>a. \<forall>s e s'. f a s = (Inl e, s') \<longrightarrow> R s s'"
    and run: "tx_bind m f s = (Inl e, s')"
  obtain r t where t: "m s = (r, t)" by (cases "m s")
  then have "R s t" using m by (blast intro: tx_relD)
  then show "R s s'"
    using run t f by (cases r) (auto simp: tx_bind_def intro: R_trans)
qed

lemma atomic_seq: "tx_rel R m \<Longrightarrow> tx_atomic R n \<Longrightarrow> tx_atomic R (tx_seq m n)"
  unfolding tx_seq_def by (rule atomic_read)

lemma atomic_WithTx: "tx_atomic R (WithTx m)"
  by (auto simp: tx_atomic_def R_refl dest: WithTx_error)

lemma atomic_then: "tx_atomic R m \<Longrightarrow> (\<And>a. tx_total (f a)) \<Longrightarrow> tx_atomic R (tx_bind m f)"
  unfolding tx_atomic_def
proof (intro allI impI)
  fix s e s'
  assume m: "\<forall>s e s'. m s = (Inl e, s') \<longrightarrow> R s s'" and f: "\<And>a. tx_total (f a)"
    and run: "tx_bind m f s = (Inl e, s')"
  obtain r t where t: "m s = (r, t)" by (cases "m s")
  show "R s s'"
  proof (cases r)
    case (Inl x)
    then show ?thesis using run t m by (simp add: tx_bind_def)
  next
    case (Inr a)
    then have "f a t = (Inl e, s')" using run t by (simp add: tx_bind_def)
    then show ?thesis using f [of a] unfolding tx_total_def by (metis fst_conv sum.disc(1))
  qed
qed

lemma atomic_then_seq: "tx_atomic R m \<Longrightarrow> tx_total n \<Longrightarrow> tx_atomic R (tx_seq m n)"
  unfolding tx_seq_def by (rule atomic_then)

lemma atomic_cases:
  "(y = None \<Longrightarrow> tx_atomic R m) \<Longrightarrow> (\<And>a. y = Some a \<Longrightarrow> tx_atomic R (f a)) \<Longrightarrow>
   tx_atomic R (case y of None \<Rightarrow> m | Some a \<Rightarrow> f a)"
  "tx_atomic R (g x) \<Longrightarrow> tx_atomic R (Let x g)"
  by (cases y) auto

end

lemma atomic_ops: "tx_atomic R m \<Longrightarrow> tx_atomic R (ops_tx m)"
  by (auto simp: tx_atomic_def ops_tx_error)

text \<open>Nothing at all is written.\<close>

interpretation eqf: tx_preorder "(=)"
  by unfold_locales simp_all

lemma draft_operation_atomic: "tx_atomic keys_only (draft_operation C E t u d items h)"
  unfolding draft_operation_def Let_def
  by (intro ko.atomic_read ko.atomic_then_seq total_rules atomic_ops rel_key_tx ActiveSigner_keys_only)
     (unfold InsertOperation_def, rule ko.atomic_WithTx)

context tx_preorder
begin

lemma rel_reads: "tx_rel (=) m \<Longrightarrow> tx_rel R m"
  by (auto simp: tx_rel_def R_refl)

lemma rel_WithTx_ok: "(\<And>s a s'. m s = (Inr a, s') \<Longrightarrow> R s s') \<Longrightarrow> tx_rel R (WithTx m)"
  unfolding tx_rel_def
proof
  fix s assume m: "\<And>s a s'. m s = (Inr a, s') \<Longrightarrow> R s s'"
  show "R s (snd (WithTx m s))"
    using m by (cases "m s"; cases "fst (m s)") (auto simp: WithTx_def R_refl)
qed

lemma atomic_tx_then:
  "(\<And>a. tx_total (f a)) \<Longrightarrow> tx_atomic R (tx_bind (WithTx m) f)"
  "tx_total n \<Longrightarrow> tx_atomic R (tx_seq (WithTx m') n)"
  by (blast intro: atomic_then atomic_WithTx, blast intro: atomic_then_seq atomic_WithTx)

lemmas atomic_rules = atomic_tx_then atomic_WithTx atomic_read atomic_seq atomic_cases total_rules
  rel_query rel_check rel_get rel_lift rel_return rel_fail

end

lemma query_reads: "tx_rel (=) (tx_query q)" "tx_rel (=) (tx_return a)"
  by (rule tx_rules)+

section \<open>Drafts and submissions\<close>

lemma draft_ok:
  assumes "draft_operation C E t u d items h s = (Inr op, s')"
  shows "\<exists>signer s1. ActiveSigner (cf_crypto C) (cf_chain C) u s = (Inr signer, s1) \<and> keys_only s s1
    \<and> op = NewOperation (cf_crypto C) E t u signer (d (unix_milli (truncate_ms (clock E 0)))) items
        (h (word_of_int (unix_milli (truncate_ms (clock E 0)))))
    \<and> InsertOperation op s1 = (Inr (), s')"
proof -
  obtain signer s1 where "ActiveSigner (cf_crypto C) (cf_chain C) u s = (Inr signer, s1)"
    "op = NewOperation (cf_crypto C) E t u signer (d (unix_milli (truncate_ms (clock E 0)))) items
        (h (word_of_int (unix_milli (truncate_ms (clock E 0)))))"
    "InsertOperation op s1 = (Inr (), s')"
    using assms unfolding draft_operation_def Let_def svc_oks by blast
  moreover have "keys_only s s1" using ActiveSigner_keys_only calculation(1) by (rule tx_relD)
  ultimately show ?thesis by blast
qed

lemma LockOperation_same: "LockOperation oid u s = (Inr op, t) \<Longrightarrow> t = s \<and> LockOperation oid u s = (Inr op, s)"
  by (simp add: LockOperation_ok)

lemma WriteActions_frame:
  "WriteActions now op pl s = (Inr v, s') \<Longrightarrow> \<exists>w ob. s' = s\<lparr>warehouse_actions := w, outbox_events := ob\<rparr>"
  unfolding WriteActions_ok by (cases s) auto

text \<open>
  The operation \<open>op\<close> was drafted by this caller for this action, is not submitted yet, and the
  assertions sign every part of it with the caller's active key; \<open>pl\<close> are the payloads.
\<close>

definition signed_op ::
  "config \<Rightarrow> byte \<Rightarrow> uuid \<Rightarrow> uuid \<Rightarrow> (uuid \<times> assertion) list \<Rightarrow> wms_db \<Rightarrow> operation \<Rightarrow> string list \<Rightarrow> bool" where
  "signed_op C actionType u oid as s op pl \<longleftrightarrow>
     load_operation oid s = (Inr (Some op), s) \<and> op_created_by op = u \<and> op_type op = actionType \<and> \<not> op_submitted op
   \<and> (\<exists>signer s1. ActiveSigner (cf_crypto C) (cf_chain C) u s = (Inr signer, s1) \<and> pk_credential signer = op_signer op
        \<and> Envelopes (cf_crypto C) op signer as (cf_rp C) (cf_origins C) = Inr pl)"

lemma load_operation_id: "load_operation oid s = (Inr (Some op), s') \<Longrightarrow> op_id op = oid"
  by (auto simp: load_operation_def tx_get_ok dest!: scanOperation_parts [OF sym])

lemma submit_head:
  assumes l: "load_submission C t u oid as s = (Inr (op, pl), s1)"
  shows "keys_only s s1" "op_id op = oid" "signed_op C t u oid as s op pl"
    "ops_wf s \<Longrightarrow> LockOperation oid u s1 = (Inr op, s1)"
proof -
  show k: "keys_only s s1" by (rule tx_relD [OF load_submission_keys_only l])
  show so: "signed_op C t u oid as s op pl"
    using l by (rule load_submission_ok) (auto simp: signed_op_def)
  show "op_id op = oid" using so unfolding signed_op_def by (blast dest: load_operation_id)
  assume "ops_wf s"
  then have "LockOperation oid u s = (Inr op, s)"
    using so unfolding signed_op_def by (blast intro: LockOperation_loaded)
  then show "LockOperation oid u s1 = (Inr op, s1)"
    using LockOperation_cong [OF keys_only_tables(1) [OF k], of oid u] by simp
qed

lemma submit_tail:
  assumes w: "WriteActions now lop pl t = (Inr v, s')" and l: "LockOperation oid u s = (Inr lop, s)"
    and same: "warehouse_actions t = warehouse_actions s" "outbox_events t = outbox_events s"
  shows "queued oid u s s'" "outbox_events s' = outbox_events s @ map2 outbox_row (op_parts lop) pl"
    "products s' = products t" "orders s' = orders t" "assembly_tasks s' = assembly_tasks t"
    "cargoplaces s' = cargoplaces t" "putaways s' = putaways t" "shippings s' = shippings t"
    "outbound_dispatches s' = outbound_dispatches t" "bins s' = bins t" "boxes s' = boxes t"
proof -
  show "queued oid u s s'" using queued_intro [OF l w, of s] same by simp
  show "outbox_events s' = outbox_events s @ map2 outbox_row (op_parts lop) pl"
    using w same unfolding WriteActions_ok by simp
  obtain ws ob where "s' = t\<lparr>warehouse_actions := ws, outbox_events := ob\<rparr>" using WriteActions_frame [OF w] by blast
  then show "products s' = products t" "orders s' = orders t" "assembly_tasks s' = assembly_tasks t"
    "cargoplaces s' = cargoplaces t" "putaways s' = putaways t" "shippings s' = shippings t"
    "outbound_dispatches s' = outbound_dispatches t" "bins s' = bins t" "boxes s' = boxes t"
    by simp_all
qed

section \<open>A signed operation to try them on\<close>

definition demo_config :: config where
  "demo_config = \<lparr> cf_crypto = demo_crypto, cf_chain = None, cf_rp = ''wms'', cf_origins = [''https://wms''] \<rparr>"

definition demo_signed :: "byte \<Rightarrow> uuid list \<Rightarrow> action_details \<Rightarrow> wms_db \<Rightarrow> wms_db" where
  "demo_signed t items details s = s
     \<lparr> passkey_credentials := [demo_passkey],
       warehouse_actions := [\<lparr> wa_id = 65, wa_operation = 64, wa_part = 0, wa_type = t, wa_signer = [1],
         wa_created_by = 2, wa_items = items, wa_salt = 1, wa_details_hash = 2, wa_challenge = 9,
         wa_details = details, wa_submitted = None \<rparr>] \<rparr>"

definition demo_op :: "byte \<Rightarrow> uuid list \<Rightarrow> action_details \<Rightarrow> operation" where
  "demo_op t items details = \<lparr> op_id = 64, op_type = t, op_created_by = 2, op_signer = [1],
     op_signer_key_id = 0, op_details = details, op_parts = [demo_part\<lparr>pt_items := items\<rparr>], op_submitted = False \<rparr>"

lemma demo_signed_tables [simp]:
  "products (demo_signed t items d s) = products s" "cargoplaces (demo_signed t items d s) = cargoplaces s"
  "boxes (demo_signed t items d s) = boxes s" "bins (demo_signed t items d s) = bins s"
  "orders (demo_signed t items d s) = orders s" "outbox_events (demo_signed t items d s) = outbox_events s"
  "key_actions (demo_signed t items d s) = key_actions s" "assembly_tasks (demo_signed t items d s) = assembly_tasks s"
  "shippings (demo_signed t items d s) = shippings s" "putaways (demo_signed t items d s) = putaways s"
  "outbound_dispatches (demo_signed t items d s) = outbound_dispatches s" "destinations (demo_signed t items d s) = destinations s"
  "onchain_events (demo_signed t items d s) = onchain_events s" "receiving_table (demo_signed t items d s) = receiving_table s"
  "passkey_credentials (demo_signed t items d s) = [demo_passkey]" 
  by (simp_all add: demo_signed_def)

lemma demo_op_simps [simp]:
  "op_id (demo_op t items d) = 64" "op_details (demo_op t items d) = d" "op_items (demo_op t items d) = items"
  "op_signer (demo_op t items d) = [1]" "op_parts (demo_op t items d) = [demo_part\<lparr>pt_items := items\<rparr>]"
  "op_type (demo_op t items d) = t" "op_created_by (demo_op t items d) = 2" "\<not> op_submitted (demo_op t items d)"
  by (simp_all add: demo_op_def op_items_def)

lemma demo_scan:
  "scanOperation (operation_rows P (demo_signed t items d s)) 64 = Some (demo_op t items d)"
  if "P (hd (warehouse_actions (demo_signed t items d s)))"
  using that by (simp add: scanOperation_def operation_rows_def demo_signed_def scan_row_def empty_operation_def
      part_of_row_def demo_op_def demo_part_def)

lemma demo_lock [simp]: "LockOperation 64 2 (demo_signed t items d s) = (Inr (demo_op t items d), demo_signed t items d s)"
  using demo_scan [of "\<lambda>r. wa_operation r = 64 \<and> wa_created_by r = 2" t items d s]
  by (simp add: LockOperation_def tx_simps demo_signed_def)

lemma demo_load_operation: "load_operation 64 (demo_signed t items d s) = (Inr (Some (demo_op t items d)), demo_signed t items d s)"
  using demo_scan [of "\<lambda>r. wa_operation r = 64" t items d s]
  by (simp add: load_operation_def tx_simps demo_signed_def)

lemma demo_envelopes:
  "Envelopes demo_crypto (demo_op t items d) demo_passkey [(65, demo_assertion)] ''wms'' [''https://wms'']
     = Inr [uuid_string demo_crypto 65]"
proof -
  have "as_credential demo_assertion = [1]" by (simp add: demo_assertion_def)
  moreover have "json_envelope demo_crypto = ed_action_id" by (simp add: demo_crypto_def)
  ultimately show ?thesis
    by (simp add: Envelopes_def envelope_part_def demo_op_def demo_part_def demo_passkey_def demo_Verify envelope_of_def)
qed

lemma demo_loads:
  assumes "load_operation 64 s = (Inr (Some (demo_op t items d)), s)" "passkey_credentials s = [demo_passkey]"
  shows "load_submission demo_config t 2 64 [(65, demo_assertion)] s = (Inr (demo_op t items d, [uuid_string demo_crypto 65]), s)"
proof -
  have "ActiveSigner demo_crypto None 2 s = (Inr demo_passkey, s)"
    by (simp add: ActiveSigner_def get_bind_apply LatestPasskey_def newest_passkey_def live_def tx_simps assms(2))
      (simp add: demo_passkey_def tx_simps)
  then show ?thesis
    by (simp add: load_submission_def tx_simps ops_tx_def key_tx_def assms(1) demo_config_def demo_envelopes)
      (simp add: demo_passkey_def)
qed

lemma demo_load [simp]:
  "load_submission demo_config t 2 64 [(65, demo_assertion)] (demo_signed t items d s)
     = (Inr (demo_op t items d, [uuid_string demo_crypto 65]), demo_signed t items d s)"
  by (rule demo_loads) (simp_all add: demo_load_operation)

lemma demo_signed_wf [simp]: "ops_wf (demo_signed t items d s)"
  by (simp add: ops_wf_def demo_signed_def)

lemma demo_signer: "passkey_credentials s = [demo_passkey] \<Longrightarrow> key_actions s = [] \<Longrightarrow> LockSigner [1] s = (Inr (), s)"
  by (simp add: LockSigner_def tx_simps demo_passkey_def revoke_in_flight_def)

lemma demo_write:
  "outbox_events s = [] \<Longrightarrow> fst (WriteActions now (demo_op t items d) [payload] s) = Inr ()"
  by (simp add: WriteActions_def tx_simps)

lemma demo_signed_op: "signed_op C t 2 64 as (demo_signed t' items d s) op pl \<Longrightarrow> op = demo_op t' items d"
  by (auto simp: signed_op_def demo_load_operation)

end
