(* ===== verification/ReceivingFlow.thy ===== *)
theory ReceivingFlow
  imports Receiving Stock
begin

text \<open>
  What the receiving operations guarantee: nothing goes back, a scanned product is new
  and received, a shipment closes itself when its last cargoplace has arrived, and the
  signed close covers exactly the products of the closed boxes.
\<close>

section \<open>Nothing goes back\<close>

lemma shipment_statements [tx_rules]:
  "tx_rel rows_forward (UpdateShipmentStatus i ShipmentGateInProgress ShipmentCreated)"
  "tx_rel rows_forward (UpdateShipmentStatus i ShipmentGateClosed ShipmentGateInProgress)"
  unfolding UpdateShipmentStatus_def
  by (auto intro!: rel_statement rows_forwards grows_update simp: shipment_step_def)

lemma cargoplace_statements [tx_rules]:
  "tx_rel rows_forward (UpdateCargoplaceReceivedAtGate i CargoplaceReceivedAtGate CargoplaceExpected t)"
  "tx_rel rows_forward (UpdateCargoplaceStatus i CargoplaceTableInProgress CargoplaceReceivedAtGate)"
  unfolding UpdateCargoplaceReceivedAtGate_def UpdateCargoplaceStatus_def
  by (auto intro!: rel_statement rows_forwards grows_update simp: cargoplace_step_def cargoplace_next_def)

lemma gate_log_rows [tx_rules]: "tx_rel rows_forward (InsertReceivingGateLog e p)"
  unfolding InsertReceivingGateLog_def by (intro rel_statement rows_forwards) (auto intro: grows_append)

lemma table_log_rows [tx_rules]:
  "tx_rel rows_forward (InsertReceivingTableLog e l)" "tx_rel rows_forward (insertReceivingTableLogTx e l)"
  unfolding InsertReceivingTableLog_def insertReceivingTableLogTx_def
  by (auto intro!: rel_statement rows_forwards grows_append)

lemma MarkExpected_rows [tx_rules]:
  "tx_rel rows_forward (MarkExpectedAsNotReceived e now i CargoplaceNotReceived u)"
  unfolding MarkExpectedAsNotReceived_def
  by (intro tx_rules rel_statement rows_forwards grows_update)
     (auto simp: cargoplace_step_def cargoplace_next_def)

lemma box_statements [tx_rules]:
  "tx_rel rows_forward (UpsertBox i c b BoxOpen)" "tx_rel rows_forward (UpdateBoxStatus i BoxClosed)"
proof -
  show "tx_rel rows_forward (UpdateBoxStatus i BoxClosed)"
    unfolding UpdateBoxStatus_def
    by (auto intro!: rel_statement rows_forwards grows_update simp: box_step_def)
  show "tx_rel rows_forward (UpsertBox i c b BoxOpen)"
    unfolding UpsertBox_def
    by (intro tx_rules rel_statement rel_modify rows_forwards grows_update)
       (auto intro: grows_append simp: box_step_def)
qed

text \<open>The products: a new one is appended under new keys, a scanned buffer only moves received ones.\<close>

lemma InsertProduct_products:
  "tx_rel products_forward (InsertProduct p)"
proof -
  have "products_forward s (products_update (\<lambda>t. t @ [p]) s)"
    if "\<forall>q\<in>set (products s). pr_id q \<noteq> pr_id p \<and> pr_qr q \<noteq> pr_qr p" for s :: wms_db
    using that by (auto simp: products_forward_def product_keys_def grows_append)
  then show ?thesis by (auto simp: tx_rel_def InsertProduct_def)
qed

lemma InsertProduct_rows: "tx_rel rows_forward (InsertProduct p)"
  by (simp add: tx_rel_def InsertProduct_def)

lemma ScanBuffer_rel:
  "tx_rel products_forward (ScanBufferWithLog e c b l)" "tx_rel rows_forward (ScanBufferWithLog e c b l)"
proof -
  have p: "tx_rel products_forward (\<lambda>s. sql_exec products products_update (closable s c) (\<lambda>p. p\<lparr>pr_bin := Some b\<rparr>) s)"
    by (auto simp: tx_rel_def tx_simps product_step_def intro!: products_forward_update)
  have r: "tx_rel rows_forward (\<lambda>s. sql_exec products products_update (closable s c) (\<lambda>p. p\<lparr>pr_bin := Some b\<rparr>) s)"
    by (simp add: tx_rel_def tx_simps)
  have l: "tx_rel products_forward (InsertReceivingTableLog e l)"
    unfolding InsertReceivingTableLog_def by (auto intro!: rel_statement products_forward_same)
  show "tx_rel products_forward (ScanBufferWithLog e c b l)"
    unfolding ScanBufferWithLog_def by (intro tx_rules p l)
  show "tx_rel rows_forward (ScanBufferWithLog e c b l)"
    unfolding ScanBufferWithLog_def by (intro tx_rules r)
qed

lemma receiving_products_same [tx_rules]:
  "tx_rel products_forward (UpdateShipmentStatus i a b)"
  "tx_rel products_forward (UpdateCargoplaceReceivedAtGate i x y t)"
  "tx_rel products_forward (UpdateCargoplaceStatus i x y)"
  "tx_rel products_forward (InsertReceivingGateLog e p)"
  "tx_rel products_forward (InsertReceivingTableLog e l)"
  "tx_rel products_forward (insertReceivingTableLogTx e l)"
  "tx_rel products_forward (UpdateBoxStatus i z)"
  unfolding UpdateShipmentStatus_def UpdateCargoplaceReceivedAtGate_def UpdateCargoplaceStatus_def
    InsertReceivingGateLog_def InsertReceivingTableLog_def insertReceivingTableLogTx_def UpdateBoxStatus_def
  by (auto intro!: rel_statement products_forward_same)

lemma receiving_products_more [tx_rules]:
  "tx_rel products_forward (MarkExpectedAsNotReceived e now i st u)"
  "tx_rel products_forward (UpsertBox i c b z)"
  unfolding MarkExpectedAsNotReceived_def UpsertBox_def
  by (intro tx_rules rel_statement rel_modify products_forward_same; simp)+

lemmas receiving_reads = GetShipmentByTTN_def GetShipmentByID_def GetCargoplaceByShipmentAndCode_def
  GetCargoplaceByID_def GetCargoplaceByIDForUpdate_def GetBoxByID_def GetBoxByCargoplaceAndBarcode_def
  GetSKUByBarcode_def GetSKUByID_def GetBinByID_def

lemmas receiving_ops = ScanTTN_def open_gate_def countShipmentProgress_def tryAutoCloseShipment_def
  ScanCargoplace_def AcceptShipment_def ScanTableCargoplace_def ScanBox_def open_box_of_def ScanSKU_def
  ScanQR_def CloseBox_def ScanBuffer_def DraftCloseCargoplace_def SubmitCloseCargoplace_def

lemma close_cargoplace_rows [tx_rules]: "tx_rel rows_forward (CloseCargoplaceWithOutbox X E c u t oid pl)"
  unfolding CloseCargoplaceWithOutbox_def
  by (intro tx_rules rel_statement rows_forwards grows_update) (auto simp: cargoplace_step_def cargoplace_next_def)

lemma close_cargoplace_products [tx_rules]: "tx_rel products_forward (CloseCargoplaceWithOutbox X E c u t oid pl)"
  unfolding CloseCargoplaceWithOutbox_def
  by (intro tx_rules rel_statement products_forward_same) simp_all

lemma receiving_rows_forward:
  "tx_rel rows_forward (ScanTTN E u ttn)" "tx_rel rows_forward (ScanCargoplace E u i code)"
  "tx_rel rows_forward (AcceptShipment E u i)" "tx_rel rows_forward (ScanTableCargoplace E u c)"
  "tx_rel rows_forward (ScanBox E u c barcode)" "tx_rel rows_forward (ScanSKU E u c b barcode)"
  "tx_rel rows_forward (ScanQR E u c b k qr)" "tx_rel rows_forward (CloseBox E u b)"
  "tx_rel rows_forward (ScanBuffer E u c bn)" "tx_rel rows_forward (DraftCloseCargoplace C E u c)"
  "tx_rel rows_forward (SubmitCloseCargoplace C E u oid as)"
  unfolding receiving_ops receiving_reads split_def
  by (intro tx_rules ScanBuffer_rel InsertProduct_rows)+

lemma receiving_products_forward:
  "tx_rel products_forward (ScanTTN E u ttn)" "tx_rel products_forward (ScanCargoplace E u i code)"
  "tx_rel products_forward (AcceptShipment E u i)" "tx_rel products_forward (ScanTableCargoplace E u c)"
  "tx_rel products_forward (ScanBox E u c barcode)" "tx_rel products_forward (ScanSKU E u c b barcode)"
  "tx_rel products_forward (ScanQR E u c b k qr)" "tx_rel products_forward (CloseBox E u b)"
  "tx_rel products_forward (ScanBuffer E u c bn)" "tx_rel products_forward (DraftCloseCargoplace C E u c)"
  "tx_rel products_forward (SubmitCloseCargoplace C E u oid as)"
  unfolding receiving_ops receiving_reads split_def
  by (intro tx_rules ScanBuffer_rel InsertProduct_products)+

section \<open>The gate\<close>

lemma sql_count_all: "sql_count P t = length t \<longleftrightarrow> (\<forall>r\<in>set t. P r)"
  unfolding sql_count_def by (metis filter_id_conv length_filter_less less_irrefl)

lemma sql_count_conj: "sql_count (\<lambda>r. P r \<and> Q r) t = sql_count Q (filter P t)"
  by (simp add: sql_count_def conj_commute)

lemma received_all_iff:
  "CountCargoplacesByStatus i st s = CountCargoplaces i s \<longleftrightarrow>
     (\<forall>c\<in>set (cargoplaces s). cp_shipment c = i \<longrightarrow> cp_status c = st)"
proof -
  have "CountCargoplaces i s = length (filter (\<lambda>c. cp_shipment c = i) (cargoplaces s))"
    by (simp add: CountCargoplaces_def sql_count_def)
  then show ?thesis
    unfolding CountCargoplacesByStatus_def sql_count_conj by (auto simp: sql_count_all)
qed

lemma received_le_all: "CountCargoplacesByStatus i st s \<le> CountCargoplaces i s"
  unfolding CountCargoplacesByStatus_def CountCargoplaces_def sql_count_conj
  unfolding sql_count_def by (rule length_filter_le)

lemma gate_log_ok:
  "InsertReceivingGateLog e p s = (Inr u, s') \<Longrightarrow>
   cargoplaces s' = cargoplaces s \<and> inbound_shipments s' = inbound_shipments s \<and> products s' = products s"
  by (auto simp: InsertReceivingGateLog_def sql_oks)

text \<open>In a gate in progress, closing succeeds when all have arrived, and nothing happens otherwise.\<close>

lemma tryAutoCloseShipment_ok:
  assumes ok: "tryAutoCloseShipment e now sh all received u s = (Inr v, s')"
    and gate: "\<And>r. r \<in> set (inbound_shipments s) \<Longrightarrow> sh_id r = sh_id sh \<Longrightarrow> sh_status r = ShipmentGateInProgress"
    and there: "\<exists>r\<in>set (inbound_shipments s). sh_id r = sh_id sh"
  shows "cargoplaces s' = cargoplaces s \<and> products s' = products s
    \<and> inbound_shipments s' = (if all = 0 \<or> received < all then inbound_shipments s
        else sql_update (\<lambda>r. sh_id r = sh_id sh) (\<lambda>r. r\<lparr>sh_status := ShipmentGateClosed\<rparr>) (inbound_shipments s))"
proof (cases "all = 0 \<or> received < all")
  case True
  then show ?thesis using ok by (simp add: tryAutoCloseShipment_def tx_oks)
next
  case False
  let ?P = "\<lambda>r. sh_id r = sh_id sh \<and> sh_status r = ShipmentGateInProgress"
  have P: "\<exists>r\<in>set (inbound_shipments s). ?P r" using gate there by blast
  have upd: "sql_update ?P (\<lambda>r. r\<lparr>sh_status := ShipmentGateClosed\<rparr>) (inbound_shipments s)
      = sql_update (\<lambda>r. sh_id r = sh_id sh) (\<lambda>r. r\<lparr>sh_status := ShipmentGateClosed\<rparr>) (inbound_shipments s)"
    unfolding sql_update_def using gate by (intro map_cong) auto
  have "UpdateShipmentStatus (sh_id sh) ShipmentGateClosed ShipmentGateInProgress s
      = (Inr (), inbound_shipments_update (sql_update ?P (\<lambda>r. r\<lparr>sh_status := ShipmentGateClosed\<rparr>)) s)"
    using P by (simp add: UpdateShipmentStatus_def tx_simps)
  then show ?thesis
    using ok False upd
    by (auto simp: tryAutoCloseShipment_def tx_oks tx_handle_ok tx_bind_def tx_seq_def tx_return_def
        dest!: gate_log_ok split: prod.splits sum.splits)
qed

lemma ScanCargoplace_run:
  assumes "ScanCargoplace E u i raw s = (Inr r, s')"
  shows "\<exists>cp sh s1 s2 code. validateScanCode raw = Inr code
    \<and> List.find (\<lambda>x. sh_id x = i) (inbound_shipments s) = Some sh \<and> sh_status sh = ShipmentGateInProgress
    \<and> List.find (\<lambda>c. cp_shipment c = i \<and> cp_code c = code) (cargoplaces s) = Some cp
    \<and> sq_cargoplace r = cp_id cp
    \<and> UpdateCargoplaceReceivedAtGate (cp_id cp) CargoplaceReceivedAtGate CargoplaceExpected (clock E 0) s = (Inr (), s1)
    \<and> cargoplaces s2 = cargoplaces s1 \<and> inbound_shipments s2 = inbound_shipments s1
    \<and> tryAutoCloseShipment (fresh E 1) (clock E 1) sh (CountCargoplaces i s2)
       (CountCargoplacesByStatus i CargoplaceReceivedAtGate s2) u s2 = (Inr (), s')"
  using assms
  apply (simp (no_asm_use) only: ScanCargoplace_def Let_def svc_oks split_def GetShipmentByID_def
      GetCargoplaceByShipmentAndCode_def countShipmentProgress_def sql_row_Inr)
  apply (elim exE conjE)
  apply clarify
  apply (drule gate_log_ok)
  apply (intro exI conjI)
          apply assumption
         apply assumption
        apply assumption
       apply assumption
      apply (simp only: scan_gate_result.simps fst_conv snd_conv)
     apply assumption
    apply (erule conjunct1)
   apply simp
  apply (simp only: fst_conv snd_conv)
  done

text \<open>C30: scanning a cargoplace at the gate marks exactly that expected cargoplace as received, and the
  shipment is closed afterwards exactly when every one of its cargoplaces is RECEIVED_AT_GATE. In
  particular a shipment that has a cargoplace already on the table is not closed by the scan of the
  last missing one.\<close>

theorem ScanCargoplace_autoclose:
  assumes ok: "ScanCargoplace E u i raw s = (Inr r, s')"
    and keys: "distinct (map sh_id (inbound_shipments s))" "distinct (map cp_id (cargoplaces s))"
  shows "(\<exists>cp\<in>set (cargoplaces s). cp_id cp = sq_cargoplace r \<and> cp_shipment cp = i \<and> cp_status cp = CargoplaceExpected
      \<and> set (cargoplaces s') = insert (cp\<lparr>cp_status := CargoplaceReceivedAtGate, cp_received_at := Some (clock E 0)\<rparr>)
           (set (cargoplaces s) - {cp}))
    \<and> (\<exists>sh\<in>set (inbound_shipments s). sh_id sh = i \<and> sh_status sh = ShipmentGateInProgress
      \<and> set (inbound_shipments s') = insert (sh\<lparr>sh_status :=
           (if \<forall>c\<in>set (cargoplaces s'). cp_shipment c = i \<longrightarrow> cp_status c = CargoplaceReceivedAtGate
            then ShipmentGateClosed else ShipmentGateInProgress)\<rparr>) (set (inbound_shipments s) - {sh}))"
proof -
  obtain cp sh s1 s2 code where sh: "List.find (\<lambda>x. sh_id x = i) (inbound_shipments s) = Some sh" "sh_status sh = ShipmentGateInProgress"
    and cp: "List.find (\<lambda>c. cp_shipment c = i \<and> cp_code c = code) (cargoplaces s) = Some cp"
    and id: "sq_cargoplace r = cp_id cp"
    and upd: "UpdateCargoplaceReceivedAtGate (cp_id cp) CargoplaceReceivedAtGate CargoplaceExpected (clock E 0) s = (Inr (), s1)"
    and s2: "cargoplaces s2 = cargoplaces s1" "inbound_shipments s2 = inbound_shipments s1"
    and close: "tryAutoCloseShipment (fresh E 1) (clock E 1) sh (CountCargoplaces i s2)
       (CountCargoplacesByStatus i CargoplaceReceivedAtGate s2) u s2 = (Inr (), s')"
    using ScanCargoplace_run [OF ok] by blast
  let ?f = "\<lambda>c. c\<lparr>cp_status := CargoplaceReceivedAtGate, cp_received_at := Some (clock E 0)\<rparr>"
  have shin: "sh \<in> set (inbound_shipments s)" "sh_id sh = i" using find_Some_set [OF sh(1)] by auto
  have cpin: "cp \<in> set (cargoplaces s)" "cp_shipment cp = i" using find_Some_set [OF cp] by auto
  have s1: "inbound_shipments s1 = inbound_shipments s"
    "cargoplaces s1 = sql_update (\<lambda>c. cp_id c = cp_id cp \<and> cp_status c = CargoplaceExpected) ?f (cargoplaces s)"
    and ex: "\<exists>c\<in>set (cargoplaces s). cp_id c = cp_id cp \<and> cp_status c = CargoplaceExpected"
    using upd by (auto simp: UpdateCargoplaceReceivedAtGate_def sql_exec_some_ok)
  have st: "cp_status cp = CargoplaceExpected"
    using ex cpin(1) distinct_keyD [OF keys(2)] by blast
  have cps: "set (cargoplaces s1) = insert (?f cp) (set (cargoplaces s) - {cp})"
    unfolding s1 using keys(2) cpin(1) st by (intro set_sql_update_row [where key = cp_id]) auto
  have one: "sh' = sh" if "sh' \<in> set (inbound_shipments s)" "sh_id sh' = i" for sh'
    using that shin distinct_keyD [OF keys(1)] by blast
  have close': "cargoplaces s' = cargoplaces s2 \<and> products s' = products s2
    \<and> inbound_shipments s' = (if CountCargoplaces i s2 = 0 \<or> CountCargoplacesByStatus i CargoplaceReceivedAtGate s2 < CountCargoplaces i s2
        then inbound_shipments s2
        else sql_update (\<lambda>r. sh_id r = sh_id sh) (\<lambda>r. r\<lparr>sh_status := ShipmentGateClosed\<rparr>) (inbound_shipments s2))"
  proof (rule tryAutoCloseShipment_ok [OF close])
    fix x assume "x \<in> set (inbound_shipments s2)" "sh_id x = sh_id sh"
    then have "x = sh" unfolding s2(2) s1(1) using one shin(2) by blast
    then show "sh_status x = ShipmentGateInProgress" using sh(2) by simp
  qed (use shin(1) s2(2) s1(1) in auto)
  have c': "cargoplaces s' = cargoplaces s1" using close' s2 by simp
  have "?f cp \<in> set (cargoplaces s2)" using cps by (simp add: s2)
  then have pos: "CountCargoplaces i s2 \<noteq> 0"
    unfolding CountCargoplaces_def sql_count_zero using cpin(2) by (auto intro!: bexI [of _ "?f cp"])
  define arrived where "arrived \<longleftrightarrow> (\<forall>c\<in>set (cargoplaces s'). cp_shipment c = i \<longrightarrow> cp_status c = CargoplaceReceivedAtGate)"
  have all: "CountCargoplacesByStatus i CargoplaceReceivedAtGate s2 < CountCargoplaces i s2 \<longleftrightarrow>
      \<not> arrived"
    unfolding arrived_def c' s2(1) [symmetric] received_all_iff [symmetric] using received_le_all [of i _ s2] by (auto simp: le_less)
  have gate: "set (sql_update (\<lambda>r. sh_id r = sh_id sh) (\<lambda>r. r\<lparr>sh_status := ShipmentGateClosed\<rparr>) (inbound_shipments s))
      = insert (sh\<lparr>sh_status := ShipmentGateClosed\<rparr>) (set (inbound_shipments s) - {sh})"
    by (rule set_sql_update_key [OF keys(1) shin(1)])
  have same: "set (inbound_shipments s) = insert (sh\<lparr>sh_status := ShipmentGateInProgress\<rparr>) (set (inbound_shipments s) - {sh})"
  proof -
    have "sh\<lparr>sh_status := ShipmentGateInProgress\<rparr> = sh" using sh(2) by (cases sh) simp
    then show ?thesis using shin(1) by (simp only: insert_Diff)
  qed
  have "set (inbound_shipments s') = insert (sh\<lparr>sh_status :=
           (if arrived
            then ShipmentGateClosed else ShipmentGateInProgress)\<rparr>) (set (inbound_shipments s) - {sh})"
    using conjunct2 [OF conjunct2 [OF close']] pos gate same unfolding all s2(2) s1(1)
    by (cases arrived) simp_all
  then show ?thesis
    unfolding arrived_def [symmetric]
    using cps c' cpin st id shin sh(2) by (intro conjI bexI [of _ cp] bexI [of _ sh]) auto
qed

definition demo_gate_db :: wms_db where
  "demo_gate_db = empty_db
     \<lparr> inbound_shipments := [\<lparr> sh_id = 10, sh_warehouse = 1, sh_ttn = ''T'', sh_status = ShipmentGateInProgress \<rparr>],
       cargoplaces :=
         [\<lparr> cp_id = 11, cp_shipment = 10, cp_code = ''A'', cp_status = CargoplaceTableInProgress, cp_received_at = Some 0 \<rparr>,
          \<lparr> cp_id = 12, cp_shipment = 10, cp_code = ''B'', cp_status = CargoplaceExpected, cp_received_at = None \<rparr>] \<rparr>"

theorem ScanCargoplace_autoclose_witness:
  "\<exists>r s'. ScanCargoplace demo_env 1 10 ''B'' demo_gate_db = (Inr r, s') \<and>
     (\<exists>sh\<in>set (inbound_shipments demo_gate_db). sh_status sh = ShipmentGateInProgress)"
proof -
  have "\<not> isl (fst (ScanCargoplace demo_env 1 10 ''B'' demo_gate_db))" by code_simp
  then obtain r s' where run: "ScanCargoplace demo_env 1 10 ''B'' demo_gate_db = (Inr r, s')" using run_ok by blast
  have "distinct (map sh_id (inbound_shipments demo_gate_db))" "distinct (map cp_id (cargoplaces demo_gate_db))"
    by (simp_all add: demo_gate_db_def empty_db_def)
  from ScanCargoplace_autoclose [OF run this] run show ?thesis by blast
qed

lemma MarkExpected_ok:
  "MarkExpectedAsNotReceived e now i st u s = (Inr v, s') \<Longrightarrow>
   cargoplaces s' = sql_update (\<lambda>c. cp_shipment c = i \<and> cp_status c = CargoplaceExpected) (\<lambda>c. c\<lparr>cp_status := st\<rparr>) (cargoplaces s)
   \<and> inbound_shipments s' = inbound_shipments s"
  by (auto simp: MarkExpectedAsNotReceived_def svc_oks split: if_splits dest!: gate_log_ok)

lemma AcceptShipment_run:
  assumes "AcceptShipment E u i s = (Inr r, s')"
  shows "r = (i, ShipmentGateClosed, \<lparr> pg_total = int (CountCargoplaces i s'),
         pg_received = int (CountCargoplacesByStatus i CargoplaceReceivedAtGate s'), pg_remaining = 0,
         pg_not_received = int (CountCargoplacesByStatus i CargoplaceNotReceived s') \<rparr>)
    \<and> cargoplaces s' = sql_update (\<lambda>c. cp_shipment c = i \<and> cp_status c = CargoplaceExpected)
         (\<lambda>c. c\<lparr>cp_status := CargoplaceNotReceived\<rparr>) (cargoplaces s)
    \<and> (\<exists>sh\<in>set (inbound_shipments s). sh_id sh = i \<and> sh_status sh = ShipmentGateInProgress)
    \<and> inbound_shipments s' = sql_update (\<lambda>r. sh_id r = i \<and> sh_status r = ShipmentGateInProgress)
         (\<lambda>r. r\<lparr>sh_status := ShipmentGateClosed\<rparr>) (inbound_shipments s)"
  using assms
  apply (simp (no_asm_use) only: AcceptShipment_def svc_oks split_def GetShipmentByID_def
      countShipmentProgress_def sql_row_Inr tx_handle_ok UpdateShipmentStatus_def tx_fail_ok simp_thms)
  apply (elim exE conjE)
  apply (drule MarkExpected_ok)
  apply (drule gate_log_ok)
  apply (drule find_Some_set)
  apply clarsimp
  done

text \<open>Accepting a shipment closes it and reports each of its still expected cargoplaces as not
  received; no other cargoplace changes. The counts of the answer are those of the cargoplaces before
  the call: the expected ones join those already missing.\<close>

theorem AcceptShipment_settles:
  assumes ok: "AcceptShipment E u i s = (Inr (i', st, pg), s')" and keys: "distinct (map sh_id (inbound_shipments s))"
  shows "(\<forall>r\<in>set (inbound_shipments s'). sh_id r = i \<longrightarrow> sh_status r = ShipmentGateClosed)
    \<and> cargoplaces s' = map (\<lambda>c. if cp_shipment c = i \<and> cp_status c = CargoplaceExpected
         then c\<lparr>cp_status := CargoplaceNotReceived\<rparr> else c) (cargoplaces s)
    \<and> pg_total pg = int (CountCargoplaces i s)
    \<and> pg_received pg = int (CountCargoplacesByStatus i CargoplaceReceivedAtGate s)
    \<and> pg_not_received pg = int (CountCargoplacesByStatus i CargoplaceExpected s)
         + int (CountCargoplacesByStatus i CargoplaceNotReceived s)"
proof -
  note run = AcceptShipment_run [OF ok]
  have c: "cargoplaces s' = sql_update (\<lambda>c. cp_shipment c = i \<and> cp_status c = CargoplaceExpected)
         (\<lambda>c. c\<lparr>cp_status := CargoplaceNotReceived\<rparr>) (cargoplaces s)" using run by blast
  obtain sh where sh: "sh \<in> set (inbound_shipments s)" "sh_id sh = i" "sh_status sh = ShipmentGateInProgress"
    using run by blast
  have "set (inbound_shipments s') = insert (sh\<lparr>sh_status := ShipmentGateClosed\<rparr>) (set (inbound_shipments s) - {sh})"
    using run set_sql_update_row [OF keys sh(1), of "\<lambda>r. sh_id r = i \<and> sh_status r = ShipmentGateInProgress"] sh(2,3)
    by simp
  then have "r = sh\<lparr>sh_status := ShipmentGateClosed\<rparr> \<or> r \<in> set (inbound_shipments s) \<and> r \<noteq> sh"
    if "r \<in> set (inbound_shipments s')" for r
    using that by blast
  moreover have "r = sh" if "r \<in> set (inbound_shipments s)" "sh_id r = i" for r
    using distinct_keyD [OF keys that(1) sh(1)] that(2) sh(2) by simp
  ultimately have closed: "\<forall>r\<in>set (inbound_shipments s'). sh_id r = i \<longrightarrow> sh_status r = ShipmentGateClosed"
    by fastforce
  have "CountCargoplaces i s' = CountCargoplaces i s"
    unfolding CountCargoplaces_def c sql_count_update by (rule arg_cong [where f = "\<lambda>P. sql_count P _"]) auto
  moreover have "CountCargoplacesByStatus i CargoplaceReceivedAtGate s' = CountCargoplacesByStatus i CargoplaceReceivedAtGate s"
    unfolding CountCargoplacesByStatus_def c sql_count_update
    by (rule arg_cong [where f = "\<lambda>P. sql_count P _"]) auto
  moreover have "CountCargoplacesByStatus i CargoplaceNotReceived s'
      = CountCargoplacesByStatus i CargoplaceExpected s + CountCargoplacesByStatus i CargoplaceNotReceived s"
    unfolding CountCargoplacesByStatus_def c sql_count_update
    by (subst sql_count_disj [symmetric]) (auto intro: arg_cong [where f = "\<lambda>P. sql_count P _"])
  ultimately show ?thesis
    using closed c conjunct1 [OF run] unfolding prod.inject sql_update_def
    by (intro conjI) (simp_all only: progress.simps of_nat_add)
qed


theorem AcceptShipment_settles_witness:
  "\<exists>r s'. AcceptShipment demo_env 1 10 demo_gate_db = (Inr r, s') \<and> pg_not_received (snd (snd r)) = 1
     \<and> pg_received (snd (snd r)) = 0"
proof -
  have "\<not> isl (fst (AcceptShipment demo_env 1 10 demo_gate_db))" by code_simp
  then obtain i st pg s' where run: "AcceptShipment demo_env 1 10 demo_gate_db = (Inr (i, st, pg), s')"
    using run_ok by (metis prod_cases3)
  have "distinct (map sh_id (inbound_shipments demo_gate_db))" by (simp add: demo_gate_db_def empty_db_def)
  from AcceptShipment_settles [OF run this] run show ?thesis
    by (simp add: demo_gate_db_def CountCargoplacesByStatus_def sql_count_def)
qed

section \<open>The table\<close>

lemma table_log_ok:
  "InsertReceivingTableLog e l s = (Inr v, s') \<Longrightarrow>
   products s' = products s \<and> cargoplaces s' = cargoplaces s \<and> boxes s' = boxes s
   \<and> expected_cargoplace_skus s' = expected_cargoplace_skus s"
  by (auto simp: InsertReceivingTableLog_def sql_oks)

lemma open_box_of_ok:
  "open_box_of c b s = (Inr (cp, bx), s') \<longleftrightarrow> s' = s
     \<and> List.find (\<lambda>x. cp_id x = c) (cargoplaces s) = Some cp \<and> cp_status cp = CargoplaceTableInProgress
     \<and> List.find (\<lambda>x. bx_id x = b) (boxes s) = Some bx \<and> bx_cargoplace bx = c \<and> bx_status bx = BoxOpen"
  unfolding open_box_of_def GetCargoplaceByIDForUpdate_def GetBoxByID_def svc_oks sql_row_Inr by auto

lemma InsertProduct_ok:
  "InsertProduct p s = (Inr v, s') \<longleftrightarrow>
     (\<forall>q\<in>set (products s). pr_id q \<noteq> pr_id p \<and> pr_qr q \<noteq> pr_qr p) \<and> s' = products_update (\<lambda>t. t @ [p]) s"
  by (auto simp: InsertProduct_def)

lemma ScanQR_run:
  assumes "ScanQR E u c b k raw s = (Inr r, s')"
  shows "\<exists>qr cp bx. validateScanCode raw = Inr qr \<and> open_box_of c b s = (Inr (cp, bx), s)
    \<and> (\<forall>q\<in>set (products s). pr_id q \<noteq> fresh E 0 \<and> pr_qr q \<noteq> qr)
    \<and> products s' = products s @ [\<lparr> pr_id = fresh E 0, pr_sku = k, pr_shipment = cp_shipment cp,
         pr_cargoplace = c, pr_box = Some b, pr_qr = qr, pr_bin = None, pr_order = None,
         pr_status = ProductStatusReceived, pr_created = clock E 0 \<rparr>]
    \<and> sr_product r = fresh E 0 \<and> sr_received r = CountProductsByCargoplace c s'
    \<and> sr_expected r = CountExpectedItemsByCargoplace c s
    \<and> cargoplaces s' = cargoplaces s \<and> boxes s' = boxes s"
  using assms
  apply (simp (no_asm_use) only: ScanQR_def Let_def svc_oks split_def GetSKUByID_def InsertProduct_ok sql_row_Inr)
  apply (elim exE conjE)
  apply (drule table_log_ok)
  apply (drule find_Some_set)
  apply clarsimp
  apply (auto simp: open_box_of_ok CountExpectedItemsByCargoplace_def)
  done

section \<open>Scanned products\<close>

definition demo_table_db :: wms_db where
  "demo_table_db = empty_db
     \<lparr> cargoplaces := [\<lparr> cp_id = 11, cp_shipment = 10, cp_code = ''A'', cp_status = CargoplaceTableInProgress, cp_received_at = Some 0 \<rparr>],
       boxes := [\<lparr> bx_id = 20, bx_cargoplace = 11, bx_barcode = ''x'', bx_status = BoxOpen \<rparr>],
       skus := [\<lparr> sk_id = 30, sk_name = ''tea'' \<rparr>],
       expected_cargoplace_skus := [\<lparr> ex_cargoplace = 11, ex_sku = 30, ex_qty = 2 \<rparr>] \<rparr>"

text \<open>C29: a scanned QR code brings exactly one product into the warehouse: it is new, its QR code is
  the trimmed scan and was not used before, it is received, in an open box of a cargoplace on the
  table, in no bin and of no order, and its shipment is the one of the cargoplace. Every row that was
  there stays as it was.\<close>

theorem ScanQR_new_product:
  assumes "ScanQR E u c b k raw s = (Inr r, s')"
  shows "\<exists>p. products s' = products s @ [p] \<and> pr_id p = sr_product r \<and> validateScanCode raw = Inr (pr_qr p)
    \<and> pr_id p \<notin> pr_id ` set (products s) \<and> pr_qr p \<notin> pr_qr ` set (products s)
    \<and> pr_status p = ProductStatusReceived \<and> pr_bin p = None \<and> pr_order p = None \<and> pr_sku p = k
    \<and> (\<exists>cp\<in>set (cargoplaces s). cp_id cp = pr_cargoplace p \<and> pr_cargoplace p = c \<and> cp_shipment cp = pr_shipment p
        \<and> cp_status cp = CargoplaceTableInProgress)
    \<and> (\<exists>bx\<in>set (boxes s). pr_box p = Some (bx_id bx) \<and> bx_cargoplace bx = c \<and> bx_status bx = BoxOpen)
    \<and> sr_received r = CountProductsByCargoplace c s + 1"
proof -
  obtain qr cp bx where run: "validateScanCode raw = Inr qr" "open_box_of c b s = (Inr (cp, bx), s)"
      "\<forall>q\<in>set (products s). pr_id q \<noteq> fresh E 0 \<and> pr_qr q \<noteq> qr"
    and p: "products s' = products s @ [\<lparr> pr_id = fresh E 0, pr_sku = k, pr_shipment = cp_shipment cp,
         pr_cargoplace = c, pr_box = Some b, pr_qr = qr, pr_bin = None, pr_order = None,
         pr_status = ProductStatusReceived, pr_created = clock E 0 \<rparr>]"
    and r: "sr_product r = fresh E 0" "sr_received r = CountProductsByCargoplace c s'"
    using ScanQR_run [OF assms] by blast
  have cp: "cp \<in> set (cargoplaces s) \<and> cp_id cp = c \<and> cp_status cp = CargoplaceTableInProgress
      \<and> bx \<in> set (boxes s) \<and> bx_id bx = b \<and> bx_cargoplace bx = c \<and> bx_status bx = BoxOpen"
    using run(2) unfolding open_box_of_ok by (auto dest: find_Some_set)
  have n: "sr_received r = CountProductsByCargoplace c s + 1"
    by (simp add: r p CountProductsByCargoplace_def sql_count_def)
  show ?thesis
    unfolding p by (intro exI conjI, rule refl) (use run(1,3) r(1) cp n in auto)
qed

theorem ScanQR_new_product_witness:
  "\<exists>r s'. ScanQR demo_env 1 11 20 30 '' q '' demo_table_db = (Inr r, s') \<and> length (products s') = 1"
proof -
  have "\<not> isl (fst (ScanQR demo_env 1 11 20 30 '' q '' demo_table_db))" by code_simp
  then obtain r s' where run: "ScanQR demo_env 1 11 20 30 '' q '' demo_table_db = (Inr r, s')" using run_ok by blast
  have "products demo_table_db = []" by (simp add: demo_table_db_def empty_db_def)
  with ScanQR_new_product [OF run] run show ?thesis by auto
qed

section \<open>The signed close\<close>

lemma table_logTx_ok:
  "insertReceivingTableLogTx e l s = (Inr v, s') \<Longrightarrow> \<exists>t. s' = s\<lparr>receiving_table := t\<rparr>"
  by (cases s) (auto simp: insertReceivingTableLogTx_def sql_oks)

lemma counts_cargoplaces_update:
  "ListExpectedSKUsByCargoplace c (cargoplaces_update f s) = ListExpectedSKUsByCargoplace c s"
  "listReceivedProductCountsBySKU c (cargoplaces_update f s) = listReceivedProductCountsBySKU c s"
proof -
  have "sku_row (cargoplaces_update f s) = sku_row s" for f and s :: wms_db by (simp add: sku_row_def fun_eq_iff)
  then show "ListExpectedSKUsByCargoplace c (cargoplaces_update f s) = ListExpectedSKUsByCargoplace c s"
    "listReceivedProductCountsBySKU c (cargoplaces_update f s) = listReceivedProductCountsBySKU c s"
    by (simp_all add: ListExpectedSKUsByCargoplace_def listReceivedProductCountsBySKU_def cong: if_cong)
qed

lemma close_ok:
  assumes "CloseCargoplaceWithOutbox X E c u t oid pl s = (Inr r, s')"
  shows "\<exists>cp op. List.find (\<lambda>x. cp_id x = c) (cargoplaces s) = Some cp \<and> cp_status cp = CargoplaceTableInProgress
    \<and> LockOperation oid u s = (Inr op, s) \<and> SortByItemID X (listClosableProductIDs c s) = op_items op
    \<and> cargoplaces s' = sql_update (\<lambda>x. cp_id x = c \<and> cp_status x = CargoplaceTableInProgress)
        (\<lambda>x. x\<lparr>cp_status := CargoplaceTableClosed\<rparr>) (cargoplaces s)
    \<and> products s' = products s \<and> boxes s' = boxes s
    \<and> cr_expected r = ListExpectedSKUsByCargoplace c s \<and> cr_received r = listReceivedProductCountsBySKU c s
    \<and> outbox_events s' = outbox_events s @ map2 outbox_row (op_parts op) pl \<and> queued oid u s s'"
  using assms
  apply (simp (no_asm_use) only: CloseCargoplaceWithOutbox_def svc_oks sql_row_Inr LockSigner_ok tx_if_ok
     sum.distinct simp_thms)
  apply (elim exE conjE)
  apply (drule LockOperation_same)
  apply (elim conjE)
  apply hypsubst_thin
  apply (drule table_logTx_ok)
  apply (elim exE)
  apply hypsubst_thin
  subgoal premises p
    using p WriteActions_frame [OF p(8)] p(8) [unfolded WriteActions_ok] queued_intro [OF p(9) p(8), of s]
    by (auto simp: counts_cargoplaces_update)
  done

section \<open>The close summary\<close>

definition received_of :: "received_count list \<Rightarrow> uuid \<Rightarrow> int" where
  "received_of rs skuID = sum_list (map rc_qty (filter (\<lambda>r. rc_sku r = skuID) rs))"

lemma foldl_map_upd:
  "distinct (map rc_sku rs) \<Longrightarrow> rc_sku ` set rs \<inter> dom m = {} \<Longrightarrow>
   (case foldl (\<lambda>m r. m(rc_sku r \<mapsto> r)) m rs k of None \<Rightarrow> 0 | Some r \<Rightarrow> rc_qty r)
     = (case m k of None \<Rightarrow> received_of rs k | Some r \<Rightarrow> rc_qty r)"
proof (induction rs arbitrary: m)
  case (Cons r rs)
  have IH: "(case foldl (\<lambda>m r. m(rc_sku r \<mapsto> r)) (m(rc_sku r \<mapsto> r)) rs k of None \<Rightarrow> 0 | Some r \<Rightarrow> rc_qty r)
      = (case (m(rc_sku r \<mapsto> r)) k of None \<Rightarrow> received_of rs k | Some r \<Rightarrow> rc_qty r)"
    using Cons.prems by (intro Cons.IH) (simp_all del: fun_upd_apply)
  have "filter (\<lambda>x. rc_sku x = rc_sku r) rs = []"
    using Cons.prems(1) by (auto simp: filter_empty_conv image_iff)
  moreover have "m (rc_sku r) = None" using Cons.prems(2) by auto
  ultimately show ?case
    unfolding foldl_Cons IH by (cases "k = rc_sku r") (simp_all add: received_of_def split: option.splits)
qed (simp add: received_of_def split: option.splits)

lemma foldl_sum: "foldl (\<lambda>n r. n + g r) a xs = a + sum_list (map g xs)" for a :: int
  by (induction xs arbitrary: a) simp_all

lemma summary_fold:
  "foldl (summary_step m) acc xs = acc
     \<lparr> cs_expected := cs_expected acc + sum_list (map es_qty xs),
       cs_shortage := cs_shortage acc
         + sum_list (map (\<lambda>x. max 0 (es_qty x - (case m (es_sku x) of None \<Rightarrow> 0 | Some r \<Rightarrow> rc_qty r))) xs),
       cs_by_sku := cs_by_sku acc @ map (\<lambda>x. let got = (case m (es_sku x) of None \<Rightarrow> 0 | Some r \<Rightarrow> rc_qty r) in
           \<lparr> sg_name = es_name x, sg_expected = es_qty x, sg_received = got, sg_shortage = es_qty x - got \<rparr>)
         (filter (\<lambda>x. (case m (es_sku x) of None \<Rightarrow> 0 | Some r \<Rightarrow> rc_qty r) < es_qty x) xs) \<rparr>"
proof (induction xs arbitrary: acc)
  case (Cons x xs)
  show ?case
    unfolding foldl_Cons Cons.IH by (simp add: summary_step_def Let_def max_def)
qed simp

text \<open>The summary an operator sees when closing a cargoplace adds up. Every SKU that came short is
  listed, in the order of the expectation and with the missing number; surplus of one SKU never
  hides the shortage of another.\<close>

theorem buildCloseCargoplaceSummary_totals:
  assumes "distinct (map rc_sku received)"
  shows "buildCloseCargoplaceSummary expected received =
    \<lparr> cs_received = sum_list (map rc_qty received), cs_expected = sum_list (map es_qty expected),
      cs_shortage = sum_list (map (\<lambda>x. max 0 (es_qty x - received_of received (es_sku x))) expected),
      cs_by_sku = map (\<lambda>x. \<lparr> sg_name = es_name x, sg_expected = es_qty x,
           sg_received = received_of received (es_sku x),
           sg_shortage = es_qty x - received_of received (es_sku x) \<rparr>)
         (filter (\<lambda>x. received_of received (es_sku x) < es_qty x) expected) \<rparr>"
proof -
  have m: "(case foldl (\<lambda>m r. m(rc_sku r \<mapsto> r)) Map.empty received k of None \<Rightarrow> 0 | Some r \<Rightarrow> rc_qty r)
      = received_of received k" for k
    using foldl_map_upd [OF assms, of Map.empty] by simp
  show ?thesis
    unfolding buildCloseCargoplaceSummary_def Let_def summary_fold m by (simp add: foldl_sum)
qed

theorem buildCloseCargoplaceSummary_totals_witness:
  "cs_shortage (buildCloseCargoplaceSummary [\<lparr> es_sku = 1, es_name = ''a'', es_qty = 5 \<rparr>]
     [\<lparr> rc_sku = 1, rc_name = ''a'', rc_qty = 3 \<rparr>, \<lparr> rc_sku = 2, rc_name = ''b'', rc_qty = 9 \<rparr>]) = 2"
  by (subst buildCloseCargoplaceSummary_totals) (simp_all add: received_of_def)

text \<open>The counts the closing transaction reads have one row per SKU.\<close>

lemma listReceived_distinct: "distinct (map rc_sku (listReceivedProductCountsBySKU c s))"
  by (simp add: listReceivedProductCountsBySKU_def Let_def distinct_map_sort_key o_def)

lemma SubmitClose_run:
  assumes "SubmitCloseCargoplace C E u oid as s = (Inr r, s')"
  shows "\<exists>op pl s1 cr. (load_submission C TypeReceive u oid as :: (operation \<times> string list) receiving_tx) s = (Inr (op, pl), s1)
    \<and> CloseCargoplaceWithOutbox (cf_crypto C) E (details_cargoplace (op_details op)) u
       (of_unix_milli (details_ms (op_details op))) oid pl s1 = (Inr cr, s')
    \<and> r = \<lparr> cc_cargoplace = details_cargoplace (op_details op), cc_operation = oid, cc_status = CargoplaceTableClosed,
        cc_summary = buildCloseCargoplaceSummary (cr_expected cr) (cr_received cr), cc_events = length pl \<rparr>"
proof -
  obtain op pl s1 cr where l: "(load_submission C TypeReceive u oid as :: (operation \<times> string list) receiving_tx) s = (Inr (op, pl), s1)"
    and "CloseCargoplaceWithOutbox (cf_crypto C) E (details_cargoplace (op_details op)) u
       (of_unix_milli (details_ms (op_details op))) (op_id op) pl s1 = (Inr cr, s')"
    and "r = \<lparr> cc_cargoplace = details_cargoplace (op_details op), cc_operation = op_id op, cc_status = CargoplaceTableClosed,
        cc_summary = buildCloseCargoplaceSummary (cr_expected cr) (cr_received cr), cc_events = length pl \<rparr>"
    using assms unfolding SubmitCloseCargoplace_def Let_def tx_oks split_paired_Ex prod.case by blast
  then show ?thesis unfolding submit_head(2) [OF l] by blast
qed

text \<open>The submit with its request first, as the shared interface wants it.\<close>

definition submit_close ::
  "config \<times> call_env \<times> (uuid \<times> assertion) list \<Rightarrow> uuid \<Rightarrow> uuid \<Rightarrow> close_cargoplace_result receiving_tx" where
  "submit_close = (\<lambda>(C, E, as) u oid. SubmitCloseCargoplace C E u oid as)"

interpretation close_once: lock_once submit_close Ops
proof
  fix x u oid s a s' assume run: "submit_close x u oid s = (Inr a, s')"
  obtain C E as where x: "x = (C, E, as)" by (cases x)
  obtain op pl s1 cr where l: "(load_submission C TypeReceive u oid as :: (operation \<times> string list) receiving_tx) s = (Inr (op, pl), s1)"
    and c: "CloseCargoplaceWithOutbox (cf_crypto C) E (details_cargoplace (op_details op)) u
       (of_unix_milli (details_ms (op_details op))) oid pl s1 = (Inr cr, s')"
    using run SubmitClose_run unfolding submit_close_def x by force
  have "queued oid u s1 s'" using close_ok [OF c] by blast
  then show "queued oid u s s'" by (rule queued_keys_only [OF submit_head(1) [OF l]])
next
  fix x u oid s e s' assume "submit_close x u oid s = (Inl e, s')"
  moreover have "tx_atomic keys_only (CloseCargoplaceWithOutbox X E c u t oid pl)" for X E c t oid pl
    unfolding CloseCargoplaceWithOutbox_def by (rule ko.atomic_WithTx)
  then have "tx_atomic keys_only (submit_close x u oid)"
    unfolding submit_close_def SubmitCloseCargoplace_def Let_def split_def
    by (intro ko.atomic_read load_submission_keys_only ko.atomic_then total_rules)
  ultimately show "keys_only s s'" by (rule tx_atomicD [rotated])
next
  fix oid u s x assume "submitted_op oid u s"
  then show "submit_close x u oid s \<in> {(Inl (Ops ErrOperationNotFound), s), (Inl (Ops ErrOperationSubmitted), s)}"
    unfolding submit_close_def SubmitCloseCargoplace_def by (cases x) (simp only: prod.case load_submission_refuses)
qed

text \<open>C13: what a successful signed close covers. What the operator signed are exactly the products that
  are received in closed boxes of that cargoplace at this moment, in the order of their item ids; a
  product received in a box that is still open is not among them, and does not keep the cargoplace
  from being closed. The cargoplace goes from TABLE_IN_PROGRESS to TABLE_CLOSED, no product and no
  box changes, every signed part is queued for the chain with its payload, and the summary counts
  what is in the database.\<close>

theorem SubmitCloseCargoplace_effect:
  assumes ok: "SubmitCloseCargoplace C E u oid as s = (Inr r, s')"
    and wf: "ops_wf s" and keys: "distinct (map cp_id (cargoplaces s))"
  shows "\<exists>op pl. signed_op C TypeReceive u oid as s op pl
    \<and> op_items op = SortByItemID (cf_crypto C) (listClosableProductIDs (cc_cargoplace r) s)
    \<and> set (op_items op) = pr_id ` {p \<in> set (products s). pr_cargoplace p = cc_cargoplace r \<and> pr_status p = ProductStatusReceived
         \<and> (\<exists>b\<in>set (boxes s). pr_box p = Some (bx_id b) \<and> bx_status b = BoxClosed)}
    \<and> (\<exists>cp\<in>set (cargoplaces s). cp_id cp = cc_cargoplace r \<and> cp_status cp = CargoplaceTableInProgress
         \<and> set (cargoplaces s') = insert (cp\<lparr>cp_status := CargoplaceTableClosed\<rparr>) (set (cargoplaces s) - {cp}))
    \<and> products s' = products s \<and> boxes s' = boxes s
    \<and> outbox_events s' = outbox_events s @ map2 outbox_row (op_parts op) pl
    \<and> cc_summary r = buildCloseCargoplaceSummary (ListExpectedSKUsByCargoplace (cc_cargoplace r) s)
        (listReceivedProductCountsBySKU (cc_cargoplace r) s)"
proof -
  obtain op pl s1 cr where l: "(load_submission C TypeReceive u oid as :: (operation \<times> string list) receiving_tx) s = (Inr (op, pl), s1)"
    and c: "CloseCargoplaceWithOutbox (cf_crypto C) E (details_cargoplace (op_details op)) u
       (of_unix_milli (details_ms (op_details op))) oid pl s1 = (Inr cr, s')"
    and r: "r = \<lparr> cc_cargoplace = details_cargoplace (op_details op), cc_operation = oid, cc_status = CargoplaceTableClosed,
        cc_summary = buildCloseCargoplaceSummary (cr_expected cr) (cr_received cr), cc_events = length pl \<rparr>"
    using SubmitClose_run [OF ok] by blast
  note k = keys_only_tables [OF submit_head(1) [OF l]]
  define c where "c = details_cargoplace (op_details op)"
  have cr: "c = cc_cargoplace r" by (simp add: c_def r)
  obtain cp lop where cp: "List.find (\<lambda>x. cp_id x = c) (cargoplaces s1) = Some cp" "cp_status cp = CargoplaceTableInProgress"
    and lop: "LockOperation oid u s1 = (Inr lop, s1)" "SortByItemID (cf_crypto C) (listClosableProductIDs c s1) = op_items lop"
    and upd: "cargoplaces s' = sql_update (\<lambda>x. cp_id x = c \<and> cp_status x = CargoplaceTableInProgress)
        (\<lambda>x. x\<lparr>cp_status := CargoplaceTableClosed\<rparr>) (cargoplaces s1)"
    and same: "products s' = products s1" "boxes s' = boxes s1"
    and sums: "cr_expected cr = ListExpectedSKUsByCargoplace c s1" "cr_received cr = listReceivedProductCountsBySKU c s1"
    and ob: "outbox_events s' = outbox_events s1 @ map2 outbox_row (op_parts lop) pl"
    using close_ok [OF c] unfolding c_def by blast
  have lop': "lop = op" using lop(1) submit_head(4) [OF l wf] by simp
  have cpin: "cp \<in> set (cargoplaces s)" "cp_id cp = c" using find_Some_set [OF cp(1)] k by auto
  have upd: "set (cargoplaces s') = insert (cp\<lparr>cp_status := CargoplaceTableClosed\<rparr>) (set (cargoplaces s) - {cp})"
    unfolding upd k using keys cpin cp(2) by (intro set_sql_update_row [where key = cp_id]) auto
  have cl: "listClosableProductIDs c s1 = listClosableProductIDs c s"
    "ListExpectedSKUsByCargoplace c s1 = ListExpectedSKUsByCargoplace c s"
    "listReceivedProductCountsBySKU c s1 = listReceivedProductCountsBySKU c s"
    by (simp_all add: listClosableProductIDs_def closable_def [abs_def] ListExpectedSKUsByCargoplace_def
        listReceivedProductCountsBySKU_def sku_row_def [abs_def] k cong: if_cong)
  have items: "op_items op = SortByItemID (cf_crypto C) (listClosableProductIDs c s)" using lop(2) unfolding lop' cl by simp
  have "set (op_items op) = pr_id ` {p \<in> set (products s). pr_cargoplace p = c \<and> pr_status p = ProductStatusReceived
         \<and> (\<exists>b\<in>set (boxes s). pr_box p = Some (bx_id b) \<and> bx_status b = BoxClosed)}"
    unfolding items listClosableProductIDs_def closable_def [abs_def] by simp
  then show ?thesis
    using submit_head(3) [OF l] cpin cp(2) upd lop lop' same sums ob
    unfolding cr [symmetric] cl k by (intro exI [of _ op] exI [of _ pl]) (simp add: r; blast)
qed

definition demo_product :: product where
  "demo_product = \<lparr> pr_id = 40, pr_sku = 30, pr_shipment = 10, pr_cargoplace = 11, pr_box = Some 20, pr_qr = ''q'',
     pr_bin = Some 50, pr_order = None, pr_status = ProductStatusReceived, pr_created = 0 \<rparr>"

definition demo_close_db :: wms_db where
  "demo_close_db = demo_signed TypeReceive [40] (ReceiveDetails 11 21)
     (demo_table_db\<lparr> boxes := [\<lparr> bx_id = 20, bx_cargoplace = 11, bx_barcode = ''x'', bx_status = BoxClosed \<rparr>],
       products := [demo_product] \<rparr>)"

theorem SubmitCloseCargoplace_effect_witness:
  "\<exists>r s'. SubmitCloseCargoplace demo_config demo_env 2 64 [(65, demo_assertion)] demo_close_db = (Inr r, s')
     \<and> (\<forall>c\<in>set (cargoplaces s'). cp_status c = CargoplaceTableClosed)"
proof -
  have "\<not> isl (fst (SubmitCloseCargoplace demo_config demo_env 2 64 [(65, demo_assertion)] demo_close_db))"
    by (simp add: SubmitCloseCargoplace_def CloseCargoplaceWithOutbox_def demo_close_db_def tx_simps ops_tx_def Let_def
      demo_table_db_def empty_db_def listClosableProductIDs_def closable_def demo_product_def SortByItemID_def
      demo_signer insertReceivingTableLogTx_def sql_row_def sql_count_def demo_write)
  then obtain r s' where run: "SubmitCloseCargoplace demo_config demo_env 2 64 [(65, demo_assertion)] demo_close_db = (Inr r, s')"
    using run_ok by blast
  have "ops_wf demo_close_db" "distinct (map cp_id (cargoplaces demo_close_db))" "\<exists>c. cargoplaces demo_close_db = [c]"
    by (simp_all add: demo_close_db_def demo_table_db_def)
  then show ?thesis
    using run SubmitCloseCargoplace_effect [OF run] by fastforce
qed

section \<open>Failed requests\<close>

lemma receiving_atomic:
  "tx_atomic (=) (ScanTTN E u ttn)" "tx_atomic (=) (ScanCargoplace E u i code)"
  "tx_atomic (=) (AcceptShipment E u i)" "tx_atomic (=) (ScanTableCargoplace E u c)"
  "tx_atomic (=) (ScanBox E u c barcode)" "tx_atomic (=) (ScanSKU E u c b barcode)"
  "tx_atomic (=) (ScanQR E u c b k qr)" "tx_atomic (=) (CloseBox E u b)"
  "tx_atomic (=) (ScanBuffer E u c bn)"
  unfolding ScanTTN_def ScanCargoplace_def AcceptShipment_def ScanTableCargoplace_def ScanBox_def ScanSKU_def
    ScanQR_def CloseBox_def ScanBuffer_def receiving_reads split_def
  by (intro eqf.atomic_rules)+

lemma close_atomic:
  "tx_atomic keys_only (DraftCloseCargoplace C E u c)" "tx_atomic keys_only (SubmitCloseCargoplace C E u oid as)"
proof -
  show "tx_atomic keys_only (DraftCloseCargoplace C E u c)"
    unfolding DraftCloseCargoplace_def receiving_reads
    by (intro ko.atomic_rules draft_operation_atomic)
  show "tx_atomic keys_only (SubmitCloseCargoplace C E u oid as)"
    unfolding SubmitCloseCargoplace_def CloseCargoplaceWithOutbox_def split_def
    by (intro ko.atomic_rules load_submission_keys_only)
qed

end
