(* ===== verification/Putaway.thy ===== *)
theory Putaway
  imports Stock
begin

text \<open>
  \<^verbatim>\<open>wms/internal/putaway\<close>: the statements of \<^verbatim>\<open>repository.go\<close>, the two scans of
  \<^verbatim>\<open>service.go\<close>, and the signed placement of a basket into a storage bin
  (\<^verbatim>\<open>place_signed.go\<close>).
\<close>

datatype putaway_err =
    ErrBufferBinNotFound | ErrStorageBinNotFound | PutawayProductNotFound | PutawayProductNotInBuffer
  | ErrProductNotReceived | ErrCargoplaceNotClosed | PutawayDraftStale | PutawayInvalidInput
  | PutawayChainRejected

type_synonym 'a putaway_tx = "(wms_db, putaway_err svc_err, 'a) tx"

section \<open>The store\<close>

definition CountReceivedInBuffer :: "uuid \<Rightarrow> wms_db \<Rightarrow> nat" where
  "CountReceivedInBuffer bufferBinID s =
     sql_count (\<lambda>p. pr_bin p = Some bufferBinID \<and> pr_status p = ProductStatusReceived) (products s)"

definition GetBufferBinByID :: "uuid \<Rightarrow> bin putaway_tx" where
  "GetBufferBinByID bufferBinID = tx_query (\<lambda>s.
     sql_row (Svc ErrBufferBinNotFound) (\<lambda>b. bn_id b = bufferBinID \<and> normal_section b = Some ''BUFFER'') (bins s))"

definition storage_bin :: "bin \<Rightarrow> bool" where
  "storage_bin b \<longleftrightarrow>
     (case normal_section b of None \<Rightarrow> False
      | Some section \<Rightarrow> section \<noteq> ''BUFFER'' \<and> section \<noteq> ''SHIPPING_BUFFER'')
     \<and> (case bn_volume b of None \<Rightarrow> False | Some volume \<Rightarrow> 0 < volume)"

definition GetStorageBinByID :: "uuid \<Rightarrow> bin putaway_tx" where
  "GetStorageBinByID storageBinID = tx_query (\<lambda>s.
     sql_row (Svc ErrStorageBinNotFound) (\<lambda>b. bn_id b = storageBinID \<and> storage_bin b) (bins s))"

record product_buffer_item =
  pb_product :: uuid
  pb_qr :: string
  pb_status :: product_status
  pb_sku_name :: string

definition ListProductsByBufferBin :: "uuid \<Rightarrow> wms_db \<Rightarrow> product_buffer_item list" where
  "ListProductsByBufferBin bufferBinID s =
     List.map_filter (\<lambda>p. map_option
         (\<lambda>k. \<lparr> pb_product = pr_id p, pb_qr = pr_qr p, pb_status = pr_status p, pb_sku_name = sk_name k \<rparr>)
         (List.find (\<lambda>k. sk_id k = pr_sku p) (skus s)))
       (sort_key pr_created
         (filter (\<lambda>p. pr_bin p = Some bufferBinID \<and> pr_status p = ProductStatusReceived) (products s)))"

definition GetProductByID :: "uuid \<Rightarrow> product putaway_tx" where
  "GetProductByID productID = tx_query (\<lambda>s.
     sql_row (Svc PutawayProductNotFound) (\<lambda>p. pr_id p = productID) (products s))"

text \<open>The same row, locked until the transaction ends.\<close>

definition GetProductsByIDForUpdate :: "uuid \<Rightarrow> product putaway_tx" where
  "GetProductsByIDForUpdate productID = tx_query (\<lambda>s.
     sql_row (Svc PutawayProductNotFound) (\<lambda>p. pr_id p = productID) (products s))"

definition GetCargoplaceStatus :: "uuid \<Rightarrow> cargoplace_status putaway_tx" where
  "GetCargoplaceStatus cargoplaceID = tx_query (\<lambda>s.
     case List.find (\<lambda>c. cp_id c = cargoplaceID) (cargoplaces s) of
       None \<Rightarrow> Inl (Svc ErrCargoplaceNotClosed) | Some c \<Rightarrow> Inr (cp_status c))"

definition GetSKUByProductID :: "uuid \<Rightarrow> sku putaway_tx" where
  "GetSKUByProductID productID = tx_query (\<lambda>s.
     case List.find (\<lambda>p. pr_id p = productID) (products s) of
       None \<Rightarrow> Inl (Svc PutawayProductNotFound)
     | Some p \<Rightarrow> sql_row (Svc PutawayProductNotFound) (\<lambda>k. sk_id k = pr_sku p) (skus s))"

definition UpdateProductStorage :: "uuid \<Rightarrow> uuid \<Rightarrow> unit putaway_tx" where
  "UpdateProductStorage productID binID =
     sql_exec_some products products_update (Svc ErrProductNotReceived)
       (\<lambda>p. pr_id p = productID \<and> pr_status p = ProductStatusReceived)
       (\<lambda>p. p\<lparr>pr_bin := Some binID, pr_status := ProductStatusStored\<rparr>)"

definition InsertPutaway :: "putaway_row \<Rightarrow> unit putaway_tx" where
  "InsertPutaway params = sql_insert putaways putaways_update pw_event SqlConflict params"

section \<open>The scans\<close>

definition GetBufferProducts :: "uuid \<Rightarrow> uuid \<Rightarrow> (uuid \<times> string \<times> product_buffer_item list \<times> nat) putaway_tx" where
  "GetBufferProducts operatorID bufferBinID =
     tx_seq (tx_check (operatorID \<noteq> uuid_Nil \<and> bufferBinID \<noteq> uuid_Nil) (Svc PutawayInvalidInput))
    (tx_bind (GetBufferBinByID bufferBinID) (\<lambda>bufferBin.
     tx_bind (tx_get (ListProductsByBufferBin bufferBinID)) (\<lambda>ps.
     tx_return (bn_id bufferBin, bn_code bufferBin, ps, length ps))))"

definition AddToPutawayCart :: "uuid \<Rightarrow> uuid \<Rightarrow> uuid \<Rightarrow> (uuid \<times> string \<times> string \<times> nat) putaway_tx" where
  "AddToPutawayCart operatorID productID bufferBinID =
     tx_seq (tx_check (operatorID \<noteq> uuid_Nil \<and> bufferBinID \<noteq> uuid_Nil \<and> productID \<noteq> uuid_Nil) (Svc PutawayInvalidInput))
    (tx_bind (GetBufferBinByID bufferBinID) (\<lambda>_.
     tx_bind (GetProductByID productID) (\<lambda>p.
     tx_seq (tx_check (pr_bin p = Some bufferBinID) (Svc PutawayProductNotInBuffer))
    (tx_seq (tx_check (pr_status p = ProductStatusReceived) (Svc ErrProductNotReceived))
    (tx_bind (GetSKUByProductID productID) (\<lambda>k.
     tx_bind (tx_get (CountReceivedInBuffer bufferBinID)) (\<lambda>cartSize.
     tx_return (pr_id p, sk_name k, pr_qr p, cartSize))))))))"

section \<open>The signed placement\<close>

text \<open>
  The loop over the basket, in the draft and again under the lock. It remembers the
  buffer bins and the cargoplaces that have already passed. \<open>fetch\<close> is the lookup of the
  draft, and the row itself in the submit, which also reports other errors.
\<close>

primrec verify_products ::
  "('x \<Rightarrow> product putaway_tx) \<Rightarrow> putaway_err \<Rightarrow> putaway_err \<Rightarrow> 'x list \<Rightarrow> uuid list \<Rightarrow> uuid list \<Rightarrow> unit putaway_tx" where
  "verify_products fetch notInBuffer notReceived [] verifiedBuffers checkedCargoplaces = tx_return ()"
| "verify_products fetch notInBuffer notReceived (x # xs) verifiedBuffers checkedCargoplaces =
     tx_bind (fetch x) (\<lambda>p.
     case pr_bin p of None \<Rightarrow> tx_fail (Svc notInBuffer)
     | Some binID \<Rightarrow>
       tx_seq (if binID \<in> set verifiedBuffers then tx_return ()
               else tx_bind (tx_handle (GetBufferBinByID binID)
                      (\<lambda>e. tx_fail (if e = Svc ErrBufferBinNotFound then Svc notInBuffer else e))) (\<lambda>_. tx_return ()))
      (tx_seq (tx_check (pr_status p = ProductStatusReceived) (Svc notReceived))
      (tx_seq (if pr_cargoplace p \<in> set checkedCargoplaces then tx_return ()
               else tx_bind (GetCargoplaceStatus (pr_cargoplace p)) (\<lambda>status.
                    tx_check (status = CargoplaceTableClosed) (Svc ErrCargoplaceNotClosed)))
        (verify_products fetch notInBuffer notReceived xs
          (binID # verifiedBuffers) (pr_cargoplace p # checkedCargoplaces)))))"

definition DraftPlaceToStorageBin ::
  "config \<Rightarrow> call_env \<Rightarrow> uuid \<Rightarrow> uuid list \<Rightarrow> uuid \<Rightarrow> operation putaway_tx" where
  "DraftPlaceToStorageBin C E operatorID productIDs storageBinID =
     tx_seq (tx_check (operatorID \<noteq> uuid_Nil \<and> storageBinID \<noteq> uuid_Nil \<and> productIDs \<noteq> []) (Svc PutawayInvalidInput))
    (tx_bind (GetStorageBinByID storageBinID) (\<lambda>_.
     let items = dedup (\<lambda>x. x) {} productIDs in
     tx_seq (verify_products GetProductByID PutawayProductNotInBuffer ErrProductNotReceived items [] [])
    (tx_seq (CheckChainStatus (Svc PutawayChainRejected) items AggregateReceiving)
      (draft_operation C E TypePutAway operatorID (PutawayDetails storageBinID) items
        (\<lambda>ms salt _. PutAwayDetailsHash (cf_crypto C) salt storageBinID operatorID ms)))))"

primrec lock_products :: "uuid list \<Rightarrow> product list putaway_tx" where
  "lock_products [] = tx_return []"
| "lock_products (productID # ids) =
     tx_bind (tx_handle (GetProductsByIDForUpdate productID)
       (\<lambda>e. tx_fail (if e = Svc PutawayProductNotFound then Svc PutawayDraftStale else e))) (\<lambda>p.
     tx_bind (lock_products ids) (\<lambda>locked. tx_return (p # locked)))"

text \<open>The Go map from a product to its action: the last part that has it; the zero id when none has.\<close>

definition partByProduct :: "part list \<Rightarrow> uuid \<Rightarrow> uuid" where
  "partByProduct parts productID =
     (case map_of (rev (concat (map (\<lambda>p. map (\<lambda>id. (id, pt_action p)) (pt_items p)) parts))) productID of
        None \<Rightarrow> uuid_Nil | Some actionID \<Rightarrow> actionID)"

definition place_product ::
  "call_env \<Rightarrow> uuid \<Rightarrow> uuid \<Rightarrow> timestamp \<Rightarrow> part list \<Rightarrow> nat \<times> product \<Rightarrow> unit putaway_tx" where
  "place_product E storageBinID operatorID occurredAt parts = (\<lambda>(i, p).
     tx_seq (UpdateProductStorage (pr_id p) storageBinID)
       (InsertPutaway \<lparr> pw_event = fresh E i, pw_product = pr_id p, pw_from_bin = the (pr_bin p),
          pw_bin = storageBinID, pw_operator = operatorID, pw_occurred = occurredAt,
          pw_action = Some (partByProduct parts (pr_id p)) \<rparr>))"

definition place_locked ::
  "call_env \<Rightarrow> uuid \<Rightarrow> uuid \<Rightarrow> action_details \<Rightarrow> operation \<Rightarrow> string list \<Rightarrow> bin putaway_tx" where
  "place_locked E operatorID operationID details op payloads =
     tx_bind (GetStorageBinByID (details_storage_bin details)) (\<lambda>b.
     tx_bind (lock_products (sort (op_items op))) (\<lambda>locked.
     tx_bind (ops_tx (LockOperation operationID operatorID)) (\<lambda>lockedOp.
     tx_seq (verify_products tx_return PutawayDraftStale PutawayDraftStale locked [] [])
    (tx_seq (ops_tx (LockSigner (op_signer op)))
    (tx_seq (tx_each (place_product E (details_storage_bin details) operatorID
                (of_unix_milli (details_ms details)) (op_parts lockedOp)) (enumerate 0 locked))
    (tx_seq (ops_tx (WriteActions (clock E 0) lockedOp payloads))
      (tx_return b)))))))"

record scan_storage_bin_response =
  sv_bin :: uuid
  sv_code :: string
  sv_placed :: nat
  sv_events :: nat
  sv_operation :: uuid

definition SubmitPlaceToStorageBin ::
  "config \<Rightarrow> call_env \<Rightarrow> uuid \<Rightarrow> uuid \<Rightarrow> (uuid \<times> assertion) list \<Rightarrow> scan_storage_bin_response putaway_tx" where
  "SubmitPlaceToStorageBin C E operatorID operationID assertions =
     tx_bind (load_submission C TypePutAway operatorID operationID assertions) (\<lambda>(op, payloads).
     tx_seq (CheckChainStatus (Svc PutawayChainRejected) (op_items op) AggregateReceiving)
    (tx_bind (WithTx (place_locked E operatorID operationID (op_details op) op payloads)) (\<lambda>b.
     tx_return \<lparr> sv_bin = bn_id b, sv_code = bn_code b, sv_placed = length (op_items op),
       sv_events = length (op_parts op), sv_operation = op_id op \<rparr>)))"

end
