(* ===== verification/PutawayFlow.thy ===== *)
theory PutawayFlow
  imports Putaway
begin

text \<open>
  What the placement of a basket guarantees: the checks of the loop are those of every
  product on its own, a successful submit stores exactly the signed products in the signed
  bin and writes one history row for each, and a failed request changes nothing.
\<close>

section \<open>Reads\<close>

lemmas putaway_reads = GetStorageBinByID_def GetBufferBinByID_def GetProductByID_def GetProductsByIDForUpdate_def
  GetCargoplaceStatus_def GetSKUByProductID_def CheckChainStatus_def

lemma verify_products_reads: "(\<And>x. tx_rel (=) (fetch x)) \<Longrightarrow> tx_rel (=) (verify_products fetch e1 e2 xs vb cc)"
proof (induction xs arbitrary: vb cc)
  case Nil
  then show ?case by (simp add: tx_rules)
next
  case (Cons x xs)
  show ?case
    unfolding verify_products.simps putaway_reads by (intro tx_rules Cons)
qed

lemma lock_products_reads: "tx_rel (=) (lock_products ids)"
  by (induction ids) (auto simp: GetProductsByIDForUpdate_def intro!: tx_rules)

section \<open>Nothing goes back\<close>

lemma InsertPutaway_rel [tx_rules]: "tx_rel rows_forward (InsertPutaway p)" "tx_rel products_forward (InsertPutaway p)"
  unfolding InsertPutaway_def
  by (intro rel_statement rows_forwards; simp add: grows_append)
     (intro rel_statement products_forward_same; simp)

lemma UpdateProductStorage_rel [tx_rules]:
  "tx_rel rows_forward (UpdateProductStorage p b)" "tx_rel products_forward (UpdateProductStorage p b)"
  unfolding UpdateProductStorage_def
  by (intro rel_statement; simp) (intro rel_statement products_forward_update; simp add: product_step_def)

lemmas putaway_ops = GetBufferProducts_def AddToPutawayCart_def DraftPlaceToStorageBin_def
  SubmitPlaceToStorageBin_def place_locked_def place_product_def

lemma putaway_rows_forward:
  "tx_rel rows_forward (GetBufferProducts u b)" "tx_rel rows_forward (AddToPutawayCart u p b)"
  "tx_rel rows_forward (DraftPlaceToStorageBin C E u ps b)"
  "tx_rel rows_forward (SubmitPlaceToStorageBin C E u oid as)"
  unfolding putaway_ops putaway_reads split_def
  by (intro tx_rules rowf.rel_reads [OF verify_products_reads] rowf.rel_reads [OF lock_products_reads] query_reads)+

lemma putaway_products_forward:
  "tx_rel products_forward (GetBufferProducts u b)" "tx_rel products_forward (AddToPutawayCart u p b)"
  "tx_rel products_forward (DraftPlaceToStorageBin C E u ps b)"
  "tx_rel products_forward (SubmitPlaceToStorageBin C E u oid as)"
  unfolding putaway_ops putaway_reads split_def
  by (intro tx_rules prodf.rel_reads [OF verify_products_reads] prodf.rel_reads [OF lock_products_reads] query_reads)+

text \<open>The two scans only read.\<close>

lemma putaway_scans_read:
  "tx_rel (=) (GetBufferProducts u b)" "tx_rel (=) (AddToPutawayCart u p b)"
  unfolding putaway_ops putaway_reads by (intro tx_rules)+

lemma place_atomic:
  "tx_atomic keys_only (DraftPlaceToStorageBin C E u ps b)" "tx_atomic keys_only (SubmitPlaceToStorageBin C E u oid as)"
  unfolding DraftPlaceToStorageBin_def SubmitPlaceToStorageBin_def putaway_reads split_def
  by (intro ko.atomic_rules draft_operation_atomic load_submission_keys_only
      ko.rel_reads [OF verify_products_reads] query_reads)+

section \<open>The checks\<close>

text \<open>What one product must satisfy, written without the memory of the loop.\<close>

definition placeable :: "wms_db \<Rightarrow> product \<Rightarrow> bool" where
  "placeable s p \<longleftrightarrow> pr_status p = ProductStatusReceived
     \<and> (\<exists>b bn. pr_bin p = Some b \<and> List.find (\<lambda>x. bn_id x = b \<and> normal_section x = Some ''BUFFER'') (bins s) = Some bn)
     \<and> (\<exists>c. List.find (\<lambda>x. cp_id x = pr_cargoplace p) (cargoplaces s) = Some c \<and> cp_status c = CargoplaceTableClosed)"

definition buffer_seen :: "wms_db \<Rightarrow> uuid \<Rightarrow> bool" where
  "buffer_seen s b \<longleftrightarrow> (\<exists>bn. List.find (\<lambda>x. bn_id x = b \<and> normal_section x = Some ''BUFFER'') (bins s) = Some bn)"

definition cargoplace_seen :: "wms_db \<Rightarrow> uuid \<Rightarrow> bool" where
  "cargoplace_seen s c \<longleftrightarrow>
     (\<exists>x. List.find (\<lambda>x. cp_id x = c) (cargoplaces s) = Some x \<and> cp_status x = CargoplaceTableClosed)"

lemma verify_products_each:
  "verify_products (\<lambda>x. tx_query (q x)) e1 e2 xs [] [] s
     = tx_each (\<lambda>x. verify_products (\<lambda>x. tx_query (q x)) e1 e2 [x] [] []) xs s"
proof -
  have "verify_products (\<lambda>x. tx_query (q x)) e1 e2 xs vb cc s
     = tx_each (\<lambda>x. verify_products (\<lambda>x. tx_query (q x)) e1 e2 [x] [] []) xs s"
    if "\<forall>b\<in>set vb. buffer_seen s b" "\<forall>c\<in>set cc. cargoplace_seen s c" for vb cc
    using that
  proof (induction xs arbitrary: vb cc)
    case (Cons x xs)
    show ?case
    proof (cases "q x s")
      case (Inr p)
      show ?thesis
      proof (cases "pr_bin p")
        case (Some b)
        show ?thesis
          using Cons.prems Cons.IH [of "b # vb" "pr_cargoplace p # cc"] Inr Some
          by (auto simp: tx_simps putaway_reads buffer_seen_def cargoplace_seen_def sql_row_def split: option.splits sum.splits)
      qed (simp add: Inr tx_simps)
    qed (simp add: tx_simps)
  qed simp
  then show ?thesis by simp
qed


text \<open>The loop that checks a basket remembers buffer bins and cargoplaces; the memory is never
  wrong. In the draft and again under the lock the loop returns, for any list, exactly what checking
  every product on its own returns, the error of the first bad product included.\<close>

theorem verify_products_uncached:
  "verify_products GetProductByID e1 e2 ids [] [] s
     = tx_each (\<lambda>x. verify_products GetProductByID e1 e2 [x] [] []) ids s
   \<and> verify_products tx_return e1 e2 ps [] [] s
     = tx_each (\<lambda>x. verify_products tx_return e1 e2 [x] [] []) ps s"
proof -
  have r: "(tx_return :: product \<Rightarrow> product putaway_tx) = (\<lambda>x. tx_query (\<lambda>_. Inr x))"
    by (simp add: fun_eq_iff tx_simps)
  have g: "GetProductByID = (\<lambda>x. tx_query (\<lambda>s. sql_row (Svc PutawayProductNotFound) (\<lambda>p. pr_id p = x) (products s)))"
    by (simp add: fun_eq_iff GetProductByID_def)
  show ?thesis unfolding r g by (intro conjI) (rule verify_products_each)+
qed

lemma verify_one_ok:
  "verify_products tx_return e1 e2 [p] [] [] s = (Inr v, s') \<Longrightarrow> s' = s \<and> placeable s p"
  by (auto simp: putaway_reads svc_oks tx_handle_ok placeable_def split: option.splits)

lemma verify_locked_ok:
  assumes "verify_products tx_return e1 e2 ps [] [] s = (Inr v, s')"
  shows "s' = s \<and> (\<forall>p\<in>set ps. placeable s p)"
proof -
  have r: "(tx_return :: product \<Rightarrow> product putaway_tx) = (\<lambda>x. tx_query (\<lambda>_. Inr x))"
    by (simp add: fun_eq_iff tx_simps)
  have "tx_each (\<lambda>x. verify_products tx_return e1 e2 [x] [] []) ps s = (Inr v, s')"
    using assms unfolding r verify_products_each [where xs = ps] .
  then show ?thesis
    by (induction ps arbitrary: s) (auto simp: tx_seq_ok tx_return_ok simp del: verify_products.simps dest!: verify_one_ok)
qed

section \<open>The placement\<close>

lemma lock_products_ok:
  "lock_products ids s = (Inr ps, s') \<Longrightarrow> s' = s \<and> map pr_id ps = ids \<and> set ps \<subseteq> set (products s)"
proof (induction ids arbitrary: ps s s')
  case (Cons id ids)
  then obtain p ps' where "List.find (\<lambda>p. pr_id p = id) (products s) = Some p" "lock_products ids s = (Inr ps', s')" "ps = p # ps'"
    by (auto simp: svc_oks tx_handle_ok GetProductsByIDForUpdate_def)
  with Cons.IH [of s ps' s'] find_Some_set [of "\<lambda>p. pr_id p = id" "products s" p] show ?case by auto
qed (simp add: tx_return_ok)

definition putaway_entry :: "call_env \<Rightarrow> uuid \<Rightarrow> uuid \<Rightarrow> timestamp \<Rightarrow> part list \<Rightarrow> nat \<times> product \<Rightarrow> putaway_row" where
  "putaway_entry E b u t parts = (\<lambda>(i, p). \<lparr> pw_event = fresh E i, pw_product = pr_id p, pw_from_bin = the (pr_bin p),
     pw_bin = b, pw_operator = u, pw_occurred = t, pw_action = Some (partByProduct parts (pr_id p)) \<rparr>)"

definition stored_in :: "uuid \<Rightarrow> product \<Rightarrow> product" where
  "stored_in b p = p\<lparr>pr_bin := Some b, pr_status := ProductStatusStored\<rparr>"

lemma place_each_ok:
  assumes "tx_each (place_product E b u t parts) (enumerate n ps) s = (Inr v, s')"
  shows "distinct (map pr_id ps)
    \<and> (\<forall>p\<in>set ps. \<exists>r\<in>set (products s). pr_id r = pr_id p \<and> pr_status r = ProductStatusReceived)
    \<and> s' = s\<lparr> products := sql_update (\<lambda>r. pr_id r \<in> pr_id ` set ps \<and> pr_status r = ProductStatusReceived) (stored_in b) (products s),
              putaways := putaways s @ map (putaway_entry E b u t parts) (enumerate n ps) \<rparr>"
  using assms
proof (induction ps arbitrary: n s)
  case Nil
  then show ?case by (cases s) (simp add: tx_return_ok sql_update_def)
next
  case (Cons p ps)
  let ?P = "\<lambda>r. pr_id r = pr_id p \<and> pr_status r = ProductStatusReceived"
  let ?s1 = "s\<lparr> products := sql_update ?P (stored_in b) (products s), putaways := putaways s @ [putaway_entry E b u t parts (n, p)] \<rparr>"
  have run: "\<exists>r\<in>set (products s). ?P r" "tx_each (place_product E b u t parts) (enumerate (Suc n) ps) ?s1 = (Inr v, s')"
    using Cons.prems
    by (cases s; auto simp: tx_seq_ok place_product_def svc_oks UpdateProductStorage_def InsertPutaway_def putaway_entry_def
        stored_in_def [abs_def])+
  note IH = Cons.IH [OF run(2)]
  have gone: "\<not> (\<exists>r\<in>set (products ?s1). ?P r)"
    by (auto simp: set_sql_update stored_in_def)
  then have "pr_id p \<notin> pr_id ` set ps" using IH by auto
  moreover have "\<exists>r\<in>set (products s). pr_id r = pr_id q \<and> pr_status r = ProductStatusReceived" if "q \<in> set ps" for q
    using IH that by (fastforce simp: set_sql_update stored_in_def split: if_splits)
  moreover have "sql_update (\<lambda>r. pr_id r \<in> pr_id ` set ps \<and> pr_status r = ProductStatusReceived) (stored_in b) (products ?s1)
      = sql_update (\<lambda>r. pr_id r \<in> pr_id ` set (p # ps) \<and> pr_status r = ProductStatusReceived) (stored_in b) (products s)"
    by (auto simp: sql_update_def stored_in_def)
  ultimately show ?case using IH run(1) by simp
qed

lemma partByProduct_part:
  assumes "x \<in> set (concat (map pt_items parts))"
  shows "\<exists>p\<in>set parts. x \<in> set (pt_items p) \<and> partByProduct parts x = pt_action p"
proof -
  let ?m = "rev (concat (map (\<lambda>p. map (\<lambda>id. (id, pt_action p)) (pt_items p)) parts))"
  have "map_of ?m x \<noteq> None" using assms by (auto simp: map_of_eq_None_iff image_iff)
  then obtain a where a: "map_of ?m x = Some a" by blast
  then have "(x, a) \<in> set ?m" by (rule map_of_SomeD)
  then show ?thesis using a by (auto simp: partByProduct_def)
qed

lemma place_locked_ok:
  assumes "place_locked E u oid d op pl s = (Inr b, s')"
  shows "\<exists>lop ps. List.find (\<lambda>x. bn_id x = details_storage_bin d \<and> storage_bin x) (bins s) = Some b
    \<and> LockOperation oid u s = (Inr lop, s) \<and> map pr_id ps = sort (op_items op) \<and> set ps \<subseteq> set (products s)
    \<and> (\<forall>p\<in>set ps. placeable s p) \<and> distinct (map pr_id ps)
    \<and> products s' = sql_update (\<lambda>r. pr_id r \<in> set (op_items op) \<and> pr_status r = ProductStatusReceived)
        (stored_in (details_storage_bin d)) (products s)
    \<and> putaways s' = putaways s @ map (putaway_entry E (details_storage_bin d) u (of_unix_milli (details_ms d)) (op_parts lop)) (enumerate 0 ps)
    \<and> outbox_events s' = outbox_events s @ map2 outbox_row (op_parts lop) pl \<and> queued oid u s s'
    \<and> passkey_credentials s' = passkey_credentials s \<and> distinct (map pt_action (op_parts lop))
    \<and> pt_action ` set (op_parts lop) \<inter> ob_event ` set (outbox_events s) = {}"
  using assms
  apply (simp (no_asm_use) only: place_locked_def svc_oks GetStorageBinByID_def sql_row_Inr LockSigner_ok)
  apply (elim exE conjE)
  apply (drule lock_products_ok)
  apply (elim conjE)
  apply (drule LockOperation_same)
  apply (elim conjE)
  apply hypsubst_thin
  apply (drule verify_locked_ok)
  apply (elim conjE)
  apply hypsubst_thin
  apply (drule place_each_ok)
  apply (elim conjE)
  apply hypsubst_thin
  subgoal premises p for _ _ ps _ lop
  proof -
    have ids: "pr_id ` set ps = set (op_items op)"
      using arg_cong [OF p(6), of set] by simp
    show ?thesis
      using p WriteActions_frame [OF p(3)] p(3) [unfolded WriteActions_ok] queued_intro [OF p(8) p(3), of s]
      unfolding ids by (intro exI [of _ lop] exI [of _ ps]) auto
  qed
  done

lemma SubmitPlace_run:
  assumes "SubmitPlaceToStorageBin C E u oid as s = (Inr r, s')"
  shows "\<exists>op pl s1 b. (load_submission C TypePutAway u oid as :: (operation \<times> string list) putaway_tx) s = (Inr (op, pl), s1)
    \<and> \<not> chain_rejected (op_items op) (actionTypeByAggregate AggregateReceiving) s1
    \<and> place_locked E u oid (op_details op) op pl s1 = (Inr b, s')
    \<and> r = \<lparr> sv_bin = bn_id b, sv_code = bn_code b, sv_placed = length (op_items op),
       sv_events = length (op_parts op), sv_operation = op_id op \<rparr>"
  using assms unfolding SubmitPlaceToStorageBin_def svc_oks CheckChainStatus_ok split_paired_Ex prod.case by blast

definition submit_place ::
  "config \<times> call_env \<times> (uuid \<times> assertion) list \<Rightarrow> uuid \<Rightarrow> uuid \<Rightarrow> scan_storage_bin_response putaway_tx" where
  "submit_place = (\<lambda>(C, E, as) u oid. SubmitPlaceToStorageBin C E u oid as)"

interpretation place_once: lock_once submit_place Ops
proof
  fix x u oid s a s' assume run: "submit_place x u oid s = (Inr a, s')"
  obtain C E as where x: "x = (C, E, as)" by (cases x)
  obtain op pl s1 b where l: "(load_submission C TypePutAway u oid as :: (operation \<times> string list) putaway_tx) s = (Inr (op, pl), s1)"
    and p: "place_locked E u oid (op_details op) op pl s1 = (Inr b, s')"
    using run SubmitPlace_run unfolding submit_place_def x by force
  have "queued oid u s1 s'" using place_locked_ok [OF p] by blast
  then show "queued oid u s s'" by (rule queued_keys_only [OF submit_head(1) [OF l]])
next
  fix x u oid s e s' assume "submit_place x u oid s = (Inl e, s')"
  then show "keys_only s s'"
    unfolding submit_place_def by (cases x) (auto intro: tx_atomicD [OF place_atomic(2)])
next
  fix oid u s x assume "submitted_op oid u s"
  then show "submit_place x u oid s \<in> {(Inl (Ops ErrOperationNotFound), s), (Inl (Ops ErrOperationSubmitted), s)}"
    unfolding submit_place_def SubmitPlaceToStorageBin_def by (cases x) (simp only: prod.case load_submission_refuses)
qed

text \<open>C14: a successful placement moves exactly the signed products. Each of them was received, in a
  buffer bin and of a closed cargoplace, and the chain has refused none of their receptions; the
  operation lists none twice; afterwards they, and no other product, are stored in the signed storage
  bin; one history row per product names the bin it came from and the signed action that covers it.\<close>

theorem SubmitPlaceToStorageBin_effect:
  assumes ok: "SubmitPlaceToStorageBin C E u oid as s = (Inr r, s')"
    and wf: "ops_wf s" and keys: "product_keys s"
  shows "\<exists>op pl b ps. signed_op C TypePutAway u oid as s op pl \<and> b \<in> set (bins s) \<and> storage_bin b
    \<and> bn_id b = sv_bin r \<and> sv_bin r = details_storage_bin (op_details op)
    \<and> \<not> chain_rejected (op_items op) (actionTypeByAggregate AggregateReceiving) s
    \<and> map pr_id ps = sort (op_items op) \<and> distinct (op_items op) \<and> set ps \<subseteq> set (products s) \<and> (\<forall>p\<in>set ps. placeable s p)
    \<and> products s' = map (\<lambda>p. if p \<in> set ps then stored_in (sv_bin r) p else p) (products s)
    \<and> (\<exists>new. putaways s' = putaways s @ new \<and> list_all2 (\<lambda>p w. pw_product w = pr_id p \<and> pr_bin p = Some (pw_from_bin w)
        \<and> pw_bin w = sv_bin r \<and> pw_operator w = u
        \<and> (\<exists>part\<in>set (op_parts op). pr_id p \<in> set (pt_items part) \<and> pw_action w = Some (pt_action part))) ps new)
    \<and> outbox_events s' = outbox_events s @ map2 outbox_row (op_parts op) pl"
proof -
  obtain op pl s1 b where l: "(load_submission C TypePutAway u oid as :: (operation \<times> string list) putaway_tx) s = (Inr (op, pl), s1)"
    and chain: "\<not> chain_rejected (op_items op) (actionTypeByAggregate AggregateReceiving) s1"
    and p: "place_locked E u oid (op_details op) op pl s1 = (Inr b, s')"
    and r: "r = \<lparr> sv_bin = bn_id b, sv_code = bn_code b, sv_placed = length (op_items op),
       sv_events = length (op_parts op), sv_operation = op_id op \<rparr>"
    using SubmitPlace_run [OF ok] by blast
  note k = keys_only_tables [OF submit_head(1) [OF l]]
  let ?b = "details_storage_bin (op_details op)"
  obtain lop ps where b: "List.find (\<lambda>x. bn_id x = ?b \<and> storage_bin x) (bins s1) = Some b"
    and lop: "LockOperation oid u s1 = (Inr lop, s1)" and ps: "map pr_id ps = sort (op_items op)" "set ps \<subseteq> set (products s1)"
      "\<forall>p\<in>set ps. placeable s1 p" "distinct (map pr_id ps)"
    and s': "products s' = sql_update (\<lambda>r. pr_id r \<in> set (op_items op) \<and> pr_status r = ProductStatusReceived) (stored_in ?b) (products s1)"
      "putaways s' = putaways s1 @ map (putaway_entry E ?b u (of_unix_milli (details_ms (op_details op))) (op_parts lop)) (enumerate 0 ps)"
      "outbox_events s' = outbox_events s1 @ map2 outbox_row (op_parts lop) pl"
    using place_locked_ok [OF p] by blast
  have lop': "lop = op" using lop submit_head(4) [OF l wf] by simp
  have bb: "b \<in> set (bins s)" "storage_bin b" "bn_id b = ?b" using find_Some_set [OF b] k by auto
  have ids: "pr_id ` set ps = set (op_items op)" using arg_cong [OF ps(1), of set] by simp
  have pl': "\<forall>p\<in>set ps. placeable s p" using ps(3) by (simp add: placeable_def k)
  have sub: "set ps \<subseteq> set (products s)" using ps(2) k by simp
  have moved: "(pr_id p \<in> set (op_items op) \<and> pr_status p = ProductStatusReceived) = (p \<in> set ps)" if "p \<in> set (products s)" for p
  proof
    assume "p \<in> set ps"
    then show "pr_id p \<in> set (op_items op) \<and> pr_status p = ProductStatusReceived"
      using ids pl' by (auto simp: placeable_def)
  next
    assume "pr_id p \<in> set (op_items op) \<and> pr_status p = ProductStatusReceived"
    then obtain q where "q \<in> set ps" "pr_id q = pr_id p" using ids by (metis imageE)
    then show "p \<in> set ps"
      using that sub keys distinct_keyD [of pr_id "products s" p q] unfolding product_keys_def by auto
  qed
  have prods: "products s' = map (\<lambda>p. if p \<in> set ps then stored_in ?b p else p) (products s)"
    unfolding s'(1) k sql_update_def using moved by (intro map_cong) simp_all
  have dist: "distinct (op_items op)" using ps(1,4) by (metis distinct_sort)
  have entry: "list_all2 (\<lambda>p w. pw_product w = pr_id p \<and> pr_bin p = Some (pw_from_bin w) \<and> pw_bin w = ?b \<and> pw_operator w = u
        \<and> (\<exists>part\<in>set (op_parts op). pr_id p \<in> set (pt_items part) \<and> pw_action w = Some (pt_action part)))
      ps (map (putaway_entry E ?b u t (op_parts op)) (enumerate 0 ps))" for t
    unfolding list_all2_conv_all_nth
  proof (intro conjI allI impI)
    fix i assume i: "i < length ps"
    then have in_ps: "ps ! i \<in> set ps" by simp
    then have "pr_id (ps ! i) \<in> set (concat (map pt_items (op_parts op)))" using ids unfolding op_items_def by blast
    from partByProduct_part [OF this] obtain part where "part \<in> set (op_parts op)" "pr_id (ps ! i) \<in> set (pt_items part)"
      "partByProduct (op_parts op) (pr_id (ps ! i)) = pt_action part" by blast
    moreover have "pr_bin (ps ! i) \<noteq> None" using pl' in_ps by (auto simp: placeable_def)
    ultimately show "pw_product (map (putaway_entry E ?b u t (op_parts op)) (enumerate 0 ps) ! i) = pr_id (ps ! i)"
      "pr_bin (ps ! i) = Some (pw_from_bin (map (putaway_entry E ?b u t (op_parts op)) (enumerate 0 ps) ! i))"
      "pw_bin (map (putaway_entry E ?b u t (op_parts op)) (enumerate 0 ps) ! i) = ?b"
      "pw_operator (map (putaway_entry E ?b u t (op_parts op)) (enumerate 0 ps) ! i) = u"
      "\<exists>part\<in>set (op_parts op). pr_id (ps ! i) \<in> set (pt_items part)
         \<and> pw_action (map (putaway_entry E ?b u t (op_parts op)) (enumerate 0 ps) ! i) = Some (pt_action part)"
      using i by (auto simp: putaway_entry_def nth_enumerate_eq)
  qed simp
  show ?thesis
    using submit_head(3) [OF l] bb chain ps(1) dist sub pl' prods entry s'(2,3) lop'
    by (intro exI [of _ op] exI [of _ pl] exI [of _ b] exI [of _ ps]) (auto simp: r k chain_rejected_def)
qed

definition demo_place_db :: wms_db where
  "demo_place_db = demo_signed TypePutAway [40] (PutawayDetails 60 21) (empty_db
     \<lparr> cargoplaces := [\<lparr> cp_id = 11, cp_shipment = 10, cp_code = ''A'', cp_status = CargoplaceTableClosed, cp_received_at = Some 0 \<rparr>],
       bins := [\<lparr> bn_id = 50, bn_warehouse = 1, bn_code = ''B'', bn_section = Some ''buffer'', bn_destination = None, bn_volume = None \<rparr>,
                \<lparr> bn_id = 60, bn_warehouse = 1, bn_code = ''S'', bn_section = Some ''A1'', bn_destination = None, bn_volume = Some 3 \<rparr>],
       products := [\<lparr> pr_id = 40, pr_sku = 30, pr_shipment = 10, pr_cargoplace = 11, pr_box = Some 20, pr_qr = ''q'',
          pr_bin = Some 50, pr_order = None, pr_status = ProductStatusReceived, pr_created = 0 \<rparr>] \<rparr>)"

theorem SubmitPlaceToStorageBin_effect_witness:
  "\<exists>r s'. SubmitPlaceToStorageBin demo_config demo_env 2 64 [(65, demo_assertion)] demo_place_db = (Inr r, s')
     \<and> (\<exists>w. pw_bin w = sv_bin r \<and> putaways s' = [w])"
proof -
  have upper: "upper_trim ''buffer'' = ''BUFFER''" "upper_trim ''A1'' = ''A1''" by code_simp+
  have "\<not> isl (fst (SubmitPlaceToStorageBin demo_config demo_env 2 64 [(65, demo_assertion)] demo_place_db))"
    by (simp add: SubmitPlaceToStorageBin_def place_locked_def demo_place_db_def tx_simps ops_tx_def Let_def empty_db_def
      chain_rejected_def putaway_reads sql_row_def storage_bin_def normal_section_def upper
      demo_signer InsertPutaway_def UpdateProductStorage_def demo_write place_product_def)
  then obtain r s' where run: "SubmitPlaceToStorageBin demo_config demo_env 2 64 [(65, demo_assertion)] demo_place_db = (Inr r, s')"
    using run_ok by blast
  have "ops_wf demo_place_db" "product_keys demo_place_db" "putaways demo_place_db = []" 
    by (simp_all add: demo_place_db_def product_keys_def empty_db_def)
  moreover have "op_items op = [40]" if "signed_op demo_config TypePutAway 2 64 as demo_place_db op pl" for op as pl
    using that unfolding demo_place_db_def by (auto dest: demo_signed_op)
  ultimately show ?thesis
    using run SubmitPlaceToStorageBin_effect [OF run] by (fastforce simp: list_all2_Cons1)
qed

end
