(* ===== verification/AssemblyStore.thy ===== *)
theory AssemblyStore
  imports Stock LedgerGate
begin

text \<open>
  \<^verbatim>\<open>wms/internal/assembly/repository.go\<close> and \<^verbatim>\<open>unload_signed_repository.go\<close>: the SQL
  statements of order allocation, picking and unloading. \<open>AssemblyInternal\<close> is an error
  the code wraps without a name of its own.
\<close>

datatype assembly_err =
    AssemblyDestinationNotFound | AssemblySKUNotFound | ErrOrderNotNew | ErrNoTaskForProduct
  | ErrProductNotAllocated | AssemblyInvalidInput | AssemblyBinNotShippingBuffer | ErrCartEmpty
  | AssemblyDestinationMismatch | AssemblyDraftStale | AssemblyChainRejected | AssemblyInternal

type_synonym 'a assembly_tx = "(wms_db, assembly_err svc_err, 'a) tx"

section \<open>Allocation\<close>

definition GetOrdersByDestinationForUpdate :: "uuid \<Rightarrow> nat \<Rightarrow> wms_db \<Rightarrow> order_row list" where
  "GetOrdersByDestinationForUpdate destinationID limit s =
     take limit (sort_key or_created
       (filter (\<lambda>r. or_destination r = destinationID \<and> or_status r = OrderStatusNew) (orders s)))"

definition GetOrderLinesByOrderIDs :: "uuid list \<Rightarrow> wms_db \<Rightarrow> uuid \<Rightarrow> order_line list" where
  "GetOrderLinesByOrderIDs orderIDs s = (\<lambda>orderID.
     sort_key ol_id (filter (\<lambda>l. ol_order l = orderID \<and> ol_order l \<in> set orderIDs) (order_lines s)))"

definition allocatable :: "uuid \<Rightarrow> product \<Rightarrow> bool" where
  "allocatable skuID p \<longleftrightarrow> pr_sku p = skuID \<and> pr_status p = ProductStatusStored \<and> pr_order p = None"

definition GetAllocateProductsForSKU :: "uuid \<Rightarrow> int \<Rightarrow> wms_db \<Rightarrow> product list" where
  "GetAllocateProductsForSKU skuID limit s =
     take (nat limit) (sort_key pr_created (sort_key pr_id (filter (allocatable skuID) (products s))))"

definition AssemblyGetSKUByID :: "uuid \<Rightarrow> wms_db \<Rightarrow> assembly_err + sku" where
  "AssemblyGetSKUByID skuID s = sql_row AssemblySKUNotFound (\<lambda>k. sk_id k = skuID) (skus s)"

definition UpdateProductAllocated :: "uuid \<Rightarrow> uuid \<Rightarrow> unit assembly_tx" where
  "UpdateProductAllocated productID orderID =
     sql_exec_some products products_update (Svc ErrProductNotAllocated)
       (\<lambda>p. pr_id p = productID \<and> pr_status p = ProductStatusStored)
       (\<lambda>p. p\<lparr>pr_status := ProductStatusAllocated, pr_order := Some orderID\<rparr>)"

definition GetBinSectionByID :: "uuid \<Rightarrow> string assembly_tx" where
  "GetBinSectionByID binID = tx_query (\<lambda>s.
     case List.find (\<lambda>b. bn_id b = binID) (bins s) of None \<Rightarrow> Inl (Svc AssemblyInternal)
     | Some b \<Rightarrow> Inr (case bn_section b of None \<Rightarrow> '''' | Some section \<Rightarrow> section))"

text \<open>Unique keys of the tasks: the event, and the product among the pending ones.\<close>

definition insert_task :: "assembly_task \<Rightarrow> unit assembly_tx" where
  "insert_task t = (\<lambda>s.
     if at_status t = TaskStatusPending
        \<and> (\<exists>u\<in>set (assembly_tasks s). at_product u = at_product t \<and> at_status u = TaskStatusPending)
     then (Inl SqlConflict, s)
     else sql_insert assembly_tasks assembly_tasks_update at_event SqlConflict t s)"

definition BatchInsertAssemblyTasks :: "assembly_task list \<Rightarrow> unit assembly_tx" where
  "BatchInsertAssemblyTasks ts = tx_each insert_task ts"

definition UpdateOrderStatus :: "uuid \<Rightarrow> order_status \<Rightarrow> unit assembly_tx" where
  "UpdateOrderStatus orderID status =
     sql_exec_some orders orders_update (Svc ErrOrderNotNew)
       (\<lambda>r. or_id r = orderID \<and> or_status r = OrderStatusNew) (\<lambda>r. r\<lparr>or_status := status\<rparr>)"

section \<open>Picking\<close>

definition GetPendingTaskByProductForUpdate :: "uuid \<Rightarrow> assembly_task assembly_tx" where
  "GetPendingTaskByProductForUpdate productID = tx_query (\<lambda>s.
     sql_row (Svc ErrNoTaskForProduct)
       (\<lambda>t. at_product t = productID \<and> at_status t = TaskStatusPending) (assembly_tasks s))"

definition GetProductByIDForUpdate :: "uuid \<Rightarrow> product assembly_tx" where
  "GetProductByIDForUpdate productID = tx_query (\<lambda>s.
     sql_row (Svc ErrProductNotAllocated) (\<lambda>p. pr_id p = productID) (products s))"

definition MarkTaskDone :: "timestamp \<Rightarrow> uuid \<Rightarrow> uuid \<Rightarrow> unit assembly_tx" where
  "MarkTaskDone now eventID operatorID =
     sql_exec_some assembly_tasks assembly_tasks_update (Svc ErrNoTaskForProduct)
       (\<lambda>t. at_event t = eventID \<and> at_status t = TaskStatusPending)
       (\<lambda>t. t\<lparr>at_status := TaskStatusDone, at_operator := Some operatorID, at_occurred := Some now\<rparr>)"

definition SetProductAssembled :: "uuid \<Rightarrow> unit assembly_tx" where
  "SetProductAssembled productID =
     sql_exec_some products products_update (Svc ErrProductNotAllocated)
       (\<lambda>p. pr_id p = productID \<and> pr_status p = ProductStatusAllocated)
       (\<lambda>p. p\<lparr>pr_status := ProductStatusAssembled\<rparr>)"

record task_item =
  ti_task :: uuid
  ti_product :: uuid
  ti_qr :: string
  ti_sku_name :: string
  ti_bin_code :: string
  ti_section :: string
  ti_order_no :: string

text \<open>The inner joins of the task list: a task without one of its rows is not listed.\<close>

definition task_row :: "wms_db \<Rightarrow> assembly_task \<Rightarrow> (bin \<times> task_item) option" where
  "task_row s t =
     (case (List.find (\<lambda>p. pr_id p = at_product t) (products s), List.find (\<lambda>k. sk_id k = at_sku t) (skus s),
            List.find (\<lambda>b. bn_id b = at_from_bin t) (bins s), List.find (\<lambda>r. or_id r = at_order t) (orders s)) of
        (Some p, Some k, Some b, Some r) \<Rightarrow>
          Some (b, \<lparr> ti_task = at_event t, ti_product = at_product t, ti_qr = pr_qr p, ti_sku_name = sk_name k,
            ti_bin_code = bn_code b, ti_section = (case bn_section b of None \<Rightarrow> '''' | Some c \<Rightarrow> c),
            ti_order_no = or_external_no r \<rparr>)
      | _ \<Rightarrow> None)"

text \<open>A row whose bin has no section cannot be scanned into the item.\<close>

definition AssemblyGetTasks :: "uuid \<Rightarrow> uuid \<Rightarrow> task_status \<Rightarrow> task_item list assembly_tx" where
  "AssemblyGetTasks destinationID operatorID status = tx_query (\<lambda>s.
     let rows = List.map_filter (task_row s)
           (filter (\<lambda>t. at_destination t = destinationID \<and> at_status t = status
              \<and> (operatorID \<noteq> uuid_Nil \<longrightarrow> at_operator t = None \<or> at_operator t = Some operatorID)) (assembly_tasks s))
     in if \<exists>(b, i)\<in>set rows. bn_section b = None then Inl (Svc AssemblyInternal)
        else Inr (map snd (sort_key (\<lambda>(b, i). ti_section i) (sort_key (\<lambda>(b, i). ti_bin_code i) rows))))"

section \<open>Unloading\<close>

definition GetShippingBufferBinByID :: "uuid \<Rightarrow> bin assembly_tx" where
  "GetShippingBufferBinByID bufferBinID = tx_query (\<lambda>s.
     sql_row (Svc AssemblyBinNotShippingBuffer)
       (\<lambda>b. bn_id b = bufferBinID \<and> bn_section b = Some ''SHIPPING_BUFFER'') (bins s))"

definition UpdateOrdersToAssembled :: "uuid list \<Rightarrow> nat assembly_tx" where
  "UpdateOrdersToAssembled orderIDs =
     (if orderIDs = [] then tx_return 0
      else (\<lambda>s. sql_exec orders orders_update
        (\<lambda>r. or_id r \<in> set orderIDs \<and> or_status r = OrderStatusAllocated
           \<and> (\<forall>p\<in>set (products s). pr_order p = Some (or_id r) \<longrightarrow> pr_status p = ProductStatusReadyToShip))
        (\<lambda>r. r\<lparr>or_status := OrderStatusAssembled\<rparr>) s))"

definition picked_by :: "uuid \<Rightarrow> assembly_task \<Rightarrow> bool" where
  "picked_by operatorID t \<longleftrightarrow>
     at_operator t = Some operatorID \<and> at_status t = TaskStatusDone \<and> at_action t = None"

definition CountAssembledByOperator :: "uuid \<Rightarrow> wms_db \<Rightarrow> nat" where
  "CountAssembledByOperator operatorID s = length (remdups (map pr_id
     (filter (\<lambda>p. pr_status p = ProductStatusAssembled
        \<and> (\<exists>t\<in>set (assembly_tasks s). at_product t = pr_id p \<and> picked_by operatorID t)) (products s))))"

text \<open>The operator's basket: one row per matching pair of the join, then the first of each product.\<close>

definition operatorBasket :: "uuid \<Rightarrow> uuid \<Rightarrow> wms_db \<Rightarrow> (uuid \<times> uuid option) list" where
  "operatorBasket operatorID destinationID s = dedup fst {} (sort_key fst
     (concat (map (\<lambda>p. map (\<lambda>t. (pr_id p, pr_order p))
         (filter (\<lambda>t. at_product t = pr_id p \<and> picked_by operatorID t \<and> at_destination t = destinationID)
            (assembly_tasks s)))
       (filter (\<lambda>p. pr_status p = ProductStatusAssembled) (products s)))))"

definition MoveProductsToShippingBuffer :: "uuid list \<Rightarrow> uuid \<Rightarrow> unit assembly_tx" where
  "MoveProductsToShippingBuffer productIDs bufferBinID =
     tx_bind (sql_exec products products_update (\<lambda>p. pr_id p \<in> set productIDs)
        (\<lambda>p. p\<lparr>pr_status := ProductStatusReadyToShip, pr_bin := Some bufferBinID\<rparr>)) (\<lambda>_. tx_return ())"

definition StampTaskUnload ::
  "uuid \<Rightarrow> uuid list \<Rightarrow> uuid \<Rightarrow> uuid \<Rightarrow> timestamp \<Rightarrow> unit assembly_tx" where
  "StampTaskUnload actionID productIDs operatorID destinationID occurredAt =
     tx_bind (sql_exec assembly_tasks assembly_tasks_update
        (\<lambda>t. at_product t \<in> set productIDs \<and> picked_by operatorID t \<and> at_destination t = destinationID)
        (\<lambda>t. t\<lparr>at_action := Some actionID, at_unloaded := Some occurredAt\<rparr>)) (\<lambda>_. tx_return ())"

end
