(* ===== verification/Assembly.thy ===== *)
theory Assembly
  imports AssemblyStore
begin

text \<open>
  \<^verbatim>\<open>wms/internal/assembly/service.go\<close> and \<^verbatim>\<open>unload_signed.go\<close>: the allocation of stored
  products to the orders of a store, the picking of a product, and the signed unloading
  of an operator's basket into a shipping buffer.
\<close>

section \<open>Allocation\<close>

definition allocateOrderBatchLimit :: nat where
  "allocateOrderBatchLimit = 500"

text \<open>The caches of one \<^verbatim>\<open>Allocate\<close> call, and how many event ids it has drawn.\<close>

record allocate_cache =
  ac_short :: "uuid \<Rightarrow> int option"
  ac_names :: "uuid \<Rightarrow> string option"
  ac_sections :: "uuid \<Rightarrow> string option"
  ac_drawn :: nat

definition newAllocateCache :: allocate_cache where
  "newAllocateCache = \<lparr> ac_short = Map.empty, ac_names = Map.empty, ac_sections = Map.empty, ac_drawn = 0 \<rparr>"

record allocated_product =
  ap_product :: uuid
  ap_order :: uuid
  ap_bin :: uuid
  ap_sku :: uuid
  ap_destination :: uuid

text \<open>First loop of \<^verbatim>\<open>allocateOrderTx\<close>: what each line can get, or what it misses.\<close>

primrec collect_lines ::
  "uuid \<Rightarrow> uuid \<Rightarrow> order_line list \<Rightarrow> allocated_product list \<Rightarrow> (uuid \<times> int) list \<Rightarrow> allocate_cache
   \<Rightarrow> (allocated_product list \<times> (uuid \<times> int) list \<times> allocate_cache) assembly_tx" where
  "collect_lines orderID destinationID [] allocated insufficient cache = tx_return (allocated, insufficient, cache)"
| "collect_lines orderID destinationID (line # lines) allocated insufficient cache =
    (let skuID = ol_sku line; qty = ol_qty line in
     case (case ac_short cache skuID of Some avail \<Rightarrow> if avail < qty then Some avail else None | None \<Rightarrow> None) of
       Some avail \<Rightarrow>
         collect_lines orderID destinationID lines allocated (insufficient @ [(skuID, qty - avail)]) cache
     | None \<Rightarrow>
         tx_bind (tx_get (GetAllocateProductsForSKU skuID qty)) (\<lambda>ps.
         if int (length ps) < qty then
           collect_lines orderID destinationID lines allocated (insufficient @ [(skuID, qty - int (length ps))])
             (cache\<lparr>ac_short := (ac_short cache)(skuID \<mapsto> int (length ps))\<rparr>)
         else
           tx_seq (tx_check (\<forall>p\<in>set ps. pr_bin p \<noteq> None) (Svc AssemblyInternal))
             (collect_lines orderID destinationID lines
               (allocated @ map (\<lambda>p. \<lparr> ap_product = pr_id p, ap_order = orderID, ap_bin = the (pr_bin p),
                                      ap_sku = skuID, ap_destination = destinationID \<rparr>) ps)
               insufficient cache)))"

text \<open>Second loop: each product is taken, and its task prepared with the section of its bin.\<close>

definition bin_section :: "uuid \<Rightarrow> allocate_cache \<Rightarrow> (string \<times> allocate_cache) assembly_tx" where
  "bin_section binID cache =
     (case ac_sections cache binID of Some section \<Rightarrow> tx_return (section, cache)
      | None \<Rightarrow> tx_bind (GetBinSectionByID binID) (\<lambda>section.
          tx_return (section, cache\<lparr>ac_sections := (ac_sections cache)(binID \<mapsto> section)\<rparr>)))"

primrec take_products ::
  "call_env \<Rightarrow> timestamp \<Rightarrow> allocated_product list \<Rightarrow> assembly_task list \<Rightarrow> allocate_cache
   \<Rightarrow> (assembly_task list \<times> allocate_cache) assembly_tx" where
  "take_products E occurredAt [] tasks cache = tx_return (tasks, cache)"
| "take_products E occurredAt (a # as) tasks cache =
     tx_seq (UpdateProductAllocated (ap_product a) (ap_order a))
    (tx_bind (bin_section (ap_bin a) cache) (\<lambda>(section, cache').
     take_products E occurredAt as
       (tasks @ [\<lparr> at_event = fresh E (ac_drawn cache'), at_order = ap_order a, at_product = ap_product a,
          at_sku = ap_sku a, at_from_bin = ap_bin a, at_destination = ap_destination a,
          at_section = Some section, at_status = TaskStatusPending, at_operator = None,
          at_occurred = Some occurredAt, at_action = None, at_unloaded = None \<rparr>])
       (cache'\<lparr>ac_drawn := Suc (ac_drawn cache')\<rparr>)))"

text \<open>Third loop: the stock seen as short shrinks by what the order took.\<close>

definition consume_line :: "allocate_cache \<Rightarrow> order_line \<Rightarrow> allocate_cache" where
  "consume_line cache line =
     (case ac_short cache (ol_sku line) of None \<Rightarrow> cache
      | Some avail \<Rightarrow> cache\<lparr>ac_short := (ac_short cache)(ol_sku line \<mapsto> max 0 (avail - ol_qty line))\<rparr>)"

text \<open>\<open>Inl\<close> are the lines a short order misses; any other error fails the transaction.\<close>

definition allocateOrderTx ::
  "call_env \<Rightarrow> nat \<Rightarrow> uuid \<Rightarrow> uuid \<Rightarrow> order_line list \<Rightarrow> allocate_cache
   \<Rightarrow> (((uuid \<times> int) list + nat) \<times> allocate_cache) assembly_tx" where
  "allocateOrderTx E i orderID destinationID lines cache =
     tx_bind (collect_lines orderID destinationID lines [] [] cache) (\<lambda>(allocated, insufficient, cache).
     if insufficient \<noteq> [] then tx_return (Inl insufficient, cache)
     else
       tx_bind (take_products E (clock E i) allocated [] cache) (\<lambda>(tasks, cache).
       tx_seq (BatchInsertAssemblyTasks tasks)
      (tx_seq (UpdateOrderStatus orderID OrderStatusAllocated)
      (tx_return (Inr (length allocated), foldl consume_line cache lines)))))"

record allocate_response =
  al_orders :: nat
  al_products :: nat
  al_insufficient :: "(uuid \<times> (uuid \<times> string \<times> int) list) list"

text \<open>The names of the missing items; a name that cannot be read stays empty and is not remembered.\<close>

primrec name_missing ::
  "wms_db \<Rightarrow> (uuid \<times> int) list \<Rightarrow> allocate_cache \<Rightarrow> (uuid \<times> string \<times> int) list \<times> allocate_cache" where
  "name_missing s [] cache = ([], cache)"
| "name_missing s (m # ms) cache =
    (let (skuID, qty) = m;
         (name, cache') = (case ac_names cache skuID of Some n \<Rightarrow> (n, cache)
           | None \<Rightarrow> (case AssemblyGetSKUByID skuID s of Inl _ \<Rightarrow> ('''', cache)
               | Inr k \<Rightarrow> (sk_name k, cache\<lparr>ac_names := (ac_names cache)(skuID \<mapsto> sk_name k)\<rparr>)));
         (rest, cache'') = name_missing s ms cache'
     in ((skuID, name, qty) # rest, cache''))"

primrec allocate_orders ::
  "call_env \<Rightarrow> uuid \<Rightarrow> (uuid \<Rightarrow> order_line list) \<Rightarrow> (nat \<times> order_row) list \<Rightarrow> allocate_response \<Rightarrow> allocate_cache
   \<Rightarrow> allocate_response assembly_tx" where
  "allocate_orders E destinationID lines [] resp cache = tx_return resp"
| "allocate_orders E destinationID lines (ir # rest) resp cache =
     tx_bind (allocateOrderTx E (fst ir) (or_id (snd ir)) destinationID (lines (or_id (snd ir))) cache) (\<lambda>(res, cache).
     case res of
       Inl insufficient \<Rightarrow>
         tx_bind (tx_get (\<lambda>s. name_missing s insufficient cache)) (\<lambda>(missing, cache).
         allocate_orders E destinationID lines rest
           (resp\<lparr>al_insufficient := al_insufficient resp @ [(or_id (snd ir), missing)]\<rparr>) cache)
     | Inr allocated \<Rightarrow>
         allocate_orders E destinationID lines rest
           (resp\<lparr>al_orders := al_orders resp + 1, al_products := al_products resp + allocated\<rparr>) cache)"

definition Allocate :: "call_env \<Rightarrow> uuid \<Rightarrow> allocate_response assembly_tx" where
  "Allocate E destinationID =
     tx_seq (tx_check (destinationID \<noteq> uuid_Nil) (Svc AssemblyInvalidInput))
    (WithTx (
       tx_bind (tx_get (GetOrdersByDestinationForUpdate destinationID allocateOrderBatchLimit)) (\<lambda>os.
       tx_bind (tx_get (GetOrderLinesByOrderIDs (map or_id os))) (\<lambda>lines.
       allocate_orders E destinationID lines (enumerate 0 os)
         \<lparr> al_orders = 0, al_products = 0, al_insufficient = [] \<rparr> newAllocateCache))))"

section \<open>Picking\<close>

text \<open>The query string names a status; an unknown one is an error of the enum type.\<close>

definition task_status_of :: "string \<Rightarrow> task_status option" where
  "task_status_of name = (if name = ''PENDING'' then Some TaskStatusPending
     else if name = ''IN_PROGRESS'' then Some TaskStatusInProgress
     else if name = ''DONE'' then Some TaskStatusDone
     else if name = ''CANCELLED'' then Some TaskStatusCancelled else None)"

definition GetTasks :: "uuid \<Rightarrow> uuid \<Rightarrow> string \<Rightarrow> task_item list assembly_tx" where
  "GetTasks destinationID operatorID status =
     tx_seq (tx_check (destinationID \<noteq> uuid_Nil) (Svc AssemblyInvalidInput))
     (case task_status_of (if status = [] then ''PENDING'' else status) of
        None \<Rightarrow> tx_fail (Svc AssemblyInternal)
      | Some st \<Rightarrow> AssemblyGetTasks destinationID operatorID st)"

definition Pick :: "call_env \<Rightarrow> uuid \<Rightarrow> uuid \<Rightarrow> (uuid \<times> nat) assembly_tx" where
  "Pick E operatorID productID =
     tx_seq (tx_check (operatorID \<noteq> uuid_Nil \<and> productID \<noteq> uuid_Nil) (Svc AssemblyInvalidInput))
    (tx_seq (CheckChainStatus (Svc AssemblyChainRejected) [productID] AggregatePutaway)
    (tx_seq (WithTx (
       tx_bind (GetPendingTaskByProductForUpdate productID) (\<lambda>task.
       tx_bind (GetProductByIDForUpdate productID) (\<lambda>p.
       tx_seq (tx_check (pr_status p = ProductStatusAllocated) (Svc ErrProductNotAllocated))
      (tx_seq (MarkTaskDone (clock E 0) (at_event task) operatorID)
       (SetProductAssembled productID))))))
    (tx_bind (tx_get (CountAssembledByOperator operatorID)) (\<lambda>cartSize.
     tx_return (productID, cartSize)))))"

section \<open>The signed unloading\<close>

text \<open>The orders of the products of a part, as the draft read them.\<close>

definition orders_of :: "(uuid \<times> uuid option) list \<Rightarrow> uuid list \<Rightarrow> uuid list" where
  "orders_of basket items = List.map_filter (\<lambda>id. case map_of basket id of Some (Some orderID) \<Rightarrow> Some orderID | _ \<Rightarrow> None) items"

definition DraftUnloadToShippingBuffer :: "config \<Rightarrow> call_env \<Rightarrow> uuid \<Rightarrow> uuid \<Rightarrow> operation assembly_tx" where
  "DraftUnloadToShippingBuffer C E operatorID bufferBinID =
     tx_seq (tx_check (operatorID \<noteq> uuid_Nil \<and> bufferBinID \<noteq> uuid_Nil) (Svc AssemblyInvalidInput))
    (tx_bind (GetShippingBufferBinByID bufferBinID) (\<lambda>bufferBin.
     case bn_destination bufferBin of None \<Rightarrow> tx_fail (Svc AssemblyDestinationNotFound)
     | Some destinationID \<Rightarrow>
       tx_bind (tx_get (operatorBasket operatorID destinationID)) (\<lambda>basket.
       tx_seq (if basket = [] then tx_query (\<lambda>s. if CountAssembledByOperator operatorID s > 0
                 then Inl (Svc AssemblyDestinationMismatch) else Inl (Svc ErrCartEmpty))
               else tx_return ())
         (draft_operation C E TypePick operatorID (PickDetails bufferBinID) (map fst basket)
           (\<lambda>ms salt partItems. PickDetailsHash (cf_crypto C) salt bufferBinID (orders_of basket partItems) operatorID ms)))))"

definition unload_locked ::
  "call_env \<Rightarrow> uuid \<Rightarrow> uuid \<Rightarrow> action_details \<Rightarrow> operation \<Rightarrow> string list \<Rightarrow> (bin \<times> nat) assembly_tx" where
  "unload_locked E operatorID operationID details op payloads =
     tx_bind (GetShippingBufferBinByID (details_shipping_bin details)) (\<lambda>bufferBin.
     case bn_destination bufferBin of None \<Rightarrow> tx_fail (Svc AssemblyDestinationNotFound)
     | Some destinationID \<Rightarrow>
       tx_bind (tx_get (operatorBasket operatorID destinationID)) (\<lambda>basket.
       tx_bind (ops_tx (LockOperation operationID operatorID)) (\<lambda>lockedOp.
       tx_seq (tx_check (length basket = length (remdups (op_items op))
                 \<and> (\<forall>it\<in>set basket. fst it \<in> set (op_items op))) (Svc AssemblyDraftStale))
      (tx_seq (ops_tx (LockSigner (op_signer op)))
      (tx_seq (MoveProductsToShippingBuffer (op_items op) (details_shipping_bin details))
      (tx_seq (tx_each (\<lambda>p. StampTaskUnload (pt_action p) (pt_items p) operatorID destinationID
                 (of_unix_milli (details_ms details))) (op_parts lockedOp))
      (tx_bind (UpdateOrdersToAssembled (dedup (\<lambda>x. x) {} (List.map_filter snd basket))) (\<lambda>ordersAssembled.
       tx_seq (ops_tx (WriteActions (clock E 0) lockedOp payloads))
         (tx_return (bufferBin, ordersAssembled)))))))))) "

record scan_shipping_buffer_response =
  ss_bin :: uuid
  ss_placed :: nat
  ss_orders :: nat
  ss_operation :: uuid

definition SubmitUnloadToShippingBuffer ::
  "config \<Rightarrow> call_env \<Rightarrow> uuid \<Rightarrow> uuid \<Rightarrow> (uuid \<times> assertion) list \<Rightarrow> scan_shipping_buffer_response assembly_tx" where
  "SubmitUnloadToShippingBuffer C E operatorID operationID assertions =
     tx_bind (load_submission C TypePick operatorID operationID assertions) (\<lambda>(op, payloads).
     tx_bind (WithTx (unload_locked E operatorID operationID (op_details op) op payloads)) (\<lambda>(bufferBin, ordersAssembled).
     tx_return \<lparr> ss_bin = bn_id bufferBin, ss_placed = length (op_items op), ss_orders = ordersAssembled,
       ss_operation = op_id op \<rparr>))"

end
