(* ===== verification/AssemblyFlow.thy ===== *)
theory AssemblyFlow
  imports Assembly
begin

text \<open>
  What allocation, picking and unloading guarantee: orders are served all or nothing from
  stored, free products; a pick completes its task; a signed unloading moves the whole
  basket of the operator and completes the orders it completes.
\<close>

section \<open>Nothing goes back\<close>

lemmas assembly_reads = GetBinSectionByID_def GetPendingTaskByProductForUpdate_def GetProductByIDForUpdate_def
  AssemblyGetTasks_def GetShippingBufferBinByID_def CheckChainStatus_def

lemma assembly_statements [tx_rules]:
  "tx_rel rows_forward (UpdateProductAllocated p r)" "tx_rel rows_forward (SetProductAssembled p)"
  "tx_rel rows_forward (UpdateOrderStatus r OrderStatusAllocated)" "tx_rel rows_forward (MarkTaskDone now e u)"
  "tx_rel rows_forward (MoveProductsToShippingBuffer ps b)" "tx_rel rows_forward (StampTaskUnload a ps u d t)"
  unfolding UpdateProductAllocated_def SetProductAssembled_def UpdateOrderStatus_def MarkTaskDone_def
    MoveProductsToShippingBuffer_def StampTaskUnload_def
  by (intro tx_rules rel_statement rows_forward_products row_updates;
      simp add: order_step_def task_step_def picked_by_def)+

lemma assembly_products [tx_rules]:
  "tx_rel products_forward (UpdateProductAllocated p r)" "tx_rel products_forward (SetProductAssembled p)"
  unfolding UpdateProductAllocated_def SetProductAssembled_def
  by (intro rel_statement products_forward_update; simp add: product_step_def)+

lemma assembly_products_same [tx_rules]:
  "tx_rel products_forward (UpdateOrderStatus r st)" "tx_rel products_forward (MarkTaskDone now e u)"
  "tx_rel products_forward (StampTaskUnload a ps u d t)"
  unfolding UpdateOrderStatus_def MarkTaskDone_def StampTaskUnload_def
  by (intro tx_rules rel_statement products_forward_same; simp)+

lemma UpdateOrdersToAssembled_rel [tx_rules]:
  "tx_rel rows_forward (UpdateOrdersToAssembled ids)" "tx_rel products_forward (UpdateOrdersToAssembled ids)"
  unfolding UpdateOrdersToAssembled_def
  by (auto simp: tx_rel_def tx_simps order_step_def intro!: products_forward_same row_updates)

lemma insert_task_rel [tx_rules]:
  "tx_rel rows_forward (insert_task t)" "tx_rel products_forward (insert_task t)"
  unfolding insert_task_def
  by (auto simp: tx_rel_def tx_simps grows_append intro!: products_forward_same rows_forwards)

lemma collect_lines_reads: "tx_rel (=) (collect_lines oid d ls al ins cache)"
proof (induction ls arbitrary: al ins cache)
  case (Cons l ls)
  show ?case unfolding collect_lines.simps Let_def by (intro tx_rules Cons.IH)
qed (simp add: tx_rules)

lemma take_products_rel [tx_rules]:
  "tx_rel rows_forward (take_products E t as ts cache)" "tx_rel products_forward (take_products E t as ts cache)"
proof (induction as arbitrary: ts cache)
  case Nil
  { case 1 show ?case by (simp add: tx_rules) next case 2 show ?case by (simp add: tx_rules) }
next
  case (Cons a as)
  { case 1 show ?case unfolding take_products.simps bin_section_def GetBinSectionByID_def split_def by (intro tx_rules Cons.IH)
  next
    case 2 show ?case unfolding take_products.simps bin_section_def GetBinSectionByID_def split_def by (intro tx_rules Cons.IH) }
qed

lemma allocateOrderTx_rel [tx_rules]:
  "tx_rel rows_forward (allocateOrderTx E i oid d ls cache)" "tx_rel products_forward (allocateOrderTx E i oid d ls cache)"
  unfolding allocateOrderTx_def BatchInsertAssemblyTasks_def split_def
  by (intro tx_rules rowf.rel_reads [OF collect_lines_reads] prodf.rel_reads [OF collect_lines_reads])+

lemma allocate_orders_rel [tx_rules]:
  "tx_rel rows_forward (allocate_orders E d lines irs resp cache)"
  "tx_rel products_forward (allocate_orders E d lines irs resp cache)"
proof (induction irs arbitrary: resp cache)
  case Nil
  { case 1 show ?case by (simp add: tx_rules) next case 2 show ?case by (simp add: tx_rules) }
next
  case (Cons ir irs)
  { case 1 show ?case unfolding allocate_orders.simps split_def by (intro tx_rules Cons.IH)
  next
    case 2 show ?case unfolding allocate_orders.simps split_def by (intro tx_rules Cons.IH) }
qed

lemma assembly_rows_forward:
  "tx_rel rows_forward (Allocate E d)" "tx_rel rows_forward (Pick E u p)"
  "tx_rel rows_forward (DraftUnloadToShippingBuffer C E u b)"
  "tx_rel rows_forward (SubmitUnloadToShippingBuffer C E u oid as)"
  unfolding Allocate_def Pick_def DraftUnloadToShippingBuffer_def SubmitUnloadToShippingBuffer_def unload_locked_def
    assembly_reads split_def
  by (intro tx_rules)+

lemma assembly_products_forward:
  "tx_rel products_forward (Allocate E d)" "tx_rel products_forward (Pick E u p)"
  "tx_rel products_forward (DraftUnloadToShippingBuffer C E u b)"
  unfolding Allocate_def Pick_def DraftUnloadToShippingBuffer_def assembly_reads split_def
  by (intro tx_rules)+

lemma GetTasks_reads: "tx_rel (=) (GetTasks d u st)"
  unfolding GetTasks_def assembly_reads by (intro tx_rules)

lemma assembly_atomic:
  "tx_atomic (=) (Allocate E d)" "tx_atomic (=) (Pick E u p)"
  unfolding Allocate_def Pick_def assembly_reads by (intro eqf.atomic_rules)+

lemma unload_atomic:
  "tx_atomic keys_only (DraftUnloadToShippingBuffer C E u b)" "tx_atomic keys_only (SubmitUnloadToShippingBuffer C E u oid as)"
  unfolding DraftUnloadToShippingBuffer_def SubmitUnloadToShippingBuffer_def assembly_reads split_def
  by (intro ko.atomic_rules draft_operation_atomic load_submission_keys_only tx_rel_If
      ko.atomic_rel [OF ko.rel_fail])+

section \<open>Allocation\<close>

definition available :: "wms_db \<Rightarrow> uuid \<Rightarrow> int" where
  "available s k = int (sql_count (allocatable k) (products s))"

text \<open>The cached stock of a SKU is the stock there is.\<close>

definition cache_sound :: "wms_db \<Rightarrow> allocate_cache \<Rightarrow> bool" where
  "cache_sound s cache \<longleftrightarrow> (\<forall>k a. ac_short cache k = Some a \<longrightarrow> a = available s k)"

definition allocation_of :: "uuid \<Rightarrow> uuid \<Rightarrow> order_line \<Rightarrow> product \<Rightarrow> allocated_product" where
  "allocation_of oid d l p = \<lparr> ap_product = pr_id p, ap_order = oid, ap_bin = the (pr_bin p), ap_sku = ol_sku l, ap_destination = d \<rparr>"

definition taken :: "wms_db \<Rightarrow> order_line list \<Rightarrow> product list" where
  "taken s ls = concat (map (\<lambda>l. GetAllocateProductsForSKU (ol_sku l) (ol_qty l) s) ls)"

definition missing :: "wms_db \<Rightarrow> order_line list \<Rightarrow> (uuid \<times> int) list" where
  "missing s ls = map (\<lambda>l. (ol_sku l, ol_qty l - available s (ol_sku l))) (filter (\<lambda>l. available s (ol_sku l) < ol_qty l) ls)"

lemma length_GetAllocate: "int (length (GetAllocateProductsForSKU k q s)) = min (max 0 q) (available s k)"
  by (auto simp: GetAllocateProductsForSKU_def available_def sql_count_def min_def)

lemma set_GetAllocate: "set (GetAllocateProductsForSKU k q s) \<subseteq> {p \<in> set (products s). allocatable k p}"
  unfolding GetAllocateProductsForSKU_def by (auto dest: in_set_takeD)

lemma distinct_GetAllocate: "distinct (map pr_id (products s)) \<Longrightarrow> distinct (map pr_id (GetAllocateProductsForSKU k q s))"
  unfolding GetAllocateProductsForSKU_def take_map [symmetric]
  by (intro distinct_take) (simp add: distinct_map_sort_key distinct_map_filter)

lemma collect_lines_ok:
  assumes "collect_lines oid d ls al ins cache s = (Inr (al', ins', cache'), s')" and "cache_sound s cache"
  shows "s' = s \<and> ins' = ins @ missing s ls \<and> cache_sound s cache' \<and> ac_drawn cache' = ac_drawn cache
    \<and> (missing s ls = [] \<longrightarrow> al' = al @ concat (map (\<lambda>l. map (allocation_of oid d l)
          (GetAllocateProductsForSKU (ol_sku l) (ol_qty l) s)) ls) \<and> (\<forall>p\<in>set (taken s ls). pr_bin p \<noteq> None))"
  using assms
proof (induction ls arbitrary: al ins cache)
  case Nil
  then show ?case by (auto simp: tx_return_ok missing_def taken_def)
next
  case (Cons l ls)
  let ?k = "ol_sku l" and ?q = "ol_qty l"
  let ?ps = "GetAllocateProductsForSKU ?k ?q s"
  show ?case
  proof (cases "available s ?k < ?q")
    case True
    obtain c where run: "collect_lines oid d ls al (ins @ [(?k, ?q - available s ?k)]) c s = (Inr (al', ins', cache'), s')"
      and c: "cache_sound s c" "ac_drawn c = ac_drawn cache"
    proof (cases "ac_short cache ?k")
      case None
      have "int (length ?ps) = available s ?k" using True by (simp add: length_GetAllocate available_def)
      then show ?thesis
        using Cons.prems None True by (intro that [of "cache\<lparr>ac_short := (ac_short cache)(?k \<mapsto> available s ?k)\<rparr>"])
          (auto simp: tx_simps Let_def cache_sound_def)
    next
      case (Some a)
      then have "a = available s ?k" using Cons.prems(2) by (simp add: cache_sound_def)
      then show ?thesis
        using Cons.prems Some True by (intro that [of cache]) (auto simp: Let_def)
    qed
    show ?thesis using Cons.IH [OF run c(1)] c(2) True by (auto simp: missing_def)
  next
    case False
    then have len: "\<not> int (length ?ps) < ?q" by (simp add: length_GetAllocate)
    have "(case ac_short cache ?k of Some avail \<Rightarrow> if avail < ?q then Some avail else None | None \<Rightarrow> None) = None"
      using Cons.prems(2) False by (auto simp: cache_sound_def split: option.splits)
    then have run: "\<forall>p\<in>set ?ps. pr_bin p \<noteq> None"
      "collect_lines oid d ls (al @ map (allocation_of oid d l) ?ps) ins cache s = (Inr (al', ins', cache'), s')"
      using Cons.prems(1) len by (auto simp: tx_simps Let_def allocation_of_def [abs_def] split: if_splits)
    show ?thesis using Cons.IH [OF run(2) Cons.prems(2)] run(1) False by (auto simp: missing_def taken_def)
  qed
qed

definition allocated_to :: "uuid \<Rightarrow> product \<Rightarrow> product" where
  "allocated_to oid p = p\<lparr>pr_status := ProductStatusAllocated, pr_order := Some oid\<rparr>"

definition task_for :: "allocated_product \<Rightarrow> assembly_task \<Rightarrow> bool" where
  "task_for a t \<longleftrightarrow> at_product t = ap_product a \<and> at_order t = ap_order a \<and> at_sku t = ap_sku a
     \<and> at_from_bin t = ap_bin a \<and> at_destination t = ap_destination a \<and> at_status t = TaskStatusPending
     \<and> at_operator t = None \<and> at_action t = None"

lemma bin_section_ok:
  "bin_section b cache s = (Inr (sec, cache'), s') \<Longrightarrow> s' = s \<and> ac_short cache' = ac_short cache"
  by (auto simp: bin_section_def GetBinSectionByID_def svc_oks split: option.splits)

lemma take_products_ok:
  assumes "take_products E t as ts cache s = (Inr (ts', cache'), s')" and "\<forall>a\<in>set as. ap_order a = oid"
  shows "distinct (map ap_product as)
    \<and> (\<forall>a\<in>set as. \<exists>r\<in>set (products s). pr_id r = ap_product a \<and> pr_status r = ProductStatusStored)
    \<and> s' = s\<lparr>products := sql_update (\<lambda>r. pr_id r \<in> ap_product ` set as \<and> pr_status r = ProductStatusStored) (allocated_to oid) (products s)\<rparr>
    \<and> ac_short cache' = ac_short cache \<and> (\<exists>new. ts' = ts @ new \<and> list_all2 task_for as new)"
  using assms
proof (induction as arbitrary: ts cache s)
  case Nil
  then show ?case by (cases s) (simp add: tx_return_ok sql_update_def)
next
  case (Cons a as)
  let ?P = "\<lambda>r. pr_id r = ap_product a \<and> pr_status r = ProductStatusStored"
  let ?s1 = "s\<lparr>products := sql_update ?P (allocated_to oid) (products s)\<rparr>"
  obtain sec c where ex: "\<exists>r\<in>set (products s). ?P r"
    and sec: "bin_section (ap_bin a) cache ?s1 = (Inr (sec, c), ?s1)"
    and run: "take_products E t as (ts @ [\<lparr> at_event = fresh E (ac_drawn c), at_order = ap_order a, at_product = ap_product a,
          at_sku = ap_sku a, at_from_bin = ap_bin a, at_destination = ap_destination a,
          at_section = Some sec, at_status = TaskStatusPending, at_operator = None,
          at_occurred = Some t, at_action = None, at_unloaded = None \<rparr>]) (c\<lparr>ac_drawn := Suc (ac_drawn c)\<rparr>) ?s1 = (Inr (ts', cache'), s')"
  proof -
    obtain x u where "UpdateProductAllocated (ap_product a) (ap_order a) s = (Inr (), u)"
      "bin_section (ap_bin a) cache u = (Inr x, u)" and r: "take_products E t as (ts @ [\<lparr> at_event = fresh E (ac_drawn (snd x)), at_order = ap_order a, at_product = ap_product a,
          at_sku = ap_sku a, at_from_bin = ap_bin a, at_destination = ap_destination a,
          at_section = Some (fst x), at_status = TaskStatusPending, at_operator = None,
          at_occurred = Some t, at_action = None, at_unloaded = None \<rparr>]) (snd x\<lparr>ac_drawn := Suc (ac_drawn (snd x))\<rparr>) u = (Inr (ts', cache'), s')"
      using Cons.prems(1) unfolding take_products.simps tx_seq_ok tx_bind_ok split_def by (metis bin_section_ok prod.collapse)
    moreover have "u = ?s1" "\<exists>r\<in>set (products s). ?P r"
      using calculation(1) Cons.prems(2) by (cases s; auto simp: UpdateProductAllocated_def sql_exec_some_ok allocated_to_def [abs_def])+
    ultimately show thesis by (intro that [of "fst x" "snd x"]) simp_all
  qed
  have IH: "distinct (map ap_product as)"
    "\<forall>b\<in>set as. \<exists>r\<in>set (products ?s1). pr_id r = ap_product b \<and> pr_status r = ProductStatusStored"
    "s' = ?s1\<lparr>products := sql_update (\<lambda>r. pr_id r \<in> ap_product ` set as \<and> pr_status r = ProductStatusStored) (allocated_to oid) (products ?s1)\<rparr>"
    "ac_short cache' = ac_short c" "\<exists>new. ts' = (ts @ [\<lparr> at_event = fresh E (ac_drawn c), at_order = ap_order a, at_product = ap_product a,
          at_sku = ap_sku a, at_from_bin = ap_bin a, at_destination = ap_destination a,
          at_section = Some sec, at_status = TaskStatusPending, at_operator = None,
          at_occurred = Some t, at_action = None, at_unloaded = None \<rparr>]) @ new \<and> list_all2 task_for as new"
    using Cons.IH [OF run] Cons.prems(2) by auto
  have gone: "\<not> (\<exists>r\<in>set (products ?s1). ?P r)"
    by (auto simp: set_sql_update allocated_to_def)
  then have "ap_product a \<notin> ap_product ` set as" using IH(2) by auto
  moreover have "\<exists>r\<in>set (products s). pr_id r = ap_product b \<and> pr_status r = ProductStatusStored" if "b \<in> set as" for b
    using IH(2) that by (fastforce simp: set_sql_update allocated_to_def split: if_splits)
  moreover have "sql_update (\<lambda>r. pr_id r \<in> ap_product ` set as \<and> pr_status r = ProductStatusStored) (allocated_to oid) (products ?s1)
      = sql_update (\<lambda>r. pr_id r \<in> ap_product ` set (a # as) \<and> pr_status r = ProductStatusStored) (allocated_to oid) (products s)"
    by (auto simp: sql_update_def allocated_to_def)
  moreover have "\<exists>new. ts' = ts @ new \<and> list_all2 task_for (a # as) new"
    using IH(5) by (auto simp: task_for_def)
  moreover have "ac_short c = ac_short cache" using bin_section_ok [OF sec] by simp
  ultimately show ?case using IH(1,3,4) ex by simp
qed

lemma BatchInsert_ok:
  assumes "BatchInsertAssemblyTasks ts s = (Inr v, s')"
  shows "s' = s\<lparr>assembly_tasks := assembly_tasks s @ ts\<rparr>"
  using assms unfolding BatchInsertAssemblyTasks_def
proof (induction ts arbitrary: s)
  case Nil
  then show ?case by (simp add: tx_return_ok)
next
  case (Cons t ts)
  then obtain u where "insert_task t s = (Inr (), u)" "tx_each insert_task ts u = (Inr v, s')" by (auto simp: tx_seq_ok)
  moreover from this have "u = s\<lparr>assembly_tasks := assembly_tasks s @ [t]\<rparr>"
    by (cases s) (auto simp: insert_task_def sql_oks split: if_splits)
  ultimately show ?case using Cons.IH [of u] by simp
qed

text \<open>What one order does: all of its lines, or nothing.\<close>

definition served :: "uuid \<Rightarrow> uuid \<Rightarrow> order_line list \<Rightarrow> wms_db \<Rightarrow> wms_db \<Rightarrow> bool" where
  "served oid d ls s s' \<longleftrightarrow> missing s ls = [] \<and> distinct (map pr_id (taken s ls))
   \<and> products s' = map (\<lambda>p. if p \<in> set (taken s ls) then allocated_to oid p else p) (products s)
   \<and> orders s' = sql_update (\<lambda>r. or_id r = oid \<and> or_status r = OrderStatusNew) (\<lambda>r. r\<lparr>or_status := OrderStatusAllocated\<rparr>) (orders s)
   \<and> (\<exists>r\<in>set (orders s). or_id r = oid \<and> or_status r = OrderStatusNew)
   \<and> (\<exists>new. assembly_tasks s' = assembly_tasks s @ new
        \<and> list_all2 (\<lambda>p t. at_product t = pr_id p \<and> at_order t = oid \<and> pr_bin p = Some (at_from_bin t) \<and> at_destination t = d
             \<and> at_status t = TaskStatusPending) (taken s ls) new)
   \<and> s' = s\<lparr>products := products s', orders := orders s', assembly_tasks := assembly_tasks s'\<rparr>"

lemma allocation_concat:
  "concat (map (\<lambda>l. map (allocation_of oid d l) (GetAllocateProductsForSKU (ol_sku l) (ol_qty l) s)) ls)
     = map (\<lambda>(l, p). allocation_of oid d l p) (concat (map (\<lambda>l. map (Pair l) (GetAllocateProductsForSKU (ol_sku l) (ol_qty l) s)) ls))"
  "taken s ls = map snd (concat (map (\<lambda>l. map (Pair l) (GetAllocateProductsForSKU (ol_sku l) (ol_qty l) s)) ls))"
  by (simp_all add: taken_def map_concat o_def)

lemma set_taken: "p \<in> set (taken s ls) \<Longrightarrow> p \<in> set (products s) \<and> pr_status p = ProductStatusStored \<and> pr_order p = None"
  using set_GetAllocate by (fastforce simp: taken_def allocatable_def)

lemma consume_short: "ac_short c = ac_short c' \<Longrightarrow> ac_short (foldl consume_line c ls) = ac_short (foldl consume_line c' ls)"
proof (induction ls arbitrary: c c')
  case (Cons l ls)
  have "ac_short (consume_line c l) = ac_short (consume_line c' l)"
    by (simp add: consume_line_def Cons.prems split: option.split)
  then show ?case unfolding foldl_Cons by (rule Cons.IH)
qed simp

lemma allocateOrderTx_ok:
  assumes ok: "allocateOrderTx E i oid d ls cache s = (Inr (res, cache'), s')" and sound: "cache_sound s cache"
    and keys: "distinct (map pr_id (products s))"
  shows "(case res of
      Inl ms \<Rightarrow> ms = missing s ls \<and> ms \<noteq> [] \<and> s' = s \<and> cache_sound s cache'
    | Inr n \<Rightarrow> n = length (taken s ls) \<and> served oid d ls s s'
        \<and> (\<exists>c. cache_sound s c \<and> ac_short cache' = ac_short (foldl consume_line c ls)))"
proof -
  obtain al ins c where run: "collect_lines oid d ls [] [] cache s = (Inr (al, ins, c), s)"
    and rest: "(if ins \<noteq> [] then tx_return (Inl ins, c)
     else tx_bind (take_products E (clock E i) al [] c) (\<lambda>(tasks, cache).
       tx_seq (BatchInsertAssemblyTasks tasks)
      (tx_seq (UpdateOrderStatus oid OrderStatusAllocated)
      (tx_return (Inr (length al), foldl consume_line cache ls))))) s = (Inr (res, cache'), s')"
    using ok collect_lines_ok [OF _ sound] unfolding allocateOrderTx_def tx_bind_ok split_paired_Ex prod.case by blast
  note col = collect_lines_ok [OF run sound, unfolded append_Nil]
  show ?thesis
  proof (cases "ins = []")
    case False
    then show ?thesis using rest col by (auto simp: tx_return_ok)
  next
    case True
    let ?ps = "concat (map (\<lambda>l. map (Pair l) (GetAllocateProductsForSKU (ol_sku l) (ol_qty l) s)) ls)"
    have al: "al = map (\<lambda>(l, p). allocation_of oid d l p) ?ps" and bins: "\<forall>p\<in>set (taken s ls). pr_bin p \<noteq> None"
      and none: "missing s ls = []"
      using col True unfolding allocation_concat(1) by auto
    obtain ts c2 s1 s2 where t: "take_products E (clock E i) al [] c s = (Inr (ts, c2), s1)"
      and b: "BatchInsertAssemblyTasks ts s1 = (Inr (), s2)"
      and o: "UpdateOrderStatus oid OrderStatusAllocated s2 = (Inr (), s')"
      and res: "res = Inr (length al)" "cache' = foldl consume_line c2 ls"
      using rest True by (auto simp: tx_oks split_def)
    have ord: "\<forall>a\<in>set al. ap_order a = oid" by (auto simp: al allocation_of_def)
    note tk = take_products_ok [OF t ord, unfolded append_Nil]
    have ids: "map ap_product al = map pr_id (taken s ls)"
      unfolding al allocation_concat(2) by (simp add: split_def allocation_of_def o_def)
    have idset: "ap_product ` set al = pr_id ` set (taken s ls)" using arg_cong [OF ids, of set] by simp
    have moved: "(pr_id p \<in> pr_id ` set (taken s ls) \<and> pr_status p = ProductStatusStored) = (p \<in> set (taken s ls))"
      if "p \<in> set (products s)" for p
      using that set_taken [of _ s ls] distinct_keyD [OF keys, of p] by blast
    let ?P = "map (\<lambda>p. if p \<in> set (taken s ls) then allocated_to oid p else p) (products s)"
    have "sql_update (\<lambda>r. pr_id r \<in> ap_product ` set al \<and> pr_status r = ProductStatusStored) (allocated_to oid) (products s) = ?P"
      unfolding idset sql_update_def using moved by (intro map_cong) simp_all
    then have s1: "s1 = s\<lparr>products := ?P\<rparr>" using tk by simp
    have s2: "s2 = s\<lparr>products := ?P, assembly_tasks := assembly_tasks s @ ts\<rparr>" using BatchInsert_ok [OF b] unfolding s1 by simp
    have o': "\<exists>r\<in>set (orders s2). or_id r = oid \<and> or_status r = OrderStatusNew"
      "s' = orders_update (sql_update (\<lambda>r. or_id r = oid \<and> or_status r = OrderStatusNew) (\<lambda>r. r\<lparr>or_status := OrderStatusAllocated\<rparr>)) s2"
      using o unfolding UpdateOrderStatus_def sql_exec_some_ok by blast+
    have new: "list_all2 (\<lambda>p t. at_product t = pr_id p \<and> at_order t = oid \<and> pr_bin p = Some (at_from_bin t) \<and> at_destination t = d
             \<and> at_status t = TaskStatusPending) (taken s ls) ts"
    proof -
      have "list_all2 task_for (map (\<lambda>(l, p). allocation_of oid d l p) ?ps) ts" using tk unfolding al by auto
      then have "list_all2 (\<lambda>lp t. task_for ((\<lambda>(l, p). allocation_of oid d l p) lp) t) ?ps ts" by (simp only: list_all2_map1)
      then show ?thesis
        unfolding allocation_concat(2) list_all2_map1
        by (rule list.rel_mono_strong) (use bins in \<open>auto simp: task_for_def allocation_of_def allocation_concat(2)\<close>)
    qed
    have "distinct (map pr_id (taken s ls))" using tk ids by simp
    moreover have "products s' = ?P" "orders s' = sql_update (\<lambda>r. or_id r = oid \<and> or_status r = OrderStatusNew) (\<lambda>r. r\<lparr>or_status := OrderStatusAllocated\<rparr>) (orders s)"
      "assembly_tasks s' = assembly_tasks s @ ts" "s' = s\<lparr>products := products s', orders := orders s', assembly_tasks := assembly_tasks s'\<rparr>"
      using o'(2) unfolding s2 by (cases s; simp)+
    moreover have "\<exists>r\<in>set (orders s). or_id r = oid \<and> or_status r = OrderStatusNew" using o'(1) unfolding s2 by simp
    ultimately have "served oid d ls s s'"
      unfolding served_def using none new by blast
    moreover have "length al = length (taken s ls)" using ids by (rule map_eq_imp_length_eq)
    moreover have "ac_short cache' = ac_short (foldl consume_line c ls)"
      unfolding res using tk by (intro consume_short) blast
    moreover have "cache_sound s c" using col by blast
    ultimately show ?thesis unfolding res(1) by auto
  qed
qed

definition lines_ok :: "order_line list \<Rightarrow> bool" where
  "lines_ok ls \<longleftrightarrow> distinct (map ol_sku ls) \<and> (\<forall>l\<in>set ls. 0 < ol_qty l)"

text \<open>The products of a SKU an order takes: those of its one line, or none.\<close>

lemma taken_of_sku:
  assumes "lines_ok ls"
  shows "{p \<in> set (taken s ls). pr_sku p = k}
    = (case List.find (\<lambda>l. ol_sku l = k) ls of None \<Rightarrow> {} | Some l \<Rightarrow> set (GetAllocateProductsForSKU k (ol_qty l) s))"
proof -
  have sku: "pr_sku p = j" if "p \<in> set (GetAllocateProductsForSKU j q s)" for p j q
    using that set_GetAllocate by (fastforce simp: allocatable_def)
  show ?thesis
  proof (cases "List.find (\<lambda>l. ol_sku l = k) ls")
    case None
    then have "{p \<in> set (taken s ls). pr_sku p = k} = {}" by (auto simp: taken_def find_None_iff) (metis sku)
    then show ?thesis using None by simp
  next
    case (Some l)
    have l: "l \<in> set ls" "ol_sku l = k" using find_Some_set [OF Some] by auto
    have one: "m = l" if "m \<in> set ls" "ol_sku m = k" for m
      using that l assms unfolding lines_ok_def by (blast dest: distinct_keyD)
    have "{p \<in> set (taken s ls). pr_sku p = k} = set (GetAllocateProductsForSKU k (ol_qty l) s)"
    proof (intro equalityI subsetI)
      fix p assume "p \<in> {p \<in> set (taken s ls). pr_sku p = k}"
      then obtain m where "m \<in> set ls" "p \<in> set (GetAllocateProductsForSKU (ol_sku m) (ol_qty m) s)" "pr_sku p = k"
        by (auto simp: taken_def)
      then show "p \<in> set (GetAllocateProductsForSKU k (ol_qty l) s)" using sku one by metis
    next
      fix p assume "p \<in> set (GetAllocateProductsForSKU k (ol_qty l) s)"
      then show "p \<in> {p \<in> set (taken s ls). pr_sku p = k}" using l sku by (auto simp: taken_def)
    qed
    then show ?thesis using Some by simp
  qed
qed

lemma line_length:
  assumes "missing s ls = []" "l \<in> set ls" "lines_ok ls"
  shows "int (length (GetAllocateProductsForSKU (ol_sku l) (ol_qty l) s)) = ol_qty l"
proof -
  have "ol_qty l \<le> available s (ol_sku l)"
    using assms(1,2) by (fastforce simp: missing_def filter_empty_conv)
  moreover have "0 < ol_qty l" using assms(2,3) by (auto simp: lines_ok_def)
  ultimately show ?thesis by (simp add: length_GetAllocate)
qed

lemma card_taken_of_sku:
  assumes "missing s ls = []" "lines_ok ls" "distinct (map pr_id (products s))"
  shows "int (card {p \<in> set (taken s ls). pr_sku p = k}) = (case List.find (\<lambda>l. ol_sku l = k) ls of None \<Rightarrow> 0 | Some l \<Rightarrow> ol_qty l)"
proof (cases "List.find (\<lambda>l. ol_sku l = k) ls")
  case (Some l)
  have l: "l \<in> set ls" "ol_sku l = k" using find_Some_set [OF Some] by auto
  have "distinct (GetAllocateProductsForSKU k (ol_qty l) s)" using distinct_GetAllocate [OF assms(3)] by (simp add: distinct_map)
  then show ?thesis
    using Some line_length [OF assms(1) l(1) assms(2)] l(2) by (simp add: taken_of_sku [OF assms(2)] distinct_card)
qed (simp add: taken_of_sku [OF assms(2)])

lemma available_served:
  assumes sv: "served oid d ls s s'" and lines: "lines_ok ls" and keys: "distinct (map pr_id (products s))"
  shows "available s' k = available s k - (case List.find (\<lambda>l. ol_sku l = k) ls of None \<Rightarrow> 0 | Some l \<Rightarrow> ol_qty l)"
proof -
  let ?A = "filter (allocatable k) (products s)" and ?T = "set (taken s ls)"
  have dA: "distinct ?A" using keys by (simp add: distinct_map)
  have n: "available s' k = int (length (filter (\<lambda>p. p \<notin> ?T) ?A))"
  proof -
    have "products s' = map (\<lambda>p. if p \<in> ?T then allocated_to oid p else p) (products s)" using sv by (simp add: served_def)
    moreover have "\<not> allocatable k (allocated_to oid p)" for p by (simp add: allocatable_def allocated_to_def)
    ultimately have "filter (allocatable k) (products s') = map (\<lambda>p. if p \<in> ?T then allocated_to oid p else p) (filter (\<lambda>p. p \<notin> ?T \<and> allocatable k p) (products s))"
      by (simp add: filter_map o_def) (intro arg_cong [where f = "map _"] filter_cong, auto)
    then show ?thesis by (simp add: available_def sql_count_def conj_commute)
  qed
  have "set (filter (\<lambda>p. p \<in> ?T) ?A) = {p \<in> ?T. pr_sku p = k}"
    using set_taken [of _ s ls] by (auto simp: allocatable_def)
  then have "length (filter (\<lambda>p. p \<in> ?T) ?A) = card {p \<in> ?T. pr_sku p = k}"
    using dA by (metis distinct_card distinct_filter)
  moreover have "int (length ?A) = available s k" by (simp add: available_def sql_count_def)
  moreover have "length (filter (\<lambda>p. p \<in> ?T) ?A) + length (filter (\<lambda>p. p \<notin> ?T) ?A) = length ?A"
    by (rule sum_length_filter_compl)
  ultimately show ?thesis
    using n card_taken_of_sku [of s ls k, OF _ lines keys] sv by (simp add: served_def)
qed

lemma consume_lines:
  "distinct (map ol_sku ls) \<Longrightarrow> ac_short (foldl consume_line c ls) k =
     (case ac_short c k of None \<Rightarrow> None | Some a \<Rightarrow>
        (case List.find (\<lambda>l. ol_sku l = k) ls of None \<Rightarrow> Some a | Some l \<Rightarrow> Some (max 0 (a - ol_qty l))))"
proof (induction ls arbitrary: c)
  case (Cons l ls)
  have "List.find (\<lambda>l. ol_sku l = k) ls = None" if "ol_sku l = k"
    using Cons.prems that by (simp add: find_None_iff) (metis imageI)
  then show ?case
    using Cons by (auto simp: consume_line_def split: option.splits)
qed (simp split: option.splits)

lemma cache_sound_served:
  assumes sv: "served oid d ls s s'" and lines: "lines_ok ls" and keys: "distinct (map pr_id (products s))"
    and c: "cache_sound s c" "ac_short c' = ac_short (foldl consume_line c ls)"
  shows "cache_sound s' c'"
  unfolding cache_sound_def
proof (intro allI impI)
  fix k a assume "ac_short c' k = Some a"
  moreover have "distinct (map ol_sku ls)" using lines by (simp add: lines_ok_def)
  moreover have "ol_qty l \<le> available s (ol_sku l)" if "l \<in> set ls" for l
    using sv that by (fastforce simp: served_def missing_def filter_empty_conv)
  moreover have "ol_sku l = k \<and> l \<in> set ls" if "List.find (\<lambda>l. ol_sku l = k) ls = Some l" for l
    using find_Some_set [OF that] by auto
  ultimately show "a = available s' k"
    using c(1) unfolding available_served [OF sv lines keys] c(2) cache_sound_def
    by (fastforce simp: consume_lines max_def split: option.splits)
qed

text \<open>The rows of one order, and that a call leaves the rows of an order as they are.\<close>

definition products_of :: "wms_db \<Rightarrow> uuid \<Rightarrow> product list" where
  "products_of s oid = filter (\<lambda>p. pr_order p = Some oid) (products s)"

definition order_rows :: "wms_db \<Rightarrow> uuid \<Rightarrow> order_row list" where
  "order_rows s oid = filter (\<lambda>r. or_id r = oid) (orders s)"

definition settled :: "bool \<Rightarrow> wms_db \<Rightarrow> uuid \<Rightarrow> order_line list \<Rightarrow> bool" where
  "settled short s oid ls \<longleftrightarrow>
     (if short then products_of s oid = [] \<and> map or_status (order_rows s oid) = [OrderStatusNew]
      else map or_status (order_rows s oid) = [OrderStatusAllocated]
        \<and> (\<forall>p\<in>set (products_of s oid). pr_status p = ProductStatusAllocated)
        \<and> (\<forall>l\<in>set ls. int (sql_count (\<lambda>p. pr_sku p = ol_sku l) (products_of s oid)) = ol_qty l))"

lemma served_products_of:
  assumes sv: "served oid d ls s s'" and fresh: "products_of s oid = []"
  shows "products_of s' oid = map (allocated_to oid) (filter (\<lambda>p. p \<in> set (taken s ls)) (products s))"
    "x \<noteq> oid \<Longrightarrow> products_of s' x = products_of s x"
proof -
  have P: "products s' = map (\<lambda>p. if p \<in> set (taken s ls) then allocated_to oid p else p) (products s)" using sv by (simp add: served_def)
  have f: "pr_order p \<noteq> Some oid" if "p \<in> set (products s)" for p
    using fresh that by (auto simp: products_of_def filter_empty_conv)
  have "filter (\<lambda>p. pr_order (if p \<in> set (taken s ls) then allocated_to oid p else p) = Some oid) (products s)
      = filter (\<lambda>p. p \<in> set (taken s ls)) (products s)"
    using f by (intro filter_cong) (auto simp: allocated_to_def)
  then show "products_of s' oid = map (allocated_to oid) (filter (\<lambda>p. p \<in> set (taken s ls)) (products s))"
    by (simp add: products_of_def P filter_map o_def)
  assume x: "x \<noteq> oid"
  have "filter (\<lambda>p. pr_order (if p \<in> set (taken s ls) then allocated_to oid p else p) = Some x) (products s)
      = filter (\<lambda>p. pr_order p = Some x) (products s)"
    using x set_taken [of _ s ls] by (intro filter_cong) (auto simp: allocated_to_def)
  moreover have "(if p \<in> set (taken s ls) then allocated_to oid p else p) = p" if "pr_order p = Some x" for p
    using that set_taken [of p s ls] by auto
  ultimately show "products_of s' x = products_of s x"
    unfolding products_of_def P filter_map o_def by (simp only:) (rule map_idI, simp)
qed

lemma served_order_rows:
  assumes sv: "served oid d ls s s'"
  shows "map or_status (order_rows s oid) = [OrderStatusNew] \<Longrightarrow> map or_status (order_rows s' oid) = [OrderStatusAllocated]"
    "x \<noteq> oid \<Longrightarrow> order_rows s' x = order_rows s x" "map or_id (orders s') = map or_id (orders s)"
proof -
  have O: "orders s' = sql_update (\<lambda>r. or_id r = oid \<and> or_status r = OrderStatusNew) (\<lambda>r. r\<lparr>or_status := OrderStatusAllocated\<rparr>) (orders s)"
    using sv by (simp add: served_def)
  let ?f = "\<lambda>r. if or_id r = oid \<and> or_status r = OrderStatusNew then r\<lparr>or_status := OrderStatusAllocated\<rparr> else r"
  have rows: "order_rows s' x = map ?f (order_rows s x)" for x
    unfolding order_rows_def O sql_update_def filter_map o_def
    by (intro arg_cong [where f = "map ?f"] filter_cong) auto
  assume "map or_status (order_rows s oid) = [OrderStatusNew]"
  then obtain r where r: "order_rows s oid = [r]" "or_status r = OrderStatusNew" by auto
  moreover have "or_id r = oid"
  proof -
    have "r \<in> set (order_rows s oid)" using r by simp
    then show ?thesis by (simp add: order_rows_def)
  qed
  ultimately show "map or_status (order_rows s' oid) = [OrderStatusAllocated]" by (simp add: rows)
next
  have O: "orders s' = sql_update (\<lambda>r. or_id r = oid \<and> or_status r = OrderStatusNew) (\<lambda>r. r\<lparr>or_status := OrderStatusAllocated\<rparr>) (orders s)"
    using sv by (simp add: served_def)
  show "map or_id (orders s') = map or_id (orders s)" unfolding O by simp
  assume "x \<noteq> oid"
  then show "order_rows s' x = order_rows s x"
    unfolding order_rows_def O sql_update_def filter_map o_def by (intro map_idI [THEN trans]) (auto intro!: filter_cong)
qed

lemma served_settled:
  assumes sv: "served oid d ls s s'" and lines: "lines_ok ls" and keys: "distinct (map pr_id (products s))"
    and fresh: "products_of s oid = []" "map or_status (order_rows s oid) = [OrderStatusNew]"
  shows "settled False s' oid ls"
proof -
  note of = served_products_of(1) [OF sv fresh(1)]
  have "int (sql_count (\<lambda>p. pr_sku p = ol_sku l) (products_of s' oid)) = ol_qty l" if l: "l \<in> set ls" for l
  proof -
    let ?F = "filter (\<lambda>p. pr_sku p = ol_sku l) (filter (\<lambda>p. p \<in> set (taken s ls)) (products s))"
    have "sql_count (\<lambda>p. pr_sku p = ol_sku l) (products_of s' oid) = length ?F"
      by (simp add: sql_count_def of filter_map o_def allocated_to_def)
    also have "\<dots> = card (set ?F)" using keys by (intro distinct_card [symmetric]) (simp add: distinct_map)
    also have "set ?F = {p \<in> set (taken s ls). pr_sku p = ol_sku l}" using set_taken [of _ s ls] by auto
    finally have c: "int (sql_count (\<lambda>p. pr_sku p = ol_sku l) (products_of s' oid))
        = (case List.find (\<lambda>m. ol_sku m = ol_sku l) ls of None \<Rightarrow> 0 | Some l \<Rightarrow> ol_qty l)"
      using card_taken_of_sku [of s ls "ol_sku l", OF _ lines keys] sv by (simp add: served_def)
    show ?thesis
    proof (cases "List.find (\<lambda>m. ol_sku m = ol_sku l) ls")
      case None
      then show ?thesis using l by (auto simp: find_None_iff)
    next
      case (Some m)
      have m: "m \<in> set ls" "ol_sku m = ol_sku l" using find_Some_set [OF Some] by auto
      have "m = l" using distinct_keyD [of ol_sku ls m l] lines m l by (simp add: lines_ok_def)
      then show ?thesis using c Some by simp
    qed
  qed
  then show ?thesis
    using served_order_rows(1) [OF sv fresh(2)] by (auto simp: settled_def of allocated_to_def)
qed

lemma name_missing_short: "snd (name_missing s ms cache) = cache' \<Longrightarrow> ac_short cache' = ac_short cache"
proof (induction ms arbitrary: cache cache')
  case (Cons m ms)
  then show ?case
    by (auto simp: Let_def split_def split: option.splits sum.splits)
qed simp

definition untouched :: "uuid set \<Rightarrow> wms_db \<Rightarrow> wms_db \<Rightarrow> bool" where
  "untouched ids s s' \<longleftrightarrow> (\<forall>x. x \<notin> ids \<longrightarrow> products_of s' x = products_of s x \<and> order_rows s' x = order_rows s x)"

definition short_in :: "allocate_response \<Rightarrow> uuid set" where
  "short_in resp = fst ` set (al_insufficient resp)"

lemma filter_key: "distinct (map key t) \<Longrightarrow> x \<in> set t \<Longrightarrow> filter (\<lambda>y. key y = key x) t = [x]"
proof (induction t)
  case (Cons y t)
  have "filter (\<lambda>z. key z = key x) t = []" if "y = x"
    using Cons.prems(1) that by (simp add: filter_empty_conv) (metis imageI)
  moreover have "key y \<noteq> key x" if "x \<in> set t" using Cons.prems(1) that by (simp) (metis imageI)
  ultimately show ?case using Cons by auto
qed simp

lemma allocate_orders_ok:
  assumes "allocate_orders E d lines irs resp cache s = (Inr resp', s')" and "cache_sound s cache"
    and "distinct (map pr_id (products s))" and "distinct (map (\<lambda>ir. or_id (snd ir)) irs)"
    and "\<forall>ir\<in>set irs. lines_ok (lines (or_id (snd ir))) \<and> products_of s (or_id (snd ir)) = []
        \<and> map or_status (order_rows s (or_id (snd ir))) = [OrderStatusNew]"
    and "\<forall>ir\<in>set irs. or_id (snd ir) \<notin> short_in resp"
  shows "(\<forall>ir\<in>set irs. settled (or_id (snd ir) \<in> short_in resp') s' (or_id (snd ir)) (lines (or_id (snd ir))))
    \<and> untouched ((\<lambda>ir. or_id (snd ir)) ` set irs) s s'
    \<and> short_in resp \<subseteq> short_in resp' \<and> short_in resp' \<subseteq> short_in resp \<union> (\<lambda>ir. or_id (snd ir)) ` set irs
    \<and> al_orders resp' + length (al_insufficient resp') = al_orders resp + length (al_insufficient resp) + length irs"
  using assms
proof (induction irs arbitrary: resp cache s)
  case Nil
  then show ?case by (simp add: tx_return_ok untouched_def)
next
  case (Cons ir irs)
  let ?o = "or_id (snd ir)" and ?key = "\<lambda>ir. or_id (snd ir)"
  obtain res c s1 where one: "allocateOrderTx E (fst ir) ?o d (lines ?o) cache s = (Inr (res, c), s1)"
    and rest: "(case res of Inl insufficient \<Rightarrow>
         tx_bind (tx_get (\<lambda>s. name_missing s insufficient c)) (\<lambda>(missing, cache).
         allocate_orders E d lines irs (resp\<lparr>al_insufficient := al_insufficient resp @ [(?o, missing)]\<rparr>) cache)
     | Inr allocated \<Rightarrow>
         allocate_orders E d lines irs (resp\<lparr>al_orders := al_orders resp + 1, al_products := al_products resp + allocated\<rparr>) c) s1
       = (Inr resp', s')"
    using Cons.prems(1) unfolding allocate_orders.simps tx_bind_ok split_paired_Ex prod.case by blast
  note ord = allocateOrderTx_ok [OF one Cons.prems(2,3)]
  have new: "?o \<notin> ?key ` set irs" and dist: "distinct (map ?key irs)" using Cons.prems(4) by auto
  have ne: "?key x \<noteq> ?o" if "x \<in> set irs" for x using that new by (metis imageI)
  show ?case
  proof (cases res)
    case (Inl ms)
    obtain named c2 where nm: "name_missing s1 ms c = (named, c2)" by (cases "name_missing s1 ms c")
    let ?r = "resp\<lparr>al_insufficient := al_insufficient resp @ [(?o, named)]\<rparr>"
    have s1: "s1 = s" and c: "cache_sound s c" using ord Inl by auto
    have run: "allocate_orders E d lines irs ?r c2 s = (Inr resp', s')"
      using rest nm unfolding Inl s1 by (simp add: tx_simps)
    have "cache_sound s c2" using c name_missing_short [of s1 ms c c2] nm by (simp add: cache_sound_def)
    moreover have sr: "short_in ?r = insert ?o (short_in resp)" by (simp add: short_in_def)
    moreover have "\<forall>x\<in>set irs. ?key x \<notin> short_in ?r" using Cons.prems(6) ne unfolding sr by auto
    ultimately have IH: "(\<forall>ir\<in>set irs. settled (?key ir \<in> short_in resp') s' (?key ir) (lines (?key ir)))
      \<and> untouched (?key ` set irs) s s' \<and> short_in ?r \<subseteq> short_in resp' \<and> short_in resp' \<subseteq> short_in ?r \<union> ?key ` set irs
      \<and> al_orders resp' + length (al_insufficient resp') = al_orders ?r + length (al_insufficient ?r) + length irs"
      using Cons.prems(3,5) dist by (intro Cons.IH [OF run]) simp_all
    have "settled True s' ?o (lines ?o)"
      using Cons.prems(5) IH new by (auto simp: settled_def untouched_def)
    moreover have "?o \<in> short_in resp'" using IH sr by blast
    ultimately show ?thesis using IH sr by (auto simp: untouched_def)
  next
    case (Inr n)
    let ?r = "resp\<lparr>al_orders := al_orders resp + 1, al_products := al_products resp + n\<rparr>"
    have run: "allocate_orders E d lines irs ?r c s1 = (Inr resp', s')" using rest Inr by simp
    have sv: "served ?o d (lines ?o) s s1" and c: "\<exists>c'. cache_sound s c' \<and> ac_short c = ac_short (foldl consume_line c' (lines ?o))"
      using ord Inr by auto
    have lk: "lines_ok (lines ?o)" "products_of s ?o = []" "map or_status (order_rows s ?o) = [OrderStatusNew]"
      using Cons.prems(5) by auto
    have "map pr_id (products s1) = map pr_id (products s)"
      using sv by (auto simp: served_def allocated_to_def)
    then have keys1: "distinct (map pr_id (products s1))" using Cons.prems(3) by simp
    have sound1: "cache_sound s1 c" using cache_sound_served [OF sv lk(1) Cons.prems(3)] c by blast
    have same: "products_of s1 x = products_of s x" "order_rows s1 x = order_rows s x" if "x \<noteq> ?o" for x
      using that served_products_of(2) [OF sv lk(2)] served_order_rows(2) [OF sv] by blast+
    have sr: "short_in ?r = short_in resp" by (simp add: short_in_def)
    have "\<forall>ir\<in>set irs. lines_ok (lines (?key ir)) \<and> products_of s1 (?key ir) = []
        \<and> map or_status (order_rows s1 (?key ir)) = [OrderStatusNew]"
    proof
      fix x assume x: "x \<in> set irs"
      then show "lines_ok (lines (?key x)) \<and> products_of s1 (?key x) = [] \<and> map or_status (order_rows s1 (?key x)) = [OrderStatusNew]"
        using Cons.prems(5) same [OF ne [OF x]] by simp
    qed
    moreover have "\<forall>ir\<in>set irs. ?key ir \<notin> short_in ?r" using Cons.prems(6) sr by auto
    ultimately have IH: "(\<forall>ir\<in>set irs. settled (?key ir \<in> short_in resp') s' (?key ir) (lines (?key ir)))
      \<and> untouched (?key ` set irs) s1 s' \<and> short_in ?r \<subseteq> short_in resp' \<and> short_in resp' \<subseteq> short_in ?r \<union> ?key ` set irs
      \<and> al_orders resp' + length (al_insufficient resp') = al_orders ?r + length (al_insufficient ?r) + length irs"
      by (intro Cons.IH [OF run sound1 keys1 dist])
    have "settled False s1 ?o (lines ?o)" by (rule served_settled [OF sv lk(1) Cons.prems(3) lk(2,3)])
    then have "settled False s' ?o (lines ?o)"
      using IH new by (simp add: settled_def untouched_def)
    moreover have "?o \<notin> short_in resp'" using IH sr new Cons.prems(6) by auto
    ultimately show ?thesis using IH sr same by (auto simp: untouched_def)
  qed
qed

text \<open>C15: allocation serves an order all or nothing and never oversells. Of every new order that is in
  the batch, either each line has exactly its quantity of products of its SKU, all of them allocated,
  and the order is ALLOCATED, or the order is reported as short, stays NEW and holds no product. The
  products and the rows of all other orders stay as they were, and every order of the batch is
  counted once.\<close>

theorem Allocate_all_or_nothing:
  assumes ok: "Allocate E d s = (Inr resp, s')"
    and keys: "product_keys s" "distinct (map or_id (orders s))"
    and free: "\<forall>r\<in>set (orders s). or_status r = OrderStatusNew \<longrightarrow> products_of s (or_id r) = []"
    and lines: "\<forall>x. lines_ok (filter (\<lambda>l. ol_order l = x) (order_lines s))"
  shows "let batch = map or_id (GetOrdersByDestinationForUpdate d allocateOrderBatchLimit s) in
     (\<forall>x\<in>set batch. settled (x \<in> short_in resp) s' x (filter (\<lambda>l. ol_order l = x) (order_lines s)))
   \<and> untouched (set batch) s s' \<and> al_orders resp + length (al_insufficient resp) = length batch"
proof -
  let ?os = "GetOrdersByDestinationForUpdate d allocateOrderBatchLimit s"
  let ?lines = "GetOrderLinesByOrderIDs (map or_id ?os) s"
  have run: "allocate_orders E d ?lines (enumerate 0 ?os) \<lparr> al_orders = 0, al_products = 0, al_insufficient = [] \<rparr> newAllocateCache s = (Inr resp, s')"
    using ok by (auto simp: Allocate_def svc_oks)
  have key: "map (\<lambda>ir. or_id (snd ir)) (enumerate 0 ?os) = map or_id ?os" by (simp flip: map_map [unfolded o_def])
  have sub: "set ?os \<subseteq> {r \<in> set (orders s). or_status r = OrderStatusNew}"
    unfolding GetOrdersByDestinationForUpdate_def by (auto dest: in_set_takeD)
  have dist: "distinct (map or_id ?os)"
    unfolding GetOrdersByDestinationForUpdate_def take_map [symmetric]
    using keys(2) by (intro distinct_take) (simp add: distinct_map_sort_key distinct_map_filter)
  have ln: "lines_ok (?lines x) \<and> set (?lines x) = set (filter (\<lambda>l. ol_order l = x) (order_lines s))" if "x \<in> or_id ` set ?os" for x
  proof -
    have "?lines x = sort_key ol_id (filter (\<lambda>l. ol_order l = x) (order_lines s))"
      using that unfolding GetOrderLinesByOrderIDs_def by (intro arg_cong [where f = "sort_key ol_id"] filter_cong) auto
    then show ?thesis using lines by (simp add: lines_ok_def distinct_map_sort_key)
  qed
  have row: "map or_status (order_rows s (or_id r)) = [OrderStatusNew]" if "r \<in> set ?os" for r
  proof -
    have r: "r \<in> set (orders s)" "or_status r = OrderStatusNew" using that sub by auto
    have "order_rows s (or_id r) = [r]"
      unfolding order_rows_def using keys(2) r(1) by (rule filter_key)
    then show ?thesis using r by simp
  qed
  have pre: "lines_ok (?lines (or_id (snd ir))) \<and> products_of s (or_id (snd ir)) = []
        \<and> map or_status (order_rows s (or_id (snd ir))) = [OrderStatusNew]" if "ir \<in> set (enumerate 0 ?os)" for ir
  proof -
    have "snd ir \<in> set ?os" using that by (metis imageI map_snd_enumerate set_map)
    then show ?thesis using ln row free sub by blast
  qed
  have "cache_sound s newAllocateCache" by (simp add: cache_sound_def newAllocateCache_def)
  have fin: "(\<forall>ir\<in>set (enumerate 0 ?os). settled (or_id (snd ir) \<in> short_in resp) s' (or_id (snd ir)) (?lines (or_id (snd ir))))
    \<and> untouched ((\<lambda>ir. or_id (snd ir)) ` set (enumerate 0 ?os)) s s'
    \<and> al_orders resp + length (al_insufficient resp) = length ?os"
    using allocate_orders_ok [OF run \<open>cache_sound s newAllocateCache\<close> conjunct1 [OF keys(1) [unfolded product_keys_def]]] pre dist
    unfolding key by (simp add: short_in_def)
  have "settled b s' x (?lines x) = settled b s' x (filter (\<lambda>l. ol_order l = x) (order_lines s))" if "x \<in> or_id ` set ?os" for b x
    using ln [OF that] unfolding settled_def by simp
  moreover have img: "(\<lambda>ir. or_id (snd ir)) ` set (enumerate 0 ?os) = or_id ` set ?os"
    using arg_cong [OF key, of set] by simp
  moreover have "settled (x \<in> short_in resp) s' x (?lines x)" if "x \<in> or_id ` set ?os" for x
    using fin that unfolding img [symmetric] by auto
  ultimately show ?thesis using fin by (simp add: Let_def)
qed

definition demo_order :: "uuid \<Rightarrow> timestamp \<Rightarrow> order_row" where
  "demo_order x t = \<lparr> or_id = x, or_external_no = ''n'', or_customer = 5, or_warehouse = 1, or_destination = 80,
     or_status = OrderStatusNew, or_created = t \<rparr>"

definition demo_stored :: product where
  "demo_stored = \<lparr> pr_id = 41, pr_sku = 30, pr_shipment = 10, pr_cargoplace = 11, pr_box = Some 20, pr_qr = ''q'',
     pr_bin = Some 60, pr_order = None, pr_status = ProductStatusStored, pr_created = 0 \<rparr>"

text \<open>One product, an older order that wants two and a younger one that wants one.\<close>

definition demo_allocate_db :: wms_db where
  "demo_allocate_db = empty_db
     \<lparr> orders := [demo_order 71 2, demo_order 70 1],
       order_lines := [\<lparr> ol_id = 1, ol_order = 70, ol_sku = 30, ol_qty = 2 \<rparr>, \<lparr> ol_id = 2, ol_order = 71, ol_sku = 30, ol_qty = 1 \<rparr>],
       bins := [\<lparr> bn_id = 60, bn_warehouse = 1, bn_code = ''S'', bn_section = Some ''A1'', bn_destination = None, bn_volume = Some 3 \<rparr>],
       products := [demo_stored] \<rparr>"

theorem Allocate_all_or_nothing_witness:
  "\<exists>resp s'. Allocate demo_env 80 demo_allocate_db = (Inr resp, s')
     \<and> al_orders resp + length (al_insufficient resp) = 2"
proof -
  have "\<not> isl (fst (Allocate demo_env 80 demo_allocate_db))" by code_simp
  then obtain resp s' where run: "Allocate demo_env 80 demo_allocate_db = (Inr resp, s')" using run_ok by blast
  have "lines_ok (filter (\<lambda>l. ol_order l = x) (order_lines demo_allocate_db))" for x
    by (cases "x = 70"; cases "x = 71") (simp_all add: lines_ok_def demo_allocate_db_def)
  moreover have "product_keys demo_allocate_db" "distinct (map or_id (orders demo_allocate_db))"
    "\<forall>r\<in>set (orders demo_allocate_db). or_status r = OrderStatusNew \<longrightarrow> products_of demo_allocate_db (or_id r) = []"
    by (simp_all add: demo_allocate_db_def product_keys_def demo_order_def products_of_def demo_stored_def)
  moreover have "length (GetOrdersByDestinationForUpdate 80 allocateOrderBatchLimit demo_allocate_db) = 2"
    by (simp add: GetOrdersByDestinationForUpdate_def allocateOrderBatchLimit_def demo_allocate_db_def demo_order_def)
  ultimately show ?thesis
    using run Allocate_all_or_nothing [OF run] by (auto simp: Let_def)
qed

text \<open>C23: a SKU is served first in, first out: what is taken is free stock of that SKU, as much as asked
  for if there is enough and all there is otherwise, oldest first, and nothing left behind is older
  than anything taken.\<close>

theorem GetAllocateProductsForSKU_oldest:
  "set (GetAllocateProductsForSKU k q s) \<subseteq> {p \<in> set (products s). allocatable k p}
   \<and> int (length (GetAllocateProductsForSKU k q s)) = min (max 0 q) (available s k)
   \<and> sorted (map pr_created (GetAllocateProductsForSKU k q s))
   \<and> (\<forall>p\<in>set (GetAllocateProductsForSKU k q s). \<forall>r\<in>set (products s).
        allocatable k r \<and> r \<notin> set (GetAllocateProductsForSKU k q s) \<longrightarrow> pr_created p \<le> pr_created r)"
proof (intro conjI ballI impI)
  let ?all = "sort_key pr_created (sort_key pr_id (filter (allocatable k) (products s)))"
  have g: "GetAllocateProductsForSKU k q s = take (nat q) ?all" by (simp add: GetAllocateProductsForSKU_def)
  have split: "sorted (map pr_created (take (nat q) ?all) @ map pr_created (drop (nat q) ?all))"
    by (simp flip: map_append)
  have cross: "\<forall>x\<in>set (take (nat q) ?all). \<forall>y\<in>set (drop (nat q) ?all). pr_created x \<le> pr_created y"
    using split unfolding sorted_append by (simp del: set_sort)
  from split show "sorted (map pr_created (GetAllocateProductsForSKU k q s))" unfolding g sorted_append by blast
  fix p r assume "p \<in> set (GetAllocateProductsForSKU k q s)" "r \<in> set (products s)"
    "allocatable k r \<and> r \<notin> set (GetAllocateProductsForSKU k q s)"
  moreover from this have "r \<in> set (drop (nat q) ?all)"
  proof -
    have "r \<in> set ?all" using \<open>r \<in> set (products s)\<close> \<open>allocatable k r \<and> _\<close> by simp
    then have "r \<in> set (take (nat q) ?all) \<union> set (drop (nat q) ?all)" by (metis append_take_drop_id set_append)
    then show ?thesis using \<open>allocatable k r \<and> _\<close> unfolding g by blast
  qed
  ultimately show "pr_created p \<le> pr_created r" using cross unfolding g by blast
qed (rule set_GetAllocate length_GetAllocate)+

theorem GetAllocateProductsForSKU_oldest_witness:
  "set (GetAllocateProductsForSKU 30 1 demo_allocate_db) = {demo_stored}"
proof -
  have "available demo_allocate_db 30 = 1"
    by (simp add: available_def sql_count_def demo_allocate_db_def allocatable_def demo_stored_def)
  then have "length (GetAllocateProductsForSKU 30 1 demo_allocate_db) = 1"
    "set (GetAllocateProductsForSKU 30 1 demo_allocate_db) \<subseteq> {demo_stored}"
    using GetAllocateProductsForSKU_oldest [of 30 1 demo_allocate_db] by (auto simp: demo_allocate_db_def)
  then show ?thesis by (metis length_0_conv list.set_intros(1) neq_Nil_conv subset_singletonD set_empty zero_neq_one)
qed

section \<open>Picking\<close>

text \<open>C22: a pick completes exactly one pending task of the product and assembles exactly that product,
  which was allocated and whose placement the chain has not refused; the answer counts the
  operator's basket after the pick. Nothing else changes.\<close>

theorem Pick_effect:
  assumes ok: "Pick E u x s = (Inr r, s')" and keys: "distinct (map at_event (assembly_tasks s))" "product_keys s"
  shows "\<exists>t\<in>set (assembly_tasks s). \<exists>p\<in>set (products s).
      at_product t = x \<and> at_status t = TaskStatusPending \<and> pr_id p = x \<and> pr_status p = ProductStatusAllocated
    \<and> \<not> chain_rejected [x] (actionTypeByAggregate AggregatePutaway) s
    \<and> set (assembly_tasks s') = insert (t\<lparr>at_status := TaskStatusDone, at_operator := Some u, at_occurred := Some (clock E 0)\<rparr>)
         (set (assembly_tasks s) - {t})
    \<and> set (products s') = insert (p\<lparr>pr_status := ProductStatusAssembled\<rparr>) (set (products s) - {p})
    \<and> s' = s\<lparr>assembly_tasks := assembly_tasks s', products := products s'\<rparr>
    \<and> r = (x, CountAssembledByOperator u s')"
proof -
  let ?f = "\<lambda>t. t\<lparr>at_status := TaskStatusDone, at_operator := Some u, at_occurred := Some (clock E 0)\<rparr>"
  obtain t p where t: "List.find (\<lambda>t. at_product t = x \<and> at_status t = TaskStatusPending) (assembly_tasks s) = Some t"
    and p: "List.find (\<lambda>p. pr_id p = x) (products s) = Some p" "pr_status p = ProductStatusAllocated"
    and chain: "\<not> chain_rejected [x] (actionTypeByAggregate AggregatePutaway) s"
    and s': "s' = products_update (sql_update (\<lambda>p. pr_id p = x \<and> pr_status p = ProductStatusAllocated) (\<lambda>p. p\<lparr>pr_status := ProductStatusAssembled\<rparr>))
       (assembly_tasks_update (sql_update (\<lambda>q. at_event q = at_event t \<and> at_status q = TaskStatusPending) ?f) s)"
    and r: "r = (x, CountAssembledByOperator u s')"
    using ok unfolding Pick_def svc_oks CheckChainStatus_ok GetPendingTaskByProductForUpdate_def GetProductByIDForUpdate_def
      MarkTaskDone_def SetProductAssembled_def sql_row_Inr by auto
  have tin: "t \<in> set (assembly_tasks s)" "at_product t = x" "at_status t = TaskStatusPending" using find_Some_set [OF t] by auto
  have pin: "p \<in> set (products s)" "pr_id p = x" using find_Some_set [OF p(1)] by auto
  have "set (assembly_tasks s') = insert (?f t) (set (assembly_tasks s) - {t})"
    using set_sql_update_row [OF keys(1) tin(1), of "\<lambda>q. at_event q = at_event t \<and> at_status q = TaskStatusPending" ?f] tin(3)
    by (simp add: s')
  moreover have "set (products s') = insert (p\<lparr>pr_status := ProductStatusAssembled\<rparr>) (set (products s) - {p})"
    using set_sql_update_row [of pr_id "products s" p "\<lambda>p. pr_id p = x \<and> pr_status p = ProductStatusAllocated"] keys(2) pin p(2)
    by (simp add: s' product_keys_def)
  moreover have "s' = s\<lparr>assembly_tasks := assembly_tasks s', products := products s'\<rparr>" by (cases s) (simp add: s')
  ultimately show ?thesis using tin pin p(2) chain r by blast
qed

definition demo_pick_db :: wms_db where
  "demo_pick_db = empty_db
     \<lparr> products := [demo_stored\<lparr>pr_status := ProductStatusAllocated, pr_order := Some 71\<rparr>],
       assembly_tasks := [\<lparr> at_event = 90, at_order = 71, at_product = 41, at_sku = 30, at_from_bin = 60, at_destination = 80,
          at_section = Some ''A1'', at_status = TaskStatusPending, at_operator = None, at_occurred = None, at_action = None,
          at_unloaded = None \<rparr>] \<rparr>"

theorem Pick_effect_witness:
  "\<exists>s'. Pick demo_env 2 41 demo_pick_db = (Inr (41, CountAssembledByOperator 2 s'), s')
     \<and> (\<exists>p\<in>set (products s'). pr_status p = ProductStatusAssembled)"
proof -
  have "\<not> isl (fst (Pick demo_env 2 41 demo_pick_db))" by code_simp
  then obtain r s' where run: "Pick demo_env 2 41 demo_pick_db = (Inr r, s')" using run_ok by blast
  have "distinct (map at_event (assembly_tasks demo_pick_db))" "product_keys demo_pick_db"
    by (simp_all add: demo_pick_db_def product_keys_def)
  then show ?thesis using run Pick_effect [OF run] by fastforce
qed

section \<open>Unloading\<close>

definition in_basket :: "wms_db \<Rightarrow> uuid \<Rightarrow> uuid \<Rightarrow> product \<Rightarrow> bool" where
  "in_basket s u d p \<longleftrightarrow> pr_status p = ProductStatusAssembled
     \<and> (\<exists>t\<in>set (assembly_tasks s). at_product t = pr_id p \<and> picked_by u t \<and> at_destination t = d)"

lemma operatorBasket_fst: "fst ` set (operatorBasket u d s) = pr_id ` {p \<in> set (products s). in_basket s u d p}"
proof -
  have "fst ` set (operatorBasket u d s) = fst ` set (concat (map (\<lambda>p. map (\<lambda>t. (pr_id p, pr_order p))
         (filter (\<lambda>t. at_product t = pr_id p \<and> picked_by u t \<and> at_destination t = d) (assembly_tasks s)))
       (filter (\<lambda>p. pr_status p = ProductStatusAssembled) (products s))))"
    unfolding operatorBasket_def dedup_keys by simp
  also have "\<dots> = pr_id ` {p \<in> set (products s). in_basket s u d p}"
    by (auto simp: in_basket_def image_iff) metis
  finally show ?thesis .
qed

lemma operatorBasket_rows:
  "set (operatorBasket u d s) \<subseteq> (\<lambda>p. (pr_id p, pr_order p)) ` {p \<in> set (products s). in_basket s u d p}"
  unfolding operatorBasket_def using set_dedup_subset by (fastforce simp: in_basket_def)

lemma operatorBasket_distinct: "distinct (map fst (operatorBasket u d s))"
  unfolding operatorBasket_def by (rule distinct_dedup)

text \<open>The staleness check compares two sets through their sizes.\<close>

lemma basket_matches:
  assumes "length (operatorBasket u d s) = length (remdups items)" "\<forall>it\<in>set (operatorBasket u d s). fst it \<in> set items"
  shows "set items = fst ` set (operatorBasket u d s)"
proof -
  have "card (fst ` set (operatorBasket u d s)) = length (operatorBasket u d s)"
    using operatorBasket_distinct [of u d s] by (metis distinct_card length_map set_map)
  also have "\<dots> = card (set items)" by (simp add: assms(1) length_remdups_card_conv)
  finally show ?thesis
    using assms(2) by (intro card_subset_eq [symmetric]) auto
qed

definition unloaded_to :: "uuid \<Rightarrow> product \<Rightarrow> product" where
  "unloaded_to b p = p\<lparr>pr_status := ProductStatusReadyToShip, pr_bin := Some b\<rparr>"

text \<open>A picked task is stamped with the part that has its product.\<close>

definition stamped :: "uuid \<Rightarrow> uuid \<Rightarrow> timestamp \<Rightarrow> part list \<Rightarrow> assembly_task \<Rightarrow> assembly_task" where
  "stamped u d now parts t =
     (if picked_by u t \<and> at_destination t = d then
        (case List.find (\<lambda>p. at_product t \<in> set (pt_items p)) parts of None \<Rightarrow> t
         | Some p \<Rightarrow> t\<lparr>at_action := Some (pt_action p), at_unloaded := Some now\<rparr>)
      else t)"

lemma stamp_each_ok:
  "tx_each (\<lambda>p. StampTaskUnload (pt_action p) (pt_items p) u d now) parts s = (Inr v, s') \<Longrightarrow>
   s' = s\<lparr>assembly_tasks := map (stamped u d now parts) (assembly_tasks s)\<rparr>"
proof (induction parts arbitrary: s)
  case Nil
  have "stamped u d now [] t = t" for t by (simp add: stamped_def)
  then have "stamped u d now [] = (\<lambda>t. t)" by (rule ext)
  then show ?case using Nil by (cases s) (simp add: tx_return_ok)
next
  case (Cons p parts)
  let ?up = "\<lambda>t. if at_product t \<in> set (pt_items p) \<and> picked_by u t \<and> at_destination t = d
      then t\<lparr>at_action := Some (pt_action p), at_unloaded := Some now\<rparr> else t"
  let ?s1 = "s\<lparr>assembly_tasks := map ?up (assembly_tasks s)\<rparr>"
  have "tx_each (\<lambda>p. StampTaskUnload (pt_action p) (pt_items p) u d now) parts ?s1 = (Inr v, s')"
    using Cons.prems by (cases s) (auto simp: tx_seq_ok StampTaskUnload_def svc_oks sql_update_def)
  from Cons.IH [OF this] have "s' = s\<lparr>assembly_tasks := map (stamped u d now parts \<circ> ?up) (assembly_tasks s)\<rparr>" by simp
  moreover have "stamped u d now parts (?up t) = stamped u d now (p # parts) t" for t
    by (auto simp: stamped_def picked_by_def)
  ultimately show ?case by (simp add: comp_def)
qed

text \<open>The orders an unloading completes.\<close>

definition order_ready :: "wms_db \<Rightarrow> uuid \<Rightarrow> bool" where
  "order_ready s x \<longleftrightarrow> (\<forall>p\<in>set (products s). pr_order p = Some x \<longrightarrow> pr_status p = ProductStatusReadyToShip)"

lemma UpdateOrdersToAssembled_ok:
  "UpdateOrdersToAssembled ids s = (Inr n, s') \<Longrightarrow>
   s' = s\<lparr>orders := sql_update (\<lambda>r. or_id r \<in> set ids \<and> or_status r = OrderStatusAllocated \<and> order_ready s (or_id r))
      (\<lambda>r. r\<lparr>or_status := OrderStatusAssembled\<rparr>) (orders s)\<rparr>"
  by (cases s) (auto simp: UpdateOrdersToAssembled_def svc_oks sql_update_def order_ready_def split: if_splits)

lemma unload_locked_ok:
  assumes "unload_locked E u oid det op pl s = (Inr (b, n), s')"
  shows "\<exists>lop d. List.find (\<lambda>x. bn_id x = details_shipping_bin det \<and> bn_section x = Some ''SHIPPING_BUFFER'') (bins s) = Some b
    \<and> bn_destination b = Some d \<and> LockOperation oid u s = (Inr lop, s)
    \<and> set (op_items op) = fst ` set (operatorBasket u d s)
    \<and> products s' = sql_update (\<lambda>p. pr_id p \<in> set (op_items op)) (unloaded_to (details_shipping_bin det)) (products s)
    \<and> assembly_tasks s' = map (stamped u d (of_unix_milli (details_ms det)) (op_parts lop)) (assembly_tasks s)
    \<and> orders s' = sql_update (\<lambda>r. or_id r \<in> set (List.map_filter snd (operatorBasket u d s)) \<and> or_status r = OrderStatusAllocated
          \<and> order_ready s' (or_id r)) (\<lambda>r. r\<lparr>or_status := OrderStatusAssembled\<rparr>) (orders s)
    \<and> outbox_events s' = outbox_events s @ map2 outbox_row (op_parts lop) pl \<and> queued oid u s s'"
  using assms
  apply (simp (no_asm_use) only: unload_locked_def svc_oks GetShippingBufferBinByID_def sql_row_Inr LockSigner_ok tx_fail_ok
      MoveProductsToShippingBuffer_def simp_thms prod.inject)
  apply (elim exE conjE)
  apply (drule LockOperation_same)
  apply (elim conjE)
  apply hypsubst_thin
  apply (drule basket_matches, assumption)
  apply (drule stamp_each_ok)
  apply hypsubst_thin
  apply (drule UpdateOrdersToAssembled_ok)
  apply hypsubst_thin
  subgoal premises p for _ _ d _ _ lop
  proof -
    note tail = submit_tail [OF p(7) p(8)]
    have q: "queued oid u s s'" and ob: "outbox_events s' = outbox_events s @ map2 outbox_row (op_parts lop) pl"
      and P: "products s' = sql_update (\<lambda>p. pr_id p \<in> set (op_items op)) (unloaded_to (details_shipping_bin det)) (products s)"
      and T: "assembly_tasks s' = map (stamped u d (of_unix_milli (details_ms det)) (op_parts lop)) (assembly_tasks s)"
      by (subst tail; simp add: unloaded_to_def [abs_def])+
    have "orders s' = sql_update (\<lambda>r. or_id r \<in> set (List.map_filter snd (operatorBasket u d s)) \<and> or_status r = OrderStatusAllocated
          \<and> order_ready s' (or_id r)) (\<lambda>r. r\<lparr>or_status := OrderStatusAssembled\<rparr>) (orders s)"
      by (subst tail; simp add: order_ready_def P unloaded_to_def [abs_def])
    then show ?thesis using p(1,2,8,9) q ob P T by blast
  qed
  done

lemma SubmitUnload_run:
  assumes "SubmitUnloadToShippingBuffer C E u oid as s = (Inr r, s')"
  shows "\<exists>op pl s1 b n. (load_submission C TypePick u oid as :: (operation \<times> string list) assembly_tx) s = (Inr (op, pl), s1)
    \<and> unload_locked E u oid (op_details op) op pl s1 = (Inr (b, n), s')
    \<and> r = \<lparr> ss_bin = bn_id b, ss_placed = length (op_items op), ss_orders = n, ss_operation = op_id op \<rparr>"
  using assms unfolding SubmitUnloadToShippingBuffer_def svc_oks split_paired_Ex prod.case by blast

definition submit_unload ::
  "config \<times> call_env \<times> (uuid \<times> assertion) list \<Rightarrow> uuid \<Rightarrow> uuid \<Rightarrow> scan_shipping_buffer_response assembly_tx" where
  "submit_unload = (\<lambda>(C, E, as) u oid. SubmitUnloadToShippingBuffer C E u oid as)"

interpretation unload_once: lock_once submit_unload Ops
proof
  fix x u oid s a s' assume run: "submit_unload x u oid s = (Inr a, s')"
  obtain C E as where x: "x = (C, E, as)" by (cases x)
  obtain op pl s1 b n where l: "(load_submission C TypePick u oid as :: (operation \<times> string list) assembly_tx) s = (Inr (op, pl), s1)"
    and p: "unload_locked E u oid (op_details op) op pl s1 = (Inr (b, n), s')"
    using run SubmitUnload_run unfolding submit_unload_def x by force
  have "queued oid u s1 s'" using unload_locked_ok [OF p] by blast
  then show "queued oid u s s'" by (rule queued_keys_only [OF submit_head(1) [OF l]])
next
  fix x u oid s e s' assume "submit_unload x u oid s = (Inl e, s')"
  then show "keys_only s s'"
    unfolding submit_unload_def by (cases x) (auto intro: tx_atomicD [OF unload_atomic(2)])
next
  fix oid u s x assume "submitted_op oid u s"
  then show "submit_unload x u oid s \<in> {(Inl (Ops ErrOperationNotFound), s), (Inl (Ops ErrOperationSubmitted), s)}"
    unfolding submit_unload_def SubmitUnloadToShippingBuffer_def by (cases x) (simp only: prod.case load_submission_refuses)
qed

lemma basket_members:
  assumes "product_keys s" and "set items = fst ` set (operatorBasket u d s)" and "p \<in> set (products s)"
  shows "pr_id p \<in> set items \<longleftrightarrow> in_basket s u d p"
proof
  assume "pr_id p \<in> set items"
  then obtain q where "q \<in> set (products s)" "in_basket s u d q" "pr_id q = pr_id p"
    unfolding assms(2) operatorBasket_fst by auto
  then show "in_basket s u d p"
    using distinct_keyD [of pr_id "products s" q p] assms(1,3) unfolding product_keys_def by auto
qed (use assms(3) in \<open>auto simp: assms(2) operatorBasket_fst\<close>)

text \<open>C16: a successful unloading moves the operator's whole basket for the destination and nothing
  else: the signed products are exactly the assembled products this operator picked for it and has
  not unloaded; they become ready to ship in the signed buffer; their tasks are stamped with the
  signed action that lists the product; and an allocated order of the basket becomes ASSEMBLED
  exactly when every one of its products is then ready to ship.\<close>

theorem SubmitUnloadToShippingBuffer_effect:
  assumes ok: "SubmitUnloadToShippingBuffer C E u oid as s = (Inr r, s')"
    and wf: "ops_wf s" and keys: "product_keys s"
  shows "\<exists>op pl b d now. signed_op C TypePick u oid as s op pl \<and> b \<in> set (bins s) \<and> bn_id b = ss_bin r \<and> bn_destination b = Some d
    \<and> ss_bin r = details_shipping_bin (op_details op) \<and> bn_section b = Some ''SHIPPING_BUFFER''
    \<and> set (op_items op) = pr_id ` {p \<in> set (products s). in_basket s u d p}
    \<and> products s' = map (\<lambda>p. if in_basket s u d p then unloaded_to (ss_bin r) p else p) (products s)
    \<and> assembly_tasks s' = map (stamped u d now (op_parts op)) (assembly_tasks s)
    \<and> orders s' = map (\<lambda>q. if or_status q = OrderStatusAllocated \<and> order_ready s' (or_id q)
          \<and> (\<exists>p\<in>set (products s). in_basket s u d p \<and> pr_order p = Some (or_id q))
        then q\<lparr>or_status := OrderStatusAssembled\<rparr> else q) (orders s)
    \<and> outbox_events s' = outbox_events s @ map2 outbox_row (op_parts op) pl"
proof -
  obtain op pl s1 b n where l: "(load_submission C TypePick u oid as :: (operation \<times> string list) assembly_tx) s = (Inr (op, pl), s1)"
    and p: "unload_locked E u oid (op_details op) op pl s1 = (Inr (b, n), s')"
    and r: "r = \<lparr> ss_bin = bn_id b, ss_placed = length (op_items op), ss_orders = n, ss_operation = op_id op \<rparr>"
    using SubmitUnload_run [OF ok] by blast
  note k = keys_only_tables [OF submit_head(1) [OF l]]
  let ?b = "details_shipping_bin (op_details op)"
  have basket_k: "operatorBasket u d s1 = operatorBasket u d s" for d by (simp add: operatorBasket_def k)
  obtain lop d where b: "List.find (\<lambda>x. bn_id x = ?b \<and> bn_section x = Some ''SHIPPING_BUFFER'') (bins s1) = Some b" "bn_destination b = Some d"
    and lop: "LockOperation oid u s1 = (Inr lop, s1)" and items: "set (op_items op) = fst ` set (operatorBasket u d s)"
    and s': "products s' = sql_update (\<lambda>p. pr_id p \<in> set (op_items op)) (unloaded_to ?b) (products s)"
      "assembly_tasks s' = map (stamped u d (of_unix_milli (details_ms (op_details op))) (op_parts lop)) (assembly_tasks s)"
      "orders s' = sql_update (\<lambda>r. or_id r \<in> set (List.map_filter snd (operatorBasket u d s)) \<and> or_status r = OrderStatusAllocated
          \<and> order_ready s' (or_id r)) (\<lambda>r. r\<lparr>or_status := OrderStatusAssembled\<rparr>) (orders s)"
      "outbox_events s' = outbox_events s @ map2 outbox_row (op_parts lop) pl"
    using unload_locked_ok [OF p] unfolding k basket_k by blast
  have lop': "lop = op" using lop submit_head(4) [OF l wf] by simp
  have bb: "b \<in> set (bins s)" "bn_id b = ?b" "bn_section b = Some ''SHIPPING_BUFFER''" using find_Some_set [OF b(1)] k by auto
  have prods: "products s' = map (\<lambda>p. if in_basket s u d p then unloaded_to ?b p else p) (products s)"
    unfolding s'(1) sql_update_def using basket_members [OF keys items] by (intro map_cong) simp_all
  have mem: "x \<in> set (List.map_filter snd (operatorBasket u d s)) \<longleftrightarrow> (\<exists>p\<in>set (products s). in_basket s u d p \<and> pr_order p = Some x)" for x
  proof -
    have "set (operatorBasket u d s) = (\<lambda>p. (pr_id p, pr_order p)) ` {p \<in> set (products s). in_basket s u d p}"
    proof (rule antisym [OF operatorBasket_rows], rule subsetI)
      fix y assume "y \<in> (\<lambda>p. (pr_id p, pr_order p)) ` {p \<in> set (products s). in_basket s u d p}"
      then obtain p where p: "p \<in> set (products s)" "in_basket s u d p" "y = (pr_id p, pr_order p)" by blast
      have "pr_id p \<in> fst ` set (operatorBasket u d s)" unfolding operatorBasket_fst using p(1,2) by blast
      then obtain z where z: "z \<in> set (operatorBasket u d s)" "fst z = pr_id p" by (metis imageE)
      then obtain q where "q \<in> set (products s)" "z = (pr_id q, pr_order q)" using operatorBasket_rows [of u d s] by blast
      moreover from this have "q = p" using z(2) p(1) keys distinct_keyD [of pr_id "products s" q p] by (simp add: product_keys_def)
      ultimately show "y \<in> set (operatorBasket u d s)" using z(1) p(3) by simp
    qed
    then show ?thesis by (auto simp: in_map_filter)
  qed
  have ords: "orders s' = map (\<lambda>q. if or_status q = OrderStatusAllocated \<and> order_ready s' (or_id q)
          \<and> (\<exists>p\<in>set (products s). in_basket s u d p \<and> pr_order p = Some (or_id q))
        then q\<lparr>or_status := OrderStatusAssembled\<rparr> else q) (orders s)"
    unfolding s'(3) sql_update_def mem by (intro map_cong) auto
  have its: "set (op_items op) = pr_id ` {p \<in> set (products s). in_basket s u d p}" unfolding items operatorBasket_fst ..
  have rb: "ss_bin r = ?b" by (simp add: r bb)
  show ?thesis
    unfolding rb
    by (rule exI [of _ op], rule exI [of _ pl], rule exI [of _ b], rule exI [of _ d],
        rule exI [of _ "of_unix_milli (details_ms (op_details op))"], intro conjI)
      (rule submit_head(3) [OF l] bb b(2) its prods ords s'(2,4) [unfolded lop'] refl)+
qed

definition demo_unload_db :: wms_db where
  "demo_unload_db = demo_signed TypePick [41] (PickDetails 61 21) (empty_db
     \<lparr> orders := [(demo_order 71 2)\<lparr>or_status := OrderStatusAllocated\<rparr>],
       bins := [\<lparr> bn_id = 61, bn_warehouse = 1, bn_code = ''G'', bn_section = Some ''SHIPPING_BUFFER'', bn_destination = Some 80, bn_volume = None \<rparr>],
       products := [demo_stored\<lparr>pr_status := ProductStatusAssembled, pr_order := Some 71\<rparr>],
       assembly_tasks := [\<lparr> at_event = 90, at_order = 71, at_product = 41, at_sku = 30, at_from_bin = 60, at_destination = 80,
          at_section = Some ''A1'', at_status = TaskStatusDone, at_operator = Some 2, at_occurred = None, at_action = None,
          at_unloaded = None \<rparr>] \<rparr>)"

theorem SubmitUnloadToShippingBuffer_effect_witness:
  "\<exists>r s'. SubmitUnloadToShippingBuffer demo_config demo_env 2 64 [(65, demo_assertion)] demo_unload_db = (Inr r, s')
     \<and> (\<forall>p\<in>set (products s'). pr_status p = ProductStatusReadyToShip)"
proof -
  have "\<not> isl (fst (SubmitUnloadToShippingBuffer demo_config demo_env 2 64 [(65, demo_assertion)] demo_unload_db))"
    by (simp add: SubmitUnloadToShippingBuffer_def unload_locked_def demo_unload_db_def tx_simps ops_tx_def Let_def empty_db_def
      sql_row_def GetShippingBufferBinByID_def demo_signer demo_write operatorBasket_def picked_by_def demo_stored_def
      MoveProductsToShippingBuffer_def StampTaskUnload_def UpdateOrdersToAssembled_def List.map_filter_simps)
  then obtain r s' where run: "SubmitUnloadToShippingBuffer demo_config demo_env 2 64 [(65, demo_assertion)] demo_unload_db = (Inr r, s')"
    using run_ok by blast
  have wf: "ops_wf demo_unload_db" "product_keys demo_unload_db"
    and p: "products demo_unload_db = [demo_stored\<lparr>pr_status := ProductStatusAssembled, pr_order := Some 71\<rparr>]"
    by (simp_all add: demo_unload_db_def product_keys_def empty_db_def)
  have items: "op_items op = [41]" if "signed_op demo_config TypePick 2 64 as demo_unload_db op pl" for op as pl
    using that unfolding demo_unload_db_def by (auto dest: demo_signed_op)
  obtain op pl b d where "signed_op demo_config TypePick 2 64 [(65, demo_assertion)] demo_unload_db op pl"
    "set (op_items op) = pr_id ` {p \<in> set (products demo_unload_db). in_basket demo_unload_db 2 d p}"
    "products s' = map (\<lambda>p. if in_basket demo_unload_db 2 d p then unloaded_to b p else p) (products demo_unload_db)"
    using SubmitUnloadToShippingBuffer_effect [OF run wf] by blast
  then have "\<forall>p\<in>set (products s'). pr_status p = ProductStatusReadyToShip"
    using items [OF \<open>signed_op _ _ _ _ _ _ _ _\<close>] unfolding p by (auto simp: unloaded_to_def split: if_splits)
  then show ?thesis using run by blast
qed

text \<open>The move is safe because what it moves has been checked: a batch update of assembled products.\<close>

lemma unload_products_forward: "tx_rel products_forward (SubmitUnloadToShippingBuffer C E u oid as)"
proof -
  have "products_forward s s'" if ok: "unload_locked E u oid det op pl s = (Inr r, s')" for det op pl s r s'
  proof -
    obtain b n where r: "r = (b, n)" by (cases r)
    obtain d where items: "set (op_items op) = fst ` set (operatorBasket u d s)"
      and P: "products s' = sql_update (\<lambda>p. pr_id p \<in> set (op_items op)) (unloaded_to (details_shipping_bin det)) (products s)"
      using unload_locked_ok [OF ok [unfolded r]] by blast
    have "product_step p (unloaded_to (details_shipping_bin det) p)"
      if "product_keys s" "p \<in> set (products s)" "pr_id p \<in> set (op_items op)" for p
      using basket_members [OF that(1) items that(2)] that(3) by (simp add: product_step_def unloaded_to_def in_basket_def)
    then have "products_forward s (products_update (sql_update (\<lambda>p. pr_id p \<in> set (op_items op)) (unloaded_to (details_shipping_bin det))) s)"
      by (rule products_forward_update)
    then show ?thesis unfolding products_forward_def product_keys_def by (simp add: P)
  qed
  then show ?thesis
    unfolding SubmitUnloadToShippingBuffer_def split_def
    by (intro tx_rules prodf.rel_WithTx_ok)
qed

end
