(* ===== verification/Shipping.thy ===== *)
theory Shipping
  imports Stock LedgerGate
begin

text \<open>
  \<^verbatim>\<open>wms/internal/shipping\<close>: the statements of \<^verbatim>\<open>repository.go\<close> and
  \<^verbatim>\<open>ship_signed_repository.go\<close>, the two scans of \<^verbatim>\<open>service.go\<close>, and the signed shipping
  of a buffer onto a trip (\<^verbatim>\<open>ship_signed.go\<close>).
\<close>

datatype shipping_err =
    ShippingInvalidInput | ShippingBinNotFound | ShippingBinNotShippingBuffer | ErrDispatchNotFound
  | ErrDispatchAlreadyDeparted | ErrDispatchCancelled | ShippingDestinationMismatch | ErrDispatchNotAtGate
  | ErrBufferEmpty | ShippingProductNotInBuffer | ShippingDraftStale | ErrPickingNotConfirmed "uuid list"

type_synonym 'a shipping_tx = "(wms_db, shipping_err svc_err, 'a) tx"

section \<open>The store\<close>

record buffer_bin_record =
  bb_bin :: uuid
  bb_code :: string
  bb_section :: "string option"
  bb_destination :: "(uuid \<times> string \<times> string) option"

definition destination_row :: "wms_db \<Rightarrow> uuid \<Rightarrow> destination option" where
  "destination_row s destinationID = List.find (\<lambda>d. de_id d = destinationID) (destinations s)"

text \<open>The destination columns of the left join are null together.\<close>

definition bin_with_destination :: "uuid \<Rightarrow> wms_db \<Rightarrow> shipping_err svc_err + buffer_bin_record" where
  "bin_with_destination binID s =
     (case List.find (\<lambda>b. bn_id b = binID) (bins s) of None \<Rightarrow> Inl (Svc ShippingBinNotFound)
      | Some b \<Rightarrow> Inr \<lparr> bb_bin = bn_id b, bb_code = bn_code b, bb_section = bn_section b,
          bb_destination = map_option (\<lambda>d. (de_id d, de_code d, de_name d))
            (Option.bind (bn_destination b) (destination_row s)) \<rparr>)"

definition GetBinWithDestinationByID :: "uuid \<Rightarrow> buffer_bin_record shipping_tx" where
  "GetBinWithDestinationByID binID = tx_query (bin_with_destination binID)"

definition GetBufferBinForUpdate :: "uuid \<Rightarrow> buffer_bin_record shipping_tx" where
  "GetBufferBinForUpdate binID = tx_query (bin_with_destination binID)"

record ready_to_ship_product =
  rp_product :: uuid
  rp_qr :: string
  rp_sku_name :: string
  rp_order_no :: "string option"

definition ListReadyToShipProductsByBin :: "uuid \<Rightarrow> wms_db \<Rightarrow> ready_to_ship_product list" where
  "ListReadyToShipProductsByBin binID s =
     List.map_filter (\<lambda>p. map_option
         (\<lambda>k. \<lparr> rp_product = pr_id p, rp_qr = pr_qr p, rp_sku_name = sk_name k,
           rp_order_no = Option.bind (pr_order p) (\<lambda>oid.
             map_option or_external_no (List.find (\<lambda>r. or_id r = oid) (orders s))) \<rparr>)
         (List.find (\<lambda>k. sk_id k = pr_sku p) (skus s)))
       (sort_key pr_created
         (filter (\<lambda>p. pr_bin p = Some binID \<and> pr_status p = ProductStatusReadyToShip) (products s)))"

record dispatch_record =
  dr_dispatch :: outbound_dispatch
  dr_code :: string
  dr_name :: string

definition dispatch_join :: "wms_db \<Rightarrow> outbound_dispatch \<Rightarrow> dispatch_record option" where
  "dispatch_join s d = map_option (\<lambda>de. \<lparr> dr_dispatch = d, dr_code = de_code de, dr_name = de_name de \<rparr>)
     (destination_row s (dp_destination d))"

definition find_dispatch :: "(outbound_dispatch \<Rightarrow> bool) \<Rightarrow> wms_db \<Rightarrow> shipping_err svc_err + dispatch_record" where
  "find_dispatch P s =
     (case Option.bind (List.find P (outbound_dispatches s)) (dispatch_join s) of
        None \<Rightarrow> Inl (Svc ErrDispatchNotFound) | Some d \<Rightarrow> Inr d)"

definition GetDispatchByCode :: "string \<Rightarrow> dispatch_record shipping_tx" where
  "GetDispatchByCode dispatchCode = tx_query (find_dispatch (\<lambda>d. dp_code d = dispatchCode))"

definition GetDispatchByID :: "uuid \<Rightarrow> dispatch_record shipping_tx" where
  "GetDispatchByID dispatchID = tx_query (find_dispatch (\<lambda>d. dp_id d = dispatchID))"

definition GetDispatchForUpdate :: "uuid \<Rightarrow> dispatch_record shipping_tx" where
  "GetDispatchForUpdate dispatchID = tx_query (find_dispatch (\<lambda>d. dp_id d = dispatchID))"

text \<open>\<^verbatim>\<open>UPDATE ... FROM destinations ... RETURNING\<close>: no row is updated or returned unless all conditions hold.\<close>

definition UpdateDispatchToAtGate :: "timestamp \<Rightarrow> string \<Rightarrow> dispatch_record shipping_tx" where
  "UpdateDispatchToAtGate now dispatchCode =
     tx_bind (tx_query (find_dispatch (\<lambda>d. dp_code d = dispatchCode \<and> dp_status d = OutboundDispatchStatusScheduled))) (\<lambda>r.
     tx_bind (sql_exec outbound_dispatches outbound_dispatches_update
        (\<lambda>d. dp_code d = dispatchCode \<and> dp_status d = OutboundDispatchStatusScheduled)
        (\<lambda>d. d\<lparr>dp_status := OutboundDispatchStatusAtGate, dp_arrived := Some now\<rparr>)) (\<lambda>_.
     tx_return (r\<lparr>dr_dispatch := (dr_dispatch r)\<lparr>dp_status := OutboundDispatchStatusAtGate, dp_arrived := Some now\<rparr>\<rparr>)))"

definition productsForShip :: "uuid \<Rightarrow> uuid list \<Rightarrow> wms_db \<Rightarrow> (uuid \<times> uuid option) list" where
  "productsForShip binID productIDs s =
     map (\<lambda>p. (pr_id p, pr_order p)) (sort_key pr_created
       (filter (\<lambda>p. pr_bin p = Some binID \<and> pr_status p = ProductStatusReadyToShip
          \<and> (productIDs \<noteq> [] \<longrightarrow> pr_id p \<in> set productIDs)) (products s)))"

definition BatchUpdateProductsShipped :: "uuid list \<Rightarrow> unit shipping_tx" where
  "BatchUpdateProductsShipped productIDs =
     (if productIDs = [] then tx_return ()
      else tx_bind (sql_exec products products_update (\<lambda>p. pr_id p \<in> set productIDs)
             (\<lambda>p. p\<lparr>pr_status := ProductStatusShipped\<rparr>)) (\<lambda>affected.
           tx_check (affected = length productIDs) (Svc ShippingProductNotInBuffer)))"

definition BatchInsertShippings ::
  "(uuid \<times> uuid) list \<Rightarrow> uuid \<Rightarrow> uuid \<Rightarrow> timestamp \<Rightarrow> uuid \<Rightarrow> unit shipping_tx" where
  "BatchInsertShippings events dispatchID operatorID occurredAt actionID =
     tx_each (\<lambda>(eventID, productID). sql_insert shippings shippings_update sp_event SqlConflict
       \<lparr> sp_event = eventID, sp_product = productID, sp_dispatch = dispatchID, sp_operator = operatorID,
         sp_shipped_at = occurredAt, sp_occurred = occurredAt, sp_action = Some actionID \<rparr>) events"

definition ship_candidate :: "order_status \<Rightarrow> bool" where
  "ship_candidate st \<longleftrightarrow> st = OrderStatusAllocated \<or> st = OrderStatusAssembled \<or> st = OrderStatusPartiallyShipped"

definition shipped_status :: "wms_db \<Rightarrow> uuid \<Rightarrow> order_status" where
  "shipped_status s orderID =
     (if \<exists>p\<in>set (products s). pr_order p = Some orderID \<and> pr_status p \<noteq> ProductStatusShipped
      then OrderStatusPartiallyShipped else OrderStatusShipped)"

text \<open>The first statement locks the candidates; the second decides and reports each updated row.\<close>

definition UpdateOrdersShippedConditional :: "uuid list \<Rightarrow> (nat \<times> nat) shipping_tx" where
  "UpdateOrdersShippedConditional orderIDs =
     (if orderIDs = [] then tx_return (0, 0)
      else (\<lambda>s.
        let lockedIDs = sort (map or_id (filter (\<lambda>r. or_id r \<in> set orderIDs \<and> ship_candidate (or_status r)) (orders s)));
            hit = (\<lambda>r. or_id r \<in> set lockedIDs
              \<and> (\<exists>p\<in>set (products s). pr_order p = Some (or_id r) \<and> pr_status p = ProductStatusShipped));
            statuses = map (\<lambda>r. shipped_status s (or_id r)) (filter hit (orders s))
        in if lockedIDs = [] then (Inr (0, 0), s)
           else (Inr (count_list statuses OrderStatusShipped, count_list statuses OrderStatusPartiallyShipped),
                 orders_update (sql_update hit (\<lambda>r. r\<lparr>or_status := shipped_status s (or_id r)\<rparr>)) s)))"

text \<open>The bins of the destination of \<open>binID\<close>; a null destination equals none.\<close>

definition CountReadyToShipProductsInBuffer :: "uuid \<Rightarrow> wms_db \<Rightarrow> nat" where
  "CountReadyToShipProductsInBuffer binID s =
     (case Option.bind (List.find (\<lambda>b. bn_id b = binID) (bins s)) bn_destination of None \<Rightarrow> 0
      | Some destinationID \<Rightarrow> sql_count (\<lambda>p. pr_status p = ProductStatusReadyToShip
          \<and> (\<exists>b\<in>set (bins s). pr_bin p = Some (bn_id b) \<and> bn_destination b = Some destinationID
               \<and> normal_section b = Some ''SHIPPING_BUFFER'')) (products s))"

definition UpdateDispatchDeparted :: "timestamp \<Rightarrow> uuid \<Rightarrow> unit shipping_tx" where
  "UpdateDispatchDeparted now dispatchID =
     tx_bind (sql_exec outbound_dispatches outbound_dispatches_update
        (\<lambda>d. dp_id d = dispatchID \<and> dp_status d = OutboundDispatchStatusAtGate)
        (\<lambda>d. d\<lparr>dp_status := OutboundDispatchStatusDeparted, dp_departed := Some now\<rparr>)) (\<lambda>affected.
     if affected = 0 then tx_query (\<lambda>s. case List.find (\<lambda>d. dp_id d = dispatchID) (outbound_dispatches s) of
         Some d \<Rightarrow> if dp_status d = OutboundDispatchStatusDeparted then Inl (Svc ErrDispatchAlreadyDeparted)
                   else Inl (Svc ErrDispatchNotAtGate)
       | None \<Rightarrow> Inl (Svc ErrDispatchNotAtGate))
     else tx_return ())"

section \<open>The scans\<close>

definition binSectionShippingBuffer :: string where
  "binSectionShippingBuffer = ''SHIPPING_BUFFER''"

definition ShippingScanBuffer ::
  "uuid \<Rightarrow> uuid \<Rightarrow> (uuid \<times> string \<times> (uuid \<times> string \<times> string) \<times> ready_to_ship_product list \<times> nat) shipping_tx" where
  "ShippingScanBuffer operatorID bufferBinID =
     tx_seq (tx_check (operatorID \<noteq> uuid_Nil \<and> bufferBinID \<noteq> uuid_Nil) (Svc ShippingInvalidInput))
    (tx_bind (GetBinWithDestinationByID bufferBinID) (\<lambda>b.
     tx_seq (tx_check (bb_section b = Some binSectionShippingBuffer) (Svc ShippingBinNotShippingBuffer))
     (case bb_destination b of None \<Rightarrow> tx_fail (Svc ShippingBinNotShippingBuffer)
      | Some destination \<Rightarrow>
        tx_bind (tx_get (ListReadyToShipProductsByBin bufferBinID)) (\<lambda>ps.
        tx_return (bb_bin b, bb_code b, destination, ps, length ps)))))"

definition ScanDriver :: "call_env \<Rightarrow> uuid \<Rightarrow> string \<Rightarrow> dispatch_record shipping_tx" where
  "ScanDriver E operatorID dispatchCode =
     tx_seq (tx_check (operatorID \<noteq> uuid_Nil \<and> dispatchCode \<noteq> []) (Svc ShippingInvalidInput))
     (tx_handle (UpdateDispatchToAtGate (clock E 0) dispatchCode) (\<lambda>e.
        if e \<noteq> Svc ErrDispatchNotFound then tx_fail e
        else tx_bind (GetDispatchByCode dispatchCode) (\<lambda>current.
          case dp_status (dr_dispatch current) of
            OutboundDispatchStatusDeparted \<Rightarrow> tx_fail (Svc ErrDispatchAlreadyDeparted)
          | OutboundDispatchStatusCancelled \<Rightarrow> tx_fail (Svc ErrDispatchCancelled)
          | OutboundDispatchStatusAtGate \<Rightarrow> tx_return current
          | OutboundDispatchStatusScheduled \<Rightarrow> tx_fail (Svc ShippingInvalidInput))))"

section \<open>The signed shipping\<close>

definition order_of_products :: "(uuid \<times> uuid option) list \<Rightarrow> uuid list \<Rightarrow> uuid list" where
  "order_of_products ps items =
     List.map_filter (\<lambda>id. case map_of ps id of Some (Some orderID) \<Rightarrow> Some orderID | _ \<Rightarrow> None) items"

text \<open>The shipping buffer and the trip at the gate, in the draft and again under the lock.\<close>

definition check_trip :: "buffer_bin_record \<Rightarrow> dispatch_record shipping_tx \<Rightarrow> unit shipping_tx" where
  "check_trip b getDispatch =
     (if bb_section b \<noteq> Some binSectionShippingBuffer then tx_fail (Svc ShippingBinNotShippingBuffer)
      else case bb_destination b of None \<Rightarrow> tx_fail (Svc ShippingBinNotShippingBuffer)
      | Some destination \<Rightarrow>
        tx_bind getDispatch (\<lambda>d.
        tx_seq (tx_check (fst destination = dp_destination (dr_dispatch d)) (Svc ShippingDestinationMismatch))
          (tx_check (dp_status (dr_dispatch d) = OutboundDispatchStatusAtGate) (Svc ErrDispatchNotAtGate))))"

definition confirmed_picking :: "uuid list \<Rightarrow> unit shipping_tx" where
  "confirmed_picking items = tx_query (\<lambda>s.
     case UnconfirmedProducts items AggregatePicking s of [] \<Rightarrow> Inr ()
     | p # ps \<Rightarrow> Inl (Svc (ErrPickingNotConfirmed (p # ps))))"

definition DraftShip :: "config \<Rightarrow> call_env \<Rightarrow> uuid \<Rightarrow> uuid \<Rightarrow> uuid \<Rightarrow> uuid list \<Rightarrow> operation shipping_tx" where
  "DraftShip C E operatorID bufferBinID dispatchID productIDs =
     tx_seq (tx_check (operatorID \<noteq> uuid_Nil \<and> bufferBinID \<noteq> uuid_Nil \<and> dispatchID \<noteq> uuid_Nil) (Svc ShippingInvalidInput))
    (tx_bind (GetBinWithDestinationByID bufferBinID) (\<lambda>b.
     tx_seq (check_trip b (GetDispatchByID dispatchID))
    (tx_bind (tx_get (productsForShip bufferBinID productIDs)) (\<lambda>ps.
     tx_seq (tx_check (\<not> (productIDs = [] \<and> ps = [])) (Svc ErrBufferEmpty))
    (tx_seq (tx_check (\<not> (productIDs \<noteq> [] \<and> length ps \<noteq> length productIDs)) (Svc ShippingProductNotInBuffer))
    (tx_seq (confirmed_picking (map fst ps))
      (draft_operation C E TypeShip operatorID (ShipDetails dispatchID bufferBinID) (map fst ps)
        (\<lambda>ms salt partItems. ShipDetailsHash (cf_crypto C) salt dispatchID bufferBinID
           (order_of_products ps partItems) operatorID ms))))))))"

text \<open>The event ids of the parts, drawn one after the other from \<open>n\<close>.\<close>

primrec insert_part_shippings ::
  "call_env \<Rightarrow> nat \<Rightarrow> part list \<Rightarrow> uuid \<Rightarrow> uuid \<Rightarrow> timestamp \<Rightarrow> unit shipping_tx" where
  "insert_part_shippings E n [] dispatchID operatorID occurredAt = tx_return ()"
| "insert_part_shippings E n (p # ps) dispatchID operatorID occurredAt =
     tx_seq (BatchInsertShippings (map (\<lambda>(i, id). (fresh E i, id)) (enumerate n (pt_items p)))
              dispatchID operatorID occurredAt (pt_action p))
       (insert_part_shippings E (n + length (pt_items p)) ps dispatchID operatorID occurredAt)"

record ship_response =
  sr_shipped :: nat
  sr_events :: nat
  sr_completed :: nat
  sr_partial :: nat
  sr_departed :: bool
  sr_remaining :: nat
  sr_operation :: uuid

definition ship_locked ::
  "call_env \<Rightarrow> uuid \<Rightarrow> uuid \<Rightarrow> action_details \<Rightarrow> operation \<Rightarrow> string list \<Rightarrow> ship_response shipping_tx" where
  "ship_locked E operatorID operationID details op payloads =
     tx_bind (GetBufferBinForUpdate (details_shipping_bin details)) (\<lambda>b.
     tx_seq (check_trip b (GetDispatchForUpdate (details_dispatch details)))
    (tx_bind (tx_get (productsForShip (details_shipping_bin details) (op_items op))) (\<lambda>ps.
     tx_seq (tx_check (length ps = length (op_items op)) (Svc ShippingDraftStale))
    (tx_bind (ops_tx (LockOperation operationID operatorID)) (\<lambda>lockedOp.
     tx_seq (ops_tx (LockSigner (op_signer op)))
    (tx_seq (BatchUpdateProductsShipped (op_items op))
    (tx_seq (insert_part_shippings E 0 (op_parts lockedOp) (details_dispatch details) operatorID
               (of_unix_milli (details_ms details)))
    (tx_bind (UpdateOrdersShippedConditional (dedup (\<lambda>x. x) {} (List.map_filter snd ps))) (\<lambda>(completed, partial).
     tx_bind (tx_get (CountReadyToShipProductsInBuffer (details_shipping_bin details))) (\<lambda>remaining.
     tx_seq (if remaining = 0 then UpdateDispatchDeparted (clock E 0) (details_dispatch details) else tx_return ())
    (tx_seq (ops_tx (WriteActions (clock E 0) lockedOp payloads))
      (tx_return \<lparr> sr_shipped = length (op_items op), sr_events = length (op_parts lockedOp),
         sr_completed = completed, sr_partial = partial, sr_departed = (remaining = 0),
         sr_remaining = remaining, sr_operation = op_id op \<rparr>))))))))))))"

definition SubmitShip ::
  "config \<Rightarrow> call_env \<Rightarrow> uuid \<Rightarrow> uuid \<Rightarrow> (uuid \<times> assertion) list \<Rightarrow> ship_response shipping_tx" where
  "SubmitShip C E operatorID operationID assertions =
     tx_bind (load_submission C TypeShip operatorID operationID assertions) (\<lambda>(op, payloads).
     tx_seq (confirmed_picking (op_items op))
       (WithTx (ship_locked E operatorID operationID (op_details op) op payloads)))"

end
