(* ===== verification/ShippingFlow.thy ===== *)
theory ShippingFlow
  imports Shipping
begin

text \<open>
  What shipping guarantees: the scans of a buffer only read, the scan of a driver brings the
  trip to the gate once, and a signed submit ships exactly the signed products, whose picking
  the chain has confirmed, records each with its action, moves their orders on and lets the
  trip depart exactly when nothing is left for it.
\<close>

section \<open>Nothing goes back\<close>

lemmas shipping_reads = GetBinWithDestinationByID_def GetBufferBinForUpdate_def GetDispatchByCode_def
  GetDispatchByID_def GetDispatchForUpdate_def confirmed_picking_def

lemma UpdateDispatch_rel [tx_rules]:
  "tx_rel rows_forward (UpdateDispatchToAtGate now c)" "tx_rel products_forward (UpdateDispatchToAtGate now c)"
  "tx_rel rows_forward (UpdateDispatchDeparted now d)" "tx_rel products_forward (UpdateDispatchDeparted now d)"
  unfolding UpdateDispatchToAtGate_def UpdateDispatchDeparted_def
  by (intro tx_rules rel_statement rows_forwards grows_update products_forward_same;
      simp add: dispatch_step_def dispatch_next_def)+

lemma BatchUpdateProductsShipped_rows [tx_rules]: "tx_rel rows_forward (BatchUpdateProductsShipped ps)"
  unfolding BatchUpdateProductsShipped_def by (intro tx_rules rel_statement rows_forward_products)

lemma insert_part_shippings_rel [tx_rules]:
  "tx_rel rows_forward (insert_part_shippings E n ps d u t)" "tx_rel products_forward (insert_part_shippings E n ps d u t)"
proof (induction ps arbitrary: n)
  case Nil
  { case 1 show ?case by (simp add: tx_rules) next case 2 show ?case by (simp add: tx_rules) }
next
  case (Cons p ps)
  { case 1 show ?case unfolding insert_part_shippings.simps BatchInsertShippings_def split_def
      by (intro tx_rules Cons.IH rel_statement rows_forwards) (simp_all add: grows_append)
  next
    case 2 show ?case unfolding insert_part_shippings.simps BatchInsertShippings_def split_def
      by (intro tx_rules Cons.IH rel_statement products_forward_same) simp_all }
qed

text \<open>Only a candidate is locked, so the update never takes an order back.\<close>

definition ship_hit :: "wms_db \<Rightarrow> uuid list \<Rightarrow> order_row \<Rightarrow> bool" where
  "ship_hit s ids r \<longleftrightarrow> (\<exists>q\<in>set (orders s). or_id q = or_id r \<and> or_id q \<in> set ids \<and> ship_candidate (or_status q))
     \<and> (\<exists>p\<in>set (products s). pr_order p = Some (or_id r) \<and> pr_status p = ProductStatusShipped)"

definition ship_order :: "wms_db \<Rightarrow> order_row \<Rightarrow> order_row" where
  "ship_order s r = r\<lparr>or_status := shipped_status s (or_id r)\<rparr>"

lemma UpdateOrdersShippedConditional_run:
  "snd (UpdateOrdersShippedConditional ids s) = s\<lparr>orders := sql_update (ship_hit s ids) (ship_order s) (orders s)\<rparr>"
proof -
  let ?L = "filter (\<lambda>r. or_id r \<in> set ids \<and> ship_candidate (or_status r)) (orders s)"
  have hit: "or_id r \<in> set (sort (map or_id ?L)) \<and> (\<exists>p\<in>set (products s). pr_order p = Some (or_id r) \<and> pr_status p = ProductStatusShipped)
     \<longleftrightarrow> ship_hit s ids r" for r
    by (auto simp: ship_hit_def image_iff eq_commute [of "or_id r"])
  have none: "?L = [] \<Longrightarrow> \<not> ship_hit s ids r" for r
    by (auto simp: ship_hit_def filter_empty_conv)
  have idle: "sql_update P f t = t" if "\<And>r. \<not> P r" for P f and t :: "order_row list"
    using that by (simp add: sql_update_def)
  show ?thesis
  proof (cases "ids = [] \<or> ?L = []")
    case True
    then have "\<And>r. \<not> ship_hit s ids r" using none by (auto simp: ship_hit_def)
    then have "s\<lparr>orders := sql_update (ship_hit s ids) (ship_order s) (orders s)\<rparr> = s" by (simp add: idle)
    then show ?thesis using True unfolding UpdateOrdersShippedConditional_def Let_def by (auto simp: tx_simps)
  next
    case False
    then have ne: "sort (map or_id ?L) \<noteq> []" "ids \<noteq> []" by simp_all
    show ?thesis
      unfolding UpdateOrdersShippedConditional_def Let_def hit if_not_P [OF ne(1)] if_not_P [OF ne(2)] snd_conv ship_order_def [abs_def]
      by (cases s) simp
  qed
qed

lemma UpdateOrdersShippedConditional_total: "fst (UpdateOrdersShippedConditional ids s) \<noteq> Inl e"
  by (simp add: UpdateOrdersShippedConditional_def Let_def tx_simps)

lemma ship_order_step:
  assumes "distinct (map or_id (orders s))" "r \<in> set (orders s)" "ship_hit s ids r"
  shows "ship_candidate (or_status r)" "order_step r (ship_order s r)"
proof -
  obtain q where "q \<in> set (orders s)" "or_id q = or_id r" "ship_candidate (or_status q)"
    using assms(3) by (auto simp: ship_hit_def)
  moreover from this have "q = r" using distinct_keyD [OF assms(1)] assms(2) by blast
  ultimately show c: "ship_candidate (or_status r)" by simp
  show "order_step r (ship_order s r)"
    using c by (auto simp: order_step_def ship_order_def shipped_status_def ship_candidate_def)
qed

lemma UpdateOrdersShippedConditional_rel [tx_rules]:
  "tx_rel rows_forward (UpdateOrdersShippedConditional ids)" "tx_rel products_forward (UpdateOrdersShippedConditional ids)"
proof -
  have "rows_forward s (s\<lparr>orders := sql_update (ship_hit s ids) (ship_order s) (orders s)\<rparr>)" for s
    using rows_forwards(4) [of s "\<lambda>_. sql_update (ship_hit s ids) (ship_order s) (orders s)"]
      orders_forward_update [of "orders s" "ship_hit s ids" "ship_order s"] ship_order_step(2) [of s _ ids] by simp
  then show "tx_rel rows_forward (UpdateOrdersShippedConditional ids)" "tx_rel products_forward (UpdateOrdersShippedConditional ids)"
    unfolding tx_rel_def UpdateOrdersShippedConditional_run by (auto intro: products_forward_same)
qed

lemma rel_dispatch_case [tx_rules]:
  "tx_rel R m1 \<Longrightarrow> tx_rel R m2 \<Longrightarrow> tx_rel R m3 \<Longrightarrow> tx_rel R m4 \<Longrightarrow>
   tx_rel R (case st of OutboundDispatchStatusScheduled \<Rightarrow> m1 | OutboundDispatchStatusAtGate \<Rightarrow> m2
     | OutboundDispatchStatusDeparted \<Rightarrow> m3 | OutboundDispatchStatusCancelled \<Rightarrow> m4)"
  by (cases st) simp_all

lemma check_trip_reads: "tx_rel (=) m \<Longrightarrow> tx_rel (=) (check_trip b m)"
  unfolding check_trip_def by (intro tx_rules)

lemma trip_reads:
  "tx_rel (=) (check_trip b (GetDispatchByID d))" "tx_rel (=) (check_trip b (GetDispatchForUpdate d))"
  "tx_rel (=) (GetBinWithDestinationByID x)" "tx_rel (=) (GetBufferBinForUpdate x)" "tx_rel (=) (confirmed_picking ps)"
  "tx_rel (=) (ShippingScanBuffer u x)" "tx_rel (=) (GetDispatchByCode c)"
  unfolding shipping_reads ShippingScanBuffer_def by (intro check_trip_reads tx_rules)+

lemmas rows_reads = trip_reads [THEN rowf.rel_reads] and prod_reads = trip_reads [THEN prodf.rel_reads]
  and ko_reads = trip_reads [THEN ko.rel_reads]

lemma shipping_rows_forward:
  "tx_rel rows_forward (ShippingScanBuffer u b)" "tx_rel rows_forward (ScanDriver E u c)"
  "tx_rel rows_forward (DraftShip C E u b d ps)" "tx_rel rows_forward (SubmitShip C E u oid as)"
  unfolding ScanDriver_def DraftShip_def SubmitShip_def ship_locked_def split_def
  by (intro tx_rules rows_reads)+

lemma shipping_products_forward:
  "tx_rel products_forward (ShippingScanBuffer u b)" "tx_rel products_forward (ScanDriver E u c)"
  "tx_rel products_forward (DraftShip C E u b d ps)"
  unfolding ScanDriver_def DraftShip_def
  by (intro tx_rules prod_reads)+

lemma ship_atomic:
  "tx_atomic keys_only (DraftShip C E u b d ps)" "tx_atomic keys_only (SubmitShip C E u oid as)"
  unfolding DraftShip_def SubmitShip_def split_def
  by (intro ko.atomic_rules ko_reads draft_operation_atomic load_submission_keys_only)+

text \<open>The update of the trip reads first; a failure of the scan changes nothing.\<close>

lemma UpdateDispatchToAtGate_run:
  "UpdateDispatchToAtGate now c s =
     (case find_dispatch (\<lambda>d. dp_code d = c \<and> dp_status d = OutboundDispatchStatusScheduled) s of Inl e \<Rightarrow> (Inl e, s)
      | Inr r \<Rightarrow> (Inr (r\<lparr>dr_dispatch := (dr_dispatch r)\<lparr>dp_status := OutboundDispatchStatusAtGate, dp_arrived := Some now\<rparr>\<rparr>),
          s\<lparr>outbound_dispatches := sql_update (\<lambda>d. dp_code d = c \<and> dp_status d = OutboundDispatchStatusScheduled)
              (\<lambda>d. d\<lparr>dp_status := OutboundDispatchStatusAtGate, dp_arrived := Some now\<rparr>) (outbound_dispatches s)\<rparr>))"
  by (cases s) (simp add: UpdateDispatchToAtGate_def tx_simps split: sum.split)

lemma scan_driver_atomic: "tx_atomic (=) (ScanDriver E u c)"
  unfolding tx_atomic_def ScanDriver_def
  by (auto simp: tx_simps UpdateDispatchToAtGate_run GetDispatchByCode_def split: sum.splits if_splits dispatch_status.splits)

section \<open>The signed shipping\<close>

lemma find_dispatch_ok:
  "find_dispatch P s = Inr r \<Longrightarrow> dr_dispatch r \<in> set (outbound_dispatches s) \<and> P (dr_dispatch r)"
  by (auto simp: find_dispatch_def dispatch_join_def split: option.splits bind_splits dest: find_Some_set)

lemma trip_ok:
  assumes "bin_with_destination x s = Inr b" "check_trip b (GetDispatchForUpdate y) s = (Inr v, s')"
  shows "s' = s \<and> (\<exists>bn d. List.find (\<lambda>b. bn_id b = x) (bins s) = Some bn \<and> bn_section bn = Some ''SHIPPING_BUFFER''
    \<and> bn_destination bn = Some (dp_destination d)
    \<and> d \<in> set (outbound_dispatches s) \<and> dp_id d = y \<and> dp_status d = OutboundDispatchStatusAtGate)"
proof -
  obtain bn where bn: "List.find (\<lambda>b. bn_id b = x) (bins s) = Some bn" "bb_section b = bn_section bn"
    "bb_destination b = map_option (\<lambda>d. (de_id d, de_code d, de_name d)) (Option.bind (bn_destination bn) (destination_row s))"
    using assms(1) by (auto simp: bin_with_destination_def split: option.splits)
  obtain dest r where dest: "bb_destination b = Some dest" and r: "find_dispatch (\<lambda>d. dp_id d = y) s = Inr r" "s' = s"
    "fst dest = dp_destination (dr_dispatch r)" "dp_status (dr_dispatch r) = OutboundDispatchStatusAtGate"
    "bb_section b = Some binSectionShippingBuffer"
    using assms(2) by (auto simp: check_trip_def GetDispatchForUpdate_def svc_oks split: if_splits option.splits)
  have "bn_destination bn = Some (fst dest)"
    using dest unfolding bn(3) by (auto simp: destination_row_def split: bind_splits dest: find_Some_set)
  then show ?thesis using bn(1,2) r find_dispatch_ok [OF r(1)] by (auto simp: binSectionShippingBuffer_def)
qed

lemma UpdateDispatchDeparted_ok:
  "UpdateDispatchDeparted now y s = (Inr v, s') \<Longrightarrow> s' = s\<lparr>outbound_dispatches :=
      sql_update (\<lambda>d. dp_id d = y \<and> dp_status d = OutboundDispatchStatusAtGate)
        (\<lambda>d. d\<lparr>dp_status := OutboundDispatchStatusDeparted, dp_departed := Some now\<rparr>) (outbound_dispatches s)\<rparr>"
  by (cases s) (auto simp: UpdateDispatchDeparted_def svc_oks split: if_splits option.splits)

text \<open>One history row for each item, numbered through all parts, with the action of its part.\<close>

definition ship_row :: "call_env \<Rightarrow> uuid \<Rightarrow> uuid \<Rightarrow> timestamp \<Rightarrow> nat \<times> uuid \<times> uuid \<Rightarrow> shipping_row" where
  "ship_row E d u t = (\<lambda>(i, item, action).
     \<lparr> sp_event = fresh E i, sp_product = item, sp_dispatch = d, sp_operator = u, sp_shipped_at = t, sp_occurred = t,
       sp_action = Some action \<rparr>)"

definition part_items :: "part list \<Rightarrow> (uuid \<times> uuid) list" where
  "part_items parts = concat (map (\<lambda>p. map (\<lambda>item. (item, pt_action p)) (pt_items p)) parts)"

lemma enumerate_append: "enumerate n (xs @ ys) = enumerate n xs @ enumerate (n + length xs) ys"
  by (simp add: enumerate_append_eq)

lemma insert_part_shippings_ok:
  "insert_part_shippings E n parts d u t s = (Inr v, s') \<Longrightarrow>
   s' = s\<lparr>shippings := shippings s @ map (ship_row E d u t) (enumerate n (part_items parts))\<rparr>"
proof (induction parts arbitrary: n s)
  case Nil
  then show ?case by (cases s) (simp add: tx_return_ok part_items_def)
next
  case (Cons p parts)
  let ?evs = "map (\<lambda>(i, item). (fresh E i, item)) (enumerate n (pt_items p))"
  let ?row = "\<lambda>(eventID, productID). \<lparr> sp_event = eventID, sp_product = productID, sp_dispatch = d, sp_operator = u,
      sp_shipped_at = t, sp_occurred = t, sp_action = Some (pt_action p) \<rparr>"
  obtain s1 where s1: "BatchInsertShippings ?evs d u t (pt_action p) s = (Inr (), s1)"
    and rest: "insert_part_shippings E (n + length (pt_items p)) parts d u t s1 = (Inr v, s')"
    using Cons.prems by (auto simp: tx_seq_ok)
  have "tx_each (\<lambda>x. sql_insert shippings shippings_update sp_event (SqlConflict :: shipping_err svc_err) (?row x)) ?evs s = (Inr (), s1)"
    using s1 unfolding BatchInsertShippings_def split_def .
  then have "s1 = s\<lparr>shippings := shippings s @ map ?row ?evs\<rparr>"
    unfolding shippings.insert_each_ok by (cases s) simp
  moreover have "map ?row ?evs = map (ship_row E d u t) (enumerate n (map (\<lambda>item. (item, pt_action p)) (pt_items p)))"
    by (rule nth_equalityI) (simp_all add: ship_row_def nth_enumerate_eq)
  ultimately show ?case
    using Cons.IH [OF rest] by (simp add: part_items_def enumerate_append_eq)
qed

lemma productsForShip_items:
  assumes keys: "product_keys s" and n: "length (productsForShip b items s) = length items"
  shows "distinct items \<and> set (productsForShip b items s) = (\<lambda>p. (pr_id p, pr_order p)) ` {p \<in> set (products s). pr_id p \<in> set items}
    \<and> (\<forall>i\<in>set items. \<exists>p\<in>set (products s). pr_id p = i \<and> pr_bin p = Some b \<and> pr_status p = ProductStatusReadyToShip)"
proof (cases "items = []")
  case True
  then show ?thesis using n by auto
next
  case False
  let ?Q = "\<lambda>p. pr_bin p = Some b \<and> pr_status p = ProductStatusReadyToShip \<and> pr_id p \<in> set items"
  let ?rows = "productsForShip b items s"
  have rows: "set ?rows = (\<lambda>p. (pr_id p, pr_order p)) ` {p \<in> set (products s). ?Q p}"
    using False by (auto simp: productsForShip_def)
  have d: "distinct (map fst ?rows)"
    using keys by (simp add: productsForShip_def product_keys_def comp_def distinct_map_sort_key distinct_map_filter)
  have sub: "fst ` set ?rows \<subseteq> set items" unfolding rows by auto
  have "length items = card (fst ` set ?rows)" using distinct_card [OF d] n by simp
  also have "\<dots> \<le> card (set items)" by (rule card_mono [OF _ sub]) simp
  finally have items: "distinct items" using card_length [of items] by (simp add: card_distinct)
  have eq: "fst ` set ?rows = set items"
    using sub distinct_card [OF d] n distinct_card [OF items] by (intro card_subset_eq) simp_all
  have all: "?Q p" if p: "p \<in> set (products s)" "pr_id p \<in> set items" for p
  proof -
    obtain q where q: "q \<in> set (products s)" "?Q q" "pr_id q = pr_id p"
    proof -
      have "pr_id p \<in> fst ` set ?rows" using p(2) eq by simp
      then show ?thesis using that unfolding rows by auto
    qed
    then have "q = p" using keys p(1) distinct_keyD [of pr_id "products s" q p] by (simp add: product_keys_def)
    then show ?thesis using q by simp
  qed
  have "{p \<in> set (products s). ?Q p} = {p \<in> set (products s). pr_id p \<in> set items}" using all by auto
  moreover have "\<forall>i\<in>set items. \<exists>p\<in>set (products s). pr_id p = i \<and> ?Q p"
  proof
    fix i assume "i \<in> set items"
    then have "i \<in> fst ` set ?rows" using eq by simp
    then show "\<exists>p\<in>set (products s). pr_id p = i \<and> ?Q p" unfolding rows by auto
  qed
  ultimately show ?thesis using items rows by auto
qed

definition shipped_row :: "product \<Rightarrow> product" where
  "shipped_row p = p\<lparr>pr_status := ProductStatusShipped\<rparr>"

lemma BatchUpdateProductsShipped_ok:
  "BatchUpdateProductsShipped ids s = (Inr v, s') \<Longrightarrow>
   s' = s\<lparr>products := sql_update (\<lambda>p. pr_id p \<in> set ids) shipped_row (products s)\<rparr>"
  by (cases s) (auto simp: BatchUpdateProductsShipped_def svc_oks shipped_row_def [abs_def] sql_update_def split: if_splits)

lemma UpdateOrdersShippedConditional_ok:
  "UpdateOrdersShippedConditional ids s = (Inr v, s') \<Longrightarrow>
   s' = s\<lparr>orders := sql_update (ship_hit s ids) (ship_order s) (orders s)\<rparr>"
  using UpdateOrdersShippedConditional_run [of ids s] by simp

definition departed :: "timestamp \<Rightarrow> outbound_dispatch \<Rightarrow> outbound_dispatch" where
  "departed now d = d\<lparr>dp_status := OutboundDispatchStatusDeparted, dp_departed := Some now\<rparr>"

definition left_for :: "wms_db \<Rightarrow> uuid \<Rightarrow> product \<Rightarrow> bool" where
  "left_for s destination p \<longleftrightarrow> pr_status p = ProductStatusReadyToShip
     \<and> (\<exists>b\<in>set (bins s). pr_bin p = Some (bn_id b) \<and> bn_destination b = Some destination \<and> normal_section b = Some ''SHIPPING_BUFFER'')"

lemma CountReadyToShip_left:
  "List.find (\<lambda>b. bn_id b = x) (bins s) = Some bn \<Longrightarrow> bn_destination bn = Some d \<Longrightarrow>
   CountReadyToShipProductsInBuffer x s = sql_count (left_for s d) (products s)"
  by (simp add: CountReadyToShipProductsInBuffer_def left_for_def [abs_def])

text \<open>The statements after the locks, as changes of the tables.\<close>

lemma ship_tail:
  assumes tf: "tf = s\<lparr>products := P\<rparr>" and tg: "tg = tf\<lparr>shippings := shippings tf @ R\<rparr>"
    and th: "th = tg\<lparr>orders := sql_update (ship_hit tg ids) (ship_order tg) (orders tg)\<rparr>"
    and tj: "(if n = 0 then UpdateDispatchDeparted now d else tx_return ()) th = (Inr (), tj)"
    and w: "WriteActions now' lop pl tj = (Inr v, s')" and l: "LockOperation oid u s = (Inr lop, s)"
  shows "products s' = P" "shippings s' = shippings s @ R" "bins s' = bins s" "bins th = bins s" "products th = P"
    "orders s' = sql_update (ship_hit (s\<lparr>products := products s'\<rparr>) ids) (ship_order s') (orders s)"
    "outbound_dispatches s' = (if n = 0 then sql_update (\<lambda>x. dp_id x = d \<and> dp_status x = OutboundDispatchStatusAtGate) (departed now)
        (outbound_dispatches s) else outbound_dispatches s)"
    "outbox_events s' = outbox_events s @ map2 outbox_row (op_parts lop) pl" "queued oid u s s'"
proof -
  obtain D where D: "tj = th\<lparr>outbound_dispatches := D\<rparr>" "D = (if n = 0 then
      sql_update (\<lambda>x. dp_id x = d \<and> dp_status x = OutboundDispatchStatusAtGate) (departed now) (outbound_dispatches s)
      else outbound_dispatches s)"
    using tj UpdateDispatchDeparted_ok [of now d th "()" tj]
    by (auto simp: tx_return_ok departed_def [abs_def] th tg tf split: if_splits)
  have same: "warehouse_actions tj = warehouse_actions s" "outbox_events tj = outbox_events s"
    by (simp_all add: D th tg tf)
  note tail = submit_tail [OF w l same]
  show "products s' = P" "shippings s' = shippings s @ R" "bins s' = bins s" "bins th = bins s" "products th = P"
    and "outbound_dispatches s' = (if n = 0 then sql_update (\<lambda>x. dp_id x = d \<and> dp_status x = OutboundDispatchStatusAtGate) (departed now)
        (outbound_dispatches s) else outbound_dispatches s)"
    by (simp_all add: tail D th tg tf)
  have "ship_hit tg ids = ship_hit (s\<lparr>products := products s'\<rparr>) ids" "ship_order tg = ship_order s'"
    by (simp_all add: fun_eq_iff ship_hit_def ship_order_def shipped_status_def tail D th tg tf)
  then show "orders s' = sql_update (ship_hit (s\<lparr>products := products s'\<rparr>) ids) (ship_order s') (orders s)"
    unfolding tail(4) D(1) by (simp add: th tg tf)
  show "outbox_events s' = outbox_events s @ map2 outbox_row (op_parts lop) pl" "queued oid u s s'" by (rule tail)+
qed

lemma ship_locked_ok:
  assumes "ship_locked E u oid det op pl s = (Inr r, s')"
  shows "\<exists>lop bn d ps. List.find (\<lambda>b. bn_id b = details_shipping_bin det) (bins s) = Some bn \<and> bn_section bn = Some ''SHIPPING_BUFFER''
    \<and> bn_destination bn = Some (dp_destination d) \<and> d \<in> set (outbound_dispatches s) \<and> dp_id d = details_dispatch det
    \<and> dp_status d = OutboundDispatchStatusAtGate \<and> LockOperation oid u s = (Inr lop, s)
    \<and> ps = productsForShip (details_shipping_bin det) (op_items op) s \<and> length ps = length (op_items op)
    \<and> products s' = sql_update (\<lambda>p. pr_id p \<in> set (op_items op)) shipped_row (products s)
    \<and> shippings s' = shippings s @ map (ship_row E (details_dispatch det) u (of_unix_milli (details_ms det)))
         (enumerate 0 (part_items (op_parts lop)))
    \<and> orders s' = sql_update (ship_hit (s\<lparr>products := products s'\<rparr>) (dedup (\<lambda>x. x) {} (List.map_filter snd ps))) (ship_order s') (orders s)
    \<and> sr_departed r = (\<forall>p\<in>set (products s'). \<not> left_for s' (dp_destination d) p)
    \<and> outbound_dispatches s' = (if sr_departed r then sql_update (\<lambda>x. dp_id x = details_dispatch det \<and> dp_status x = OutboundDispatchStatusAtGate)
         (departed (clock E 0)) (outbound_dispatches s) else outbound_dispatches s)
    \<and> sr_remaining r = sql_count (left_for s' (dp_destination d)) (products s')
    \<and> sr_shipped r = length (op_items op)
    \<and> outbox_events s' = outbox_events s @ map2 outbox_row (op_parts lop) pl \<and> queued oid u s s'"
  using assms
  apply (simp (no_asm_use) only: ship_locked_def svc_oks GetBufferBinForUpdate_def LockSigner_ok tx_fail_ok
      simp_thms prod.inject case_prod_beta)
  apply (elim exE conjE)
  apply (drule LockOperation_same)
  apply (elim conjE)
  apply hypsubst_thin
  apply (drule trip_ok, assumption)
  apply (elim conjE exE)
  apply hypsubst_thin
  subgoal premises p
  proof -
    note tail = ship_tail [OF BatchUpdateProductsShipped_ok [OF p(3)] insert_part_shippings_ok [OF p(5)]
        UpdateOrdersShippedConditional_ok [OF p(8)] p(9-11)]
    have count: "CountReadyToShipProductsInBuffer (details_shipping_bin det) t = sql_count (left_for s' d) (products s')"
      if "bins t = bins s" "products t = products s'" "bn_destination bn = Some d"
        "List.find (\<lambda>b. bn_id b = details_shipping_bin det) (bins s) = Some bn" for t d bn
      using that CountReadyToShip_left [of "details_shipping_bin det" t bn d] tail(3)
      by (simp add: left_for_def [abs_def])
    note n = count [OF tail(4) tail(5) [folded tail(1)] p(14,12)]
    show ?thesis
      using p(2,11-17) tail(1,2,6,8,9) tail(7) [unfolded n] n by (fastforce simp: sql_count_zero)
  qed
  done

lemma SubmitShip_run:
  assumes "SubmitShip C E u oid as s = (Inr r, s')"
  shows "\<exists>op pl s1. (load_submission C TypeShip u oid as :: (operation \<times> string list) shipping_tx) s = (Inr (op, pl), s1)
    \<and> (\<forall>p\<in>set (op_items op). confirmed_on_chain (actionTypeByAggregate AggregatePicking) p s1)
    \<and> ship_locked E u oid (op_details op) op pl s1 = (Inr r, s')"
proof -
  have picked: "confirmed_picking ids s1 = (Inr v, s2) \<longleftrightarrow>
      s2 = s1 \<and> (\<forall>p\<in>set ids. confirmed_on_chain (actionTypeByAggregate AggregatePicking) p s1)" for ids v s1 s2
    unfolding confirmed_picking_def tx_query_ok UnconfirmedProducts_Nil [symmetric] by (auto split: list.splits)
  show ?thesis using assms unfolding SubmitShip_def svc_oks split_paired_Ex prod.case picked by blast
qed

definition submit_ship ::
  "config \<times> call_env \<times> (uuid \<times> assertion) list \<Rightarrow> uuid \<Rightarrow> uuid \<Rightarrow> ship_response shipping_tx" where
  "submit_ship = (\<lambda>(C, E, as) u oid. SubmitShip C E u oid as)"

interpretation ship_once: lock_once submit_ship Ops
proof
  fix x u oid s a s' assume run: "submit_ship x u oid s = (Inr a, s')"
  obtain C E as where x: "x = (C, E, as)" by (cases x)
  obtain op pl s1 where l: "(load_submission C TypeShip u oid as :: (operation \<times> string list) shipping_tx) s = (Inr (op, pl), s1)"
    and p: "ship_locked E u oid (op_details op) op pl s1 = (Inr a, s')"
    using run SubmitShip_run unfolding submit_ship_def x by force
  have "queued oid u s1 s'" using ship_locked_ok [OF p] by blast
  then show "queued oid u s s'" by (rule queued_keys_only [OF submit_head(1) [OF l]])
next
  fix x u oid s e s' assume "submit_ship x u oid s = (Inl e, s')"
  then show "keys_only s s'"
    unfolding submit_ship_def by (cases x) (auto intro: tx_atomicD [OF ship_atomic(2)])
next
  fix oid u s x assume "submitted_op oid u s"
  then show "submit_ship x u oid s \<in> {(Inl (Ops ErrOperationNotFound), s), (Inl (Ops ErrOperationSubmitted), s)}"
    unfolding submit_ship_def SubmitShip_def by (cases x) (simp only: prod.case load_submission_refuses)
qed

lemma ship_hit_ready:
  assumes keys: "distinct (map or_id (orders s))" and ids: "set ids = {x. \<exists>p\<in>set (products s). pr_id p \<in> set items \<and> pr_order p = Some x}"
    and P: "P = sql_update (\<lambda>p. pr_id p \<in> set items) shipped_row (products s)" and q: "q \<in> set (orders s)"
  shows "ship_hit (s\<lparr>products := P\<rparr>) ids q \<longleftrightarrow> ship_candidate (or_status q)
     \<and> (\<exists>p\<in>set (products s). pr_id p \<in> set items \<and> pr_order p = Some (or_id q))"
proof -
  have "(\<exists>p\<in>set P. pr_order p = Some (or_id q) \<and> pr_status p = ProductStatusShipped)"
    if ex: "\<exists>p\<in>set (products s). pr_id p \<in> set items \<and> pr_order p = Some (or_id q)"
  proof -
    obtain p where "p \<in> set (products s)" "pr_id p \<in> set items" "pr_order p = Some (or_id q)" using ex by blast
    then have "shipped_row p \<in> set P" "pr_order (shipped_row p) = Some (or_id q)" "pr_status (shipped_row p) = ProductStatusShipped"
      unfolding P set_sql_update by (auto simp: shipped_row_def)
    then show ?thesis by blast
  qed
  moreover have "(\<exists>r\<in>set (orders s). or_id r = or_id q \<and> ship_candidate (or_status r)) \<longleftrightarrow> ship_candidate (or_status q)"
    using q distinct_keyD [OF keys _ q] by auto
  ultimately show ?thesis unfolding ship_hit_def ids using q by auto
qed

text \<open>C17: a successful shipping ships exactly what was signed. The buffer serves the destination of
  the trip, which stands at the gate; every signed product was ready to ship in that buffer, its
  picking is committed on the chain, and the operation lists none twice; they, and no other product,
  become SHIPPED, with one history row each that names the signed action. Of the orders of these
  products those that were allocated, assembled or partially shipped become SHIPPED when all of
  their products are and PARTIALLY_SHIPPED otherwise. The trip departs exactly when no product is
  left ready to ship for its destination.\<close>

theorem SubmitShip_effect:
  assumes ok: "SubmitShip C E u oid as s = (Inr r, s')"
    and wf: "ops_wf s" and keys: "product_keys s" "distinct (map or_id (orders s))"
  shows "\<exists>op pl b d t. signed_op C TypeShip u oid as s op pl
    \<and> b \<in> set (bins s) \<and> bn_id b = details_shipping_bin (op_details op) \<and> bn_section b = Some ''SHIPPING_BUFFER''
    \<and> d \<in> set (outbound_dispatches s) \<and> dp_id d = details_dispatch (op_details op)
    \<and> dp_status d = OutboundDispatchStatusAtGate \<and> bn_destination b = Some (dp_destination d)
    \<and> distinct (op_items op) \<and> sr_shipped r = length (op_items op)
    \<and> (\<forall>i\<in>set (op_items op). confirmed_on_chain TypePick i s
         \<and> (\<exists>p\<in>set (products s). pr_id p = i \<and> pr_bin p = Some (bn_id b) \<and> pr_status p = ProductStatusReadyToShip))
    \<and> products s' = map (\<lambda>p. if pr_id p \<in> set (op_items op) then shipped_row p else p) (products s)
    \<and> shippings s' = shippings s @ map (ship_row E (dp_id d) u t) (enumerate 0 (part_items (op_parts op)))
    \<and> orders s' = map (\<lambda>q. if ship_candidate (or_status q)
            \<and> (\<exists>p\<in>set (products s). pr_id p \<in> set (op_items op) \<and> pr_order p = Some (or_id q))
         then ship_order s' q else q) (orders s)
    \<and> sr_departed r = (\<forall>p\<in>set (products s'). \<not> left_for s' (dp_destination d) p)
    \<and> outbound_dispatches s' = map (\<lambda>x. if sr_departed r \<and> dp_id x = dp_id d \<and> dp_status x = OutboundDispatchStatusAtGate
         then departed (clock E 0) x else x) (outbound_dispatches s)
    \<and> outbox_events s' = outbox_events s @ map2 outbox_row (op_parts op) pl"
proof -
  obtain op pl s1 where l: "(load_submission C TypeShip u oid as :: (operation \<times> string list) shipping_tx) s = (Inr (op, pl), s1)"
    and c: "\<forall>p\<in>set (op_items op). confirmed_on_chain (actionTypeByAggregate AggregatePicking) p s1"
    and p: "ship_locked E u oid (op_details op) op pl s1 = (Inr r, s')"
    using SubmitShip_run [OF ok] by blast
  note k = keys_only_tables [OF submit_head(1) [OF l]]
  let ?x = "details_shipping_bin (op_details op)" and ?items = "set (op_items op)"
  obtain lop b d ps where b: "List.find (\<lambda>b. bn_id b = ?x) (bins s1) = Some b" "bn_section b = Some ''SHIPPING_BUFFER''"
      "bn_destination b = Some (dp_destination d)" "d \<in> set (outbound_dispatches s1)" "dp_id d = details_dispatch (op_details op)"
      "dp_status d = OutboundDispatchStatusAtGate"
    and lop: "LockOperation oid u s1 = (Inr lop, s1)"
    and ps: "ps = productsForShip ?x (op_items op) s1" "length ps = length (op_items op)"
    and P: "products s' = sql_update (\<lambda>p. pr_id p \<in> ?items) shipped_row (products s1)"
    and R: "shippings s' = shippings s1 @ map (ship_row E (details_dispatch (op_details op)) u (of_unix_milli (details_ms (op_details op))))
         (enumerate 0 (part_items (op_parts lop)))"
    and Q: "orders s' = sql_update (ship_hit (s1\<lparr>products := products s'\<rparr>) (dedup (\<lambda>x. x) {} (List.map_filter snd ps))) (ship_order s') (orders s1)"
    and dep: "sr_departed r = (\<forall>p\<in>set (products s'). \<not> left_for s' (dp_destination d) p)"
    and D: "outbound_dispatches s' = (if sr_departed r then sql_update (\<lambda>x. dp_id x = details_dispatch (op_details op) \<and> dp_status x = OutboundDispatchStatusAtGate)
         (departed (clock E 0)) (outbound_dispatches s1) else outbound_dispatches s1)"
    and n: "sr_shipped r = length (op_items op)" and ob: "outbox_events s' = outbox_events s1 @ map2 outbox_row (op_parts lop) pl"
    using ship_locked_ok [OF p] by blast
  have keys1: "product_keys s1" "distinct (map or_id (orders s1))" using keys by (simp_all add: product_keys_def k)
  note items = productsForShip_items [OF keys1(1) ps(2) [unfolded ps(1)]]
  have ids: "set (dedup (\<lambda>x. x) {} (List.map_filter snd ps))
      = {x. \<exists>p\<in>set (products s1). pr_id p \<in> ?items \<and> pr_order p = Some x}"
    using items unfolding ps(1) [symmetric] by (auto simp: set_dedup_id in_map_filter)
  have lop': "lop = op" using lop submit_head(4) [OF l wf] by simp
  have orders: "orders s' = map (\<lambda>q. if ship_candidate (or_status q)
            \<and> (\<exists>p\<in>set (products s). pr_id p \<in> ?items \<and> pr_order p = Some (or_id q))
         then ship_order s' q else q) (orders s)"
    unfolding Q sql_update_def k using ship_hit_ready [OF keys1(2) ids P]
    by (intro map_cong) (auto simp: k)
  have conf: "confirmed_on_chain TypePick i s" if "i \<in> ?items" for i
    using c that by (simp add: confirmed_on_chain_def k onchain_row_def actionTypeByAggregate_def aggregates TypePick_def)
  have bs: "b \<in> set (bins s)" "bn_id b = ?x" using find_Some_set [OF b(1)] k by auto
  have ready: "\<exists>p\<in>set (products s). pr_id p = i \<and> pr_bin p = Some (bn_id b) \<and> pr_status p = ProductStatusReadyToShip"
    if "i \<in> ?items" for i using items that unfolding k bs(2) by blast
  have D': "outbound_dispatches s' = map (\<lambda>x. if sr_departed r \<and> dp_id x = dp_id d \<and> dp_status x = OutboundDispatchStatusAtGate
         then departed (clock E 0) x else x) (outbound_dispatches s)"
    unfolding D b(5) by (simp add: sql_update_def k)
  have items': "distinct (op_items op)" using items by simp
  note tables = R [unfolded lop' k b(5) [symmetric]] P [unfolded k sql_update_def] ob [unfolded lop' k] b(4) [unfolded k]
  show ?thesis
    by (rule exI [of _ op], rule exI [of _ pl], rule exI [of _ b], rule exI [of _ d],
        rule exI [of _ "of_unix_milli (details_ms (op_details op))"], intro conjI ballI)
      (rule submit_head(3) [OF l] bs b(2,3,5,6) dep n D' orders items' tables conf ready | assumption)+
qed

text \<open>The picking of the product was signed in another operation and is committed.\<close>

definition demo_picked :: "wms_db \<Rightarrow> wms_db" where
  "demo_picked s = s
     \<lparr> warehouse_actions := \<lparr> wa_id = 66, wa_operation = 63, wa_part = 0, wa_type = TypePick, wa_signer = [1],
         wa_created_by = 2, wa_items = [41], wa_salt = 1, wa_details_hash = 2, wa_challenge = 9,
         wa_details = PickDetails 61 20, wa_submitted = Some 1 \<rparr> # warehouse_actions s,
       onchain_events := [\<lparr> oe_event = 66, oe_aggregate = ''picking'', oe_tx = None, oe_status = OnchainCommitted,
         oe_reject = None, oe_error = None, oe_updated = 2 \<rparr>] \<rparr>"

definition demo_ship_db :: wms_db where
  "demo_ship_db = demo_picked (demo_signed TypeShip [41] (ShipDetails 95 61 21) (empty_db
     \<lparr> orders := [\<lparr> or_id = 71, or_external_no = ''n'', or_customer = 5, or_warehouse = 1, or_destination = 80,
          or_status = OrderStatusAssembled, or_created = 1 \<rparr>],
       bins := [\<lparr> bn_id = 61, bn_warehouse = 1, bn_code = ''G'', bn_section = Some ''SHIPPING_BUFFER'', bn_destination = Some 80, bn_volume = None \<rparr>],
       destinations := [\<lparr> de_id = 80, de_code = ''D'', de_name = ''Shop'', de_address = None, de_warehouse = 1 \<rparr>],
       outbound_dispatches := [\<lparr> dp_id = 95, dp_code = ''T'', dp_warehouse = 1, dp_destination = 80, dp_vehicle = ''v'', dp_driver = ''d'',
          dp_phone = None, dp_status = OutboundDispatchStatusAtGate, dp_scheduled = 0, dp_arrived = Some 1, dp_departed = None, dp_created = 0 \<rparr>],
       products := [\<lparr> pr_id = 41, pr_sku = 30, pr_shipment = 10, pr_cargoplace = 11, pr_box = Some 20, pr_qr = ''q'',
          pr_bin = Some 61, pr_order = Some 71, pr_status = ProductStatusReadyToShip, pr_created = 0 \<rparr>] \<rparr>))"

lemma demo_picked_lock [simp]: "LockOperation 64 u (demo_picked s) = (fst (LockOperation 64 u s), demo_picked s)"
  by (simp add: LockOperation_def tx_simps operation_rows_def demo_picked_def)

lemma demo_picked_load: "load_operation 64 (demo_picked s) = (fst (load_operation 64 s), demo_picked s)"
  by (simp add: load_operation_def tx_simps operation_rows_def demo_picked_def)

lemma demo_ship_load [simp]:
  "load_submission demo_config TypeShip 2 64 [(65, demo_assertion)] demo_ship_db
     = (Inr (demo_op TypeShip [41] (ShipDetails 95 61 21), [uuid_string demo_crypto 65]), demo_ship_db)"
  unfolding demo_ship_db_def by (rule demo_loads) (simp_all add: demo_picked_load demo_load_operation, simp add: demo_picked_def)

lemma demo_ship_lock [simp]:
  "LockOperation 64 2 demo_ship_db = (Inr (demo_op TypeShip [41] (ShipDetails 95 61 21)), demo_ship_db)"
  by (simp add: demo_ship_db_def)

lemma demo_ship_tables [simp]:
  "passkey_credentials demo_ship_db = [demo_passkey]" "key_actions demo_ship_db = []" "outbox_events demo_ship_db = []"
  "shippings demo_ship_db = []"
  "orders demo_ship_db = [\<lparr> or_id = 71, or_external_no = ''n'', or_customer = 5, or_warehouse = 1, or_destination = 80,
     or_status = OrderStatusAssembled, or_created = 1 \<rparr>]"
  "bins demo_ship_db = [\<lparr> bn_id = 61, bn_warehouse = 1, bn_code = ''G'', bn_section = Some ''SHIPPING_BUFFER'', bn_destination = Some 80, bn_volume = None \<rparr>]"
  "destinations demo_ship_db = [\<lparr> de_id = 80, de_code = ''D'', de_name = ''Shop'', de_address = None, de_warehouse = 1 \<rparr>]"
  "outbound_dispatches demo_ship_db = [\<lparr> dp_id = 95, dp_code = ''T'', dp_warehouse = 1, dp_destination = 80, dp_vehicle = ''v'', dp_driver = ''d'',
     dp_phone = None, dp_status = OutboundDispatchStatusAtGate, dp_scheduled = 0, dp_arrived = Some 1, dp_departed = None, dp_created = 0 \<rparr>]"
  "products demo_ship_db = [\<lparr> pr_id = 41, pr_sku = 30, pr_shipment = 10, pr_cargoplace = 11, pr_box = Some 20, pr_qr = ''q'',
     pr_bin = Some 61, pr_order = Some 71, pr_status = ProductStatusReadyToShip, pr_created = 0 \<rparr>]"
  by (simp_all add: demo_ship_db_def demo_picked_def empty_db_def)

lemma demo_ship_wf: "ops_wf demo_ship_db"
  by (simp add: demo_ship_db_def ops_wf_def demo_signed_def demo_picked_def empty_db_def)

lemma demo_ship_picked: "UnconfirmedProducts [41] AggregatePicking demo_ship_db = []"
  unfolding UnconfirmedProducts_Nil
  by (simp add: confirmed_on_chain_def onchain_row_def actionTypeByAggregate_def aggregates demo_ship_db_def demo_picked_def TypePick_def)

theorem SubmitShip_effect_witness:
  "\<exists>r s'. SubmitShip demo_config demo_env 2 64 [(65, demo_assertion)] demo_ship_db = (Inr r, s') \<and> sr_departed r
     \<and> (\<forall>p\<in>set (products s'). pr_status p = ProductStatusShipped) \<and> (\<forall>q\<in>set (orders s'). or_status q = OrderStatusShipped)
     \<and> (\<forall>d\<in>set (outbound_dispatches s'). dp_status d = OutboundDispatchStatusDeparted)"
proof -
  have "\<not> isl (fst (SubmitShip demo_config demo_env 2 64 [(65, demo_assertion)] demo_ship_db))"
    by (simp add: SubmitShip_def confirmed_picking_def demo_ship_picked ship_locked_def tx_simps ops_tx_def Let_def
      GetBufferBinForUpdate_def bin_with_destination_def destination_row_def check_trip_def binSectionShippingBuffer_def
      GetDispatchForUpdate_def find_dispatch_def dispatch_join_def productsForShip_def demo_signer demo_write
      BatchUpdateProductsShipped_def sql_count_def sql_update_def BatchInsertShippings_def demo_part_def demo_env_def
      UpdateOrdersShippedConditional_def List.map_filter_simps CountReadyToShipProductsInBuffer_def
      UpdateDispatchDeparted_def ship_candidate_def)
  then obtain r s' where run: "SubmitShip demo_config demo_env 2 64 [(65, demo_assertion)] demo_ship_db = (Inr r, s')"
    using run_ok by blast
  have keys: "product_keys demo_ship_db" "distinct (map or_id (orders demo_ship_db))" by (simp_all add: product_keys_def)
  have items: "op_items op = [41] \<and> op_details op = ShipDetails 95 61 21"
    if "signed_op demo_config TypeShip 2 64 as demo_ship_db op pl" for op as pl
    using that unfolding signed_op_def demo_ship_db_def demo_picked_load demo_load_operation by auto
  obtain op pl b d where so: "signed_op demo_config TypeShip 2 64 [(65, demo_assertion)] demo_ship_db op pl"
    and d: "d \<in> set (outbound_dispatches demo_ship_db)"
    and P: "products s' = map (\<lambda>p. if pr_id p \<in> set (op_items op) then shipped_row p else p) (products demo_ship_db)"
    and Q: "orders s' = map (\<lambda>q. if ship_candidate (or_status q)
            \<and> (\<exists>p\<in>set (products demo_ship_db). pr_id p \<in> set (op_items op) \<and> pr_order p = Some (or_id q))
         then ship_order s' q else q) (orders demo_ship_db)"
    and dep: "sr_departed r = (\<forall>p\<in>set (products s'). \<not> left_for s' (dp_destination d) p)"
    and D: "outbound_dispatches s' = map (\<lambda>x. if sr_departed r \<and> dp_id x = dp_id d \<and> dp_status x = OutboundDispatchStatusAtGate
         then departed (clock demo_env 0) x else x) (outbound_dispatches demo_ship_db)"
    using SubmitShip_effect [OF run demo_ship_wf keys] by blast
  have shipped: "\<forall>p\<in>set (products s'). pr_status p = ProductStatusShipped"
    unfolding P using items [OF so] by (simp add: shipped_row_def)
  moreover from this have gone: "sr_departed r" unfolding dep by (simp add: left_for_def)
  moreover have "\<forall>q\<in>set (orders s'). or_status q = OrderStatusShipped"
    unfolding Q using items [OF so] shipped by (simp add: ship_order_def shipped_status_def ship_candidate_def)
  moreover have "\<forall>x\<in>set (outbound_dispatches s'). dp_status x = OutboundDispatchStatusDeparted"
    unfolding D using d gone by (simp add: departed_def)
  ultimately show ?thesis using run by blast
qed

text \<open>The batch update is safe because what it ships has been locked as ready.\<close>

lemma ship_products_forward: "tx_rel products_forward (SubmitShip C E u oid as)"
proof -
  have "products_forward s s'" if ok: "ship_locked E u oid det op pl s = (Inr r, s')" for det op pl s r s'
  proof -
    obtain ps where P: "products s' = sql_update (\<lambda>p. pr_id p \<in> set (op_items op)) shipped_row (products s)"
      and ps: "length (productsForShip (details_shipping_bin det) (op_items op) s) = length (op_items op)"
      using ship_locked_ok [OF ok] by blast
    have "product_step p (shipped_row p)"
      if k: "product_keys s" and p: "p \<in> set (products s)" "pr_id p \<in> set (op_items op)" for p
    proof -
      obtain q where "q \<in> set (products s)" "pr_id q = pr_id p" "pr_status q = ProductStatusReadyToShip"
        using productsForShip_items [OF k ps] p(2) by blast
      moreover from this have "q = p" using k p distinct_keyD [of pr_id "products s" q p] by (simp add: product_keys_def)
      ultimately show ?thesis by (simp add: product_step_def shipped_row_def)
    qed
    then have "products_forward s (products_update (sql_update (\<lambda>p. pr_id p \<in> set (op_items op)) shipped_row) s)"
      by (rule products_forward_update)
    then show ?thesis unfolding products_forward_def product_keys_def by (simp add: P)
  qed
  then show ?thesis
    unfolding SubmitShip_def split_def by (intro tx_rules prodf.rel_WithTx_ok prod_reads)
qed

section \<open>The scan of a driver\<close>

lemma find_dispatch_error: "find_dispatch P s = Inl e \<Longrightarrow> e = Svc ErrDispatchNotFound"
  by (auto simp: find_dispatch_def split: option.splits)

lemma ScanDriver_run:
  "ScanDriver E u c s =
     (if u = uuid_Nil \<or> c = [] then (Inl (Svc ShippingInvalidInput), s)
      else case find_dispatch (\<lambda>d. dp_code d = c \<and> dp_status d = OutboundDispatchStatusScheduled) s of
        Inr r \<Rightarrow> (Inr (r\<lparr>dr_dispatch := (dr_dispatch r)\<lparr>dp_status := OutboundDispatchStatusAtGate, dp_arrived := Some (clock E 0)\<rparr>\<rparr>),
          s\<lparr>outbound_dispatches := sql_update (\<lambda>d. dp_code d = c \<and> dp_status d = OutboundDispatchStatusScheduled)
              (\<lambda>d. d\<lparr>dp_status := OutboundDispatchStatusAtGate, dp_arrived := Some (clock E 0)\<rparr>) (outbound_dispatches s)\<rparr>)
      | Inl _ \<Rightarrow> (case find_dispatch (\<lambda>d. dp_code d = c) s of Inl e \<Rightarrow> Inl e
          | Inr r \<Rightarrow> (case dp_status (dr_dispatch r) of
              OutboundDispatchStatusDeparted \<Rightarrow> Inl (Svc ErrDispatchAlreadyDeparted)
            | OutboundDispatchStatusCancelled \<Rightarrow> Inl (Svc ErrDispatchCancelled)
            | OutboundDispatchStatusAtGate \<Rightarrow> Inr r
            | OutboundDispatchStatusScheduled \<Rightarrow> Inl (Svc ShippingInvalidInput)), s))"
  by (auto simp: ScanDriver_def UpdateDispatchToAtGate_run GetDispatchByCode_def tx_simps dest: find_dispatch_error
      split: sum.splits dispatch_status.splits)

text \<open>Scanning a trip at the gate is idempotent. After a successful scan the trip is AT_GATE,
  nothing but that trip has changed, and any later scan, by anyone at any time, answers the same,
  the first arrival time included, and changes nothing.\<close>

theorem ScanDriver_idempotent:
  assumes ok: "ScanDriver E u c s = (Inr r, s')" and keys: "distinct (map dp_code (outbound_dispatches s))"
    and v: "v \<noteq> uuid_Nil"
  shows "dp_status (dr_dispatch r) = OutboundDispatchStatusAtGate \<and> dp_code (dr_dispatch r) = c
    \<and> dr_dispatch r \<in> set (outbound_dispatches s')
    \<and> (\<exists>D. s' = s\<lparr>outbound_dispatches := D\<rparr> \<and> filter (\<lambda>d. dp_code d \<noteq> c) D = filter (\<lambda>d. dp_code d \<noteq> c) (outbound_dispatches s))
    \<and> ScanDriver E' v c s' = (Inr r, s')"
proof -
  let ?P = "\<lambda>d. dp_code d = c \<and> dp_status d = OutboundDispatchStatusScheduled"
  let ?f = "\<lambda>d. d\<lparr>dp_status := OutboundDispatchStatusAtGate, dp_arrived := Some (clock E 0)\<rparr>"
  let ?D = "sql_update ?P ?f (outbound_dispatches s)"
  have c: "c \<noteq> []" using ok by (auto simp: ScanDriver_run split: if_splits)
  show ?thesis
  proof (cases "find_dispatch ?P s")
    case (Inl e)
    then have "find_dispatch (\<lambda>d. dp_code d = c) s = Inr r" "dp_status (dr_dispatch r) = OutboundDispatchStatusAtGate" "s' = s"
      using ok by (auto simp: ScanDriver_run split: if_splits sum.splits dispatch_status.splits)
    moreover from this have "ScanDriver E' v c s = (Inr r, s)" using Inl v c by (simp add: ScanDriver_run)
    ultimately show ?thesis
      using find_dispatch_ok [of "\<lambda>d. dp_code d = c" s r] by (auto intro: exI [of _ "outbound_dispatches s"])
  next
    case (Inr x)
    let ?d = "dr_dispatch x"
    have d: "?d \<in> set (outbound_dispatches s)" "?P ?d" using find_dispatch_ok [OF Inr] by auto
    have s': "s' = s\<lparr>outbound_dispatches := ?D\<rparr>" "r = x\<lparr>dr_dispatch := ?f ?d\<rparr>"
      using ok Inr by (auto simp: ScanDriver_run split: if_splits)
    have "map dp_code ?D = map dp_code (outbound_dispatches s)" by (auto simp: sql_update_def)
    then have D: "distinct (map dp_code ?D)" using keys by simp
    have fd: "?f ?d \<in> set ?D" using d by (auto simp: set_sql_update)
    have only: "e = ?d" if "e \<in> set (outbound_dispatches s)" "dp_code e = c" for e
      using distinct_keyD [OF keys that(1) d(1)] that(2) d(2) by simp
    have "\<forall>e\<in>set ?D. \<not> ?P e" using only d(2) by (auto simp: set_sql_update)
    then have "List.find ?P ?D = None" by (simp add: find_None_iff)
    moreover have "List.find (\<lambda>d. dp_code d = c) ?D = Some (?f ?d)" using find_key [OF D fd] d(2) by simp
    moreover have "dispatch_join s' (?f ?d) = Some r"
    proof -
      obtain de where "destination_row s (dp_destination ?d) = Some de" "dr_code x = de_code de" "dr_name x = de_name de"
        using Inr by (auto simp: find_dispatch_def dispatch_join_def split: option.splits bind_splits)
      then show ?thesis unfolding s' by (cases x) (simp add: dispatch_join_def destination_row_def)
    qed
    ultimately have again: "ScanDriver E' v c s' = (Inr r, s')"
      using v c unfolding ScanDriver_run find_dispatch_def by (simp add: s')
    have "filter (\<lambda>d. dp_code d \<noteq> c) ?D = filter (\<lambda>d. dp_code d \<noteq> c) (outbound_dispatches s)"
      unfolding sql_update_def filter_map comp_def by (rule map_idI [THEN trans]) (auto intro: filter_cong)
    then show ?thesis using s' fd d(2) again by auto
  qed
qed

definition demo_driver_db :: wms_db where
  "demo_driver_db = demo_ship_db\<lparr>outbound_dispatches := map (\<lambda>d. d\<lparr>dp_status := OutboundDispatchStatusScheduled, dp_arrived := None\<rparr>)
     (outbound_dispatches demo_ship_db)\<rparr>"

theorem ScanDriver_idempotent_witness:
  "\<exists>r s'. ScanDriver demo_env 2 ''T'' demo_driver_db = (Inr r, s') \<and> s' \<noteq> demo_driver_db
     \<and> ScanDriver demo_env 3 ''T'' s' = (Inr r, s')"
proof -
  obtain r s' where run: "ScanDriver demo_env 2 ''T'' demo_driver_db = (Inr r, s')"
    by (simp add: ScanDriver_run find_dispatch_def dispatch_join_def destination_row_def demo_driver_db_def)
  have "dr_dispatch r \<in> set (outbound_dispatches s')" "dp_status (dr_dispatch r) = OutboundDispatchStatusAtGate"
    and again: "ScanDriver demo_env 3 ''T'' s' = (Inr r, s')"
    using ScanDriver_idempotent [OF run, of 3 demo_env] by (simp_all add: demo_driver_db_def)
  then have "s' \<noteq> demo_driver_db" by (auto simp: demo_driver_db_def)
  then show ?thesis using run again by blast
qed

end
