(* ===== verification/AdapterMessage.thy ===== *)
theory AdapterMessage
  imports Passkeys
begin

text \<open>
  \<^verbatim>\<open>ledger-adapter/internal/consumer/message.go\<close> and the contract-side types of
  \<^verbatim>\<open>internal/chain\<close>: a Kafka message carries a signed action as a JSON string; \<open>Parse\<close>
  turns it into the tuple of the contract call. The JSON decoder and the UUID parser
  are the parameter record \<open>codec\<close>; a parse error keeps what it is about, without the
  quoting of the Go message.
\<close>

section \<open>The tuples of the contracts\<close>

record webauthn_auth =
  wb_r :: bytes32
  wb_s :: bytes32
  wb_challenge_index :: int
  wb_type_index :: int
  wb_authenticator_data :: bytes
  wb_client_data_json :: string

record chain_warehouse_action =
  wx_action :: uuid
  wx_type :: byte
  wx_items :: "bytes32 list"
  wx_details_hash :: bytes32
  wx_key :: bytes32
  wx_auth :: webauthn_auth

record chain_key_action =
  kx_action :: uuid
  kx_type :: byte
  kx_qx :: bytes32
  kx_qy :: bytes32
  kx_signer :: bytes32
  kx_auth :: webauthn_auth

text \<open>Exactly one of the two pointers of a Go message is set.\<close>

datatype signed_payload = WarehousePayload chain_warehouse_action | KeyPayload chain_key_action

record kafka_message =
  km_topic :: string
  km_partition :: nat
  km_offset :: nat
  km_key :: string
  km_value :: string
  km_headers :: "(string \<times> string) list"

record adapter_message =
  am_event :: uuid
  am_payload :: signed_payload
  am_kafka :: kafka_message

definition UUIDToUint256 :: "crypto \<Rightarrow> string \<Rightarrow> bytes32" where
  "UUIDToUint256 X s = keccak X (string_bytes s)"

section \<open>The envelope\<close>

record ActionEnvelope =
  nv_version :: int
  nv_action_id :: string
  nv_action_type :: byte
  nv_item_ids :: "string list"
  nv_details_hash :: string
  nv_subject_key :: "(string \<times> string) option"
  nv_key_id :: string
  nv_webauthn :: envelope_webauthn

record codec =
  cc_uuid :: "string \<Rightarrow> uuid option"
  cc_json_string :: "string \<Rightarrow> string option"
  cc_json_envelope :: "string \<Rightarrow> ActionEnvelope option"

datatype parse_err =
    MissingIdHeader | BadEventID string | MissingAggregateType | UnknownAggregateType string
  | KeyIsNotId string string | ValueNotAString | BadEnvelope | UnsupportedVersion int
  | ActionIdIsNotId string string | MissingSubjectKey | NotHexPrefixed string | BadHex string
  | WrongLength string nat | BadItemId nat | UnsupportedActionType byte

definition aggregateSignedAction :: string where
  "aggregateSignedAction = ''signed_action''"

definition headerValue :: "(string \<times> string) list \<Rightarrow> string \<Rightarrow> string" where
  "headerValue headers key =
     (case List.find (\<lambda>h. fst h = key) headers of None \<Rightarrow> '''' | Some h \<Rightarrow> snd h)"

definition decodeHex :: "string \<Rightarrow> string \<Rightarrow> parse_err + bytes" where
  "decodeHex field s =
     (if \<not> has_prefix ''0x'' s then Inl (NotHexPrefixed field)
      else case hex_decode (drop 2 s) of None \<Rightarrow> Inl (BadHex field) | Some b \<Rightarrow> Inr b)"

definition decodeHex32 :: "string \<Rightarrow> string \<Rightarrow> parse_err + bytes32" where
  "decodeHex32 field s =
     (case decodeHex field s of Inl e \<Rightarrow> Inl e
      | Inr b \<Rightarrow> if length b \<noteq> 32 then Inl (WrongLength field (length b)) else Inr (bytes_word32 b))"

definition authOf :: "ActionEnvelope \<Rightarrow> parse_err + bytes32 \<times> webauthn_auth" where
  "authOf env =
     (case decodeHex32 ''keyId'' (nv_key_id env) of Inl e \<Rightarrow> Inl e | Inr keyID \<Rightarrow>
     (case decodeHex32 ''webauthn.r'' (ew_r (nv_webauthn env)) of Inl e \<Rightarrow> Inl e | Inr r \<Rightarrow>
     (case decodeHex32 ''webauthn.s'' (ew_s (nv_webauthn env)) of Inl e \<Rightarrow> Inl e | Inr s \<Rightarrow>
     (case decodeHex ''webauthn.authenticatorData'' (ew_authenticator_data (nv_webauthn env)) of Inl e \<Rightarrow> Inl e | Inr authData \<Rightarrow>
        Inr (keyID, \<lparr> wb_r = r, wb_s = s, wb_challenge_index = ew_challenge_index (nv_webauthn env),
          wb_type_index = ew_type_index (nv_webauthn env), wb_authenticator_data = authData,
          wb_client_data_json = ew_client_data_json (nv_webauthn env) \<rparr>)))))"

definition toKeyAction :: "ActionEnvelope \<Rightarrow> string \<times> string \<Rightarrow> uuid \<Rightarrow> parse_err + chain_key_action" where
  "toKeyAction env subject i =
     (case decodeHex32 ''subjectKey.qx'' (fst subject) of Inl e \<Rightarrow> Inl e | Inr qx \<Rightarrow>
     (case decodeHex32 ''subjectKey.qy'' (snd subject) of Inl e \<Rightarrow> Inl e | Inr qy \<Rightarrow>
     (case authOf env of Inl e \<Rightarrow> Inl e | Inr (keyID, auth) \<Rightarrow>
        Inr \<lparr> kx_action = i, kx_type = nv_action_type env, kx_qx = qx, kx_qy = qy, kx_signer = keyID, kx_auth = auth \<rparr>)))"

text \<open>The loop over the item ids; the item goes to the contract as the hash of its text.\<close>

primrec item_ids :: "crypto \<Rightarrow> codec \<Rightarrow> nat \<Rightarrow> string list \<Rightarrow> parse_err + bytes32 list" where
  "item_ids X K i [] = Inr []"
| "item_ids X K i (s # ss) =
     (case cc_uuid K s of None \<Rightarrow> Inl (BadItemId i)
      | Some itemID \<Rightarrow> (case item_ids X K (i + 1) ss of Inl e \<Rightarrow> Inl e
          | Inr rest \<Rightarrow> Inr (UUIDToUint256 X (uuid_string X itemID) # rest)))"

definition toWarehouseAction :: "crypto \<Rightarrow> codec \<Rightarrow> ActionEnvelope \<Rightarrow> uuid \<Rightarrow> parse_err + chain_warehouse_action" where
  "toWarehouseAction X K env i =
     (case decodeHex32 ''detailsHash'' (nv_details_hash env) of Inl e \<Rightarrow> Inl e | Inr detailsHash \<Rightarrow>
     (case authOf env of Inl e \<Rightarrow> Inl e | Inr (keyID, auth) \<Rightarrow>
     (case item_ids X K 0 (nv_item_ids env) of Inl e \<Rightarrow> Inl e | Inr itemIds \<Rightarrow>
        Inr \<lparr> wx_action = i, wx_type = nv_action_type env, wx_items = itemIds, wx_details_hash = detailsHash,
              wx_key = keyID, wx_auth = auth \<rparr>)))"

definition parseSignedAction ::
  "crypto \<Rightarrow> codec \<Rightarrow> kafka_message \<Rightarrow> uuid \<Rightarrow> string \<Rightarrow> parse_err + adapter_message" where
  "parseSignedAction X K m eventID eventIDStr =
     (if km_key m \<noteq> eventIDStr then Inl (KeyIsNotId (km_key m) eventIDStr)
      else case cc_json_string K (km_value m) of None \<Rightarrow> Inl ValueNotAString
      | Some raw \<Rightarrow> (case cc_json_envelope K raw of None \<Rightarrow> Inl BadEnvelope
      | Some env \<Rightarrow>
        if nv_version env \<noteq> 1 then Inl (UnsupportedVersion (nv_version env))
        else if nv_action_id env \<noteq> eventIDStr then Inl (ActionIdIsNotId (nv_action_id env) eventIDStr)
        else if nv_action_type env = TypeKeyRegister \<or> nv_action_type env = TypeKeyRevoke then
          (case nv_subject_key env of None \<Rightarrow> Inl MissingSubjectKey
           | Some subject \<Rightarrow> (case toKeyAction env subject eventID of Inl e \<Rightarrow> Inl e
              | Inr a \<Rightarrow> Inr \<lparr> am_event = eventID, am_payload = KeyPayload a, am_kafka = m \<rparr>))
        else if TypeReceive \<le> nv_action_type env \<and> nv_action_type env \<le> TypeShip then
          (case toWarehouseAction X K env eventID of Inl e \<Rightarrow> Inl e
           | Inr a \<Rightarrow> Inr \<lparr> am_event = eventID, am_payload = WarehousePayload a, am_kafka = m \<rparr>)
        else Inl (UnsupportedActionType (nv_action_type env))))"

definition ParseMessage :: "crypto \<Rightarrow> codec \<Rightarrow> kafka_message \<Rightarrow> parse_err + adapter_message" where
  "ParseMessage X K m =
     (let eventIDStr = headerValue (km_headers m) ''id'' in
      if eventIDStr = '''' then Inl MissingIdHeader
      else case cc_uuid K eventIDStr of None \<Rightarrow> Inl (BadEventID eventIDStr)
      | Some eventID \<Rightarrow>
        (let agg = headerValue (km_headers m) ''aggregate_type'' in
         if agg = '''' then Inl MissingAggregateType
         else if agg \<noteq> aggregateSignedAction then Inl (UnknownAggregateType agg)
         else parseSignedAction X K m eventID eventIDStr))"

section \<open>From the signed operation to the contract call\<close>

lemma decodeHex_encode: "decodeHex field (CHR ''0'' # CHR ''x'' # hex_encode bs) = Inr bs"
  by (simp add: decodeHex_def has_prefix_def hex_decode_encode)

lemma decodeHex32_word: "decodeHex32 field (CHR ''0'' # CHR ''x'' # hex_encode (word32_bytes v)) = Inr v"
proof -
  have "bytes_word32 (word32_bytes v) = v"
    using foldl_be_bytes [OF unat_word32_bound, of 0 v] by (simp add: bytes_word32_def word32_bytes_def)
  then show ?thesis by (simp add: decodeHex32_def decodeHex_encode)
qed

lemma decodeHex32_Hex32: "decodeHex32 field (Hex32 v) = Inr v"
  by (simp add: Hex32_def decodeHex32_word)

definition auth_of :: "webauthn \<Rightarrow> webauthn_auth" where
  "auth_of wa = \<lparr> wb_r = wn_r wa, wb_s = wn_s wa, wb_challenge_index = wn_challenge_index wa,
     wb_type_index = wn_type_index wa, wb_authenticator_data = wn_authenticator_data wa,
     wb_client_data_json = wn_client_data_json wa \<rparr>"

lemma authOf_envelope:
  "nv_key_id env = Hex32 k \<Longrightarrow> nv_webauthn env = NewEnvelopeWebAuthn wa \<Longrightarrow> authOf env = Inr (k, auth_of wa)"
  by (simp add: authOf_def NewEnvelopeWebAuthn_def decodeHex32_Hex32 decodeHex32_word decodeHex_encode auth_of_def)

text \<open>What a decoder that undoes the encoder makes of the two documents of the service.\<close>

definition read_envelope :: "envelope_doc \<Rightarrow> ActionEnvelope" where
  "read_envelope d = \<lparr> nv_version = ed_version d, nv_action_id = ed_action_id d, nv_action_type = ed_action_type d,
     nv_item_ids = ed_item_ids d, nv_details_hash = ed_details_hash d, nv_subject_key = None,
     nv_key_id = ed_key_id d, nv_webauthn = ed_webauthn d \<rparr>"

lemma item_ids_strings:
  "(\<And>u. u \<in> set ids \<Longrightarrow> cc_uuid K (uuid_string X u) = Some u) \<Longrightarrow>
   item_ids X K n (map (uuid_string X) ids) = Inr (map (ItemID X) ids)"
  by (induction ids arbitrary: n) (auto simp: UUIDToUint256_def ItemID_def)

text \<open>The message the outbox relay makes of an action: key and headers from the row, the payload as a JSON string.\<close>

definition carries :: "crypto \<Rightarrow> codec \<Rightarrow> uuid \<Rightarrow> string \<Rightarrow> kafka_message \<Rightarrow> bool" where
  "carries X K action payload m \<longleftrightarrow> km_key m = uuid_string X action
     \<and> headerValue (km_headers m) ''id'' = uuid_string X action
     \<and> headerValue (km_headers m) ''aggregate_type'' = aggregateSignedAction
     \<and> cc_json_string K (km_value m) = Some payload \<and> uuid_string X action \<noteq> ''''
     \<and> cc_uuid K (uuid_string X action) = Some action"

lemma ParseMessage_part:
  assumes part: "envelope_part X op signer assertions rpID origins p = Inr payload"
    and m: "carries X K (pt_action p) payload m"
    and uuids: "\<And>u. u \<in> set (pt_items p) \<Longrightarrow> cc_uuid K (uuid_string X u) = Some u"
    and json: "\<And>a wa. Verify X a (pt_challenge p) (pk_key signer) rpID origins = Inr wa \<Longrightarrow>
       map_of assertions (pt_action p) = Some a \<Longrightarrow>
       cc_json_envelope K (json_envelope X (envelope_of X op signer p wa)) = Some (read_envelope (envelope_of X op signer p wa))"
    and type: "op_type op \<in> {TypeReceive, TypePutAway, TypePick, TypeShip}"
  obtains a wa where "map_of assertions (pt_action p) = Some a" "Verify X a (pt_challenge p) (pk_key signer) rpID origins = Inr wa"
    "ParseMessage X K m = Inr \<lparr> am_event = pt_action p, am_payload = WarehousePayload
        \<lparr> wx_action = pt_action p, wx_type = op_type op, wx_items = map (ItemID X) (pt_items p),
          wx_details_hash = pt_details_hash p, wx_key = pk_key_id signer, wx_auth = auth_of wa \<rparr>, am_kafka = m \<rparr>"
proof -
  obtain a wa where a: "map_of assertions (pt_action p) = Some a" "Verify X a (pt_challenge p) (pk_key signer) rpID origins = Inr wa"
    and raw: "payload = json_envelope X (envelope_of X op signer p wa)"
    using part by (auto simp: envelope_part_def split: option.splits if_splits sum.splits)
  let ?env = "read_envelope (envelope_of X op signer p wa)"
  have env: "cc_json_envelope K (payload) = Some ?env" unfolding raw by (rule json [OF a(2,1)])
  have auth: "authOf ?env = Inr (pk_key_id signer, auth_of wa)"
    by (rule authOf_envelope) (simp_all add: read_envelope_def envelope_of_def)
  have items: "item_ids X K 0 (map (uuid_string X) (pt_items p)) = Inr (map (ItemID X) (pt_items p))"
    by (rule item_ids_strings) (rule uuids)
  have w: "toWarehouseAction X K ?env (pt_action p) = Inr \<lparr> wx_action = pt_action p, wx_type = op_type op,
      wx_items = map (ItemID X) (pt_items p), wx_details_hash = pt_details_hash p, wx_key = pk_key_id signer, wx_auth = auth_of wa \<rparr>"
    unfolding toWarehouseAction_def auth
    using items by (simp add: read_envelope_def envelope_of_def decodeHex32_Hex32)
  have ty: "nv_action_type ?env \<noteq> TypeKeyRegister" "nv_action_type ?env \<noteq> TypeKeyRevoke"
    "TypeReceive \<le> nv_action_type ?env" "nv_action_type ?env \<le> TypeShip"
    using type by (auto simp: read_envelope_def envelope_of_def action_types)
  have "nv_version ?env = 1" "nv_action_id ?env = uuid_string X (pt_action p)"
    by (simp_all add: read_envelope_def envelope_of_def)
  then have "ParseMessage X K m = Inr \<lparr> am_event = pt_action p, am_payload = WarehousePayload
      \<lparr> wx_action = pt_action p, wx_type = op_type op, wx_items = map (ItemID X) (pt_items p),
        wx_details_hash = pt_details_hash p, wx_key = pk_key_id signer, wx_auth = auth_of wa \<rparr>, am_kafka = m \<rparr>"
    using m ty env w by (simp add: ParseMessage_def parseSignedAction_def carries_def Let_def aggregateSignedAction_def)
  then show thesis by (rule that [OF a])
qed

text \<open>C11: what the operator signed is what the contract is called with. The payload that the service
  queues for a part of a signed operation, carried over Kafka, is read by the adapter as the call of
  that very action: its id and type, the same details hash and signing key, the items in the order
  in which their hash was signed, and around them an assertion that the service had verified for
  the challenge of that part.\<close>

theorem ParseMessage_Envelopes:
  assumes queued: "Envelopes X op signer assertions rpID origins = Inr payloads" "i < length payloads"
    and m: "carries X K (pt_action (op_parts op ! i)) (payloads ! i) m"
    and uuids: "\<And>u. u \<in> set (pt_items (op_parts op ! i)) \<Longrightarrow> cc_uuid K (uuid_string X u) = Some u"
    and json: "\<And>a wa. Verify X a (pt_challenge (op_parts op ! i)) (pk_key signer) rpID origins = Inr wa \<Longrightarrow>
       map_of assertions (pt_action (op_parts op ! i)) = Some a \<Longrightarrow>
       cc_json_envelope K (json_envelope X (envelope_of X op signer (op_parts op ! i) wa))
         = Some (read_envelope (envelope_of X op signer (op_parts op ! i) wa))"
    and type: "op_type op \<in> {TypeReceive, TypePutAway, TypePick, TypeShip}"
  shows "\<exists>a wa. map_of assertions (pt_action (op_parts op ! i)) = Some a
    \<and> Verify X a (pt_challenge (op_parts op ! i)) (pk_key signer) rpID origins = Inr wa
    \<and> ParseMessage X K m = Inr \<lparr> am_event = pt_action (op_parts op ! i), am_payload = WarehousePayload
        \<lparr> wx_action = pt_action (op_parts op ! i), wx_type = op_type op, wx_items = map (ItemID X) (pt_items (op_parts op ! i)),
          wx_details_hash = pt_details_hash (op_parts op ! i), wx_key = pk_key_id signer, wx_auth = auth_of wa \<rparr>, am_kafka = m \<rparr>
    \<and> ItemsHash X (pt_items (op_parts op ! i))
        = keccak X (concat (map word32_bytes (map (ItemID X) (pt_items (op_parts op ! i)))))"
proof -
  let ?p = "op_parts op ! i"
  have "list_all2 (\<lambda>p raw. envelope_part X op signer assertions rpID origins p = Inr raw) (op_parts op) payloads"
    using queued(1) by (simp add: Envelopes_def envelope_parts_ok split: if_splits)
  then have part: "envelope_part X op signer assertions rpID origins ?p = Inr (payloads ! i)"
    using queued(2) by (simp add: list_all2_conv_all_nth)
  obtain a wa where "map_of assertions (pt_action ?p) = Some a" "Verify X a (pt_challenge ?p) (pk_key signer) rpID origins = Inr wa"
    "ParseMessage X K m = Inr \<lparr> am_event = pt_action ?p, am_payload = WarehousePayload
        \<lparr> wx_action = pt_action ?p, wx_type = op_type op, wx_items = map (ItemID X) (pt_items ?p),
          wx_details_hash = pt_details_hash ?p, wx_key = pk_key_id signer, wx_auth = auth_of wa \<rparr>, am_kafka = m \<rparr>"
    by (rule ParseMessage_part [OF part m uuids json type])
  moreover have "ItemsHash X (pt_items ?p) = keccak X (concat (map word32_bytes (map (ItemID X) (pt_items ?p))))"
    by (simp add: ItemsHash_def items_preimage_def comp_def)
  ultimately show ?thesis by blast
qed

definition demo_codec :: codec where
  "demo_codec = \<lparr> cc_uuid = (\<lambda>s. case s of [c] \<Rightarrow> Some (of_char c) | _ \<Rightarrow> None),
     cc_json_string = (\<lambda>s. Some s),
     cc_json_envelope = (\<lambda>s. Some (read_envelope (envelope_of demo_crypto demo_operation demo_passkey demo_part demo_webauthn))) \<rparr>"

definition demo_kafka :: kafka_message where
  "demo_kafka = \<lparr> km_topic = ''t'', km_partition = 0, km_offset = 7, km_key = ''A'', km_value = ''A'',
     km_headers = [(''id'', ''A''), (''aggregate_type'', ''signed_action'')] \<rparr>"

theorem ParseMessage_Envelopes_witness:
  "\<exists>a. ParseMessage demo_crypto demo_codec demo_kafka = Inr \<lparr> am_event = 65, am_payload = WarehousePayload a, am_kafka = demo_kafka \<rparr>
     \<and> wx_details_hash a = 2 \<and> wx_items a = map (ItemID demo_crypto) [11, 12]"
proof -
  have A: "char_of (65 :: nat) = CHR ''A''" by code_simp
  have s: "uuid_string demo_crypto u = [char_of (unat u mod 256)]" for u by (simp add: demo_crypto_def)
  have ps: "op_parts demo_operation = [demo_part]" "op_type demo_operation = TypeShip" by (simp_all add: demo_operation_def)
  have "as_credential demo_assertion = [1]" by (simp add: demo_assertion_def)
  moreover have "json_envelope demo_crypto = ed_action_id" by (simp add: demo_crypto_def)
  ultimately have e: "Envelopes demo_crypto demo_operation demo_passkey [(65, demo_assertion)] ''wms'' [''https://wms''] = Inr [uuid_string demo_crypto 65]"
    by (simp add: Envelopes_def envelope_part_def demo_operation_def demo_part_def demo_passkey_def demo_Verify envelope_of_def)
  have c: "carries demo_crypto demo_codec (pt_action (op_parts demo_operation ! 0)) ([uuid_string demo_crypto 65] ! 0) demo_kafka"
    by (simp add: carries_def ps s demo_kafka_def demo_codec_def demo_part_def headerValue_def aggregateSignedAction_def A)
  have u: "cc_uuid demo_codec (uuid_string demo_crypto u) = Some u" if "u \<in> set (pt_items (op_parts demo_operation ! 0))" for u
  proof -
    have "of_char (char_of (11 :: nat)) = (11 :: uuid)" "of_char (char_of (12 :: nat)) = (12 :: uuid)" by code_simp+
    then show ?thesis using that by (auto simp: ps s demo_part_def demo_codec_def)
  qed
  have j: "cc_json_envelope demo_codec (json_envelope demo_crypto (envelope_of demo_crypto demo_operation demo_passkey (op_parts demo_operation ! 0) wa))
      = Some (read_envelope (envelope_of demo_crypto demo_operation demo_passkey (op_parts demo_operation ! 0) wa))"
    if v: "Verify demo_crypto a (pt_challenge (op_parts demo_operation ! 0)) (pk_key demo_passkey) ''wms'' [''https://wms''] = Inr wa"
      "map_of [(65, demo_assertion)] (pt_action (op_parts demo_operation ! 0)) = Some a" for a wa
  proof -
    have "a = demo_assertion" using v(2) by (simp add: ps demo_part_def)
    then have "wa = demo_webauthn" using v(1) demo_Verify by (simp add: ps demo_part_def demo_passkey_def)
    then show ?thesis by (simp add: ps demo_codec_def)
  qed
  have t: "op_type demo_operation \<in> {TypeReceive, TypePutAway, TypePick, TypeShip}" by (simp add: ps)
  have l: "0 < length [uuid_string demo_crypto 65]" by simp
  note r = ParseMessage_Envelopes [OF e l c _ _ t]
  have "\<exists>wa. ParseMessage demo_crypto demo_codec demo_kafka = Inr \<lparr> am_event = 65, am_payload = WarehousePayload
       \<lparr> wx_action = 65, wx_type = TypeShip, wx_items = map (ItemID demo_crypto) [11, 12], wx_details_hash = 2,
         wx_key = pk_key_id demo_passkey, wx_auth = auth_of wa \<rparr>, am_kafka = demo_kafka \<rparr>"
    by (rule exE [OF r]; (elim exE conjE)?) (erule u, erule (1) j, auto simp: ps demo_part_def)
  then show ?thesis by auto
qed

end
