(* ===== verification/ChainClient.thy ===== *)
theory ChainClient
  imports AdapterMessage
begin

text \<open>
  \<^verbatim>\<open>ledger-adapter/internal/chain\<close>: sending a transaction with a local nonce
  (\<^verbatim>\<open>client.go\<close>), the lower bounds of gas, waiting for a receipt (\<^verbatim>\<open>receipt.go\<close>), and
  what the two contracts say about an action, by the logs of a receipt and by
  \<^verbatim>\<open>actionState\<close>.

  The adapter's own state is the record \<open>adapter\<close>. The node, the broker and the database
  server are the parameter record \<open>world\<close>: the answer of every call is a function of the
  number of calls made so far, so that any of them may fail at any time, and a call to send a
  transaction may end in an error although the node has taken the transaction in. The ABI
  coder of go-ethereum is the parameter record \<open>abi\<close>.
\<close>

type_synonym address = "160 word"

section \<open>The node\<close>

record chain_log =
  lg_address :: address
  lg_topics :: "bytes32 list"
  lg_data :: bytes

record receipt =
  rt_status :: "64 word"
  rt_logs :: "chain_log list"

record chain_tx =
  ct_nonce :: "64 word"
  ct_to :: address
  ct_gas :: "64 word"
  ct_price :: nat
  ct_data :: bytes

datatype receipt_err = ReceiptNotFound | ReceiptRpc string

record rpc_error =
  rx_rpc :: bool
  rx_text :: string

record world =
  wo_nonce :: "nat \<Rightarrow> string + 64 word"
  wo_price :: "nat \<Rightarrow> string + nat"
  wo_estimate :: "nat \<Rightarrow> address \<Rightarrow> bytes \<Rightarrow> rpc_error + 64 word"
  wo_chain_id :: "nat \<Rightarrow> string + nat"
  wo_sign :: "nat \<Rightarrow> chain_tx \<Rightarrow> (bool \<times> string) + bytes32"
  wo_submit :: "nat \<Rightarrow> chain_tx \<Rightarrow> (bool \<times> string) + unit"
  wo_receipt :: "nat \<Rightarrow> bytes32 \<Rightarrow> receipt_err + receipt"
  wo_latency :: "nat \<Rightarrow> nat"
  wo_call :: "nat \<Rightarrow> address \<Rightarrow> bytes \<Rightarrow> string + bytes"
  wo_logs :: "nat \<Rightarrow> address \<Rightarrow> bytes32 \<Rightarrow> bytes32 \<Rightarrow> string + chain_log list"
  wo_db :: "nat \<Rightarrow> bool"
  wo_dlq :: "nat \<Rightarrow> bool"
  wo_commit :: "nat \<Rightarrow> bool"
  wo_now :: "nat \<Rightarrow> timestamp"
  wo_range :: "nat \<Rightarrow> nat \<Rightarrow> nat list"

record abi =
  ab_wms_applied :: bytes32
  ab_wms_rejected :: bytes32
  ab_key_registered :: bytes32
  ab_key_revoked :: bytes32
  ab_registry_rejected :: bytes32
  ab_reject_reason :: "bytes \<Rightarrow> byte option option"
  ab_key_event :: "bool \<Rightarrow> bytes \<Rightarrow> uuid option option"
  ab_pack_state :: "uuid \<Rightarrow> bytes option"
  ab_unpack_state :: "bytes \<Rightarrow> byte option option"
  ab_pack_actions :: "chain_warehouse_action list \<Rightarrow> string + bytes"
  ab_pack_key_actions :: "chain_key_action list \<Rightarrow> string + bytes"
  ab_hex_to_hash :: "string \<Rightarrow> bytes32"

text \<open>The order in which a Go map, or a group of goroutines, takes its \<open>k\<close> members: any permutation.\<close>

definition range_order :: "world \<Rightarrow> nat \<Rightarrow> nat \<Rightarrow> nat list" where
  "range_order W n k = (let order = wo_range W n k in if sort order = [0..<k] then order else [0..<k])"

lemma range_order_perm: "sort (range_order W n k) = [0..<k]"
  by (simp add: range_order_def Let_def sorted_sort_id)

text \<open>What a dead letter says: the parse error, or the reason of the failure.\<close>

datatype dlq_reason = ParseFailed parse_err | FailedBecause string

text \<open>
  \<open>ad_sent\<close> are the transactions whose sending the node has acknowledged; \<open>ad_lost\<close> are those
  the node holds although \<^verbatim>\<open>SendTransaction\<close> returned an error, which the adapter cannot see.
\<close>

record adapter =
  ad_events :: "onchain_event list"
  ad_dlq :: "(kafka_message \<times> dlq_reason) list"
  ad_sent :: "chain_tx list"
  ad_lost :: "chain_tx list"
  ad_nonce :: "64 word"
  ad_seeded :: bool
  ad_calls :: nat

text \<open>One call to the outside.\<close>

definition ext :: "(nat \<Rightarrow> 'e + 'a) \<Rightarrow> (adapter, 'e, 'a) tx" where
  "ext f = (\<lambda>s. (f (ad_calls s), s\<lparr>ad_calls := ad_calls s + 1\<rparr>))"

definition tx_error :: "('e \<Rightarrow> 'f) \<Rightarrow> ('s, 'e, 'a) tx \<Rightarrow> ('s, 'f, 'a) tx" where
  "tx_error g m = tx_handle m (\<lambda>e. tx_fail (g e))"

section \<open>Sending\<close>

datatype chain_err = ErrChainRevert string | ErrChainTransient string | ErrSignTx string

definition str_contains :: "string \<Rightarrow> string \<Rightarrow> bool" where
  "str_contains s p = (str_index p s \<ge> 0)"

definition isRevertError :: "rpc_error \<Rightarrow> bool" where
  "isRevertError e \<longleftrightarrow> rx_rpc e \<or> str_contains (rx_text e) ''execution reverted'' \<or> str_contains (rx_text e) ''revert''"

definition isNonceTooLowError :: "string \<Rightarrow> bool" where
  "isNonceTooLowError e \<longleftrightarrow> str_contains e ''nonce too low''"

definition gasPriceHeadroomNum :: nat where "gasPriceHeadroomNum = 3"
definition gasPriceHeadroomDen :: nat where "gasPriceHeadroomDen = 1"
definition gasLimitHeadroomNum :: "64 word" where "gasLimitHeadroomNum = 3"
definition gasLimitHeadroomDen :: "64 word" where "gasLimitHeadroomDen = 2"

definition reseedLocked :: "world \<Rightarrow> (adapter, string, unit) tx" where
  "reseedLocked W = tx_bind (ext (wo_nonce W)) (\<lambda>n. tx_modify (\<lambda>s. s\<lparr>ad_nonce := n, ad_seeded := True\<rparr>))"

definition ReseedNonce :: "world \<Rightarrow> (adapter, string, unit) tx" where
  "ReseedNonce W = tx_error (\<lambda>e. ''reseed nonce: '' @ e) (reseedLocked W)"

definition gas_limit :: "64 word \<Rightarrow> 64 word \<Rightarrow> 64 word" where
  "gas_limit estimate minGas =
     (let gasLimit = estimate * gasLimitHeadroomNum div gasLimitHeadroomDen
      in if gasLimit < minGas then minGas else gasLimit)"

text \<open>
  The transaction that the node has acknowledged joins \<open>ad_sent\<close>. A failed call of
  \<^verbatim>\<open>SendTransaction\<close> says, beside its message, whether the node has the transaction all the same
  (the acknowledgement was lost); the code sees the message only.
\<close>

definition send_calldata :: "world \<Rightarrow> address \<Rightarrow> bytes \<Rightarrow> string \<Rightarrow> 64 word \<Rightarrow> (adapter, chain_err, bytes32) tx" where
  "send_calldata W to data label minGas =
     tx_bind (tx_get ad_seeded) (\<lambda>seeded.
     tx_seq (if seeded then tx_return ()
             else tx_error (\<lambda>e. ErrChainTransient (''nonce: '' @ e)) (reseedLocked W))
    (tx_bind (tx_get ad_nonce) (\<lambda>nonce.
     tx_bind (tx_error (\<lambda>e. ErrChainTransient (''gas price: '' @ e)) (ext (wo_price W))) (\<lambda>price.
     tx_bind (tx_error (\<lambda>e. if isRevertError e then ErrChainRevert (''estimate gas for '' @ label @ '': '' @ rx_text e)
                            else ErrChainTransient (''estimate gas for '' @ label @ '': '' @ rx_text e))
               (ext (\<lambda>n. wo_estimate W n to data))) (\<lambda>estimate.
     tx_bind (tx_error (\<lambda>e. ErrChainTransient (''chain id: '' @ e)) (ext (wo_chain_id W))) (\<lambda>chainID.
     let t = \<lparr> ct_nonce = nonce, ct_to = to, ct_gas = gas_limit estimate minGas,
               ct_price = price * gasPriceHeadroomNum div gasPriceHeadroomDen, ct_data = data \<rparr> in
     tx_bind (tx_error (\<lambda>(transient, e). if transient then ErrChainTransient (''sign tx: '' @ e) else ErrSignTx (''sign tx: '' @ e))
               (ext (\<lambda>n. wo_sign W n t))) (\<lambda>hash.
     tx_seq (tx_handle (ext (\<lambda>n. wo_submit W n t)) (\<lambda>(lost, e).
               tx_seq (tx_modify (\<lambda>s. if lost then s\<lparr>ad_lost := ad_lost s @ [t]\<rparr> else s))
              (tx_seq (if isNonceTooLowError e
                       then tx_handle (reseedLocked W) (\<lambda>_. tx_modify (\<lambda>s. s\<lparr>ad_seeded := False\<rparr>))
                       else tx_return ())
                 (tx_fail (ErrChainTransient (''send tx: '' @ e))))))
    (tx_seq (tx_modify (\<lambda>s. s\<lparr>ad_nonce := ad_nonce s + 1, ad_sent := ad_sent s @ [t]\<rparr>))
      (tx_return hash)))))))))"

definition SendCalldata :: "world \<Rightarrow> address \<Rightarrow> bytes \<Rightarrow> 64 word \<Rightarrow> (adapter, chain_err, bytes32) tx" where
  "SendCalldata W to data minGas = send_calldata W to data ''calldata'' minGas"

section \<open>Gas\<close>

definition txBaseGas :: "64 word" where "txBaseGas = 21000"
definition actionGasFloor :: "64 word" where "actionGasFloor = 70000"
definition receiveItemGasFloor :: "64 word" where "receiveItemGasFloor = 28000"
definition moveItemGasFloor :: "64 word" where "moveItemGasFloor = 9000"
definition keyActionGasFloor :: "64 word" where "keyActionGasFloor = 135000"

definition ApplyActionsGasFloor :: "chain_warehouse_action list \<Rightarrow> 64 word" where
  "ApplyActionsGasFloor actions =
     foldl (\<lambda>floor a. floor + actionGasFloor
         + of_nat (length (wx_items a)) * (if wx_type a = 1 then receiveItemGasFloor else moveItemGasFloor))
       txBaseGas actions"

definition ApplyKeyActionsGasFloor :: "chain_key_action list \<Rightarrow> 64 word" where
  "ApplyKeyActionsGasFloor actions = txBaseGas + of_nat (length actions) * keyActionGasFloor"

section \<open>Receipts\<close>

definition receiptDelays :: "int list" where
  "receiptDelays = [50, 100]"

definition receipt_delay :: "nat \<Rightarrow> int" where
  "receipt_delay i = (if i < length receiptDelays then receiptDelays ! i else last receiptDelays)"

lemma receipt_delay_pos: "receipt_delay i > 0"
  by (auto simp: receipt_delay_def receiptDelays_def nth_Cons split: nat.splits)

datatype wait_err = ReceiptTimeout | FetchReceipt string

text \<open>
  The polling loop: \<open>elapsed\<close> milliseconds of \<open>timeout\<close> have passed. Every call takes its
  \<open>wo_latency\<close>; one that is not answered before the deadline of the context fails with the
  context's error, which is not \<^verbatim>\<open>NotFound\<close>. At the very end of the time the deadline wins.
\<close>

function wait_receipt :: "world \<Rightarrow> bytes32 \<Rightarrow> int \<Rightarrow> nat \<Rightarrow> int \<Rightarrow> adapter \<Rightarrow> (wait_err + receipt) \<times> adapter" where
  "wait_receipt W h timeout delayIdx elapsed s =
     (let s' = s\<lparr>ad_calls := ad_calls s + 1\<rparr>; arrived = elapsed + int (wo_latency W (ad_calls s)) in
      if arrived \<ge> timeout then (Inl (FetchReceipt ''context deadline exceeded''), s')
      else case wo_receipt W (ad_calls s) h of
        Inr r \<Rightarrow> (Inr r, s')
      | Inl (ReceiptRpc e) \<Rightarrow> (Inl (FetchReceipt e), s')
      | Inl ReceiptNotFound \<Rightarrow>
          (let d = receipt_delay delayIdx;
               next = (if delayIdx < length receiptDelays - 1 then delayIdx + 1 else delayIdx)
           in if arrived + d \<ge> timeout then (Inl ReceiptTimeout, s')
              else wait_receipt W h timeout next (arrived + d) s'))"
  by pat_completeness auto
termination
proof (relation "measure (\<lambda>(W, h, timeout, i, elapsed, s). nat (timeout - elapsed))", goal_cases)
  case (2 W h timeout i elapsed s s1 arrived e d i1)
  then show ?case using receipt_delay_pos [of i] by auto
qed simp

declare wait_receipt.simps [simp del]

definition WaitReceipt :: "world \<Rightarrow> bytes32 \<Rightarrow> int \<Rightarrow> (adapter, wait_err, receipt) tx" where
  "WaitReceipt W h timeout = wait_receipt W h timeout 0 0"

section \<open>What the contracts say\<close>

record ActionOutcome =
  ao_applied :: bool
  ao_reason :: byte

datatype chain_read_err =
    MissingActionId | UnpackFailed | NotUint8 | NotBytes16 | PackStateFailed | CallFailed string
  | EmptyResponse | FilterFailed string | NoRejectedLog uuid

text \<open>The two contracts that know actions, \<^verbatim>\<open>SignedMappingWMS\<close> and \<^verbatim>\<open>ConsortiumRegistry\<close>.\<close>

datatype resolver = WarehouseActions address | Registry address

definition resolver_address :: "resolver \<Rightarrow> address" where
  "resolver_address r = (case r of WarehouseActions a \<Rightarrow> a | Registry a \<Rightarrow> a)"

text \<open>\<^verbatim>\<open>copy(id[:], topic[:16])\<close> and the left-aligned topic of an id.\<close>

definition topic_uuid :: "bytes32 \<Rightarrow> uuid" where
  "topic_uuid t = ucast (drop_bit 128 t)"

definition uuid_topic :: "uuid \<Rightarrow> bytes32" where
  "uuid_topic i = push_bit 128 (ucast i)"

definition unpackRejectReason :: "abi \<Rightarrow> bytes \<Rightarrow> chain_read_err + byte" where
  "unpackRejectReason A data =
     (case ab_reject_reason A data of None \<Rightarrow> Inl UnpackFailed
      | Some None \<Rightarrow> Inl NotUint8 | Some (Some reason) \<Rightarrow> Inr reason)"

definition rejected_outcome :: "abi \<Rightarrow> chain_log \<Rightarrow> chain_read_err + uuid \<times> ActionOutcome" where
  "rejected_outcome A l =
     (if length (lg_topics l) < 2 then Inl MissingActionId
      else case unpackRejectReason A (lg_data l) of Inl e \<Rightarrow> Inl e
      | Inr reason \<Rightarrow> Inr (topic_uuid (lg_topics l ! 1), \<lparr> ao_applied = False, ao_reason = reason \<rparr>))"

text \<open>What one log of the contract's own says; \<open>None\<close> for any other event.\<close>

definition warehouse_log :: "abi \<Rightarrow> chain_log \<Rightarrow> chain_read_err + (uuid \<times> ActionOutcome) option" where
  "warehouse_log A l =
     (if lg_topics l ! 0 = ab_wms_applied A then
        (if length (lg_topics l) < 2 then Inl MissingActionId
         else Inr (Some (topic_uuid (lg_topics l ! 1), \<lparr> ao_applied = True, ao_reason = 0 \<rparr>)))
      else if lg_topics l ! 0 = ab_wms_rejected A then map_sum (\<lambda>e. e) Some (rejected_outcome A l)
      else Inr None)"

definition registry_log :: "abi \<Rightarrow> chain_log \<Rightarrow> chain_read_err + (uuid \<times> ActionOutcome) option" where
  "registry_log A l =
     (if lg_topics l ! 0 = ab_key_registered A \<or> lg_topics l ! 0 = ab_key_revoked A then
        (case ab_key_event A (lg_topics l ! 0 = ab_key_registered A) (lg_data l) of
           None \<Rightarrow> Inl UnpackFailed | Some None \<Rightarrow> Inl NotBytes16
         | Some (Some i) \<Rightarrow> Inr (Some (i, \<lparr> ao_applied = True, ao_reason = 0 \<rparr>)))
      else if lg_topics l ! 0 = ab_registry_rejected A then map_sum (\<lambda>e. e) Some (rejected_outcome A l)
      else Inr None)"

text \<open>The loop over the logs of a receipt; a later log of an action replaces an earlier one.\<close>

primrec log_outcomes ::
  "(chain_log \<Rightarrow> chain_read_err + (uuid \<times> ActionOutcome) option) \<Rightarrow> address \<Rightarrow> chain_log list
   \<Rightarrow> (uuid \<times> ActionOutcome) list \<Rightarrow> chain_read_err + (uuid \<times> ActionOutcome) list" where
  "log_outcomes f addr [] outcomes = Inr outcomes"
| "log_outcomes f addr (l # ls) outcomes =
     (if lg_address l \<noteq> addr \<or> lg_topics l = [] then log_outcomes f addr ls outcomes
      else case f l of Inl e \<Rightarrow> Inl e
      | Inr None \<Rightarrow> log_outcomes f addr ls outcomes
      | Inr (Some o') \<Rightarrow> log_outcomes f addr ls (o' # outcomes))"

definition LogOutcomes :: "abi \<Rightarrow> resolver \<Rightarrow> receipt \<Rightarrow> chain_read_err + (uuid \<times> ActionOutcome) list" where
  "LogOutcomes A r receipt =
     (case r of WarehouseActions a \<Rightarrow> log_outcomes (warehouse_log A) a (rt_logs receipt) []
      | Registry a \<Rightarrow> log_outcomes (registry_log A) a (rt_logs receipt) [])"

definition actionState :: "world \<Rightarrow> abi \<Rightarrow> resolver \<Rightarrow> uuid \<Rightarrow> (adapter, chain_read_err, byte) tx" where
  "actionState W A r i =
     (case ab_pack_state A i of None \<Rightarrow> tx_fail PackStateFailed
      | Some data \<Rightarrow>
        tx_bind (tx_error CallFailed (ext (\<lambda>n. wo_call W n (resolver_address r) data))) (\<lambda>out.
        if out = [] then tx_fail EmptyResponse
        else case ab_unpack_state A out of None \<Rightarrow> tx_fail UnpackFailed
          | Some None \<Rightarrow> tx_fail NotUint8 | Some (Some state) \<Rightarrow> tx_return state))"

definition rejectedReason :: "world \<Rightarrow> abi \<Rightarrow> resolver \<Rightarrow> uuid \<Rightarrow> (adapter, chain_read_err, byte) tx" where
  "rejectedReason W A r i =
     tx_bind (tx_error FilterFailed (ext (\<lambda>n. wo_logs W n (resolver_address r)
        (case r of WarehouseActions _ \<Rightarrow> ab_wms_rejected A | Registry _ \<Rightarrow> ab_registry_rejected A) (uuid_topic i)))) (\<lambda>logs.
     if logs = [] then tx_fail (NoRejectedLog i) else tx_lift (unpackRejectReason A (lg_data (last logs))))"

definition StateOutcome :: "world \<Rightarrow> abi \<Rightarrow> resolver \<Rightarrow> uuid \<Rightarrow> (adapter, chain_read_err, ActionOutcome option) tx" where
  "StateOutcome W A r i =
     tx_bind (actionState W A r i) (\<lambda>state.
     if state = 1 then tx_return (Some \<lparr> ao_applied = True, ao_reason = 0 \<rparr>)
     else if state = 2 then tx_bind (rejectedReason W A r i) (\<lambda>reason. tx_return (Some \<lparr> ao_applied = False, ao_reason = reason \<rparr>))
     else tx_return None)"

end
