(* ===== verification/EventStore.thy ===== *)
theory EventStore
  imports ChainClient
begin

text \<open>
  \<^verbatim>\<open>ledger-adapter/internal/store/onchain_events.go\<close>: the statements on the mirror of
  chain events. A statement may fail; then it has done nothing.
\<close>

datatype adapter_err =
    StoreFault | NoEventRow uuid | DlqFault | CommitFault | SendTransient chain_err
  | ReceiptFault string | OutcomeFault chain_read_err | NoOutcome uuid | ContractsNotConfigured
  | ConfirmStalled wait_err | PipelineStalled

type_synonym 'a adapter_tx = "(adapter, adapter_err, 'a) tx"

definition store_call :: "world \<Rightarrow> 'a adapter_tx \<Rightarrow> 'a adapter_tx" where
  "store_call W m = tx_bind (ext (\<lambda>n. if wo_db W n then Inr () else Inl StoreFault)) (\<lambda>_. m)"

definition events_update :: "world \<Rightarrow> (onchain_event \<Rightarrow> bool) \<Rightarrow> (timestamp \<Rightarrow> onchain_event \<Rightarrow> onchain_event) \<Rightarrow> unit adapter_tx" where
  "events_update W P f = store_call W (tx_modify (\<lambda>s. ad_events_update (sql_update P (f (wo_now W (ad_calls s)))) s))"

definition Exists :: "world \<Rightarrow> uuid \<Rightarrow> bool adapter_tx" where
  "Exists W eventID = store_call W (tx_get (\<lambda>s. \<exists>e\<in>set (ad_events s). oe_event e = eventID))"

definition InsertPending :: "world \<Rightarrow> uuid \<Rightarrow> string \<Rightarrow> unit adapter_tx" where
  "InsertPending W eventID aggType = store_call W (tx_modify (\<lambda>s.
     if \<exists>e\<in>set (ad_events s). oe_event e = eventID then s
     else ad_events_update (\<lambda>t. t @ [\<lparr> oe_event = eventID, oe_aggregate = aggType, oe_tx = None, oe_status = OnchainPending,
       oe_reject = None, oe_error = None, oe_updated = wo_now W (ad_calls s) \<rparr>]) s))"

definition MarkSent :: "world \<Rightarrow> uuid list \<Rightarrow> string \<Rightarrow> unit adapter_tx" where
  "MarkSent W ids txHash =
     (if ids = [] then tx_return ()
      else events_update W (\<lambda>e. oe_event e \<in> set ids \<and> oe_status e \<noteq> OnchainCommitted)
        (\<lambda>now e. e\<lparr>oe_tx := Some txHash, oe_status := OnchainSent, oe_updated := now\<rparr>))"

definition MarkCommitted :: "world \<Rightarrow> uuid list \<Rightarrow> unit adapter_tx" where
  "MarkCommitted W ids =
     (if ids = [] then tx_return ()
      else events_update W (\<lambda>e. oe_event e \<in> set ids)
        (\<lambda>now e. e\<lparr>oe_status := OnchainCommitted, oe_updated := now\<rparr>))"

text \<open>\<^verbatim>\<open>COALESCE(NULLIF($2,''), tx_hash)\<close>\<close>

definition keep_tx :: "string \<Rightarrow> string option \<Rightarrow> string option" where
  "keep_tx txHash old = (if txHash = [] then old else Some txHash)"

definition MarkFailed :: "world \<Rightarrow> uuid list \<Rightarrow> string \<Rightarrow> string \<Rightarrow> unit adapter_tx" where
  "MarkFailed W ids txHash reason =
     (if ids = [] then tx_return ()
      else events_update W (\<lambda>e. oe_event e \<in> set ids \<and> oe_status e \<noteq> OnchainCommitted)
        (\<lambda>now e. e\<lparr>oe_tx := keep_tx txHash (oe_tx e), oe_status := OnchainFailed, oe_error := Some reason, oe_updated := now\<rparr>))"

fun decimal :: "nat \<Rightarrow> string" where
  "decimal n = (if n < 10 then [char_of (48 + n)] else decimal (n div 10) @ [char_of (48 + n mod 10)])"

definition MarkRejected :: "world \<Rightarrow> uuid list \<Rightarrow> string \<Rightarrow> byte \<Rightarrow> unit adapter_tx" where
  "MarkRejected W ids txHash reason =
     (if ids = [] then tx_return ()
      else events_update W (\<lambda>e. oe_event e \<in> set ids \<and> oe_status e \<noteq> OnchainCommitted)
        (\<lambda>now e. e\<lparr>oe_tx := keep_tx txHash (oe_tx e), oe_status := OnchainFailed, oe_reject := Some (uint reason),
           oe_error := Some (''action rejected: reason '' @ decimal (unat reason)), oe_updated := now\<rparr>))"

definition StatusAndTx :: "world \<Rightarrow> uuid \<Rightarrow> (onchain_status \<times> string) adapter_tx" where
  "StatusAndTx W eventID = store_call W (tx_query (\<lambda>s.
     case List.find (\<lambda>e. oe_event e = eventID) (ad_events s) of None \<Rightarrow> Inl (NoEventRow eventID)
     | Some e \<Rightarrow> Inr (oe_status e, case oe_tx e of None \<Rightarrow> '''' | Some h \<Rightarrow> h)))"

definition reconcileBatchLimit :: nat where
  "reconcileBatchLimit = 1000"

text \<open>\<^verbatim>\<open>minAge\<close> in the unit of the timestamps.\<close>

definition ListReconcilable :: "world \<Rightarrow> int \<Rightarrow> (uuid \<times> string) list adapter_tx" where
  "ListReconcilable W minAge = store_call W (tx_get (\<lambda>s.
     map (\<lambda>e. (oe_event e, the (oe_tx e))) (take reconcileBatchLimit (sort_key oe_updated
       (filter (\<lambda>e. (oe_status e = OnchainSent \<or> oe_status e = OnchainFailed)
           \<and> oe_aggregate e = ''signed_action'' \<and> oe_tx e \<noteq> None \<and> oe_tx e \<noteq> Some ''''
           \<and> oe_reject e = None \<and> oe_updated e < wo_now W (ad_calls s) - minAge) (ad_events s))))))"

end
