(* ===== verification/Consumer.thy ===== *)
theory Consumer
  imports EventStore
begin

text \<open>
  \<^verbatim>\<open>ledger-adapter/internal/consumer\<close>: the batcher, the flusher that sends batches of
  signed actions in Kafka order, the reconciliation of rows with their receipts, and the
  confirmation of an in-flight batch. The order in which Go ranges over a map is the
  permutation \<open>range_order\<close> that the world gives. Logging is left out.
\<close>

record flusher =
  fl_world :: world
  fl_abi :: abi
  fl_warehouse :: "address option"
  fl_registry :: "address option"
  fl_timeout :: int

section \<open>The dead-letter topic\<close>

definition PublishAll :: "world \<Rightarrow> kafka_message list \<Rightarrow> dlq_reason \<Rightarrow> unit adapter_tx" where
  "PublishAll W msgs reason =
     (if msgs = [] then tx_return ()
      else tx_bind (ext (\<lambda>n. if wo_dlq W n then Inr () else Inl DlqFault)) (\<lambda>_.
        tx_modify (\<lambda>s. ad_dlq_update (\<lambda>t. t @ map (\<lambda>m. (m, reason)) msgs) s)))"

definition recordFailure :: "flusher \<Rightarrow> adapter_message list \<Rightarrow> uuid list \<Rightarrow> string \<Rightarrow> string \<Rightarrow> unit adapter_tx" where
  "recordFailure F pending ids txHash reason =
     tx_seq (PublishAll (fl_world F) (map am_kafka pending) (FailedBecause reason))
       (MarkFailed (fl_world F) ids txHash reason)"

section \<open>Outcomes of a mined transaction\<close>

definition actionResolvers :: "flusher \<Rightarrow> resolver list" where
  "actionResolvers F =
     (case fl_warehouse F of None \<Rightarrow> [] | Some a \<Rightarrow> [WarehouseActions a])
     @ (case fl_registry F of None \<Rightarrow> [] | Some a \<Rightarrow> [Registry a])"

text \<open>The logs of all contracts first; the first contract that has a log of an action decides.\<close>

primrec merge_logs :: "flusher \<Rightarrow> receipt \<Rightarrow> resolver list \<Rightarrow> (uuid \<times> ActionOutcome) list
   \<Rightarrow> adapter_err + (uuid \<times> ActionOutcome) list" where
  "merge_logs F receipt [] outcomes = Inr outcomes"
| "merge_logs F receipt (r # rs) outcomes =
     (case LogOutcomes (fl_abi F) r receipt of Inl e \<Rightarrow> Inl (OutcomeFault e)
      | Inr fromLogs \<Rightarrow> merge_logs F receipt rs (outcomes @ fromLogs))"

primrec state_of_action :: "flusher \<Rightarrow> uuid \<Rightarrow> resolver list \<Rightarrow> ActionOutcome option adapter_tx" where
  "state_of_action F i [] = tx_return None"
| "state_of_action F i (r # rs) =
     tx_bind (tx_error OutcomeFault (StateOutcome (fl_world F) (fl_abi F) r i)) (\<lambda>known.
     case known of Some o' \<Rightarrow> tx_return (Some o') | None \<Rightarrow> state_of_action F i rs)"

primrec fill_outcomes :: "flusher \<Rightarrow> resolver list \<Rightarrow> uuid list \<Rightarrow> (uuid \<times> ActionOutcome) list
   \<Rightarrow> (uuid \<times> ActionOutcome) list adapter_tx" where
  "fill_outcomes F rs [] outcomes = tx_return outcomes"
| "fill_outcomes F rs (i # ids) outcomes =
     (if map_of outcomes i \<noteq> None then fill_outcomes F rs ids outcomes
      else tx_bind (state_of_action F i rs) (\<lambda>known.
        case known of None \<Rightarrow> tx_fail (NoOutcome i)
        | Some o' \<Rightarrow> fill_outcomes F rs ids (outcomes @ [(i, o')])))"

definition resolveActionOutcomes :: "flusher \<Rightarrow> receipt \<Rightarrow> uuid list \<Rightarrow> (uuid \<times> ActionOutcome) list adapter_tx" where
  "resolveActionOutcomes F receipt ids =
     tx_bind (tx_lift (merge_logs F receipt (actionResolvers F) [])) (fill_outcomes F (actionResolvers F) ids)"

text \<open>The keys of a Go map of groups, in the order it happens to be ranged over.\<close>

definition ranged :: "world \<Rightarrow> 'k list \<Rightarrow> adapter \<Rightarrow> 'k list" where
  "ranged W ks s = (let ks' = remdups ks in map (\<lambda>i. ks' ! i) (range_order W (ad_calls s) (length ks')))"

definition applied_in :: "(uuid \<times> ActionOutcome) list \<Rightarrow> uuid \<Rightarrow> bool" where
  "applied_in outcomes i = (case map_of outcomes i of Some o' \<Rightarrow> ao_applied o' | None \<Rightarrow> False)"

definition reason_in :: "(uuid \<times> ActionOutcome) list \<Rightarrow> uuid \<Rightarrow> byte" where
  "reason_in outcomes i = (case map_of outcomes i of Some o' \<Rightarrow> ao_reason o' | None \<Rightarrow> 0)"

definition applyActionOutcomes :: "flusher \<Rightarrow> receipt \<Rightarrow> uuid list \<Rightarrow> string \<Rightarrow> unit adapter_tx" where
  "applyActionOutcomes F receipt ids txHash =
     (if actionResolvers F = [] then tx_fail ContractsNotConfigured
      else tx_bind (resolveActionOutcomes F receipt ids) (\<lambda>outcomes.
        let applied = filter (applied_in outcomes) ids;
            rejected = filter (\<lambda>i. \<not> applied_in outcomes i) ids in
        tx_seq (if applied \<noteq> [] then MarkCommitted (fl_world F) applied else tx_return ())
          (tx_bind (tx_get (ranged (fl_world F) (map (reason_in outcomes) rejected)))
            (tx_each (\<lambda>reason. MarkRejected (fl_world F) (filter (\<lambda>i. reason_in outcomes i = reason) rejected) txHash reason)))))"

definition reconcileReceipt :: "flusher \<Rightarrow> uuid list \<Rightarrow> string \<Rightarrow> bool adapter_tx" where
  "reconcileReceipt F ids txHash =
     (\<lambda>s. case ext (\<lambda>n. Inr (wo_receipt (fl_world F) n (ab_hex_to_hash (fl_abi F) txHash))) s of
        (Inl (e :: adapter_err), s') \<Rightarrow> (Inl e, s')
      | (Inr (Inl ReceiptNotFound), s') \<Rightarrow> (Inr False, s')
      | (Inr (Inl (ReceiptRpc e)), s') \<Rightarrow> (Inl (ReceiptFault e), s')
      | (Inr (Inr receipt), s') \<Rightarrow>
          if rt_status receipt = 1 then tx_seq (applyActionOutcomes F receipt ids txHash) (tx_return True) s'
          else tx_seq (MarkFailed (fl_world F) ids txHash ''reconcile: tx reverted on-chain'') (tx_return True) s')"

text \<open>One sweep; a transaction that fails does not stop it. The result counts the failures.\<close>

primrec reconcile_groups :: "flusher \<Rightarrow> (uuid \<times> string) list \<Rightarrow> string list \<Rightarrow> nat adapter_tx" where
  "reconcile_groups F rows [] = tx_return 0"
| "reconcile_groups F rows (h # hs) =
     tx_bind (tx_handle (tx_bind (reconcileReceipt F (map fst (filter (\<lambda>r. snd r = h) rows)) h) (\<lambda>_. tx_return 0))
        (\<lambda>_. tx_return 1)) (\<lambda>n.
     tx_bind (reconcile_groups F rows hs) (\<lambda>m. tx_return (n + m)))"

definition reconcileOnce :: "flusher \<Rightarrow> int \<Rightarrow> nat adapter_tx" where
  "reconcileOnce F minAge =
     tx_bind (ListReconcilable (fl_world F) minAge) (\<lambda>rows.
     if rows = [] then tx_return 0
     else tx_bind (tx_get (ranged (fl_world F) (map snd rows))) (reconcile_groups F rows))"

section \<open>Sending\<close>

record InflightTx =
  fx_hash :: bytes32
  fx_ids :: "uuid list"
  fx_msgs :: "adapter_message list"

datatype segmentKind = SegmentWarehouse | SegmentKey

definition segmentOf :: "adapter_message \<Rightarrow> segmentKind" where
  "segmentOf m = (case am_payload m of WarehousePayload _ \<Rightarrow> SegmentWarehouse | KeyPayload _ \<Rightarrow> SegmentKey)"

text \<open>The loop of \<^verbatim>\<open>splitSegments\<close>: the segments so far, the one that is open and its kind.\<close>

primrec split_from :: "adapter_message list list \<Rightarrow> adapter_message list \<Rightarrow> segmentKind \<Rightarrow> adapter_message list
   \<Rightarrow> adapter_message list list" where
  "split_from segs seg kind [] = segs @ [seg]"
| "split_from segs seg kind (m # ms) =
     (if segmentOf m \<noteq> kind then split_from (segs @ [seg]) [m] (segmentOf m) ms
      else split_from segs (seg @ [m]) kind ms)"

definition splitSegments :: "adapter_message list \<Rightarrow> adapter_message list list" where
  "splitSegments msgs = (case msgs of [] \<Rightarrow> [] | m # ms \<Rightarrow> split_from [] [m] (segmentOf m) ms)"

definition warehouseActionsOf :: "adapter_message list \<Rightarrow> chain_warehouse_action list" where
  "warehouseActionsOf msgs = List.map_filter (\<lambda>m. case am_payload m of WarehousePayload a \<Rightarrow> Some a | KeyPayload _ \<Rightarrow> None) msgs"

definition actionsOf :: "adapter_message list \<Rightarrow> chain_key_action list" where
  "actionsOf msgs = List.map_filter (\<lambda>m. case am_payload m of KeyPayload a \<Rightarrow> Some a | WarehousePayload _ \<Rightarrow> None) msgs"

record actionTarget =
  tg_name :: string
  tg_resolver :: "resolver option"
  tg_pack :: "adapter_message list \<Rightarrow> string + bytes"
  tg_gas_floor :: "adapter_message list \<Rightarrow> 64 word"

definition warehouseTarget :: "flusher \<Rightarrow> actionTarget" where
  "warehouseTarget F = \<lparr> tg_name = ''applyActions'', tg_resolver = map_option WarehouseActions (fl_warehouse F),
     tg_pack = (\<lambda>msgs. ab_pack_actions (fl_abi F) (warehouseActionsOf msgs)),
     tg_gas_floor = (\<lambda>msgs. ApplyActionsGasFloor (warehouseActionsOf msgs)) \<rparr>"

definition keyTarget :: "flusher \<Rightarrow> actionTarget" where
  "keyTarget F = \<lparr> tg_name = ''applyKeyActions'', tg_resolver = map_option Registry (fl_registry F),
     tg_pack = (\<lambda>msgs. ab_pack_key_actions (fl_abi F) (actionsOf msgs)),
     tg_gas_floor = (\<lambda>msgs. ApplyKeyActionsGasFloor (actionsOf msgs)) \<rparr>"

definition idsOf :: "adapter_message list \<Rightarrow> uuid list" where
  "idsOf msgs = map am_event msgs"

definition maxActionCalldata :: nat where
  "maxActionCalldata = 120000"

text \<open>The loop of \<^verbatim>\<open>maxActionChunk\<close> at the prefix of length \<open>n\<close>; \<open>data\<close> packs the one before.\<close>

function chunk_from ::
  "adapter_message list \<Rightarrow> nat \<Rightarrow> (adapter_message list \<Rightarrow> string + bytes) \<Rightarrow> nat \<Rightarrow> bytes \<Rightarrow> string + nat \<times> bytes" where
  "chunk_from msgs limit pack n data =
     (if n > length msgs then Inr (length msgs, data)
      else case pack (take n msgs) of
        Inl e \<Rightarrow> if n = 1 then Inl e else Inr (n - 1, data)
      | Inr next \<Rightarrow> if length next > limit then Inr (n - 1, data) else chunk_from msgs limit pack (n + 1) next)"
  by pat_completeness auto
termination
  by (relation "measure (\<lambda>(msgs, limit, pack, n, data). Suc (length msgs) - n)") auto

declare chunk_from.simps [simp del]

definition maxActionChunk ::
  "adapter_message list \<Rightarrow> nat \<Rightarrow> (adapter_message list \<Rightarrow> string + bytes) \<Rightarrow> string + nat \<times> bytes" where
  "maxActionChunk msgs limit pack = chunk_from msgs limit pack 1 []"

text \<open>Which messages of a segment are to be sent; a message with a transaction is only reconciled.\<close>

primrec filter_pending :: "flusher \<Rightarrow> uuid list \<Rightarrow> adapter_message list \<Rightarrow> adapter_message list adapter_tx" where
  "filter_pending F seen [] = tx_return []"
| "filter_pending F seen (m # ms) =
     (let rest = filter_pending F (am_event m # seen) ms in
      if am_event m \<in> set seen then filter_pending F seen ms
      else tx_bind (Exists (fl_world F) (am_event m)) (\<lambda>ok.
        if \<not> ok then
          tx_seq (InsertPending (fl_world F) (am_event m) aggregateSignedAction)
            (tx_bind rest (\<lambda>pending. tx_return (m # pending)))
        else tx_bind (StatusAndTx (fl_world F) (am_event m)) (\<lambda>(status, txHash).
          if status = OnchainCommitted then rest
          else if txHash \<noteq> '''' then tx_bind (reconcileReceipt F [am_event m] txHash) (\<lambda>_. rest)
          else if status = OnchainFailed then rest
          else tx_bind rest (\<lambda>pending. tx_return (m # pending)))))"

definition filterAndMarkPending :: "flusher \<Rightarrow> adapter_message list \<Rightarrow> adapter_message list adapter_tx" where
  "filterAndMarkPending F msgs = filter_pending F [] msgs"

text \<open>An error of \<^verbatim>\<open>Send\<close> comes with the transactions sent so far.\<close>

type_synonym send_tx = "(adapter, InflightTx list \<times> adapter_err, InflightTx list) tx"

abbreviation or_else :: "InflightTx list \<Rightarrow> 'a adapter_tx \<Rightarrow> (adapter, InflightTx list \<times> adapter_err, 'a) tx" where
  "or_else inflight m \<equiv> tx_error (\<lambda>e. (inflight, e)) m"

definition chain_error_text :: "chain_err \<Rightarrow> string" where
  "chain_error_text e = (case e of ErrChainRevert t \<Rightarrow> ''chain revert: '' @ t
     | ErrChainTransient t \<Rightarrow> ''chain transient: '' @ t | ErrSignTx t \<Rightarrow> t)"

definition take_error :: "(adapter, 'e, 'a) tx \<Rightarrow> (adapter, 'f, 'e + 'a) tx" where
  "take_error m = (\<lambda>s. case m s of (r, s') \<Rightarrow> (Inr r, s'))"

text \<open>The loop over what is left to send.\<close>

function send_chunks :: "flusher \<Rightarrow> actionTarget \<Rightarrow> resolver \<Rightarrow> adapter_message list \<Rightarrow> InflightTx list \<Rightarrow> send_tx" where
  "send_chunks F t r pending inflight =
     (case pending of [] \<Rightarrow> tx_return inflight
      | p # rest \<Rightarrow>
        (case maxActionChunk pending maxActionCalldata (tg_pack t) of
           Inl perr \<Rightarrow>
             tx_seq (or_else inflight (recordFailure F [p] [am_event p] '''' perr)) (send_chunks F t r rest inflight)
         | Inr (n, data) \<Rightarrow>
             if n = 0 then
               tx_seq (or_else inflight (recordFailure F [p] [am_event p] '''' ''action exceeds calldata limit''))
                 (send_chunks F t r rest inflight)
             else
               tx_bind (take_error (SendCalldata (fl_world F) (resolver_address r) data (tg_gas_floor t (take n pending)))) (\<lambda>sent.
               case sent of
                 Inl (ErrChainTransient e) \<Rightarrow> tx_fail (inflight, SendTransient (ErrChainTransient e))
               | Inl e \<Rightarrow>
                   tx_seq (or_else inflight (recordFailure F (take n pending) (idsOf (take n pending)) '''' (chain_error_text e)))
                     (send_chunks F t r (drop n pending) inflight)
               | Inr txHash \<Rightarrow>
                   tx_seq (or_else inflight (MarkSent (fl_world F) (idsOf (take n pending)) (Hex32 txHash)))
                     (send_chunks F t r (drop n pending)
                       (inflight @ [\<lparr> fx_hash = txHash, fx_ids = idsOf (take n pending), fx_msgs = take n pending \<rparr>])))))"
  by pat_completeness auto
termination
  by (relation "measure (\<lambda>(F, t, r, pending, inflight). length pending)") auto

declare send_chunks.simps [simp del]

definition sendActions :: "flusher \<Rightarrow> actionTarget \<Rightarrow> adapter_message list \<Rightarrow> InflightTx list \<Rightarrow> send_tx" where
  "sendActions F t msgs inflight =
     tx_bind (or_else inflight (filterAndMarkPending F msgs)) (\<lambda>pending.
     if pending = [] then tx_return inflight
     else case tg_resolver t of
       None \<Rightarrow> tx_seq (or_else inflight (recordFailure F pending (idsOf pending) '''' (tg_name t @ '': contract not configured'')))
                 (tx_return inflight)
     | Some r \<Rightarrow> send_chunks F t r pending inflight)"

primrec send_segments :: "flusher \<Rightarrow> adapter_message list list \<Rightarrow> InflightTx list \<Rightarrow> send_tx" where
  "send_segments F [] inflight = tx_return inflight"
| "send_segments F (seg # segs) inflight =
     tx_bind (case segmentOf (hd seg) of
         SegmentWarehouse \<Rightarrow> sendActions F (warehouseTarget F) seg inflight
       | SegmentKey \<Rightarrow> sendActions F (keyTarget F) seg inflight) (send_segments F segs)"

definition Send :: "flusher \<Rightarrow> adapter_message list \<Rightarrow> send_tx" where
  "Send F msgs = send_segments F (splitSegments msgs) []"

section \<open>Confirming\<close>

definition Confirm :: "flusher \<Rightarrow> InflightTx \<Rightarrow> unit adapter_tx" where
  "Confirm F t =
     tx_bind (tx_error ConfirmStalled (WaitReceipt (fl_world F) (fx_hash t) (fl_timeout F))) (\<lambda>receipt.
     if rt_status receipt = 0
     then recordFailure F (fx_msgs t) (fx_ids t) (Hex32 (fx_hash t)) ''execution reverted''
     else applyActionOutcomes F receipt (fx_ids t) (Hex32 (fx_hash t)))"

text \<open>The serial path: a stalled transaction is recorded as a failure.\<close>

definition stall_text :: "InflightTx \<Rightarrow> wait_err \<Rightarrow> string" where
  "stall_text t w = ''confirm stalled: tx '' @ Hex32 (fx_hash t) @ '': '' @
     (case w of ReceiptTimeout \<Rightarrow> ''receipt timeout for '' @ Hex32 (fx_hash t) @ '': context deadline exceeded''
      | FetchReceipt e \<Rightarrow> ''fetch receipt '' @ Hex32 (fx_hash t) @ '': '' @ e)"

primrec flush_all :: "flusher \<Rightarrow> InflightTx list \<Rightarrow> unit adapter_tx" where
  "flush_all F [] = tx_return ()"
| "flush_all F (t # ts) =
     tx_seq (tx_handle (Confirm F t) (\<lambda>e. case e of
         ConfirmStalled w \<Rightarrow> recordFailure F (fx_msgs t) (fx_ids t) (Hex32 (fx_hash t)) (stall_text t w)
       | _ \<Rightarrow> tx_fail e)) (flush_all F ts)"

definition FlushMessages :: "flusher \<Rightarrow> adapter_message list \<Rightarrow> unit adapter_tx" where
  "FlushMessages F msgs =
     tx_bind (take_error (Send F msgs)) (\<lambda>sent.
     case sent of Inr inflight \<Rightarrow> flush_all F inflight
     | Inl (inflight, e) \<Rightarrow> tx_seq (flush_all F inflight) (tx_fail e))"

end
