(* ===== verification/ConsumerLoop.thy ===== *)
theory ConsumerLoop
  imports Consumer
begin

text \<open>
  The loop of \<^verbatim>\<open>consumer.go\<close> with its \<^verbatim>\<open>batcher.go\<close> and \<^verbatim>\<open>pipeline.go\<close> as a step
  relation. The goroutine that reads Kafka and the collector that confirms batches are
  interleaved; one \<^verbatim>\<open>Send\<close>, one confirmation of a batch and one publication are one step
  each. A \<^verbatim>\<open>Submit\<close> that waits for room in the window is a pending \<open>todo\<close>.
\<close>

section \<open>The batcher\<close>

record Batcher =
  ba_max :: nat
  ba_timeout :: int
  ba_msgs :: "adapter_message list"
  ba_first :: timestamp

definition NewBatcher :: "nat \<Rightarrow> int \<Rightarrow> Batcher" where
  "NewBatcher maxSize timeout = \<lparr> ba_max = maxSize, ba_timeout = timeout, ba_msgs = [], ba_first = 0 \<rparr>"

definition Add :: "timestamp \<Rightarrow> adapter_message \<Rightarrow> Batcher \<Rightarrow> Batcher" where
  "Add now m b = b\<lparr>ba_first := if ba_msgs b = [] then now else ba_first b, ba_msgs := ba_msgs b @ [m]\<rparr>"

definition ShouldFlush :: "timestamp \<Rightarrow> Batcher \<Rightarrow> bool" where
  "ShouldFlush now b \<longleftrightarrow> ba_msgs b \<noteq> [] \<and> (length (ba_msgs b) \<ge> ba_max b \<or> now - ba_first b \<ge> ba_timeout b)"

definition Drain :: "Batcher \<Rightarrow> adapter_message list \<times> Batcher" where
  "Drain b = (ba_msgs b, b\<lparr>ba_msgs := [], ba_first := 0\<rparr>)"

definition Unshift :: "timestamp \<Rightarrow> adapter_message list \<Rightarrow> Batcher \<Rightarrow> Batcher" where
  "Unshift now msgs b = (if msgs = [] then b else b\<lparr>ba_msgs := msgs @ ba_msgs b, ba_first := now\<rparr>)"

section \<open>The pipeline\<close>

record drainedBatch =
  bt_txs :: "InflightTx list"
  bt_msgs :: "kafka_message list"

definition is_stall :: "adapter_err \<Rightarrow> bool" where
  "is_stall e = (case e of ConfirmStalled _ \<Rightarrow> True | _ \<Rightarrow> False)"

text \<open>Every transaction of a batch is confirmed, in the order the goroutines happen to run; errors are collected.\<close>

primrec confirm_each :: "flusher \<Rightarrow> InflightTx list \<Rightarrow> nat list \<Rightarrow> (nat \<times> (adapter_err + unit)) list adapter_tx" where
  "confirm_each F txs [] = tx_return []"
| "confirm_each F txs (i # is) =
     tx_bind (take_error (Confirm F (txs ! i))) (\<lambda>r.
     tx_bind (confirm_each F txs is) (\<lambda>rs. tx_return ((i, r) # rs)))"

definition first_error :: "(nat \<times> (adapter_err + unit)) list \<Rightarrow> adapter_err option" where
  "first_error results =
     (case List.map_filter (\<lambda>(i, r). case r of Inl e \<Rightarrow> Some e | Inr _ \<Rightarrow> None) (sort_key fst results) of
        [] \<Rightarrow> None
      | es \<Rightarrow> Some (if list_ex is_stall es then PipelineStalled else hd es))"

definition confirmAndCommit :: "flusher \<Rightarrow> drainedBatch \<Rightarrow> unit adapter_tx" where
  "confirmAndCommit F b =
     tx_seq (if bt_txs b = [] then tx_return ()
             else tx_bind (tx_get (\<lambda>s. range_order (fl_world F) (ad_calls s) (length (bt_txs b)))) (\<lambda>order.
                  tx_bind (confirm_each F (bt_txs b) order) (\<lambda>results.
                  case first_error results of None \<Rightarrow> tx_return () | Some e \<Rightarrow> tx_fail e)))
       (ext (\<lambda>n. if wo_commit (fl_world F) n then Inr () else Inl CommitFault))"

section \<open>The loop\<close>

datatype todo = SubmitBatch drainedBatch | DeadLetter kafka_message parse_err

record pump =
  pu_adapter :: adapter
  pu_batcher :: Batcher
  pu_todo :: "todo list"
  pu_queue :: "drainedBatch list"
  pu_dead :: bool
  pu_stopped :: bool
  pu_fetched :: "kafka_message list"
  pu_commits :: "kafka_message list"

definition clock_now :: "flusher \<Rightarrow> pump \<Rightarrow> timestamp" where
  "clock_now F p = wo_now (fl_world F) (ad_calls (pu_adapter p))"

definition drainSendSubmit :: "flusher \<Rightarrow> pump \<Rightarrow> pump" where
  "drainSendSubmit F p =
     (let (msgs, b) = Drain (pu_batcher p) in
      if msgs = [] then p\<lparr>pu_batcher := b\<rparr>
      else case Send F msgs (pu_adapter p) of
        (Inl _, a) \<Rightarrow> p\<lparr>pu_adapter := a, pu_batcher := Unshift (clock_now F (p\<lparr>pu_adapter := a\<rparr>)) msgs b\<rparr>
      | (Inr inflight, a) \<Rightarrow> p\<lparr>pu_adapter := a, pu_batcher := b,
          pu_todo := pu_todo p @ [SubmitBatch \<lparr> bt_txs = inflight, bt_msgs = map am_kafka msgs \<rparr>]\<rparr>)"

definition onMessage :: "flusher \<Rightarrow> crypto \<Rightarrow> codec \<Rightarrow> kafka_message \<Rightarrow> pump \<Rightarrow> pump" where
  "onMessage F X K m p =
     (let p = p\<lparr>pu_fetched := pu_fetched p @ [m]\<rparr> in
      case ParseMessage X K m of
        Inl e \<Rightarrow> (let p = drainSendSubmit F p in p\<lparr>pu_todo := pu_todo p @ [DeadLetter m e]\<rparr>)
      | Inr a \<Rightarrow>
          (let p = p\<lparr>pu_batcher := Add (clock_now F p) a (pu_batcher p)\<rparr> in
           if ShouldFlush (clock_now F p) (pu_batcher p) then drainSendSubmit F p else p))"

inductive consumer_step :: "flusher \<Rightarrow> crypto \<Rightarrow> codec \<Rightarrow> nat \<Rightarrow> pump \<Rightarrow> pump \<Rightarrow> bool"
  for F :: flusher and X :: crypto and K :: codec and window :: nat where
  Fetch: "\<not> pu_stopped p \<Longrightarrow> pu_todo p = [] \<Longrightarrow> consumer_step F X K window p (onMessage F X K m p)"
| Tick: "\<not> pu_stopped p \<Longrightarrow> pu_todo p = [] \<Longrightarrow> ShouldFlush (clock_now F p) (pu_batcher p) \<Longrightarrow>
    consumer_step F X K window p (drainSendSubmit F p)"
| Submit: "\<not> pu_stopped p \<Longrightarrow> pu_todo p = SubmitBatch b # t \<Longrightarrow> \<not> pu_dead p \<Longrightarrow> length (pu_queue p) < max 1 window \<Longrightarrow>
    consumer_step F X K window p (p\<lparr>pu_todo := t, pu_queue := pu_queue p @ [b]\<rparr>)"
| SubmitToDead: "\<not> pu_stopped p \<Longrightarrow> pu_todo p = SubmitBatch b # t \<Longrightarrow> pu_dead p \<Longrightarrow>
    consumer_step F X K window p (p\<lparr>pu_stopped := True\<rparr>)"
| CollectorDied: "\<not> pu_stopped p \<Longrightarrow> pu_todo p = [] \<Longrightarrow> pu_dead p \<Longrightarrow> consumer_step F X K window p (p\<lparr>pu_stopped := True\<rparr>)"
| Published: "\<not> pu_stopped p \<Longrightarrow> pu_todo p = DeadLetter m e # t \<Longrightarrow>
    PublishAll (fl_world F) [m] (ParseFailed e) (pu_adapter p) = (Inr (), a) \<Longrightarrow>
    consumer_step F X K window p (p\<lparr>pu_adapter := a, pu_todo := SubmitBatch \<lparr> bt_txs = [], bt_msgs = [m] \<rparr> # t\<rparr>)"
| NotPublished: "\<not> pu_stopped p \<Longrightarrow> pu_todo p = DeadLetter m e # t \<Longrightarrow>
    PublishAll (fl_world F) [m] (ParseFailed e) (pu_adapter p) = (Inl err, a) \<Longrightarrow>
    consumer_step F X K window p (p\<lparr>pu_adapter := a, pu_todo := t\<rparr>)"
| Collected: "\<not> pu_dead p \<Longrightarrow> pu_queue p = b # q \<Longrightarrow> confirmAndCommit F b (pu_adapter p) = (Inr (), a) \<Longrightarrow>
    consumer_step F X K window p (p\<lparr>pu_adapter := a, pu_queue := q, pu_commits := pu_commits p @ bt_msgs b\<rparr>)"
| CollectorFails: "\<not> pu_dead p \<Longrightarrow> pu_queue p = b # q \<Longrightarrow> confirmAndCommit F b (pu_adapter p) = (Inl err, a) \<Longrightarrow>
    consumer_step F X K window p (p\<lparr>pu_adapter := a, pu_queue := q, pu_dead := True\<rparr>)"
| Reconcile: "consumer_step F X K window p (p\<lparr>pu_adapter := snd (reconcileOnce F minAge (pu_adapter p))\<rparr>)"

text \<open>A process that starts: nothing in memory, the mirror and the topics as they were.\<close>

definition started :: "adapter \<Rightarrow> nat \<Rightarrow> int \<Rightarrow> pump" where
  "started a maxSize timeout = \<lparr> pu_adapter = a\<lparr>ad_seeded := False\<rparr>, pu_batcher = NewBatcher maxSize timeout, pu_todo = [],
     pu_queue = [], pu_dead = False, pu_stopped = False, pu_fetched = [], pu_commits = [] \<rparr>"

abbreviation consumer_runs :: "flusher \<Rightarrow> crypto \<Rightarrow> codec \<Rightarrow> nat \<Rightarrow> pump \<Rightarrow> pump \<Rightarrow> bool" where
  "consumer_runs F X K window \<equiv> (consumer_step F X K window)\<^sup>*\<^sup>*"

inductive_cases consumer_stepE: "consumer_step F X K window p p'"

end
