(* ===== verification/ConsumerFlow.thy ===== *)
theory ConsumerFlow
  imports ConsumerLoop
begin

text \<open>
  What the adapter guarantees: the mirror only moves forward, a batch is sent in the order
  of Kafka and in chunks that fit, what has been sent is never sent again, and an offset is
  committed only for messages that have left a trace.
\<close>

section \<open>The mirror moves forward\<close>

definition has_tx :: "onchain_event \<Rightarrow> bool" where
  "has_tx e \<longleftrightarrow> oe_tx e \<noteq> None \<and> oe_tx e \<noteq> Some ''''"

text \<open>A row that will not be lost: it is decided, or the reconcile loop will find it.\<close>

definition recorded :: "onchain_event \<Rightarrow> bool" where
  "recorded e \<longleftrightarrow> has_tx e \<or> oe_status e = OnchainCommitted \<or> oe_status e = OnchainFailed"

definition event_step :: "onchain_event \<Rightarrow> onchain_event \<Rightarrow> bool" where
  "event_step e f \<longleftrightarrow> oe_event f = oe_event e \<and> oe_aggregate f = oe_aggregate e
     \<and> (oe_status e = OnchainCommitted \<longrightarrow> oe_status f = OnchainCommitted \<and> oe_tx f = oe_tx e
          \<and> oe_reject f = oe_reject e \<and> oe_error f = oe_error e)
     \<and> (oe_status e \<noteq> OnchainPending \<longrightarrow> oe_status f \<noteq> OnchainPending)
     \<and> (has_tx e \<longrightarrow> has_tx f) \<and> (recorded e \<longrightarrow> recorded f)"

definition adapter_forward :: "adapter \<Rightarrow> adapter \<Rightarrow> bool" where
  "adapter_forward s s' \<longleftrightarrow> grows event_step (ad_events s) (ad_events s')
     \<and> (\<exists>d. ad_dlq s' = ad_dlq s @ d) \<and> (\<exists>t. ad_sent s' = ad_sent s @ t) \<and> ad_calls s \<le> ad_calls s'"

lemma event_step_refl [simp]: "event_step e e"
  by (simp add: event_step_def)

lemma event_step_trans: "event_step a b \<Longrightarrow> event_step b c \<Longrightarrow> event_step a c"
  by (auto simp: event_step_def)

lemma adapter_forward_refl [simp]: "adapter_forward s s"
  by (simp add: adapter_forward_def grows_refl)

lemma adapter_forward_trans:
  assumes "adapter_forward s t" "adapter_forward t u" shows "adapter_forward s u"
proof -
  have "grows event_step (ad_events s) (ad_events u)"
    using assms unfolding adapter_forward_def by (blast intro: grows_trans event_step_trans)
  then show ?thesis using assms unfolding adapter_forward_def by auto
qed

interpretation af: tx_preorder adapter_forward
  by unfold_locales (simp, rule adapter_forward_trans)

named_theorems adapter_rules "operations of the adapter under adapter_forward"

lemma tx_error_rel [tx_rules]: "tx_rel R m \<Longrightarrow> tx_rel R (tx_error g m)"
  by (auto simp: tx_error_def tx_rel_def tx_handle_apply tx_simps split: sum.splits)

lemma take_error_rel [tx_rules]: "tx_rel R m \<Longrightarrow> tx_rel R (take_error m)"
  by (auto simp: tx_rel_def take_error_def split: prod.splits) (metis snd_conv)

lemma ext_forward [tx_rules]: "tx_rel adapter_forward (ext f)"
  by (simp add: tx_rel_def ext_def adapter_forward_def grows_refl)

lemma store_call_forward [tx_rules]: "tx_rel adapter_forward m \<Longrightarrow> tx_rel adapter_forward (store_call W m)"
  unfolding store_call_def by (intro tx_rules)

lemma modify_forward: "(\<And>s. adapter_forward s (g s)) \<Longrightarrow> tx_rel adapter_forward (tx_modify g)"
  by (simp add: tx_rel_def tx_simps)

lemma events_update_forward:
  "(\<And>now e. P e \<Longrightarrow> event_step e (f now e)) \<Longrightarrow> tx_rel adapter_forward (events_update W P f)"
  unfolding events_update_def
  by (intro tx_rules modify_forward) (auto simp: adapter_forward_def intro!: grows_update)

lemma store_forward [tx_rules]:
  "tx_rel adapter_forward (Exists W i)" "tx_rel adapter_forward (InsertPending W i a)"
  "tx_rel adapter_forward (StatusAndTx W i)" "tx_rel adapter_forward (ListReconcilable W age)"
  "h \<noteq> '''' \<Longrightarrow> tx_rel adapter_forward (MarkSent W ids h)"
  "tx_rel adapter_forward (MarkCommitted W ids)" "tx_rel adapter_forward (MarkFailed W ids h reason)"
  "tx_rel adapter_forward (MarkRejected W ids h r)"
  unfolding Exists_def InsertPending_def StatusAndTx_def ListReconcilable_def MarkSent_def MarkCommitted_def
    MarkFailed_def MarkRejected_def
  by (intro tx_rules modify_forward events_update_forward;
      auto simp: adapter_forward_def grows_refl event_step_def recorded_def has_tx_def keep_tx_def intro!: grows_append)+

lemma PublishAll_forward [tx_rules]: "tx_rel adapter_forward (PublishAll W ms r)"
  unfolding PublishAll_def by (intro tx_rules modify_forward) (simp add: adapter_forward_def grows_refl)

lemma recordFailure_forward [tx_rules]: "tx_rel adapter_forward (recordFailure F ps ids h r)"
  unfolding recordFailure_def by (intro tx_rules)

lemma chain_reads_forward [tx_rules]:
  "tx_rel adapter_forward (actionState W A r i)" "tx_rel adapter_forward (rejectedReason W A r i)"
  "tx_rel adapter_forward (StateOutcome W A r i)"
  unfolding StateOutcome_def actionState_def rejectedReason_def by (intro tx_rules)+

lemma wait_receipt_forward: "adapter_forward s (snd (wait_receipt W h timeout i elapsed s))"
proof (induction W h timeout i elapsed s rule: wait_receipt.induct)
  case (1 W h timeout i elapsed s)
  have t: "adapter_forward s (s\<lparr>ad_calls := ad_calls s + 1\<rparr>)" by (simp add: adapter_forward_def grows_refl)
  show ?case
    using 1 by (subst wait_receipt.simps) (auto simp: Let_def t split: sum.splits receipt_err.splits intro: adapter_forward_trans [OF t])
qed

lemma WaitReceipt_forward [tx_rules]: "tx_rel adapter_forward (WaitReceipt W h timeout)"
  by (simp add: tx_rel_def WaitReceipt_def wait_receipt_forward)

lemma reseed_forward [tx_rules]: "tx_rel adapter_forward (reseedLocked W)"
  unfolding reseedLocked_def by (intro tx_rules modify_forward) (simp add: adapter_forward_def grows_refl)

lemma send_calldata_forward [tx_rules]: "tx_rel adapter_forward (send_calldata W a d l g)"
  unfolding send_calldata_def Let_def split_def
  by (intro tx_rules modify_forward) (simp_all add: adapter_forward_def grows_refl)

lemma SendCalldata_forward [tx_rules]: "tx_rel adapter_forward (SendCalldata W a d g)"
  unfolding SendCalldata_def by (intro tx_rules)

lemma state_of_action_forward [tx_rules]: "tx_rel adapter_forward (state_of_action F i rs)"
  by (induction rs) (auto intro!: tx_rules)

lemma fill_outcomes_forward [tx_rules]: "tx_rel adapter_forward (fill_outcomes F rs ids os)"
  by (induction ids arbitrary: os) (auto intro!: tx_rules)

lemma applyActionOutcomes_forward [tx_rules]: "tx_rel adapter_forward (applyActionOutcomes F r ids h)"
  unfolding applyActionOutcomes_def resolveActionOutcomes_def Let_def by (intro tx_rules)

lemma reconcileReceipt_run:
  "reconcileReceipt F ids h s =
     (case wo_receipt (fl_world F) (ad_calls s) (ab_hex_to_hash (fl_abi F) h) of
        Inl ReceiptNotFound \<Rightarrow> (Inr False, s\<lparr>ad_calls := ad_calls s + 1\<rparr>)
      | Inl (ReceiptRpc e) \<Rightarrow> (Inl (ReceiptFault e), s\<lparr>ad_calls := ad_calls s + 1\<rparr>)
      | Inr receipt \<Rightarrow>
          if rt_status receipt = 1
          then tx_seq (applyActionOutcomes F receipt ids h) (tx_return True) (s\<lparr>ad_calls := ad_calls s + 1\<rparr>)
          else tx_seq (MarkFailed (fl_world F) ids h ''reconcile: tx reverted on-chain'') (tx_return True)
                 (s\<lparr>ad_calls := ad_calls s + 1\<rparr>))"
  by (simp add: reconcileReceipt_def ext_def split: sum.split receipt_err.split)

lemma reconcileReceipt_forward [tx_rules]: "tx_rel adapter_forward (reconcileReceipt F ids h)"
proof -
  have one: "adapter_forward s (s\<lparr>ad_calls := ad_calls s + 1\<rparr>)" for s :: adapter by (simp add: adapter_forward_def grows_refl)
  have "tx_rel adapter_forward (tx_seq (applyActionOutcomes F r ids h) (tx_return True))"
    "tx_rel adapter_forward (tx_seq (MarkFailed (fl_world F) ids h e) (tx_return True))" for r e
    by (intro tx_rules)+
  then show ?thesis
    unfolding tx_rel_def reconcileReceipt_run
    by (auto simp: one split: sum.split receipt_err.split intro: adapter_forward_trans [OF one])
qed

lemma reconcile_forward [tx_rules]:
  "tx_rel adapter_forward (reconcile_groups F rows hs)" "tx_rel adapter_forward (reconcileOnce F age)"
proof -
  show g: "tx_rel adapter_forward (reconcile_groups F rows hs)" for rows hs
    by (induction hs) (auto intro!: tx_rules)
  show "tx_rel adapter_forward (reconcileOnce F age)"
    unfolding reconcileOnce_def by (intro tx_rules g)
qed

lemma filter_pending_forward [tx_rules]: "tx_rel adapter_forward (filter_pending F seen ms)"
  by (induction ms arbitrary: seen) (auto simp: Let_def split_def intro!: tx_rules)

lemma Hex32_nonempty [simp]: "Hex32 h \<noteq> ''''"
  by (simp add: Hex32_def)

lemma or_else_forward: "tx_rel R m \<Longrightarrow> tx_rel R (or_else l m)"
  by (rule tx_error_rel)

text \<open>What the loop of \<open>send_chunks\<close> does once the node has answered for the first \<open>n\<close> messages.\<close>

abbreviation after_send where
  "after_send F t r pending infl n sent \<equiv> (case sent of
       Inl (ErrChainTransient e) \<Rightarrow> tx_fail (infl, SendTransient (ErrChainTransient e))
     | Inl e \<Rightarrow>
         tx_seq (or_else infl (recordFailure F (take n pending) (idsOf (take n pending)) '''' (chain_error_text e)))
           (send_chunks F t r (drop n pending) infl)
     | Inr txHash \<Rightarrow>
         tx_seq (or_else infl (MarkSent (fl_world F) (idsOf (take n pending)) (Hex32 txHash)))
           (send_chunks F t r (drop n pending)
             (infl @ [\<lparr> fx_hash = txHash, fx_ids = idsOf (take n pending), fx_msgs = take n pending \<rparr>])))"

lemma maxActionChunk_le: "maxActionChunk msgs limit pack = Inr (n, data) \<Longrightarrow> n \<le> length msgs"
proof -
  have "chunk_from msgs limit pack k d = Inr (n, data) \<Longrightarrow> k \<le> Suc (length msgs) \<Longrightarrow> n \<le> length msgs" for k d
    by (induction msgs limit pack k d rule: chunk_from.induct)
      (subst (asm) (2) chunk_from.simps, auto split: if_splits sum.splits)
  then show "maxActionChunk msgs limit pack = Inr (n, data) \<Longrightarrow> n \<le> length msgs"
    by (simp add: maxActionChunk_def)
qed

text \<open>One round of the loop: nothing left, a message that cannot be packed, or a chunk that is sent.\<close>

lemma send_chunks_cases:
  obtains (Done) "pending = []" "send_chunks F t r pending infl = tx_return infl"
  | (Unsendable) p rest reason where "pending = p # rest"
      "send_chunks F t r pending infl =
         tx_seq (or_else infl (recordFailure F [p] [am_event p] '''' reason)) (send_chunks F t r rest infl)"
  | (Chunk) n data where "0 < n" "n \<le> length pending" "maxActionChunk pending maxActionCalldata (tg_pack t) = Inr (n, data)"
      "send_chunks F t r pending infl =
         tx_bind (take_error (SendCalldata (fl_world F) (resolver_address r) data (tg_gas_floor t (take n pending))))
           (after_send F t r pending infl n)"
proof (cases pending)
  case Nil
  then show thesis using Done by (simp add: send_chunks.simps)
next
  case (Cons p rest)
  show thesis
  proof (cases "maxActionChunk pending maxActionCalldata (tg_pack t)")
    case (Inl e)
    have "send_chunks F t r pending infl =
         tx_seq (or_else infl (recordFailure F [p] [am_event p] '''' e)) (send_chunks F t r rest infl)"
      using Inl Cons by (subst send_chunks.simps) simp
    then show thesis using Cons Unsendable by blast
  next
    case (Inr nd)
    obtain n data where nd: "nd = (n, data)" by (cases nd)
    show thesis
    proof (cases "n = 0")
      case True
      have "send_chunks F t r pending infl =
         tx_seq (or_else infl (recordFailure F [p] [am_event p] '''' ''action exceeds calldata limit'')) (send_chunks F t r rest infl)"
        using Inr nd True Cons by (subst send_chunks.simps) simp
      then show thesis using Cons Unsendable by blast
    next
      case False
      have "send_chunks F t r pending infl =
         tx_bind (take_error (SendCalldata (fl_world F) (resolver_address r) data (tg_gas_floor t (take n pending))))
           (after_send F t r pending infl n)"
        using Inr nd False Cons by (subst send_chunks.simps) simp
      then show thesis
        using False Inr nd maxActionChunk_le [of pending maxActionCalldata "tg_pack t" n data] Chunk [of n data] by simp
    qed
  qed
qed

lemma send_chunks_forward [tx_rules]: "tx_rel adapter_forward (send_chunks F t r pending infl)"
proof (induction pending arbitrary: infl rule: length_induct)
  case (1 pending)
  show ?case
  proof (cases rule: send_chunks_cases [of pending F t r infl])
    case Done
    then show ?thesis by (simp add: tx_rules)
  next
    case (Unsendable p rest reason)
    then have "tx_rel adapter_forward (send_chunks F t r rest x)" for x using 1 by simp
    then show ?thesis unfolding Unsendable(2) by (intro tx_rules)
  next
    case (Chunk n data)
    then have "tx_rel adapter_forward (send_chunks F t r (drop n pending) x)" for x using 1 by simp
    then have "tx_rel adapter_forward (after_send F t r pending infl n sent)" for sent
      by (auto split: sum.split chain_err.split intro!: tx_rules)
    then show ?thesis unfolding Chunk(4) by (rule af.rel_bind [OF take_error_rel [OF SendCalldata_forward]])
  qed
qed

lemma Send_forward [tx_rules]: "tx_rel adapter_forward (Send F ms)"
proof -
  have "tx_rel adapter_forward (sendActions F t ms infl)" for t ms infl
    unfolding sendActions_def filterAndMarkPending_def by (intro tx_rules)
  then have "tx_rel adapter_forward (send_segments F segs infl)" for segs infl
    by (induction segs arbitrary: infl) (auto split: segmentKind.split intro!: tx_rules)
  then show ?thesis by (simp add: Send_def)
qed

lemma Confirm_forward [tx_rules]: "tx_rel adapter_forward (Confirm F t)"
  unfolding Confirm_def by (intro tx_rules)

lemma FlushMessages_forward [tx_rules]: "tx_rel adapter_forward (FlushMessages F ms)"
proof -
  have "tx_rel adapter_forward (flush_all F ts)" for ts
    by (induction ts) (auto split: adapter_err.split intro!: tx_rules)
  then show ?thesis
    unfolding FlushMessages_def by (auto split: sum.split intro!: tx_rules)
qed

lemma confirmAndCommit_forward [tx_rules]: "tx_rel adapter_forward (confirmAndCommit F b)"
proof -
  have "tx_rel adapter_forward (confirm_each F txs is)" for txs "is"
    by (induction "is") (auto intro!: tx_rules)
  then show ?thesis unfolding confirmAndCommit_def by (intro tx_rules)
qed

lemma drainSendSubmit_forward: "adapter_forward (pu_adapter p) (pu_adapter (drainSendSubmit F p))"
proof (cases "ba_msgs (pu_batcher p) = []")
  case False
  obtain r a where r: "Send F (ba_msgs (pu_batcher p)) (pu_adapter p) = (r, a)" by fastforce
  then have "adapter_forward (pu_adapter p) a" by (rule tx_relD [OF Send_forward])
  then show ?thesis using False r by (cases r) (auto simp: drainSendSubmit_def Drain_def)
qed (simp add: drainSendSubmit_def Drain_def)

lemma onMessage_forward: "adapter_forward (pu_adapter p) (pu_adapter (onMessage F X K m p))"
  using drainSendSubmit_forward [of "p\<lparr>pu_fetched := pu_fetched p @ [m]\<rparr>" F]
    drainSendSubmit_forward [of "p\<lparr>pu_fetched := pu_fetched p @ [m], pu_batcher := b\<rparr>" F for b]
  by (auto simp: onMessage_def Let_def split: sum.split)

lemma consumer_step_forward: "consumer_step F X K w p p' \<Longrightarrow> adapter_forward (pu_adapter p) (pu_adapter p')"
  by (induction rule: consumer_step.induct)
    (auto dest: tx_relD [OF PublishAll_forward] tx_relD [OF confirmAndCommit_forward]
      simp: drainSendSubmit_forward onMessage_forward reconcile_forward(2) [unfolded tx_rel_def, rule_format])

lemma runs_forward: "consumer_runs F X K w p p' \<Longrightarrow> adapter_forward (pu_adapter p) (pu_adapter p')"
  by (induction rule: rtranclp_induct) (auto dest: consumer_step_forward intro: adapter_forward_trans)

section \<open>A small world\<close>

text \<open>A node, a broker and a database that always answer; one contract, and a receipt that applies action 65.\<close>

definition demo_world :: world where
  "demo_world = \<lparr> wo_nonce = (\<lambda>_. Inr 4), wo_price = (\<lambda>_. Inr 1), wo_estimate = (\<lambda>_ _ _. Inr 21000),
     wo_chain_id = (\<lambda>_. Inr 1337), wo_sign = (\<lambda>_ _. Inr 99), wo_submit = (\<lambda>_ _. Inr ()),
     wo_receipt = (\<lambda>_ _. Inr \<lparr> rt_status = 1, rt_logs = [\<lparr> lg_address = 5, lg_topics = [1, uuid_topic 65], lg_data = [] \<rparr>] \<rparr>),
     wo_latency = (\<lambda>_. 0), wo_call = (\<lambda>_ _ _. Inl ''''), wo_logs = (\<lambda>_ _ _ _. Inr []), wo_db = (\<lambda>_. True), wo_dlq = (\<lambda>_. True),
     wo_commit = (\<lambda>_. True), wo_now = int, wo_range = (\<lambda>_ n. [0..<n]) \<rparr>"

definition demo_abi :: abi where
  "demo_abi = \<lparr> ab_wms_applied = 1, ab_wms_rejected = 2, ab_key_registered = 3, ab_key_revoked = 4, ab_registry_rejected = 5,
     ab_reject_reason = (\<lambda>_. None), ab_key_event = (\<lambda>_ _. None), ab_pack_state = (\<lambda>_. None), ab_unpack_state = (\<lambda>_. None),
     ab_pack_actions = (\<lambda>as. Inr (replicate (length as) 7)), ab_pack_key_actions = (\<lambda>as. Inr (replicate (length as) 8)),
     ab_hex_to_hash = (\<lambda>_. 99) \<rparr>"

definition demo_flusher :: flusher where
  "demo_flusher = \<lparr> fl_world = demo_world, fl_abi = demo_abi, fl_warehouse = Some 5, fl_registry = None, fl_timeout = 1000 \<rparr>"

definition demo_adapter :: adapter where
  "demo_adapter = \<lparr> ad_events = [], ad_dlq = [], ad_sent = [], ad_lost = [], ad_nonce = 0, ad_seeded = False, ad_calls = 0 \<rparr>"

definition demo_call :: chain_warehouse_action where
  "demo_call = \<lparr> wx_action = 65, wx_type = 1, wx_items = [], wx_details_hash = 0, wx_key = 0,
     wx_auth = \<lparr> wb_r = 0, wb_s = 0, wb_challenge_index = 0, wb_type_index = 0, wb_authenticator_data = [], wb_client_data_json = '''' \<rparr> \<rparr>"

definition demo_envelope :: ActionEnvelope where
  "demo_envelope = \<lparr> nv_version = 1, nv_action_id = ''A'', nv_action_type = 1, nv_item_ids = [], nv_details_hash = Hex32 0,
     nv_subject_key = None, nv_key_id = Hex32 0,
     nv_webauthn = \<lparr> ew_authenticator_data = ''0x'', ew_client_data_json = '''', ew_challenge_index = 0, ew_type_index = 0,
       ew_r = Hex32 0, ew_s = Hex32 0 \<rparr> \<rparr>"

definition demo_reader :: codec where
  "demo_reader = \<lparr> cc_uuid = (\<lambda>s. case s of [c] \<Rightarrow> Some (of_char c) | _ \<Rightarrow> None), cc_json_string = Some, cc_json_envelope = (\<lambda>_. Some demo_envelope) \<rparr>"

text \<open>A message that parses, and one that has no headers.\<close>

definition demo_good :: kafka_message where
  "demo_good = \<lparr> km_topic = ''t'', km_partition = 0, km_offset = 7, km_key = ''A'', km_value = '''',
     km_headers = [(''id'', ''A''), (''aggregate_type'', ''signed_action'')] \<rparr>"

definition demo_bad :: kafka_message where
  "demo_bad = \<lparr> km_topic = ''t'', km_partition = 0, km_offset = 8, km_key = ''B'', km_value = '''', km_headers = [] \<rparr>"

lemma demo_parse_bad: "ParseMessage X K demo_bad = Inl MissingIdHeader"
  by (simp add: ParseMessage_def demo_bad_def headerValue_def)

lemma demo_parse_good: "ParseMessage X demo_reader demo_good = Inr \<lparr> am_event = 65, am_payload = WarehousePayload demo_call, am_kafka = demo_good \<rparr>"
proof -
  have "of_char (CHR ''A'') = (65 :: uuid)" by code_simp
  then show ?thesis
  apply (simp add: ParseMessage_def parseSignedAction_def demo_good_def headerValue_def aggregateSignedAction_def demo_reader_def Let_def
      demo_envelope_def action_types toWarehouseAction_def authOf_def decodeHex32_Hex32 decodeHex_def has_prefix_def demo_call_def)
  done
qed

lemma demo_world_sel:
  "wo_nonce demo_world n = Inr 4" "wo_price demo_world n = Inr 1" "wo_estimate demo_world n a d = Inr 21000"
  "wo_chain_id demo_world n = Inr 1337" "wo_sign demo_world n c = Inr 99" "wo_submit demo_world n c = Inr ()"
  "wo_receipt demo_world n h = Inr \<lparr> rt_status = 1, rt_logs = [\<lparr> lg_address = 5, lg_topics = [1, uuid_topic 65], lg_data = [] \<rparr>] \<rparr>"
  "wo_db demo_world n" "wo_dlq demo_world n" "wo_commit demo_world n" "wo_now demo_world n = int n" "range_order demo_world n k = [0..<k]" "wo_latency demo_world n = 0"
  by (simp_all add: demo_world_def range_order_def)

lemma demo_flusher_sel:
  "fl_world demo_flusher = demo_world" "fl_abi demo_flusher = demo_abi" "fl_warehouse demo_flusher = Some 5"
  "fl_registry demo_flusher = None" "fl_timeout demo_flusher = 1000"
  by (simp_all add: demo_flusher_def)

abbreviation demo_message :: adapter_message where
  "demo_message \<equiv> \<lparr> am_event = 65, am_payload = WarehousePayload demo_call, am_kafka = demo_good \<rparr>"

definition demo_row :: "onchain_status \<Rightarrow> int \<Rightarrow> onchain_event" where
  "demo_row st t = \<lparr> oe_event = 65, oe_aggregate = ''signed_action'', oe_tx = (if st = OnchainPending then None else Some (Hex32 99)),
     oe_status = st, oe_reject = None, oe_error = None, oe_updated = t \<rparr>"

definition demo_tx :: chain_tx where
  "demo_tx = \<lparr> ct_nonce = 4, ct_to = 5, ct_gas = 91000, ct_price = 3, ct_data = [7] \<rparr>"

lemmas store_defs = Exists_def InsertPending_def StatusAndTx_def MarkSent_def MarkCommitted_def MarkFailed_def MarkRejected_def
  store_call_def events_update_def ext_def tx_error_def tx_simps

lemma demo_filter:
  "filterAndMarkPending demo_flusher [demo_message] demo_adapter
     = (Inr [demo_message], demo_adapter\<lparr>ad_events := [demo_row OnchainPending 2], ad_calls := 2\<rparr>)"
  by (simp add: filterAndMarkPending_def Let_def store_defs demo_world_sel demo_flusher_sel demo_adapter_def demo_row_def aggregateSignedAction_def)

lemma demo_chunk: "maxActionChunk [demo_message] maxActionCalldata (tg_pack (warehouseTarget demo_flusher)) = Inr (1, [7])"
  by (simp add: maxActionChunk_def chunk_from.simps maxActionCalldata_def warehouseTarget_def warehouseActionsOf_def demo_flusher_sel demo_abi_def)

lemma demo_calldata:
  "SendCalldata demo_world 5 [7] 91000 (demo_adapter\<lparr>ad_events := es, ad_calls := n\<rparr>)
     = (Inr 99, demo_adapter\<lparr>ad_events := es, ad_sent := [demo_tx], ad_nonce := 5, ad_seeded := True, ad_calls := n + 6\<rparr>)"
  by (simp add: SendCalldata_def send_calldata_def reseedLocked_def ext_def tx_error_def tx_simps demo_world_sel demo_adapter_def
      demo_tx_def gas_limit_def gasLimitHeadroomNum_def gasLimitHeadroomDen_def gasPriceHeadroomNum_def gasPriceHeadroomDen_def Let_def)

lemma demo_target:
  "tg_resolver (warehouseTarget demo_flusher) = Some (WarehouseActions 5)"
  "tg_gas_floor (warehouseTarget demo_flusher) [demo_message] = 91000"
  by (simp_all add: warehouseTarget_def demo_flusher_sel ApplyActionsGasFloor_def warehouseActionsOf_def demo_call_def
      txBaseGas_def actionGasFloor_def List.map_filter_def)

lemma demo_chunks:
  "send_chunks demo_flusher (warehouseTarget demo_flusher) (WarehouseActions 5) [demo_message] []
     (demo_adapter\<lparr>ad_events := [demo_row OnchainPending 2], ad_calls := 2\<rparr>)
   = (Inr [\<lparr> fx_hash = 99, fx_ids = [65], fx_msgs = [demo_message] \<rparr>],
      demo_adapter\<lparr>ad_events := [demo_row OnchainSent 9], ad_sent := [demo_tx], ad_nonce := 5, ad_seeded := True, ad_calls := 9\<rparr>)"
proof -
  have nil: "send_chunks demo_flusher t r [] infl s = (Inr infl, s)" for t r infl s
    by (subst send_chunks.simps) (simp add: tx_simps)
  have call: "take_error (SendCalldata demo_world 5 [7] 91000) (demo_adapter\<lparr>ad_events := [demo_row OnchainPending 2], ad_calls := 2\<rparr>)
    = (Inr (Inr 99), demo_adapter\<lparr>ad_events := [demo_row OnchainPending 2], ad_sent := [demo_tx], ad_nonce := 5, ad_seeded := True, ad_calls := 8\<rparr>)"
    using demo_calldata [where es = "[demo_row OnchainPending 2]" and n = 2] by (simp add: take_error_def)
  have mark: "MarkSent demo_world [65] (Hex32 99)
      (demo_adapter\<lparr>ad_events := [demo_row OnchainPending 2], ad_sent := [demo_tx], ad_nonce := 5, ad_seeded := True, ad_calls := 8\<rparr>)
    = (Inr (), demo_adapter\<lparr>ad_events := [demo_row OnchainSent 9], ad_sent := [demo_tx], ad_nonce := 5, ad_seeded := True, ad_calls := 9\<rparr>)"
    by (simp add: store_defs demo_world_sel demo_row_def sql_update_def demo_adapter_def)
  have take1: "take 1 [m] = [m]" for m :: adapter_message by simp
  show ?thesis
    by (subst send_chunks.simps)
      (simp only: list.case demo_chunk sum.case prod.case if_False one_neq_zero demo_flusher_sel resolver_address_def resolver.case
        take1 demo_target tx_bind_apply call fst_conv snd_conv,
       simp add: tx_error_def tx_simps idsOf_def mark nil)
qed

lemma demo_send: "Send demo_flusher [demo_message] demo_adapter
  = (Inr [\<lparr> fx_hash = 99, fx_ids = [65], fx_msgs = [demo_message] \<rparr>],
     demo_adapter\<lparr>ad_events := [demo_row OnchainSent 9], ad_sent := [demo_tx], ad_nonce := 5, ad_seeded := True, ad_calls := 9\<rparr>)"
proof -
  have "or_else [] (filterAndMarkPending demo_flusher [demo_message]) demo_adapter
     = (Inr [demo_message], demo_adapter\<lparr>ad_events := [demo_row OnchainPending 2], ad_calls := 2\<rparr>)"
    by (simp add: tx_error_def tx_handle_apply demo_filter)
  then have "sendActions demo_flusher (warehouseTarget demo_flusher) [demo_message] [] demo_adapter
    = send_chunks demo_flusher (warehouseTarget demo_flusher) (WarehouseActions 5) [demo_message] []
       (demo_adapter\<lparr>ad_events := [demo_row OnchainPending 2], ad_calls := 2\<rparr>)"
    unfolding sendActions_def tx_bind_apply by (simp add: demo_target)
  then show ?thesis
    by (simp add: Send_def splitSegments_def segmentOf_def tx_bind_apply demo_chunks tx_return_apply)
qed


section \<open>A run\<close>

definition demo_batch :: drainedBatch where
  "demo_batch = \<lparr> bt_txs = [\<lparr> fx_hash = 99, fx_ids = [65], fx_msgs = [demo_message] \<rparr>], bt_msgs = [demo_good] \<rparr>"

definition demo_sent :: adapter where
  "demo_sent = demo_adapter\<lparr>ad_events := [demo_row OnchainSent 9], ad_sent := [demo_tx], ad_nonce := 5, ad_seeded := True, ad_calls := 9\<rparr>"

text \<open>The pump after the message has been fetched and sent, and after its batch has been confirmed.\<close>

definition demo_flushed :: pump where
  "demo_flushed = \<lparr> pu_adapter = demo_sent, pu_batcher = NewBatcher 1 5000, pu_todo = [SubmitBatch demo_batch], pu_queue = [],
     pu_dead = False, pu_stopped = False, pu_fetched = [demo_good], pu_commits = [] \<rparr>"

definition demo_confirmed :: pump where
  "demo_confirmed = demo_flushed\<lparr>pu_adapter := demo_sent\<lparr>ad_events := [demo_row OnchainCommitted 11], ad_calls := 12\<rparr>,
     pu_todo := [], pu_commits := [demo_good]\<rparr>"

lemma demo_fetch: "onMessage demo_flusher X demo_reader demo_good (started demo_adapter 1 5000) = demo_flushed"
proof -
  have a: "demo_adapter\<lparr>ad_seeded := False\<rparr> = demo_adapter" by (simp add: demo_adapter_def)
  show ?thesis
    by (simp add: onMessage_def demo_parse_good started_def a clock_now_def Add_def NewBatcher_def ShouldFlush_def drainSendSubmit_def
        Drain_def demo_send demo_flushed_def demo_sent_def demo_batch_def)
qed

lemma demo_confirm:
  "confirmAndCommit demo_flusher demo_batch demo_sent
     = (Inr (), demo_sent\<lparr>ad_events := [demo_row OnchainCommitted 11], ad_calls := 12\<rparr>)"
proof -
  have t: "topic_uuid (uuid_topic 65) = 65" by (simp add: topic_uuid_def uuid_topic_def)
  have "Confirm demo_flusher \<lparr> fx_hash = 99, fx_ids = [65], fx_msgs = [demo_message] \<rparr> demo_sent
     = (Inr (), demo_sent\<lparr>ad_events := [demo_row OnchainCommitted 11], ad_calls := 11\<rparr>)"
    by (simp add: Confirm_def store_defs WaitReceipt_def wait_receipt.simps Let_def demo_world_sel demo_flusher_sel demo_sent_def
        demo_adapter_def demo_row_def applyActionOutcomes_def resolveActionOutcomes_def actionResolvers_def LogOutcomes_def
        warehouse_log_def demo_abi_def t applied_in_def ranged_def sql_update_def)
  then show ?thesis
    by (simp add: confirmAndCommit_def demo_batch_def tx_simps take_error_def demo_flusher_sel demo_world_sel first_error_def
       List.map_filter_def ext_def)
qed

lemma demo_run: "consumer_runs demo_flusher X demo_reader 1 (started demo_adapter 1 5000) demo_confirmed"
proof -
  have "consumer_step demo_flusher X demo_reader 1 (started demo_adapter 1 5000) demo_flushed"
    by (rule consumer_step.Fetch [where p = "started demo_adapter 1 5000" and m = demo_good and K = demo_reader and F = demo_flusher,
          unfolded demo_fetch]) (simp_all add: started_def)
  moreover have "consumer_step demo_flusher X demo_reader 1 demo_flushed (demo_flushed\<lparr>pu_todo := [], pu_queue := [demo_batch]\<rparr>)"
    using consumer_step.Submit [where p = demo_flushed and window = 1 and b = demo_batch and t = "[]"] by (simp add: demo_flushed_def)
  moreover have "consumer_step demo_flusher X demo_reader 1 (demo_flushed\<lparr>pu_todo := [], pu_queue := [demo_batch]\<rparr>) demo_confirmed"
    using consumer_step.Collected [where p = "demo_flushed\<lparr>pu_todo := [], pu_queue := [demo_batch]\<rparr>" and b = demo_batch and q = "[]"
        and F = demo_flusher, OF _ _ ] demo_confirm
    by (simp add: demo_flushed_def demo_confirmed_def demo_batch_def)
  ultimately show ?thesis by (meson converse_rtranclp_into_rtranclp rtranclp.rtrancl_refl)
qed

section \<open>Every run\<close>

text \<open>C12: the mirror of the chain never goes back. Whatever the adapter does, whichever of its calls to
  the database, the node or the broker fail, and in whatever order sending, confirming and
  reconciling interleave: every row keeps its place and its action; a committed row stays as it is;
  a row that has left PENDING never returns; a row that carries a transaction keeps one; what was
  sent and what was put on the dead-letter topic stays on record.\<close>

theorem consumer_runs_forward:
  "consumer_runs F X K w p p' \<Longrightarrow> adapter_forward (pu_adapter p) (pu_adapter p')"
  by (rule runs_forward)

theorem consumer_runs_forward_witness:
  "\<exists>p. consumer_runs demo_flusher demo_crypto demo_reader 1 (started demo_adapter 1 5000) p \<and> pu_commits p = [demo_good]
     \<and> ad_events (pu_adapter p) = [demo_row OnchainCommitted 11]
     \<and> adapter_forward (pu_adapter (started demo_adapter 1 5000)) (pu_adapter p)"
  using consumer_runs_forward [OF demo_run] demo_run [of demo_crypto]
  by (intro exI [of _ demo_confirmed]) (simp add: demo_confirmed_def)

end
