(* ===== verification/SendFlow.thy ===== *)
theory SendFlow
  imports ConsumerFlow "HOL-Library.Sublist"
begin

text \<open>
  What sending does: the calldata chunks, the nonce of a transaction, its gas, the wait for
  its receipt, and the trace that every message of a successful \<^verbatim>\<open>Send\<close> leaves.
\<close>

section \<open>The largest chunk that fits\<close>

definition fits :: "adapter_message list \<Rightarrow> nat \<Rightarrow> (adapter_message list \<Rightarrow> string + bytes) \<Rightarrow> nat \<Rightarrow> bool" where
  "fits msgs limit pack n \<longleftrightarrow> (case pack (take n msgs) of Inl _ \<Rightarrow> False | Inr data \<Rightarrow> length data \<le> limit)"

lemma chunk_from_spec:
  assumes "1 \<le> k" "k \<le> Suc (length msgs)" "\<And>i. 1 \<le> i \<Longrightarrow> i < k \<Longrightarrow> fits msgs limit pack i"
    "k \<noteq> 1 \<Longrightarrow> pack (take (k - 1) msgs) = Inr d"
  shows "case chunk_from msgs limit pack k d of
      Inl e \<Rightarrow> k = 1 \<and> msgs \<noteq> [] \<and> pack (take 1 msgs) = Inl e
    | Inr (n, data) \<Rightarrow> n \<le> length msgs \<and> (\<forall>i. 1 \<le> i \<and> i \<le> n \<longrightarrow> fits msgs limit pack i)
        \<and> (n < length msgs \<longrightarrow> \<not> fits msgs limit pack (n + 1)) \<and> (0 < n \<longrightarrow> pack (take n msgs) = Inr data)"
  using assms
proof (induction msgs limit pack k d rule: chunk_from.induct)
  case (1 msgs limit pack n data)
  show ?case
  proof (cases "n > length msgs")
    case True
    then have "n = Suc (length msgs)" using "1.prems"(2) by simp
    then show ?thesis using "1.prems" by (subst chunk_from.simps) auto
  next
    case le: False
    then have ne: "msgs \<noteq> []" using "1.prems"(1) by auto
    have below: "\<forall>i. 1 \<le> i \<and> i \<le> n - 1 \<longrightarrow> fits msgs limit pack i" using "1.prems"(1,3) by auto
    have last: "0 < n - 1 \<longrightarrow> pack (take (n - 1) msgs) = Inr data" using "1.prems"(4) by auto
    show ?thesis
    proof (cases "fits msgs limit pack n")
      case True
      then obtain next' where p: "pack (take n msgs) = Inr next'" "length next' \<le> limit"
        by (auto simp: fits_def split: sum.splits)
      have up: "fits msgs limit pack i" if "1 \<le> i" "i < n + 1" for i
        using True "1.prems"(3) [OF that(1)] that(2) by (cases "i = n") auto
      have "chunk_from msgs limit pack n data = chunk_from msgs limit pack (n + 1) next'"
        using le p by (subst chunk_from.simps) simp
      moreover have "case chunk_from msgs limit pack (n + 1) next' of
          Inl e \<Rightarrow> n + 1 = 1 \<and> msgs \<noteq> [] \<and> pack (take 1 msgs) = Inl e
        | Inr (k, data) \<Rightarrow> k \<le> length msgs \<and> (\<forall>i. 1 \<le> i \<and> i \<le> k \<longrightarrow> fits msgs limit pack i)
            \<and> (k < length msgs \<longrightarrow> \<not> fits msgs limit pack (k + 1)) \<and> (0 < k \<longrightarrow> pack (take k msgs) = Inr data)"
        by (rule "1.IH") (use le p up in auto)
      ultimately show ?thesis using "1.prems"(1) by (auto split: sum.splits)
    next
      case False
      then show ?thesis
        using le ne below last "1.prems"(1)
        by (subst chunk_from.simps) (auto simp: fits_def split: sum.splits)
    qed
  qed
qed

text \<open>A chunk is the longest prefix of what is left that the calldata limit admits. Every shorter
  prefix fits as well, the next one does not, and the bytes that go with it are the packed prefix;
  packing fails only on the first message alone.\<close>

theorem maxActionChunk_longest:
  "case maxActionChunk msgs limit pack of
      Inl e \<Rightarrow> msgs \<noteq> [] \<and> pack (take 1 msgs) = Inl e
    | Inr (n, data) \<Rightarrow> n \<le> length msgs \<and> (\<forall>i. 1 \<le> i \<and> i \<le> n \<longrightarrow> fits msgs limit pack i)
        \<and> (n < length msgs \<longrightarrow> \<not> fits msgs limit pack (n + 1)) \<and> (0 < n \<longrightarrow> pack (take n msgs) = Inr data)"
proof -
  have "case chunk_from msgs limit pack 1 [] of
      Inl e \<Rightarrow> (1 :: nat) = 1 \<and> msgs \<noteq> [] \<and> pack (take 1 msgs) = Inl e
    | Inr (n, data) \<Rightarrow> n \<le> length msgs \<and> (\<forall>i. 1 \<le> i \<and> i \<le> n \<longrightarrow> fits msgs limit pack i)
        \<and> (n < length msgs \<longrightarrow> \<not> fits msgs limit pack (n + 1)) \<and> (0 < n \<longrightarrow> pack (take n msgs) = Inr data)"
    by (rule chunk_from_spec) simp_all
  then show ?thesis unfolding maxActionChunk_def by (auto split: sum.splits)
qed

theorem maxActionChunk_longest_witness:
  "maxActionChunk [demo_message] maxActionCalldata (tg_pack (warehouseTarget demo_flusher)) = Inr (1, [7])
     \<and> fits [demo_message] maxActionCalldata (tg_pack (warehouseTarget demo_flusher)) 1"
  using maxActionChunk_longest [where msgs = "[demo_message]" and limit = maxActionCalldata and pack = "tg_pack (warehouseTarget demo_flusher)"] demo_chunk
  by simp

lemma maxActionChunk_fits:
  assumes "maxActionChunk msgs limit pack = Inr (n, data)" "0 < n"
  shows "pack (take n msgs) = Inr data" "length data \<le> limit"
proof -
  have "case chunk_from msgs limit pack 1 [] of
      Inl e \<Rightarrow> (1 :: nat) = 1 \<and> msgs \<noteq> [] \<and> pack (take 1 msgs) = Inl e
    | Inr (n, data) \<Rightarrow> n \<le> length msgs \<and> (\<forall>i. 1 \<le> i \<and> i \<le> n \<longrightarrow> fits msgs limit pack i)
        \<and> (n < length msgs \<longrightarrow> \<not> fits msgs limit pack (n + 1)) \<and> (0 < n \<longrightarrow> pack (take n msgs) = Inr data)"
    by (rule chunk_from_spec) simp_all
  then have "pack (take n msgs) = Inr data \<and> fits msgs limit pack n"
    using assms unfolding maxActionChunk_def by simp
  then show "pack (take n msgs) = Inr data" "length data \<le> limit" by (auto simp: fits_def)
qed

section \<open>Nonces\<close>

definition same_records :: "adapter \<Rightarrow> adapter \<Rightarrow> bool" where
  "same_records s s' \<longleftrightarrow> ad_events s' = ad_events s \<and> ad_dlq s' = ad_dlq s"

lemma bind_error_ext:
  "tx_bind (tx_error h (ext f)) g s = (case f (ad_calls s) of
      Inl e \<Rightarrow> (Inl (h e), s\<lparr>ad_calls := ad_calls s + 1\<rparr>) | Inr a \<Rightarrow> g a (s\<lparr>ad_calls := ad_calls s + 1\<rparr>))"
  by (auto simp: tx_error_def tx_simps ext_def split: sum.splits)

lemma seed_cases:
  assumes "(if ad_seeded s then tx_return () else tx_error h (reseedLocked W)) s = (r, s')"
  shows "same_records s s' \<and> ad_sent s' = ad_sent s \<and> ad_lost s' = ad_lost s \<and> (r = Inr () \<longrightarrow> ad_seeded s')
    \<and> (ad_seeded s \<longrightarrow> s' = s) \<and> (\<not> ad_seeded s \<longrightarrow> ad_seeded s' \<longrightarrow> wo_nonce W (ad_calls s) = Inr (ad_nonce s'))"
  using assms
  by (auto simp: reseedLocked_def tx_error_def tx_simps ext_def same_records_def split: if_splits sum.splits)

lemma seq_cases:
  assumes "tx_seq m n s = (r, s')"
  obtains e where "m s = (Inl e, s')" "r = Inl e" | t where "m s = (Inr (), t)" "n t = (r, s')"
  using assms by (cases "m s") (auto simp: tx_seq_def tx_bind_def split: sum.splits)

text \<open>The end of \<^verbatim>\<open>sendCalldata\<close>: the transaction is signed and goes to the node.\<close>

definition submit_tx :: "world \<Rightarrow> chain_tx \<Rightarrow> bytes32 \<Rightarrow> (adapter, chain_err, bytes32) tx" where
  "submit_tx W t hash = tx_seq (tx_handle (ext (\<lambda>n. wo_submit W n t)) (\<lambda>(lost, e).
               tx_seq (tx_modify (\<lambda>s. if lost then s\<lparr>ad_lost := ad_lost s @ [t]\<rparr> else s))
              (tx_seq (if isNonceTooLowError e
                       then tx_handle (reseedLocked W) (\<lambda>_. tx_modify (\<lambda>s. s\<lparr>ad_seeded := False\<rparr>))
                       else tx_return ())
                 (tx_fail (ErrChainTransient (''send tx: '' @ e))))))
    (tx_seq (tx_modify (\<lambda>s. s\<lparr>ad_nonce := ad_nonce s + 1, ad_sent := ad_sent s @ [t]\<rparr>))
      (tx_return hash))"

text \<open>A state in which the client holds no nonce of its own making: none, or one the node has given.\<close>

definition nonce_from_node :: "world \<Rightarrow> adapter \<Rightarrow> bool" where
  "nonce_from_node W s \<longleftrightarrow> (ad_seeded s \<longrightarrow> (\<exists>k. wo_nonce W k = Inr (ad_nonce s)))"

definition same_nonce :: "adapter \<Rightarrow> adapter \<Rightarrow> bool" where
  "same_nonce s s' \<longleftrightarrow> ad_nonce s' = ad_nonce s \<and> ad_seeded s' = ad_seeded s"

lemma submit_cases:
  assumes "submit_tx W t hash s = (r, s')"
  shows "same_records s s' \<and> (case r of
      Inl e \<Rightarrow> ad_sent s' = ad_sent s \<and> (ad_lost s' = ad_lost s \<or> ad_lost s' = ad_lost s @ [t])
        \<and> (\<exists>x. e = ErrChainTransient (''send tx: '' @ x) \<and> (same_nonce s s' \<or> isNonceTooLowError x \<and> nonce_from_node W s'))
    | Inr _ \<Rightarrow> ad_sent s' = ad_sent s @ [t] \<and> ad_lost s' = ad_lost s \<and> ad_nonce s' = ad_nonce s + 1 \<and> ad_seeded s' = ad_seeded s)"
proof (cases "wo_submit W (ad_calls s) t")
  case (Inl le)
  obtain lost e where le: "le = (lost, e)" by (cases le)
  show ?thesis using assms Inl unfolding le
    by (cases lost; cases "isNonceTooLowError e"; cases "wo_nonce W (ad_calls s + 1)")
      (auto simp: submit_tx_def tx_simps ext_def reseedLocked_def same_records_def same_nonce_def nonce_from_node_def)
next
  case (Inr u)
  then show ?thesis using assms by (auto simp: submit_tx_def tx_simps ext_def same_records_def)
qed

text \<open>The transaction asked for.\<close>

definition asked :: "world \<Rightarrow> address \<Rightarrow> bytes \<Rightarrow> 64 word \<Rightarrow> adapter \<Rightarrow> chain_tx \<Rightarrow> bool" where
  "asked W to data minGas s t \<longleftrightarrow> ct_to t = to \<and> ct_data t = data \<and> minGas \<le> ct_gas t
     \<and> (if ad_seeded s then ct_nonce t = ad_nonce s else wo_nonce W (ad_calls s) = Inr (ct_nonce t))"

definition send_failed :: "world \<Rightarrow> address \<Rightarrow> bytes \<Rightarrow> 64 word \<Rightarrow> adapter \<Rightarrow> chain_err \<Rightarrow> adapter \<Rightarrow> bool" where
  "send_failed W to data minGas s e s' \<longleftrightarrow> ad_sent s' = ad_sent s
     \<and> (ad_lost s' = ad_lost s \<or> (\<exists>t x. ad_lost s' = ad_lost s @ [t] \<and> asked W to data minGas s t \<and> e = ErrChainTransient (''send tx: '' @ x)))
     \<and> (if ad_seeded s then same_nonce s s' \<or> (\<exists>x. e = ErrChainTransient (''send tx: '' @ x) \<and> isNonceTooLowError x \<and> nonce_from_node W s')
        else nonce_from_node W s')"

definition send_done :: "world \<Rightarrow> address \<Rightarrow> bytes \<Rightarrow> 64 word \<Rightarrow> adapter \<Rightarrow> adapter \<Rightarrow> bool" where
  "send_done W to data minGas s s' \<longleftrightarrow> ad_lost s' = ad_lost s
     \<and> (\<exists>t. ad_sent s' = ad_sent s @ [t] \<and> asked W to data minGas s t \<and> ad_seeded s' \<and> ad_nonce s' = ct_nonce t + 1)"

lemma floor_le: "minGas \<le> gas_limit e minGas"
  by (simp add: gas_limit_def Let_def linorder_not_less)

lemma SendCalldata_cases:
  assumes sent: "SendCalldata W to data minGas s = (r, s')"
  shows "same_records s s' \<and> (case r of Inl e \<Rightarrow> send_failed W to data minGas s e s' | Inr hash \<Rightarrow> send_done W to data minGas s s')"
  using sent unfolding SendCalldata_def send_calldata_def get_bind_apply
proof (cases rule: seq_cases)
  case (1 e)
  then show ?thesis
    using seed_cases [OF 1(1)] by (auto simp: send_failed_def same_nonce_def nonce_from_node_def)
next
  case (2 u)
  have u: "same_records s u" "ad_sent u = ad_sent s" "ad_lost u = ad_lost s" "ad_seeded u" "ad_seeded s \<longrightarrow> u = s"
    "\<not> ad_seeded s \<longrightarrow> wo_nonce W (ad_calls s) = Inr (ad_nonce u)"
    using seed_cases [OF 2(1)] by auto
  have early: "send_failed W to data minGas s e (u\<lparr>ad_calls := n\<rparr>)" for e n
    using u by (auto simp: send_failed_def same_nonce_def nonce_from_node_def)
  have a: "asked W to data minGas s \<lparr>ct_nonce = ad_nonce u, ct_to = to, ct_gas = gas_limit est minGas, ct_price = p, ct_data = data\<rparr>" for est p
    using u by (auto simp: asked_def floor_le)
  have kept: "nonce_from_node W v" if "\<not> ad_seeded s" "same_nonce u v" for v
    using that u by (auto simp: same_nonce_def nonce_from_node_def)
  have late: "same_records s v \<and> (case q of Inl e \<Rightarrow> send_failed W to data minGas s e v | Inr hash \<Rightarrow> send_done W to data minGas s v)"
    if "submit_tx W \<lparr>ct_nonce = ad_nonce u, ct_to = to, ct_gas = gas_limit est minGas, ct_price = p, ct_data = data\<rparr> hash
          (u\<lparr>ad_calls := n\<rparr>) = (q, v)" for est p hash n q v
    using submit_cases [OF that] u a [of est p] kept [of v]
    by (cases q) (auto simp: same_records_def send_failed_def send_done_def same_nonce_def)
  have rec: "same_records s (u\<lparr>ad_calls := n\<rparr>)" for n using u(1) by (simp add: same_records_def)
  show ?thesis
    using 2(2) unfolding get_bind_apply bind_error_ext Let_def submit_tx_def [symmetric]
    by (auto simp: early rec split: sum.splits dest!: late)
qed

text \<open>C24: a nonce is used up by success only. When one call of \<^verbatim>\<open>SendCalldata\<close> succeeds, exactly one
  transaction has gone out, with the calldata asked for, to the contract asked for, with at least
  the gas floor, with the nonce the client held (or the one the node gave, if it held none), and the
  nonce it holds next is the next number. When the call ends in an error, nothing counts as sent and
  no nonce is used up: a nonce the client held stays the same, unless the node said that it is too
  low, and then it is the one the node gives or is forgotten; a client that held none has the node's
  or none. The node may have that transaction all the same if the failure was that of
  \<^verbatim>\<open>SendTransaction\<close>: then it is the one asked for, with that same nonce. The mirror and the dead-letter
  topic are not touched.\<close>

theorem SendCalldata_nonce:
  "SendCalldata W to data minGas s = (r, s') \<Longrightarrow> same_records s s' \<and> (case r of
      Inl e \<Rightarrow> ad_sent s' = ad_sent s
        \<and> (ad_lost s' = ad_lost s \<or> (\<exists>t x. ad_lost s' = ad_lost s @ [t] \<and> asked W to data minGas s t \<and> e = ErrChainTransient (''send tx: '' @ x)))
        \<and> (if ad_seeded s then ad_seeded s' \<and> ad_nonce s' = ad_nonce s
              \<or> (\<exists>x. e = ErrChainTransient (''send tx: '' @ x) \<and> isNonceTooLowError x \<and> nonce_from_node W s')
           else nonce_from_node W s')
    | Inr hash \<Rightarrow> ad_lost s' = ad_lost s
        \<and> (\<exists>t. ad_sent s' = ad_sent s @ [t] \<and> asked W to data minGas s t \<and> ad_seeded s' \<and> ad_nonce s' = ct_nonce t + 1))"
  by (drule SendCalldata_cases) (auto simp: send_failed_def send_done_def same_nonce_def split: sum.splits)

text \<open>A node that takes the first transaction in and fails to say so, and then acknowledges.\<close>

definition lossy_world :: world where
  "lossy_world = demo_world\<lparr>wo_submit := (\<lambda>n _. if n < 6 then Inl (True, ''EOF'') else Inr ())\<rparr>"

lemma lossy_calldata:
  "SendCalldata lossy_world 5 [7] 91000 demo_adapter
     = (Inl (ErrChainTransient ''send tx: EOF''),
        demo_adapter\<lparr>ad_lost := [demo_tx], ad_nonce := 4, ad_seeded := True, ad_calls := 6\<rparr>)"
  by (simp add: SendCalldata_def send_calldata_def reseedLocked_def ext_def tx_error_def tx_simps lossy_world_def demo_world_def demo_adapter_def
      demo_tx_def gas_limit_def gasLimitHeadroomNum_def gasLimitHeadroomDen_def gasPriceHeadroomNum_def gasPriceHeadroomDen_def Let_def
      isNonceTooLowError_def str_contains_def str_index.simps has_prefix_def)

theorem SendCalldata_nonce_witness:
  "\<exists>s' s''. SendCalldata lossy_world 5 [7] 91000 demo_adapter = (Inl (ErrChainTransient ''send tx: EOF''), s') \<and> ad_sent s' = []
     \<and> ad_lost s' = [demo_tx] \<and> asked lossy_world 5 [7] 91000 demo_adapter demo_tx \<and> same_records demo_adapter s'
     \<and> SendCalldata demo_world 5 [7] 91000 demo_adapter = (Inr 99, s'') \<and> ad_sent s'' = [demo_tx] \<and> ad_nonce s'' = ct_nonce demo_tx + 1"
proof -
  have a: "demo_adapter\<lparr>ad_events := [], ad_calls := 0\<rparr> = demo_adapter" by (simp add: demo_adapter_def)
  obtain s'' where s'': "SendCalldata demo_world 5 [7] 91000 demo_adapter = (Inr 99, s'')" "ad_sent s'' = [demo_tx]"
    using demo_calldata [where es = "[]" and n = 0] unfolding a by simp
  from SendCalldata_nonce [OF s''(1)] SendCalldata_nonce [OF lossy_calldata] show ?thesis
    using s'' lossy_calldata by (auto simp: demo_adapter_def)
qed

section \<open>Gas\<close>

definition action_gas :: "chain_warehouse_action \<Rightarrow> nat" where
  "action_gas a = 70000 + length (wx_items a) * (if wx_type a = 1 then 28000 else 9000)"

lemma gas_fold: "foldl (\<lambda>floor a. floor + actionGasFloor
         + of_nat (length (wx_items a)) * (if wx_type a = 1 then receiveItemGasFloor else moveItemGasFloor)) (of_nat n) actions
   = of_nat (n + (\<Sum>a\<leftarrow>actions. action_gas a))"
proof (induction actions arbitrary: n)
  case (Cons a actions)
  have "of_nat n + actionGasFloor + of_nat (length (wx_items a)) * (if wx_type a = 1 then receiveItemGasFloor else moveItemGasFloor)
      = (of_nat (n + action_gas a) :: 64 word)"
    by (simp add: actionGasFloor_def receiveItemGasFloor_def moveItemGasFloor_def action_gas_def)
  then show ?case using Cons [of "n + action_gas a"] by (simp add: add.assoc)
qed simp

text \<open>C27: the gas of a transaction. Within 64 bits the floor of a batch is the sum the constants say, 21000
  for the transaction, 70000 for each action and 28000 or 9000 for each of its items; the limit that
  is sent is one and a half times the estimate, or the floor where that is more; and past 64 bits,
  where the multiplication wraps, the floor still holds.\<close>

theorem gas_limit_bounds:
  assumes "21000 + (\<Sum>a\<leftarrow>actions. action_gas a) < 2 ^ 64"
  shows "unat (ApplyActionsGasFloor actions) = 21000 + (\<Sum>a\<leftarrow>actions. action_gas a)
    \<and> (3 * unat estimate < 2 ^ 64 \<longrightarrow> unat (gas_limit estimate (ApplyActionsGasFloor actions))
           = max (3 * unat estimate div 2) (21000 + (\<Sum>a\<leftarrow>actions. action_gas a)))
    \<and> 21000 + (\<Sum>a\<leftarrow>actions. action_gas a) \<le> unat (gas_limit estimate (ApplyActionsGasFloor actions))"
proof (intro conjI impI)
  have f: "ApplyActionsGasFloor actions = of_nat (21000 + (\<Sum>a\<leftarrow>actions. action_gas a))"
    using gas_fold [of 21000 actions] by (simp add: ApplyActionsGasFloor_def txBaseGas_def)
  show floor: "unat (ApplyActionsGasFloor actions) = 21000 + (\<Sum>a\<leftarrow>actions. action_gas a)"
  proof -
    have "take_bit LENGTH(64) (21000 + (\<Sum>a\<leftarrow>actions. action_gas a)) = 21000 + (\<Sum>a\<leftarrow>actions. action_gas a)"
      by (rule take_bit_nat_eq_self) (use assms in simp)
    then show ?thesis unfolding f unsigned_of_nat by simp
  qed
  have "ApplyActionsGasFloor actions \<le> gas_limit estimate (ApplyActionsGasFloor actions)"
    by (simp add: gas_limit_def Let_def linorder_not_less)
  then show "21000 + (\<Sum>a\<leftarrow>actions. action_gas a) \<le> unat (gas_limit estimate (ApplyActionsGasFloor actions))"
    unfolding floor [symmetric] word_le_nat_alt .
  assume "3 * unat estimate < 2 ^ 64"
  then have "unat (estimate * gasLimitHeadroomNum div gasLimitHeadroomDen) = 3 * unat estimate div 2"
    by (simp add: gasLimitHeadroomNum_def gasLimitHeadroomDen_def unat_div unat_mult_lem [THEN iffD1] mult.commute)
  then show "unat (gas_limit estimate (ApplyActionsGasFloor actions))
      = max (3 * unat estimate div 2) (21000 + (\<Sum>a\<leftarrow>actions. action_gas a))"
    using floor by (auto simp: gas_limit_def Let_def word_less_nat_alt max_def)
qed

theorem gas_limit_bounds_witness:
  "unat (ApplyActionsGasFloor [demo_call]) = 91000
     \<and> unat (gas_limit 21000 (ApplyActionsGasFloor [demo_call])) = 91000
     \<and> unat (gas_limit 200000 (ApplyActionsGasFloor [demo_call])) = 300000"
proof -
  have s: "(\<Sum>a\<leftarrow>[demo_call]. action_gas a) = 70000" by (simp add: action_gas_def demo_call_def)
  have h: "21000 + (\<Sum>a\<leftarrow>[demo_call]. action_gas a) < 2 ^ 64" unfolding s by simp
  show ?thesis
    using gas_limit_bounds [OF h, of 21000] gas_limit_bounds [OF h, of 200000] unfolding s by simp
qed

section \<open>Waiting for a receipt\<close>

text \<open>The sleeps before the poll number \<open>k\<close>, in milliseconds, and the time that \<open>n\<close> calls take.\<close>

definition poll_time :: "nat \<Rightarrow> int" where
  "poll_time k = (if k = 0 then 0 else 50 + 100 * (int k - 1))"

definition call_time :: "world \<Rightarrow> nat \<Rightarrow> nat \<Rightarrow> int" where
  "call_time W a n = (\<Sum>i<n. int (wo_latency W (a + i)))"

lemma call_time_0 [simp]: "call_time W a 0 = 0"
  by (simp add: call_time_def)

lemma call_time_Suc: "call_time W a (Suc n) = int (wo_latency W a) + call_time W (Suc a) n"
  unfolding call_time_def by (subst sum.lessThan_Suc_shift) simp

lemma call_time_nonneg [simp]: "0 \<le> call_time W a n"
  by (simp add: call_time_def sum_nonneg)

lemma receipt_delay_cases: "receipt_delay 0 = 50" "receipt_delay (Suc 0) = 100"
  by (simp_all add: receipt_delay_def receiptDelays_def)

lemma poll_next: "poll_time k + c + receipt_delay (min k 1) = poll_time (Suc k) + c"
  by (cases k) (simp_all add: poll_time_def receipt_delay_cases)

lemma poll_time_mono: "j \<le> k \<Longrightarrow> poll_time j \<le> poll_time k"
  by (auto simp: poll_time_def)

lemma wait_receipt_next: "(if min k 1 < length receiptDelays - 1 then min k 1 + 1 else min k 1) = min (Suc k) 1"
  by (simp add: receiptDelays_def min_def)

lemma wait_receipt_at:
  "wait_receipt W h timeout (min k 1) (poll_time k + c) s =
     (let s' = s\<lparr>ad_calls := ad_calls s + 1\<rparr>; c' = c + int (wo_latency W (ad_calls s)) in
      if poll_time k + c' \<ge> timeout then (Inl (FetchReceipt ''context deadline exceeded''), s')
      else case wo_receipt W (ad_calls s) h of
        Inr r \<Rightarrow> (Inr r, s')
      | Inl (ReceiptRpc e) \<Rightarrow> (Inl (FetchReceipt e), s')
      | Inl ReceiptNotFound \<Rightarrow>
          if poll_time (Suc k) + c' \<ge> timeout then (Inl ReceiptTimeout, s')
          else wait_receipt W h timeout (min (Suc k) 1) (poll_time (Suc k) + c') s')"
  by (subst wait_receipt.simps) (simp only: Let_def poll_next wait_receipt_next add.assoc [of "poll_time k"])

lemma wait_receipt_found:
  assumes "\<And>i. i < n \<Longrightarrow> wo_receipt W (ad_calls s + i) h = Inl ReceiptNotFound"
    "wo_receipt W (ad_calls s + n) h = Inr r" "poll_time (k + n) + c + call_time W (ad_calls s) (Suc n) < timeout"
  shows "wait_receipt W h timeout (min k 1) (poll_time k + c) s = (Inr r, s\<lparr>ad_calls := ad_calls s + n + 1\<rparr>)"
  using assms
proof (induction n arbitrary: k c s)
  case 0
  then show ?case by (subst wait_receipt_at) (simp add: call_time_Suc)
next
  case (Suc n)
  let ?c = "c + int (wo_latency W (ad_calls s))"
  have late: "poll_time (Suc k + n) + ?c + call_time W (Suc (ad_calls s)) (Suc n) < timeout"
    using Suc.prems(3) by (simp add: call_time_Suc [of W "ad_calls s"])
  then have early: "\<not> poll_time (Suc k) + ?c \<ge> timeout" "\<not> poll_time k + ?c \<ge> timeout"
    using poll_time_mono [of "Suc k" "Suc k + n"] poll_time_mono [of k "Suc k + n"] call_time_nonneg [of W "Suc (ad_calls s)" "Suc n"]
    by linarith+
  have "wait_receipt W h timeout (min (Suc k) 1) (poll_time (Suc k) + ?c) (s\<lparr>ad_calls := ad_calls s + 1\<rparr>)
      = (Inr r, s\<lparr>ad_calls := ad_calls s + 1\<rparr>\<lparr>ad_calls := ad_calls (s\<lparr>ad_calls := ad_calls s + 1\<rparr>) + n + 1\<rparr>)"
  proof (rule Suc.IH)
    fix i assume "i < n"
    then show "wo_receipt W (ad_calls (s\<lparr>ad_calls := ad_calls s + 1\<rparr>) + i) h = Inl ReceiptNotFound"
      using Suc.prems(1) [of "Suc i"] by simp
  qed (use Suc.prems late in simp_all)
  then show ?case
    using Suc.prems(1) [of 0] early by (subst wait_receipt_at) (simp add: Let_def)
qed

text \<open>How waiting ends, at the poll number \<open>n\<close> counted from the call \<open>a\<close>.\<close>

definition wait_end :: "world \<Rightarrow> bytes32 \<Rightarrow> int \<Rightarrow> nat \<Rightarrow> int \<Rightarrow> nat \<Rightarrow> nat \<Rightarrow> wait_err + receipt \<Rightarrow> bool" where
  "wait_end W h timeout k c a n r \<longleftrightarrow>
     (\<forall>i<n. wo_receipt W (a + i) h = Inl ReceiptNotFound)
     \<and> (k + n = 0 \<or> poll_time (k + n) + c + call_time W a n < timeout)
     \<and> (case r of
          Inr rc \<Rightarrow> wo_receipt W (a + n) h = Inr rc \<and> poll_time (k + n) + c + call_time W a (Suc n) < timeout
        | Inl ReceiptTimeout \<Rightarrow> poll_time (k + n + 1) + c + call_time W a (Suc n) \<ge> timeout
        | Inl (FetchReceipt e) \<Rightarrow> True)"

lemma wait_end_step:
  "wo_receipt W a h = Inl ReceiptNotFound \<Longrightarrow> wait_end W h timeout (Suc k) (c + int (wo_latency W a)) (Suc a) n r \<Longrightarrow>
   wait_end W h timeout k c a (Suc n) r"
  unfolding wait_end_def call_time_Suc [of W a]
  by (auto simp: less_Suc_eq_0_disj add.assoc split: sum.splits wait_err.splits)

lemma wait_receipt_polls:
  "k = 0 \<or> poll_time k + c < timeout \<Longrightarrow> wait_receipt W h timeout (min k 1) (poll_time k + c) s = (r, s') \<Longrightarrow>
   \<exists>n. s' = s\<lparr>ad_calls := ad_calls s + n + 1\<rparr> \<and> wait_end W h timeout k c (ad_calls s) n r"
proof (induction "nat (timeout - poll_time k - c)" arbitrary: k c s rule: less_induct)
  case less
  let ?s = "s\<lparr>ad_calls := ad_calls s + 1\<rparr>" and ?c = "c + int (wo_latency W (ad_calls s))"
  show ?case
  proof (cases "wo_receipt W (ad_calls s) h = Inl ReceiptNotFound \<and> poll_time k + ?c < timeout \<and> poll_time (Suc k) + ?c < timeout")
    case True
    then have rest: "wait_receipt W h timeout (min (Suc k) 1) (poll_time (Suc k) + ?c) ?s = (r, s')"
      using less.prems(2) unfolding wait_receipt_at [of W h timeout k c s] Let_def by simp
    have "poll_time k < poll_time (Suc k)" by (simp add: poll_time_def)
    then have "nat (timeout - poll_time (Suc k) - ?c) < nat (timeout - poll_time k - c)" using True by linarith
    from less.hyps [OF this _ rest] True
    obtain n where "s' = ?s\<lparr>ad_calls := ad_calls ?s + n + 1\<rparr>" "wait_end W h timeout (Suc k) ?c (ad_calls ?s) n r" by auto
    then show ?thesis using True wait_end_step by (intro exI [of _ "Suc n"]) simp
  next
    case False
    then have "s' = ?s \<and> wait_end W h timeout k c (ad_calls s) 0 r"
      using less.prems unfolding wait_receipt_at [of W h timeout k c s] Let_def wait_end_def
      by (auto simp: call_time_Suc add.assoc split: sum.splits receipt_err.splits if_splits wait_err.splits)
    then show ?thesis by (intro exI [of _ 0]) simp
  qed
qed

lemma WaitReceipt_ends:
  "\<exists>n r. WaitReceipt W h timeout s = (r, s\<lparr>ad_calls := ad_calls s + n + 1\<rparr>) \<and> wait_end W h timeout 0 0 (ad_calls s) n r"
proof -
  obtain r s' where r: "WaitReceipt W h timeout s = (r, s')" by fastforce
  then have "wait_receipt W h timeout (min 0 1) (poll_time 0 + 0) s = (r, s')" by (simp add: WaitReceipt_def poll_time_def)
  from wait_receipt_polls [OF _ this] show ?thesis unfolding r by auto
qed

text \<open>C25: which receipts are found. The polls are 50 ms apart at first and then 100 ms, each of them a
  call that takes its time. \<^verbatim>\<open>WaitReceipt\<close> returns a receipt exactly when one of the polls is answered
  with it before the timeout, that is, when the sleeps before it and the time of all calls up to
  its answer add up to less than the timeout, and the polls before it found nothing. A transaction
  that is mined after the last poll in time is not seen, and an error of the node before it ends the
  waiting.\<close>

theorem WaitReceipt_returns:
  "WaitReceipt W h timeout s = (Inr r, s') \<longleftrightarrow>
     (\<exists>n. (\<forall>i<n. wo_receipt W (ad_calls s + i) h = Inl ReceiptNotFound) \<and> wo_receipt W (ad_calls s + n) h = Inr r
        \<and> poll_time n + (\<Sum>i\<le>n. int (wo_latency W (ad_calls s + i))) < timeout \<and> s' = s\<lparr>ad_calls := ad_calls s + n + 1\<rparr>)"
proof -
  have t: "(\<Sum>i\<le>n. int (wo_latency W (ad_calls s + i))) = call_time W (ad_calls s) (Suc n)" for n
    by (simp add: call_time_def lessThan_Suc_atMost)
  show ?thesis
    unfolding t
  proof (rule iffI)
    assume "WaitReceipt W h timeout s = (Inr r, s')"
    moreover obtain n q where "WaitReceipt W h timeout s = (q, s\<lparr>ad_calls := ad_calls s + n + 1\<rparr>)" "wait_end W h timeout 0 0 (ad_calls s) n q"
      using WaitReceipt_ends by blast
    ultimately show "\<exists>n. (\<forall>i<n. wo_receipt W (ad_calls s + i) h = Inl ReceiptNotFound) \<and> wo_receipt W (ad_calls s + n) h = Inr r
        \<and> poll_time n + call_time W (ad_calls s) (Suc n) < timeout \<and> s' = s\<lparr>ad_calls := ad_calls s + n + 1\<rparr>"
      by (intro exI [of _ n]) (simp add: wait_end_def)
  next
    assume "\<exists>n. (\<forall>i<n. wo_receipt W (ad_calls s + i) h = Inl ReceiptNotFound) \<and> wo_receipt W (ad_calls s + n) h = Inr r
        \<and> poll_time n + call_time W (ad_calls s) (Suc n) < timeout \<and> s' = s\<lparr>ad_calls := ad_calls s + n + 1\<rparr>"
    then obtain n where "\<forall>i<n. wo_receipt W (ad_calls s + i) h = Inl ReceiptNotFound" "wo_receipt W (ad_calls s + n) h = Inr r"
      "poll_time n + call_time W (ad_calls s) (Suc n) < timeout" "s' = s\<lparr>ad_calls := ad_calls s + n + 1\<rparr>"
      by blast
    then show "WaitReceipt W h timeout s = (Inr r, s')"
      using wait_receipt_found [of n W s h r 0 0 timeout] by (simp add: WaitReceipt_def poll_time_def)
  qed
qed

text \<open>A node that knows the transaction at the fourth poll and takes 20 ms for every answer: 330 ms in all.\<close>

definition late_world :: world where
  "late_world = demo_world\<lparr>wo_receipt := (\<lambda>n _. if n < 3 then Inl ReceiptNotFound else Inr \<lparr> rt_status = 1, rt_logs = [] \<rparr>),
     wo_latency := (\<lambda>_. 20)\<rparr>"

theorem WaitReceipt_returns_witness:
  "WaitReceipt late_world 99 331 demo_adapter = (Inr \<lparr> rt_status = 1, rt_logs = [] \<rparr>, demo_adapter\<lparr>ad_calls := 4\<rparr>)
     \<and> (\<nexists>r s'. WaitReceipt late_world 99 330 demo_adapter = (Inr r, s'))"
proof -
  have "n = 3 \<and> 3 \<le> (n :: nat)" if "\<forall>i<n. wo_receipt late_world (0 + i) 99 = Inl ReceiptNotFound" "wo_receipt late_world (0 + n) 99 = Inr r" for n r
    using that(1) [rule_format, of 3] that(2) by (cases "n < 3"; cases "3 < n") (auto simp: late_world_def)
  then show ?thesis
    unfolding WaitReceipt_returns
    by (auto simp: late_world_def demo_adapter_def poll_time_def intro!: exI [of _ 3])
qed

text \<open>C26: waiting ends. Whatever the node answers, and however long it takes, \<^verbatim>\<open>WaitReceipt\<close> returns after
  finitely many polls, all of them begun before the timeout (so at most one and a half more than one
  per 100 ms), has changed nothing, and reports a timeout only when the next poll would be due at or
  after it, the sleeps and the time of the calls together.\<close>

theorem WaitReceipt_polls:
  "\<exists>n r. WaitReceipt W h timeout s = (r, s\<lparr>ad_calls := ad_calls s + n + 1\<rparr>)
     \<and> (n = 0 \<or> 100 * int n + call_time W (ad_calls s) n < timeout + 50)
     \<and> (r = Inl ReceiptTimeout \<longrightarrow> 100 * int n + 50 + call_time W (ad_calls s) (n + 1) \<ge> timeout)"
proof -
  obtain n r where "WaitReceipt W h timeout s = (r, s\<lparr>ad_calls := ad_calls s + n + 1\<rparr>)" "wait_end W h timeout 0 0 (ad_calls s) n r"
    using WaitReceipt_ends by blast
  then show ?thesis
    by (intro exI [of _ n] exI [of _ r]; cases n) (auto simp: wait_end_def poll_time_def)
qed

theorem WaitReceipt_polls_witness:
  "fst (WaitReceipt (demo_world\<lparr>wo_receipt := (\<lambda>_ _. Inl ReceiptNotFound)\<rparr>) 99 10 demo_adapter) = Inl ReceiptTimeout
     \<and> (\<exists>n r. WaitReceipt (demo_world\<lparr>wo_receipt := (\<lambda>_ _. Inl ReceiptNotFound)\<rparr>) 99 10 demo_adapter
          = (r, demo_adapter\<lparr>ad_calls := ad_calls demo_adapter + n + 1\<rparr>) \<and> (n = 0 \<or> 100 * int n < 10 + 50))"
  using WaitReceipt_polls [of "demo_world\<lparr>wo_receipt := (\<lambda>_ _. Inl ReceiptNotFound)\<rparr>" 99 10 demo_adapter]
  by (auto simp: WaitReceipt_def wait_receipt.simps Let_def receipt_delay_cases demo_world_sel call_time_def)

section \<open>Every message leaves a trace\<close>

definition known :: "adapter \<Rightarrow> uuid \<Rightarrow> bool" where
  "known s i \<longleftrightarrow> (\<exists>e\<in>set (ad_events s). oe_event e = i)"

definition traced :: "adapter \<Rightarrow> uuid \<Rightarrow> bool" where
  "traced s i \<longleftrightarrow> (\<exists>e\<in>set (ad_events s). oe_event e = i \<and> recorded e)"

lemma forward_rows:
  assumes "adapter_forward s s'" "e \<in> set (ad_events s)"
  obtains f where "f \<in> set (ad_events s')" "event_step e f"
proof -
  have "\<exists>f\<in>set (ad_events s'). event_step e f"
    using assms by (auto simp: adapter_forward_def dest: grows_row)
  then show thesis using that by blast
qed

lemma known_forward: "adapter_forward s s' \<Longrightarrow> known s i \<Longrightarrow> known s' i"
  by (auto simp: known_def event_step_def elim!: forward_rows)

lemma traced_forward: "adapter_forward s s' \<Longrightarrow> traced s i \<Longrightarrow> traced s' i"
  by (auto simp: traced_def event_step_def elim!: forward_rows)

lemma store_call_ok: "store_call W m s = (Inr a, s') \<Longrightarrow> m (s\<lparr>ad_calls := ad_calls s + 1\<rparr>) = (Inr a, s')"
  by (simp add: store_call_def tx_bind_ok ext_def split: if_splits)

lemma events_update_ok:
  assumes "events_update W P f s = (Inr u, s')"
  shows "ad_events s' = sql_update P (f (wo_now W (ad_calls s + 1))) (ad_events s)"
  using store_call_ok [OF assms [unfolded events_update_def]] by (auto simp: tx_modify_ok)

lemma events_update_traces:
  assumes upd: "events_update W P f s = (Inr u, s')" and i: "known s i"
    and eff: "\<And>now e. oe_event e = i \<Longrightarrow> P e \<Longrightarrow> oe_event (f now e) = i \<and> recorded (f now e)"
    and out: "\<And>e. oe_event e = i \<Longrightarrow> \<not> P e \<Longrightarrow> recorded e"
  shows "traced s' i"
proof -
  obtain e where e: "e \<in> set (ad_events s)" "oe_event e = i" using i by (auto simp: known_def)
  let ?g = "\<lambda>r. if P r then f (wo_now W (ad_calls s + 1)) r else r"
  have "?g e \<in> set (ad_events s')" using e(1) by (auto simp: events_update_ok [OF upd] sql_update_def)
  moreover have "oe_event (?g e) = i \<and> recorded (?g e)" using e(2) eff out by simp
  ultimately show ?thesis by (auto simp: traced_def)
qed

lemma MarkSent_traces:
  "MarkSent W ids h s = (Inr u, s') \<Longrightarrow> h \<noteq> '''' \<Longrightarrow> i \<in> set ids \<Longrightarrow> known s i \<Longrightarrow> traced s' i"
  unfolding MarkSent_def
  by (cases "ids = []") (auto elim!: events_update_traces simp: recorded_def has_tx_def)

lemma MarkFailed_traces:
  "MarkFailed W ids h r s = (Inr u, s') \<Longrightarrow> i \<in> set ids \<Longrightarrow> known s i \<Longrightarrow> traced s' i"
  unfolding MarkFailed_def
  by (cases "ids = []") (auto elim!: events_update_traces simp: recorded_def has_tx_def)

lemma recordFailure_traces:
  assumes "recordFailure F ps ids h r s = (Inr u, s')" "i \<in> set ids" "known s i"
  shows "traced s' i"
proof -
  obtain t where t: "PublishAll (fl_world F) (map am_kafka ps) (FailedBecause r) s = (Inr (), t)"
    "MarkFailed (fl_world F) ids h r t = (Inr u, s')"
    using assms(1) by (auto simp: recordFailure_def tx_seq_ok)
  have "known t i" by (rule known_forward [OF tx_relD [OF PublishAll_forward t(1)] assms(3)])
  then show ?thesis by (rule MarkFailed_traces [OF t(2) assms(2)])
qed

lemma tx_error_ok: "tx_error g m s = (Inr a, s') \<longleftrightarrow> m s = (Inr a, s')"
  by (auto simp: tx_error_def tx_handle_def tx_fail_def split: prod.splits sum.splits)

lemma InsertPending_known: "InsertPending W i a s = (Inr u, s') \<Longrightarrow> known s' i"
  unfolding InsertPending_def by (drule store_call_ok) (auto simp: tx_modify_ok known_def)

lemma Exists_ok: "Exists W i s = (Inr b, s') \<Longrightarrow> s' = s\<lparr>ad_calls := ad_calls s + 1\<rparr> \<and> b = known s i"
  unfolding Exists_def by (drule store_call_ok) (auto simp: tx_get_ok known_def)

lemma StatusAndTx_ok:
  assumes "StatusAndTx W i s = (Inr (st, h), s')"
  shows "s' = s\<lparr>ad_calls := ad_calls s + 1\<rparr> \<and> known s i \<and>
    (st = OnchainCommitted \<or> h \<noteq> '''' \<or> st = OnchainFailed \<longrightarrow> traced s i)"
proof -
  have q: "(case List.find (\<lambda>e. oe_event e = i) (ad_events s) of None \<Rightarrow> Inl (NoEventRow i)
     | Some e \<Rightarrow> Inr (oe_status e, case oe_tx e of None \<Rightarrow> '''' | Some h \<Rightarrow> h)) = Inr (st, h)"
    "s' = s\<lparr>ad_calls := ad_calls s + 1\<rparr>"
    using store_call_ok [OF assms [unfolded StatusAndTx_def]] by (simp_all add: tx_query_ok)
  then obtain e where e: "List.find (\<lambda>e. oe_event e = i) (ad_events s) = Some e" "oe_status e = st"
    "(case oe_tx e of None \<Rightarrow> '''' | Some h \<Rightarrow> h) = h" by (auto split: option.splits)
  then have "e \<in> set (ad_events s)" "oe_event e = i" by (auto simp: find_Some_iff)
  moreover have "h \<noteq> '''' \<Longrightarrow> has_tx e" using e(3) by (auto simp: has_tx_def split: option.splits)
  ultimately show ?thesis using q(2) e(2) unfolding known_def traced_def recorded_def by blast
qed

text \<open>What is left to send: a sublist without repetitions, whose rows exist; everything else is traced.\<close>

definition left_over :: "uuid list \<Rightarrow> adapter_message list \<Rightarrow> adapter_message list \<Rightarrow> adapter \<Rightarrow> bool" where
  "left_over seen ms pending s \<longleftrightarrow> subseq pending ms \<and> distinct (map am_event pending)
    \<and> (\<forall>p\<in>set pending. am_event p \<notin> set seen \<and> known s (am_event p))
    \<and> (\<forall>m\<in>set ms. am_event m \<in> set seen \<or> traced s (am_event m) \<or> am_event m \<in> am_event ` set pending)"

lemma left_over_skip:
  "left_over (am_event m # seen) ms pending s \<Longrightarrow> traced s (am_event m) \<Longrightarrow> left_over seen (m # ms) pending s"
  by (auto simp: left_over_def)

lemma left_over_take:
  "left_over (am_event m # seen) ms pending s \<Longrightarrow> known s (am_event m) \<Longrightarrow> am_event m \<notin> set seen \<Longrightarrow>
   left_over seen (m # ms) (m # pending) s"
  by (auto simp: left_over_def)

lemma filter_pending_ok:
  assumes "filter_pending F seen ms s = (Inr pending, s')"
  shows "left_over seen ms pending s'"
  using assms
proof (induction ms arbitrary: seen s pending)
  case (Cons m ms)
  show ?case
  proof (cases "am_event m \<in> set seen")
    case True
    then show ?thesis using Cons.IH [of seen s pending] Cons.prems by (auto simp: left_over_def)
  next
    case new: False
    let ?rest = "filter_pending F (am_event m # seen) ms"
    have skip: ?thesis if "?rest t = (Inr pending, s')" "traced t (am_event m)" for t
      by (rule left_over_skip [OF Cons.IH [OF that(1)]]) (rule traced_forward [OF tx_relD [OF filter_pending_forward that(1)] that(2)])
    have take: ?thesis if "?rest t = (Inr rest, s')" "known t (am_event m)" "pending = m # rest" for t rest
      unfolding that(3)
      by (rule left_over_take [OF Cons.IH [OF that(1)] _ new]) (rule known_forward [OF tx_relD [OF filter_pending_forward that(1)] that(2)])
    obtain ok t where t: "Exists (fl_world F) (am_event m) s = (Inr ok, t)"
      "(if \<not> ok then tx_seq (InsertPending (fl_world F) (am_event m) aggregateSignedAction)
            (tx_bind ?rest (\<lambda>pending. tx_return (m # pending)))
        else tx_bind (StatusAndTx (fl_world F) (am_event m)) (\<lambda>(status, txHash).
          if status = OnchainCommitted then ?rest
          else if txHash \<noteq> '''' then tx_bind (reconcileReceipt F [am_event m] txHash) (\<lambda>_. ?rest)
          else if status = OnchainFailed then ?rest
          else tx_bind ?rest (\<lambda>pending. tx_return (m # pending)))) t = (Inr pending, s')"
      using Cons.prems new by (auto simp: Let_def tx_bind_ok)
    show ?thesis
    proof (cases ok)
      case False
      then obtain u rest where "InsertPending (fl_world F) (am_event m) aggregateSignedAction t = (Inr (), u)"
        "?rest u = (Inr rest, s')" "pending = m # rest"
        using t(2) by (auto simp: tx_seq_ok tx_bind_ok tx_return_ok)
      then show ?thesis using take InsertPending_known by blast
    next
      case True
      then obtain st h u where st: "StatusAndTx (fl_world F) (am_event m) t = (Inr (st, h), u)"
        "(if st = OnchainCommitted then ?rest
          else if h \<noteq> '''' then tx_bind (reconcileReceipt F [am_event m] h) (\<lambda>_. ?rest)
          else if st = OnchainFailed then ?rest
          else tx_bind ?rest (\<lambda>pending. tx_return (m # pending))) u = (Inr pending, s')"
        using t(2) by (auto simp: tx_bind_ok)
      have u: "known u (am_event m)" "st = OnchainCommitted \<or> h \<noteq> '''' \<or> st = OnchainFailed \<Longrightarrow> traced u (am_event m)"
        using StatusAndTx_ok [OF st(1)] by (auto simp: known_def traced_def)
      consider "st = OnchainCommitted \<or> h = '''' \<and> st = OnchainFailed" | "st \<noteq> OnchainCommitted" "h \<noteq> ''''"
        | "st \<noteq> OnchainCommitted" "h = ''''" "st \<noteq> OnchainFailed" by blast
      then show ?thesis
      proof cases
        case 1
        then have "?rest u = (Inr pending, s')" using st(2) by (auto split: if_splits)
        then show ?thesis using skip u(2) 1 by blast
      next
        case 2
        then obtain b v where v: "reconcileReceipt F [am_event m] h u = (Inr b, v)" "?rest v = (Inr pending, s')"
          using st(2) by (auto simp: tx_bind_ok)
        then show ?thesis using skip traced_forward [OF tx_relD [OF reconcileReceipt_forward v(1)]] u(2) 2 by blast
      next
        case 3
        then obtain rest where "?rest u = (Inr rest, s')" "pending = m # rest"
          using st(2) by (auto simp: tx_bind_ok tx_return_ok)
        then show ?thesis using take u(1) by blast
      qed
    qed
  qed
qed (simp add: left_over_def tx_return_ok)

section \<open>Only sending touches the nonce\<close>

definition keeps_sent :: "adapter \<Rightarrow> adapter \<Rightarrow> bool" where
  "keeps_sent s s' \<longleftrightarrow> ad_sent s' = ad_sent s \<and> ad_lost s' = ad_lost s \<and> ad_nonce s' = ad_nonce s \<and> ad_seeded s' = ad_seeded s"

interpretation ks: tx_preorder keeps_sent
  by unfold_locales (auto simp: keeps_sent_def)

lemma keeps_sent_ext: "tx_rel keeps_sent (ext f)"
  by (simp add: tx_rel_def ext_def keeps_sent_def)

lemma keeps_sent_store: "tx_rel keeps_sent m \<Longrightarrow> tx_rel keeps_sent (store_call W m)"
  unfolding store_call_def by (intro tx_rules keeps_sent_ext)

lemma keeps_sent_modify: "(\<And>s. keeps_sent s (g s)) \<Longrightarrow> tx_rel keeps_sent (tx_modify g)"
  by (simp add: tx_rel_def tx_simps)

lemma keeps_sent_statements [tx_rules]:
  "tx_rel keeps_sent (Exists W i)" "tx_rel keeps_sent (InsertPending W i a)" "tx_rel keeps_sent (StatusAndTx W i)"
  "tx_rel keeps_sent (MarkSent W ids h)" "tx_rel keeps_sent (MarkCommitted W ids)"
  "tx_rel keeps_sent (MarkFailed W ids h reason)" "tx_rel keeps_sent (MarkRejected W ids h r)"
  "tx_rel keeps_sent (PublishAll W ms re)"
  unfolding Exists_def InsertPending_def StatusAndTx_def MarkSent_def MarkCommitted_def MarkFailed_def MarkRejected_def
    events_update_def PublishAll_def
  by (intro tx_rules keeps_sent_store keeps_sent_ext keeps_sent_modify; simp add: keeps_sent_def)+

lemma keeps_sent_failure [tx_rules]: "tx_rel keeps_sent (recordFailure F ps ids h r)"
  unfolding recordFailure_def by (intro tx_rules)

lemma keeps_sent_outcomes [tx_rules]:
  "tx_rel keeps_sent (StateOutcome W A r i)" "tx_rel keeps_sent (applyActionOutcomes F rc ids h)"
proof -
  show o: "tx_rel keeps_sent (StateOutcome W A r i)" for W A r i
    unfolding StateOutcome_def actionState_def rejectedReason_def by (intro tx_rules keeps_sent_ext)
  have s: "tx_rel keeps_sent (state_of_action F i rs)" for i rs by (induction rs) (auto intro!: tx_rules o)
  have "tx_rel keeps_sent (fill_outcomes F rs ids os)" for rs ids os by (induction ids arbitrary: os) (auto intro!: tx_rules s)
  then show "tx_rel keeps_sent (applyActionOutcomes F rc ids h)"
    unfolding applyActionOutcomes_def resolveActionOutcomes_def Let_def by (intro tx_rules)
qed

lemma keeps_sent_reconcile [tx_rules]: "tx_rel keeps_sent (reconcileReceipt F ids h)"
proof -
  have one: "keeps_sent s (s\<lparr>ad_calls := Suc (ad_calls s)\<rparr>)" for s :: adapter by (simp add: keeps_sent_def)
  have "tx_rel keeps_sent (tx_seq (applyActionOutcomes F r ids h) (tx_return True))"
    "tx_rel keeps_sent (tx_seq (MarkFailed (fl_world F) ids h e) (tx_return True))" for r e
    by (intro tx_rules)+
  then show ?thesis
    unfolding tx_rel_def reconcileReceipt_run
    by (auto simp: one split: sum.split receipt_err.split intro: ks.R_trans [OF one])
qed

lemma keeps_sent_filter [tx_rules]: "tx_rel keeps_sent (filter_pending F seen ms)"
  by (induction ms arbitrary: seen) (auto simp: Let_def split_def intro!: tx_rules)

section \<open>A successful Send\<close>

definition target_of :: "flusher \<Rightarrow> segmentKind \<Rightarrow> actionTarget" where
  "target_of F k = (case k of SegmentWarehouse \<Rightarrow> warehouseTarget F | SegmentKey \<Rightarrow> keyTarget F)"

text \<open>The transaction \<open>c\<close> is the call that carries the messages of the in-flight entry \<open>x\<close>.\<close>

definition carried :: "flusher \<Rightarrow> segmentKind \<Rightarrow> InflightTx \<Rightarrow> chain_tx \<Rightarrow> bool" where
  "carried F k x c \<longleftrightarrow> fx_msgs x \<noteq> [] \<and> fx_ids x = idsOf (fx_msgs x) \<and> (\<forall>m\<in>set (fx_msgs x). segmentOf m = k)
     \<and> (\<exists>r. tg_resolver (target_of F k) = Some r \<and> ct_to c = resolver_address r)
     \<and> tg_pack (target_of F k) (fx_msgs x) = Inr (ct_data c) \<and> length (ct_data c) \<le> maxActionCalldata
     \<and> tg_gas_floor (target_of F k) (fx_msgs x) \<le> ct_gas c"

definition consecutive :: "chain_tx list \<Rightarrow> bool" where
  "consecutive cs \<longleftrightarrow> (\<forall>i. Suc i < length cs \<longrightarrow> ct_nonce (cs ! Suc i) = ct_nonce (cs ! i) + 1)"

text \<open>From \<open>s\<close> to \<open>s'\<close> the transactions \<open>cs\<close> went out one after the other, and none without an answer.\<close>

definition sent_between :: "adapter \<Rightarrow> chain_tx list \<Rightarrow> adapter \<Rightarrow> bool" where
  "sent_between s cs s' \<longleftrightarrow> ad_sent s' = ad_sent s @ cs \<and> ad_lost s' = ad_lost s \<and> consecutive cs
     \<and> (ad_seeded s \<longrightarrow> ad_seeded s') \<and> (cs = [] \<longrightarrow> ad_seeded s \<longrightarrow> ad_nonce s' = ad_nonce s)
     \<and> (cs \<noteq> [] \<longrightarrow> ad_seeded s' \<and> ad_nonce s' = ct_nonce (last cs) + 1 \<and> (ad_seeded s \<longrightarrow> ct_nonce (hd cs) = ad_nonce s))"

lemma sent_none: "keeps_sent s s' \<Longrightarrow> sent_between s [] s'"
  by (simp add: sent_between_def keeps_sent_def consecutive_def)

lemma consecutive_append:
  assumes "consecutive cs" "consecutive ds" "cs = [] \<or> ds = [] \<or> ct_nonce (hd ds) = ct_nonce (last cs) + 1"
  shows "consecutive (cs @ ds)"
  unfolding consecutive_def
proof (intro allI impI)
  fix i assume i: "Suc i < length (cs @ ds)"
  show "ct_nonce ((cs @ ds) ! Suc i) = ct_nonce ((cs @ ds) ! i) + 1"
  proof (cases "Suc i < length cs")
    case True
    then show ?thesis using assms(1) by (simp add: consecutive_def nth_append)
  next
    case False
    show ?thesis
    proof (cases "Suc i = length cs")
      case True
      then have "cs \<noteq> []" "ds \<noteq> []" "i = length cs - 1" using i by auto
      then show ?thesis using assms(3) True by (simp add: nth_append hd_conv_nth last_conv_nth)
    next
      case neq: False
      then have "i \<ge> length cs" "Suc (i - length cs) < length ds" "Suc i - length cs = Suc (i - length cs)" using False i by auto
      then show ?thesis using assms(2) by (simp add: consecutive_def nth_append)
    qed
  qed
qed

lemma sent_trans:
  assumes "sent_between s cs t" "sent_between t ds u" shows "sent_between s (cs @ ds) u"
proof -
  have "consecutive (cs @ ds)"
    by (rule consecutive_append) (use assms in \<open>auto simp: sent_between_def\<close>)
  then show ?thesis using assms by (cases "cs = []"; cases "ds = []") (auto simp: sent_between_def)
qed

lemma SendCalldata_sent:
  assumes "SendCalldata W to data g s = (Inr h, s')"
  obtains c where "sent_between s [c] s'" "ct_to c = to" "ct_data c = data" "g \<le> ct_gas c"
proof -
  obtain c where "ad_sent s' = ad_sent s @ [c]" "ad_lost s' = ad_lost s" "asked W to data g s c" "ad_seeded s'" "ad_nonce s' = ct_nonce c + 1"
    using SendCalldata_cases [OF assms] by (auto simp: send_done_def)
  then show thesis by (intro that [of c]) (auto simp: sent_between_def consecutive_def asked_def)
qed

lemma submit_transient: "submit_tx W t hash s = (Inl e, s') \<Longrightarrow> \<exists>x. e = ErrChainTransient x"
  by (cases "wo_submit W (ad_calls s) t")
    (auto simp: submit_tx_def tx_simps ext_def reseedLocked_def split: if_splits sum.splits)

lemma SendCalldata_failed:
  assumes sent: "SendCalldata W to data g s = (Inl e, s')" and e: "\<And>x. e \<noteq> ErrChainTransient x"
  shows "sent_between s [] s'"
  using sent unfolding SendCalldata_def send_calldata_def get_bind_apply
proof (cases rule: seq_cases)
  case (1 d)
  then show ?thesis using e by (auto simp: tx_error_def tx_simps split: if_splits sum.splits)
next
  case (2 t)
  have t: "ad_sent t = ad_sent s" "ad_lost t = ad_lost s" "ad_seeded t" "ad_seeded s \<longrightarrow> t = s"
    using seed_cases [OF 2(1)] by auto
  have "keeps_sent t s'"
    using 2(2) e unfolding get_bind_apply bind_error_ext Let_def submit_tx_def [symmetric]
    by (auto simp: keeps_sent_def split: sum.splits dest: submit_transient)
  then show ?thesis using t by (auto simp: sent_between_def keeps_sent_def consecutive_def)
qed

lemma take_error_ok: "take_error m s = (Inr r, s') \<longleftrightarrow> m s = (r, s')"
  by (auto simp: take_error_def split: prod.splits)

lemma list_all2_single: "list_all2 P [x] [c] = P x c"
  by simp

text \<open>The loop of \<open>send_chunks\<close>: it extends what is in flight, in order, and traces every message.\<close>

lemma send_chunks_ok:
  assumes "send_chunks F (target_of F k) r pending infl s = (Inr infl', s')" "tg_resolver (target_of F k) = Some r"
    "\<forall>m\<in>set pending. segmentOf m = k" "\<forall>m\<in>set pending. known s (am_event m)"
  shows "\<exists>new cs. infl' = infl @ new \<and> subseq (concat (map fx_msgs new)) pending \<and> sent_between s cs s'
     \<and> list_all2 (carried F k) new cs \<and> (\<forall>m\<in>set pending. traced s' (am_event m))"
  using assms
proof (induction "length pending" arbitrary: pending infl s rule: less_induct)
  case less
  let ?t = "target_of F k"
  have later: "traced u i \<Longrightarrow> send_chunks F t r q fl u = (res, v) \<Longrightarrow> traced v i" for i t q fl u res v
    by (rule traced_forward [OF tx_relD [OF send_chunks_forward]])
  show ?case
  proof (cases rule: send_chunks_cases [of pending F ?t r infl])
    case Done
    then show ?thesis using less.prems(1)
      by (intro exI [of _ "[]"]) (simp add: tx_return_ok sent_none keeps_sent_def)
  next
    case (Unsendable p rest reason)
    then obtain u where u: "recordFailure F [p] [am_event p] '''' reason s = (Inr (), u)"
      "send_chunks F ?t r rest infl u = (Inr infl', s')"
      using less.prems(1) by (auto simp: tx_seq_ok tx_error_ok)
    have fw: "adapter_forward s u" by (rule tx_relD [OF recordFailure_forward u(1)])
    have "keeps_sent s u" by (rule tx_relD [OF keeps_sent_failure u(1)])
    then have s: "sent_between s [] u" by (rule sent_none)
    have p: "traced s' (am_event p)"
      by (rule later [OF recordFailure_traces [OF u(1)] u(2)]) (use less.prems(4) Unsendable in simp_all)
    have "\<exists>new cs. infl' = infl @ new \<and> subseq (concat (map fx_msgs new)) rest \<and> sent_between u cs s'
     \<and> list_all2 (carried F k) new cs \<and> (\<forall>m\<in>set rest. traced s' (am_event m))"
      by (rule less.hyps) (use less.prems u Unsendable known_forward [OF fw] in auto)
    then show ?thesis using sent_trans [OF s] p Unsendable(1) by fastforce
  next
    case (Chunk n data)
    let ?chunk = "take n pending" and ?rest = "drop n pending"
    have pk: "tg_pack ?t ?chunk = Inr data" "length data \<le> maxActionCalldata"
      by (rule maxActionChunk_fits [OF Chunk(3,1)])+
    have ne: "?chunk \<noteq> []" using Chunk(1,2) by auto
    obtain res u where u: "SendCalldata (fl_world F) (resolver_address r) data (tg_gas_floor ?t ?chunk) s = (res, u)"
      "after_send F ?t r pending infl n res u = (Inr infl', s')"
      using less.prems(1) unfolding Chunk(4) by (auto simp: tx_bind_ok take_error_ok)
    have fwu: "adapter_forward s u" by (rule tx_relD [OF SendCalldata_forward u(1)])
    show ?thesis
    proof (cases res)
      case (Inl e)
      then have e: "e \<noteq> ErrChainTransient x" for x using u(2) by auto
      then obtain v where v: "recordFailure F ?chunk (idsOf ?chunk) '''' (chain_error_text e) u = (Inr (), v)"
        "send_chunks F ?t r ?rest infl v = (Inr infl', s')"
        using u(2) Inl by (cases e) (auto simp: tx_seq_ok tx_error_ok)
      have fw: "adapter_forward s v" by (rule adapter_forward_trans [OF fwu tx_relD [OF recordFailure_forward v(1)]])
      have s: "sent_between s ([] @ []) v"
        by (rule sent_trans [OF SendCalldata_failed [OF u(1) [unfolded Inl] e]], rule sent_none, rule tx_relD [OF keeps_sent_failure v(1)])
      have c: "traced s' (am_event m)" if "m \<in> set ?chunk" for m
        by (rule later [OF recordFailure_traces [OF v(1)] v(2)])
          (use that less.prems(4) known_forward [OF fwu] in \<open>auto simp: idsOf_def dest: in_set_takeD\<close>)
      have "\<exists>new cs. infl' = infl @ new \<and> subseq (concat (map fx_msgs new)) ?rest \<and> sent_between v cs s'
       \<and> list_all2 (carried F k) new cs \<and> (\<forall>m\<in>set ?rest. traced s' (am_event m))"
        by (rule less.hyps) (use less.prems v Chunk known_forward [OF fw] in \<open>auto dest: in_set_dropD\<close>)
      then obtain new cs where n: "infl' = infl @ new" "subseq (concat (map fx_msgs new)) ?rest" "sent_between v cs s'"
        "list_all2 (carried F k) new cs" "\<forall>m\<in>set ?rest. traced s' (am_event m)" by blast
      have "subseq (concat (map fx_msgs new)) (?chunk @ ?rest)"
        using n(2) by (rule subseq_drop_many)
      moreover have "traced s' (am_event m)" if "m \<in> set pending" for m
        using that c n(5) set_append [of ?chunk ?rest] by (auto simp: append_take_drop_id)
      ultimately show ?thesis using n sent_trans [OF s n(3)] by (intro exI [of _ new] exI [of _ cs]) simp
    next
      case (Inr h)
      then obtain v where v: "MarkSent (fl_world F) (idsOf ?chunk) (Hex32 h) u = (Inr (), v)"
        "send_chunks F ?t r ?rest (infl @ [\<lparr> fx_hash = h, fx_ids = idsOf ?chunk, fx_msgs = ?chunk \<rparr>]) v = (Inr infl', s')"
        using u(2) by (auto simp: tx_seq_ok tx_error_ok)
      have fw: "adapter_forward s v"
        by (rule adapter_forward_trans [OF fwu tx_relD [OF store_forward(5) v(1)]]) simp
      obtain c where c: "sent_between s [c] u" "ct_to c = resolver_address r" "ct_data c = data" "tg_gas_floor ?t ?chunk \<le> ct_gas c"
        using SendCalldata_sent [OF u(1) [unfolded Inr]] by metis
      have s: "sent_between s ([c] @ []) v"
        by (rule sent_trans [OF c(1)], rule sent_none, rule tx_relD [OF keeps_sent_statements(4) v(1)])
      have tr: "traced s' (am_event m)" if "m \<in> set ?chunk" for m
        by (rule later [OF MarkSent_traces [OF v(1)] v(2)])
          (use that less.prems(4) known_forward [OF fwu] in \<open>auto simp: idsOf_def dest: in_set_takeD\<close>)
      let ?x = "\<lparr> fx_hash = h, fx_ids = idsOf ?chunk, fx_msgs = ?chunk \<rparr>"
      have x: "carried F k ?x c"
        using ne c pk less.prems(2,3) by (auto simp: carried_def dest: in_set_takeD)
      have "\<exists>new cs. infl' = (infl @ [?x]) @ new \<and> subseq (concat (map fx_msgs new)) ?rest \<and> sent_between v cs s'
       \<and> list_all2 (carried F k) new cs \<and> (\<forall>m\<in>set ?rest. traced s' (am_event m))"
        by (rule less.hyps) (use less.prems v Chunk known_forward [OF fw] in \<open>auto dest: in_set_dropD\<close>)
      then obtain new cs where n: "infl' = (infl @ [?x]) @ new" "subseq (concat (map fx_msgs new)) ?rest" "sent_between v cs s'"
        "list_all2 (carried F k) new cs" "\<forall>m\<in>set ?rest. traced s' (am_event m)" by blast
      have "subseq (?chunk @ concat (map fx_msgs new)) (?chunk @ ?rest)" using n(2) by (rule list_emb_append_mono [OF subseq_order.order_refl])
      then have "subseq (concat (map fx_msgs (?x # new))) pending" by simp
      moreover have "traced s' (am_event m)" if "m \<in> set pending" for m
        using that tr n(5) set_append [of ?chunk ?rest] by (auto simp: append_take_drop_id)
      moreover have "sent_between s (c # cs) s'" using sent_trans [OF s n(3)] by simp
      ultimately show ?thesis using n x by (intro exI [of _ "?x # new"] exI [of _ "c # cs"]) simp
    qed
  qed
qed

section \<open>Segments\<close>

definition uniform :: "adapter_message list \<Rightarrow> bool" where
  "uniform seg \<longleftrightarrow> seg \<noteq> [] \<and> (\<exists>k. \<forall>m\<in>set seg. segmentOf m = k)"

lemma uniform_hd: "uniform seg \<Longrightarrow> m \<in> set seg \<Longrightarrow> segmentOf m = segmentOf (hd seg)"
  by (metis hd_in_set uniform_def)

lemma uniform_snoc:
  assumes "uniform seg" "segmentOf m = segmentOf (hd seg)" shows "uniform (seg @ [m])"
proof -
  obtain k where k: "seg \<noteq> []" "\<forall>m\<in>set seg. segmentOf m = k" using assms(1) by (auto simp: uniform_def)
  then have "segmentOf m = k" using assms(2) by simp
  then have "\<forall>m\<in>set (seg @ [m]). segmentOf m = k" using k by auto
  then show ?thesis unfolding uniform_def by blast
qed

definition alternating :: "adapter_message list list \<Rightarrow> bool" where
  "alternating segs \<longleftrightarrow> (\<forall>i. Suc i < length segs \<longrightarrow> segmentOf (hd (segs ! Suc i)) \<noteq> segmentOf (hd (segs ! i)))"

lemma alternating_snoc:
  assumes "alternating segs" "segs = [] \<or> segmentOf (hd seg) \<noteq> segmentOf (hd (last segs))"
  shows "alternating (segs @ [seg])"
  unfolding alternating_def
proof (intro allI impI)
  fix i assume i: "Suc i < length (segs @ [seg])"
  show "segmentOf (hd ((segs @ [seg]) ! Suc i)) \<noteq> segmentOf (hd ((segs @ [seg]) ! i))"
  proof (cases "Suc i < length segs")
    case True
    then show ?thesis using assms(1) by (simp add: alternating_def nth_append)
  next
    case False
    then have "segs \<noteq> []" "i = length segs - 1" using i by auto
    then show ?thesis using assms(2) by (simp add: nth_append last_conv_nth)
  qed
qed

lemma alternating_longer:
  assumes "alternating (segs @ [seg])" "seg \<noteq> []" shows "alternating (segs @ [seg @ ms])"
proof -
  have h: "hd ((segs @ [seg @ ms]) ! i) = hd ((segs @ [seg]) ! i)" if "i < Suc (length segs)" for i
    using that assms(2) by (cases "i = length segs") (simp_all add: nth_append)
  show ?thesis using assms(1) unfolding alternating_def by (simp add: h)
qed

lemma split_from_spec:
  assumes "\<forall>g\<in>set segs. uniform g" "uniform seg" "kind = segmentOf (hd seg)" "alternating (segs @ [seg])"
  shows "concat (split_from segs seg kind ms) = concat segs @ seg @ ms
     \<and> (\<forall>g\<in>set (split_from segs seg kind ms). uniform g) \<and> alternating (split_from segs seg kind ms)"
  using assms
proof (induction ms arbitrary: segs seg kind)
  case (Cons m ms)
  show ?case
  proof (cases "segmentOf m = kind")
    case True
    have "alternating (segs @ [seg @ [m]])"
      by (rule alternating_longer [OF Cons.prems(4)]) (use Cons.prems(2) in \<open>simp add: uniform_def\<close>)
    moreover have "uniform (seg @ [m])"
      by (rule uniform_snoc [OF Cons.prems(2)]) (rule trans [OF True Cons.prems(3)])
    moreover have "kind = segmentOf (hd (seg @ [m]))"
      using Cons.prems(2,3) unfolding uniform_def by (metis hd_append2)
    ultimately have "concat (split_from segs (seg @ [m]) kind ms) = concat segs @ (seg @ [m]) @ ms
     \<and> (\<forall>g\<in>set (split_from segs (seg @ [m]) kind ms). uniform g) \<and> alternating (split_from segs (seg @ [m]) kind ms)"
      using Cons.prems(1) by (intro Cons.IH)
    then show ?thesis using True by simp
  next
    case False
    have "alternating ((segs @ [seg]) @ [[m]])"
      by (rule alternating_snoc [OF Cons.prems(4)]) (simp add: False flip: Cons.prems(3))
    moreover have "uniform [m]" by (simp add: uniform_def)
    ultimately have "concat (split_from (segs @ [seg]) [m] (segmentOf m) ms) = concat (segs @ [seg]) @ [m] @ ms
     \<and> (\<forall>g\<in>set (split_from (segs @ [seg]) [m] (segmentOf m) ms). uniform g)
     \<and> alternating (split_from (segs @ [seg]) [m] (segmentOf m) ms)"
      using Cons.prems(1,2) by (intro Cons.IH) (simp_all del: concat_append)
    then show ?thesis using False by simp
  qed
qed simp

lemma splitSegments_spec:
  "concat (splitSegments msgs) = msgs \<and> (\<forall>g\<in>set (splitSegments msgs). uniform g) \<and> alternating (splitSegments msgs)"
proof (cases msgs)
  case (Cons m ms)
  have "uniform [m]" "alternating ([] @ [[m]])" by (simp_all add: uniform_def alternating_def)
  from split_from_spec [OF _ this(1) _ this(2), of "segmentOf m" ms] show ?thesis
    by (simp add: splitSegments_def Cons)
qed (simp add: splitSegments_def alternating_def)

lemma sendActions_ok:
  assumes "sendActions F (target_of F k) seg infl s = (Inr infl', s')" "\<forall>m\<in>set seg. segmentOf m = k"
  shows "\<exists>new cs. infl' = infl @ new \<and> subseq (concat (map fx_msgs new)) seg \<and> sent_between s cs s'
     \<and> list_all2 (carried F k) new cs \<and> (\<forall>m\<in>set seg. traced s' (am_event m))"
proof -
  obtain pending t where t: "filter_pending F [] seg s = (Inr pending, t)"
    "(if pending = [] then tx_return infl
     else case tg_resolver (target_of F k) of
       None \<Rightarrow> tx_seq (or_else infl (recordFailure F pending (idsOf pending) '''' (tg_name (target_of F k) @ '': contract not configured'')))
                 (tx_return infl)
     | Some r \<Rightarrow> send_chunks F (target_of F k) r pending infl) t = (Inr infl', s')"
    using assms(1) by (auto simp: sendActions_def tx_bind_ok tx_error_ok filterAndMarkPending_def)
  have left: "subseq pending seg" "\<forall>p\<in>set pending. known t (am_event p)"
    "\<forall>m\<in>set seg. traced t (am_event m) \<or> am_event m \<in> am_event ` set pending"
    using filter_pending_ok [OF t(1)] by (auto simp: left_over_def)
  have s: "sent_between s [] t" by (rule sent_none [OF tx_relD [OF keeps_sent_filter t(1)]])
  have all: "\<forall>m\<in>set seg. traced s' (am_event m)" if "adapter_forward t s'" "\<forall>p\<in>set pending. traced s' (am_event p)"
    using left(3) that traced_forward by (metis imageE)
  show ?thesis
  proof (cases "pending = []")
    case True
    then show ?thesis using t(2) left(3) s by (auto simp: tx_return_ok)
  next
    case ne: False
    show ?thesis
    proof (cases "tg_resolver (target_of F k)")
      case None
      then have f: "recordFailure F pending (idsOf pending) '''' (tg_name (target_of F k) @ '': contract not configured'') t = (Inr (), s')"
        "infl' = infl"
        using t(2) ne by (auto simp: tx_seq_ok tx_error_ok tx_return_ok)
      have "\<forall>p\<in>set pending. traced s' (am_event p)" using recordFailure_traces [OF f(1)] left(2) by (simp add: idsOf_def)
      moreover have "sent_between s ([] @ []) s'" by (rule sent_trans [OF s sent_none [OF tx_relD [OF keeps_sent_failure f(1)]]])
      ultimately show ?thesis using f(2) all tx_relD [OF recordFailure_forward f(1)] by (intro exI [of _ "[]"]) simp
    next
      case (Some r)
      then have c: "send_chunks F (target_of F k) r pending infl t = (Inr infl', s')" using t(2) ne by simp
      have "\<forall>m\<in>set pending. segmentOf m = k" using assms(2) list_emb_set [OF left(1)] by blast
      from send_chunks_ok [OF c Some this left(2)]
      obtain new cs where n: "infl' = infl @ new" "subseq (concat (map fx_msgs new)) pending" "sent_between t cs s'"
        "list_all2 (carried F k) new cs" "\<forall>m\<in>set pending. traced s' (am_event m)" by blast
      have "\<forall>m\<in>set seg. traced s' (am_event m)" using all [OF tx_relD [OF send_chunks_forward c] n(5)] .
      moreover have "subseq (concat (map fx_msgs new)) seg" using n(2) left(1) by (rule subseq_order.order_trans)
      ultimately show ?thesis using n sent_trans [OF s n(3)] by (intro exI [of _ new] exI [of _ cs]) simp
    qed
  qed
qed

lemma send_segments_ok:
  assumes "send_segments F segs infl s = (Inr infl', s')" "\<forall>g\<in>set segs. uniform g"
  shows "\<exists>new cs. infl' = infl @ new \<and> subseq (concat (map fx_msgs new)) (concat segs) \<and> sent_between s cs s'
     \<and> list_all2 (\<lambda>x c. \<exists>k. carried F k x c) new cs \<and> (\<forall>m\<in>set (concat segs). traced s' (am_event m))"
  using assms
proof (induction segs arbitrary: infl s)
  case (Cons seg segs)
  let ?k = "segmentOf (hd seg)"
  obtain fl t where t: "sendActions F (target_of F ?k) seg infl s = (Inr fl, t)" "send_segments F segs fl t = (Inr infl', s')"
    using Cons.prems(1) by (cases ?k) (auto simp: tx_bind_ok target_of_def)
  obtain new cs where n: "fl = infl @ new" "subseq (concat (map fx_msgs new)) seg" "sent_between s cs t"
    "list_all2 (carried F ?k) new cs" "\<forall>m\<in>set seg. traced t (am_event m)"
    using sendActions_ok [OF t(1)] Cons.prems(2) uniform_hd by (metis list.set_intros(1))
  obtain new' cs' where n': "infl' = fl @ new'" "subseq (concat (map fx_msgs new')) (concat segs)" "sent_between t cs' s'"
    "list_all2 (\<lambda>x c. \<exists>k. carried F k x c) new' cs'" "\<forall>m\<in>set (concat segs). traced s' (am_event m)"
    using Cons.IH [OF t(2)] Cons.prems(2) by auto
  have fw: "adapter_forward t s'"
  proof -
    have "tx_rel adapter_forward (send_segments F segs x)" for segs x
      by (induction segs arbitrary: x) (auto simp: sendActions_def filterAndMarkPending_def split: segmentKind.split intro!: tx_rules)
    then show ?thesis using t(2) by (rule tx_relD)
  qed
  have "list_all2 (\<lambda>x c. \<exists>k. carried F k x c) new cs" using n(4) by (rule list_all2_mono) blast
  then have "list_all2 (\<lambda>x c. \<exists>k. carried F k x c) (new @ new') (cs @ cs')" using n'(4) by (rule list_all2_appendI)
  moreover have "subseq (concat (map fx_msgs (new @ new'))) (concat (seg # segs))"
    using list_emb_append_mono [OF n(2) n'(2)] by simp
  ultimately show ?case
    using n n' traced_forward [OF fw] sent_trans [OF n(3) n'(3)] by (intro exI [of _ "new @ new'"] exI [of _ "cs @ cs'"]) auto
qed (auto simp: tx_return_ok sent_between_def consecutive_def)

lemma Send_ok:
  assumes "Send F msgs s = (Inr inflight, s')"
  shows "subseq (concat (map fx_msgs inflight)) msgs \<and> (\<forall>m\<in>set msgs. traced s' (am_event m))
     \<and> (\<exists>cs. sent_between s cs s' \<and> list_all2 (\<lambda>x c. \<exists>k. carried F k x c) inflight cs)"
  using send_segments_ok [OF assms [unfolded Send_def]] splitSegments_spec [of msgs] by auto

text \<open>C10: what a successful \<^verbatim>\<open>Send\<close> has done. The transactions it sent have consecutive nonces and stand
  in the order of Kafka: read one after the other, their messages form a sublist of the batch. Each
  transaction carries messages of one kind only, packed into at most 120000 bytes, to the contract
  of that kind, with at least the gas floor of those messages; no other transaction reached the node
  without an acknowledgement. And no message is left without a
  trace: its row is committed, failed, or holds the hash of a transaction that reconciliation will
  look up, so that its offset may be committed.\<close>

theorem Send_traces:
  "Send F msgs s = (Inr inflight, s') \<Longrightarrow> subseq (concat (map fx_msgs inflight)) msgs \<and> (\<forall>m\<in>set msgs. traced s' (am_event m))
     \<and> (\<exists>cs. sent_between s cs s' \<and> list_all2 (\<lambda>x c. \<exists>k. carried F k x c) inflight cs)"
  by (rule Send_ok)

theorem Send_traces_witness:
  "\<exists>s'. Send demo_flusher [demo_message] demo_adapter = (Inr [\<lparr> fx_hash = 99, fx_ids = [65], fx_msgs = [demo_message] \<rparr>], s')
     \<and> traced s' 65 \<and> sent_between demo_adapter [demo_tx] s'"
proof -
  obtain s' where s': "Send demo_flusher [demo_message] demo_adapter = (Inr [\<lparr> fx_hash = 99, fx_ids = [65], fx_msgs = [demo_message] \<rparr>], s')"
    "ad_sent s' = [demo_tx]" using demo_send by auto
  obtain cs where cs: "sent_between demo_adapter cs s'" using Send_traces [OF s'(1)] by blast
  then have "cs = [demo_tx]" using s'(2) by (auto simp: sent_between_def demo_adapter_def)
  then show ?thesis using s'(1) cs Send_traces [OF s'(1)] by auto
qed

text \<open>A batch is cut where the kind of action changes. Joined again, the segments are the batch, in its
  order; each is non-empty and of one kind; and neighbours differ in kind, so that no cut is made
  that the order does not force.\<close>

theorem splitSegments_partition:
  "concat (splitSegments msgs) = msgs \<and> (\<forall>g\<in>set (splitSegments msgs). uniform g) \<and> alternating (splitSegments msgs)"
  by (rule splitSegments_spec)

definition demo_key_message :: adapter_message where
  "demo_key_message = demo_message\<lparr>am_event := 66, am_payload := KeyPayload \<lparr> kx_action = 66, kx_type = 5, kx_qx = 0, kx_qy = 0,
     kx_signer = 0, kx_auth = wx_auth demo_call \<rparr>\<rparr>"

theorem splitSegments_partition_witness:
  "splitSegments [demo_message, demo_key_message, demo_message] = [[demo_message], [demo_key_message], [demo_message]]
     \<and> concat (splitSegments [demo_message, demo_key_message, demo_message]) = [demo_message, demo_key_message, demo_message]
     \<and> uniform [demo_key_message]"
proof -
  have s: "splitSegments [demo_message, demo_key_message, demo_message] = [[demo_message], [demo_key_message], [demo_message]]"
    by (simp add: splitSegments_def segmentOf_def demo_key_message_def)
  then show ?thesis using splitSegments_partition [of "[demo_message, demo_key_message, demo_message]"] by simp
qed

end
