(* ===== verification/ConsumerOrder.thy ===== *)
theory ConsumerOrder
  imports SendFlow
begin

text \<open>
  When the offset of a message is committed: what the loop of \<^verbatim>\<open>consumer.go\<close> guarantees of
  it, in which order, and the two paths on which a later offset overtakes an earlier message.
\<close>

section \<open>Messages accounted for\<close>

text \<open>A message that may be forgotten: its row will not be lost, or it is on the dead-letter topic.\<close>

definition accounted :: "crypto \<Rightarrow> codec \<Rightarrow> adapter \<Rightarrow> kafka_message \<Rightarrow> bool" where
  "accounted X K a m \<longleftrightarrow> (case ParseMessage X K m of
      Inr x \<Rightarrow> traced a (am_event x) | Inl e \<Rightarrow> (m, ParseFailed e) \<in> set (ad_dlq a))"

lemma dlq_forward: "adapter_forward a a' \<Longrightarrow> set (ad_dlq a) \<subseteq> set (ad_dlq a')"
  by (auto simp: adapter_forward_def)

lemma accounted_forward: "adapter_forward a a' \<Longrightarrow> accounted X K a m \<Longrightarrow> accounted X K a' m"
  using dlq_forward [of a a'] traced_forward [of a a'] by (auto simp: accounted_def split: sum.splits)

lemma ParseMessage_kafka: "ParseMessage X K m = Inr x \<Longrightarrow> am_kafka x = m"
  by (auto simp: ParseMessage_def parseSignedAction_def Let_def split: option.splits if_splits sum.splits)

definition todo_ok :: "crypto \<Rightarrow> codec \<Rightarrow> adapter \<Rightarrow> todo \<Rightarrow> bool" where
  "todo_ok X K a t = (case t of SubmitBatch b \<Rightarrow> (\<forall>m\<in>set (bt_msgs b). accounted X K a m)
     | DeadLetter m e \<Rightarrow> ParseMessage X K m = Inl e)"

definition pump_ok :: "crypto \<Rightarrow> codec \<Rightarrow> pump \<Rightarrow> bool" where
  "pump_ok X K p \<longleftrightarrow> (\<forall>x\<in>set (ba_msgs (pu_batcher p)). ParseMessage X K (am_kafka x) = Inr x)
     \<and> (\<forall>t\<in>set (pu_todo p). todo_ok X K (pu_adapter p) t)
     \<and> (\<forall>b\<in>set (pu_queue p). \<forall>m\<in>set (bt_msgs b). accounted X K (pu_adapter p) m)
     \<and> (\<forall>m\<in>set (pu_commits p). accounted X K (pu_adapter p) m)"

lemma todo_ok_forward: "adapter_forward a a' \<Longrightarrow> todo_ok X K a t \<Longrightarrow> todo_ok X K a' t"
  by (auto simp: todo_ok_def accounted_forward split: todo.splits)

lemma pump_ok_adapter: "pump_ok X K p \<Longrightarrow> adapter_forward (pu_adapter p) a \<Longrightarrow> pump_ok X K (p\<lparr>pu_adapter := a\<rparr>)"
  by (auto simp: pump_ok_def intro: todo_ok_forward accounted_forward)

text \<open>The two outcomes of draining the batcher.\<close>

lemma drainSendSubmit_cases:
  obtains (Empty) "ba_msgs (pu_batcher p) = []" "drainSendSubmit F p = p\<lparr>pu_batcher := snd (Drain (pu_batcher p))\<rparr>"
  | (Retry) e a where "ba_msgs (pu_batcher p) \<noteq> []" "Send F (ba_msgs (pu_batcher p)) (pu_adapter p) = (Inl e, a)"
      "pu_adapter (drainSendSubmit F p) = a" "ba_msgs (pu_batcher (drainSendSubmit F p)) = ba_msgs (pu_batcher p)"
      "\<exists>b. drainSendSubmit F p = p\<lparr>pu_adapter := a, pu_batcher := b\<rparr>"
  | (Out) inflight a b where "ba_msgs (pu_batcher p) \<noteq> []" "Send F (ba_msgs (pu_batcher p)) (pu_adapter p) = (Inr inflight, a)"
      "ba_msgs b = []" "drainSendSubmit F p = p\<lparr>pu_adapter := a, pu_batcher := b,
          pu_todo := pu_todo p @ [SubmitBatch \<lparr> bt_txs = inflight, bt_msgs = map am_kafka (ba_msgs (pu_batcher p)) \<rparr>]\<rparr>"
proof (cases "ba_msgs (pu_batcher p) = []")
  case True
  then show thesis using Empty by (simp add: drainSendSubmit_def Drain_def)
next
  case False
  obtain r a where r: "Send F (ba_msgs (pu_batcher p)) (pu_adapter p) = (r, a)" by fastforce
  show thesis
  proof (cases r)
    case (Inl e)
    then show thesis using False r Retry [of e a] by (auto simp: drainSendSubmit_def Drain_def Unshift_def)
  next
    case (Inr fl)
    then show thesis using False r Out [of fl a "(pu_batcher p)\<lparr>ba_msgs := [], ba_first := 0\<rparr>"]
      by (simp add: drainSendSubmit_def Drain_def)
  qed
qed

lemma drainSendSubmit_ok: "pump_ok X K p \<Longrightarrow> pump_ok X K (drainSendSubmit F p)"
proof (cases rule: drainSendSubmit_cases [of p F])
  case Empty
  assume "pump_ok X K p"
  then show ?thesis using Empty by (simp add: pump_ok_def Drain_def)
next
  case (Retry e a)
  assume ok: "pump_ok X K p"
  obtain b where b: "drainSendSubmit F p = p\<lparr>pu_adapter := a, pu_batcher := b\<rparr>" using Retry(5) by blast
  have "pump_ok X K (p\<lparr>pu_adapter := a\<rparr>)" by (rule pump_ok_adapter [OF ok tx_relD [OF Send_forward Retry(2)]])
  then show ?thesis using Retry(4) ok unfolding b by (simp add: pump_ok_def)
next
  case (Out infl a b)
  assume ok: "pump_ok X K p"
  have a: "pump_ok X K (p\<lparr>pu_adapter := a\<rparr>)" by (rule pump_ok_adapter [OF ok tx_relD [OF Send_forward Out(2)]])
  have "accounted X K a (am_kafka x)" if "x \<in> set (ba_msgs (pu_batcher p))" for x
    using Send_ok [OF Out(2)] ok that by (auto simp: accounted_def pump_ok_def)
  then have "todo_ok X K a (SubmitBatch \<lparr> bt_txs = infl, bt_msgs = map am_kafka (ba_msgs (pu_batcher p)) \<rparr>)"
    by (auto simp: todo_ok_def)
  then show ?thesis using a Out(3) unfolding Out(4) by (auto simp: pump_ok_def)
qed

lemma onMessage_ok:
  assumes "pump_ok X K p" shows "pump_ok X K (onMessage F X K m p)"
proof -
  have f: "pump_ok X K (p\<lparr>pu_fetched := pu_fetched p @ [m]\<rparr>)" using assms by (simp add: pump_ok_def)
  show ?thesis
  proof (cases "ParseMessage X K m")
    case (Inl e)
    then have "todo_ok X K a (DeadLetter m e)" for a by (simp add: todo_ok_def)
    then show ?thesis
      using drainSendSubmit_ok [OF f, of F] Inl by (simp add: onMessage_def Let_def pump_ok_def)
  next
    case (Inr x)
    have "pump_ok X K (p\<lparr>pu_fetched := pu_fetched p @ [m], pu_batcher := Add now x (pu_batcher p)\<rparr>)" for now
      using assms Inr ParseMessage_kafka [OF Inr] by (auto simp: pump_ok_def Add_def)
    then show ?thesis using Inr drainSendSubmit_ok by (simp add: onMessage_def Let_def)
  qed
qed

lemma PublishAll_ok: "PublishAll W [m] r s = (Inr (), s') \<Longrightarrow> (m, r) \<in> set (ad_dlq s')"
  by (auto simp: PublishAll_def tx_bind_ok tx_modify_ok)

lemma consumer_step_ok: "consumer_step F X K w p p' \<Longrightarrow> pump_ok X K p \<Longrightarrow> pump_ok X K p'"
proof (induction rule: consumer_step.induct)
  case (Published p m e t a)
  have "pump_ok X K (p\<lparr>pu_adapter := a\<rparr>)"
    by (rule pump_ok_adapter [OF Published(4) tx_relD [OF PublishAll_forward Published(3)]])
  then show ?case using PublishAll_ok [OF Published(3)] Published(2) by (auto simp: pump_ok_def todo_ok_def accounted_def)
next
  case (NotPublished p m e t err a)
  have "pump_ok X K (p\<lparr>pu_adapter := a\<rparr>)"
    by (rule pump_ok_adapter [OF NotPublished(4) tx_relD [OF PublishAll_forward NotPublished(3)]])
  then show ?case using NotPublished(2) by (auto simp: pump_ok_def)
next
  case (Collected p b q a)
  have "pump_ok X K (p\<lparr>pu_adapter := a\<rparr>)"
    by (rule pump_ok_adapter [OF Collected(4) tx_relD [OF confirmAndCommit_forward Collected(3)]])
  then show ?case using Collected(2) by (auto simp: pump_ok_def)
next
  case (CollectorFails p b q err a)
  have "pump_ok X K (p\<lparr>pu_adapter := a\<rparr>)"
    by (rule pump_ok_adapter [OF CollectorFails(4) tx_relD [OF confirmAndCommit_forward CollectorFails(3)]])
  then show ?case using CollectorFails(2) by (auto simp: pump_ok_def)
next
  case (Reconcile p minAge)
  then show ?case
    by (rule pump_ok_adapter) (rule reconcile_forward(2) [unfolded tx_rel_def, rule_format])
qed (auto simp: onMessage_ok drainSendSubmit_ok, auto simp: pump_ok_def todo_ok_def)

section \<open>The order of commits\<close>

definition todo_msgs :: "todo list \<Rightarrow> kafka_message list" where
  "todo_msgs ts = concat (map (\<lambda>t. case t of SubmitBatch b \<Rightarrow> bt_msgs b | DeadLetter m e \<Rightarrow> [m]) ts)"

text \<open>Where every fetched message is, in the order of the topic: committed, dropped by a collector that died,
  in the window, waiting for the window, or in the batcher.\<close>

definition in_order :: "pump \<Rightarrow> bool" where
  "in_order p \<longleftrightarrow> (\<forall>t\<in>set (pu_todo p). \<exists>b. t = SubmitBatch b)
     \<and> (\<exists>lost. pu_fetched p = pu_commits p @ lost @ concat (map bt_msgs (pu_queue p)) @ todo_msgs (pu_todo p)
           @ map am_kafka (ba_msgs (pu_batcher p)) \<and> (lost \<noteq> [] \<longrightarrow> pu_dead p))"

lemma in_order_drain: "in_order p \<Longrightarrow> in_order (drainSendSubmit F p)"
proof (cases rule: drainSendSubmit_cases [of p F])
  case (Retry e a)
  assume "in_order p"
  moreover obtain b where b: "drainSendSubmit F p = p\<lparr>pu_adapter := a, pu_batcher := b\<rparr>" using Retry(5) by blast
  moreover have "ba_msgs b = ba_msgs (pu_batcher p)" using Retry(4) by (simp add: b)
  ultimately show ?thesis by (simp add: in_order_def)
qed (auto simp: in_order_def Drain_def todo_msgs_def)

lemma in_order_message:
  assumes "in_order p" "ParseMessage X K m = Inr x" shows "in_order (onMessage F X K m p)"
proof -
  have "in_order (p\<lparr>pu_fetched := pu_fetched p @ [m], pu_batcher := Add now x (pu_batcher p)\<rparr>)" if "pu_todo p = pu_todo p" for now
    using assms(1) ParseMessage_kafka [OF assms(2)] by (auto simp: in_order_def Add_def)
  then show ?thesis using assms(2) in_order_drain by (simp add: onMessage_def Let_def)
qed

lemma drain_fetched [simp]: "pu_fetched (drainSendSubmit F p) = pu_fetched p"
  by (auto simp: drainSendSubmit_def Drain_def split: prod.split sum.split)

lemma message_fetched [simp]: "pu_fetched (onMessage F X K m p) = pu_fetched p @ [m]"
  by (simp add: onMessage_def Let_def split: sum.split)

lemma step_fetched: "consumer_step F X K w p p' \<Longrightarrow> \<exists>ms. pu_fetched p' = pu_fetched p @ ms"
  by (induction rule: consumer_step.induct) auto

lemma in_order_step:
  "consumer_step F X K w p p' \<Longrightarrow> in_order p \<Longrightarrow> \<forall>m\<in>set (pu_fetched p'). \<exists>x. ParseMessage X K m = Inr x \<Longrightarrow> in_order p'"
proof (induction rule: consumer_step.induct)
  case (Fetch p m)
  then show ?case using in_order_message by fastforce
next
  case (Submit p b t)
  then show ?case by (auto simp: in_order_def todo_msgs_def)
next
  case (Collected p b q a)
  then show ?case by (auto simp: in_order_def)
next
  case (CollectorFails p b q err a)
  then show ?case unfolding in_order_def by auto
qed (auto simp: in_order_drain, auto simp: in_order_def)

lemma started_ok: "pump_ok X K (started a n t)" "in_order (started a n t)"
  by (simp_all add: pump_ok_def in_order_def started_def NewBatcher_def todo_msgs_def)

lemma runs_ok: "consumer_runs F X K w (started a n t) p \<Longrightarrow> pump_ok X K p"
  by (induction rule: rtranclp_induct) (auto simp: started_ok consumer_step_ok)

lemma runs_in_order:
  "consumer_runs F X K w (started a n t) p \<Longrightarrow> \<forall>m\<in>set (pu_fetched p). \<exists>x. ParseMessage X K m = Inr x \<Longrightarrow> in_order p"
proof (induction rule: rtranclp_induct)
  case (step p p')
  obtain ms where "pu_fetched p' = pu_fetched p @ ms" using step_fetched [OF step(2)] by blast
  then show ?case using step in_order_step [OF step(2)] by simp
qed (simp add: started_ok)

text \<open>C6: a committed offset loses nothing. In every run of a freshly started adapter, whatever fails and
  however sending, confirming and reconciling interleave, a message whose offset has been committed
  is accounted for: its row is committed, failed, or holds the hash of a transaction that the reconcile
  loop looks up, or the message is on the dead-letter topic with its parse error. And as long as
  every fetched message parses, the committed messages are a prefix of the fetched ones, so that
  the high-water mark of Kafka never passes a message that is not accounted for.\<close>

theorem consumer_no_loss:
  "consumer_runs F X K w (started a n t) p \<Longrightarrow> (\<forall>m\<in>set (pu_commits p). accounted X K (pu_adapter p) m)
     \<and> ((\<forall>m\<in>set (pu_fetched p). \<exists>x. ParseMessage X K m = Inr x) \<longrightarrow> prefix (pu_commits p) (pu_fetched p))"
  using runs_ok [of F X K w a n t p] runs_in_order [of F X K w a n t p] by (auto simp: pump_ok_def in_order_def)

theorem consumer_no_loss_witness:
  "\<exists>p. consumer_runs demo_flusher demo_crypto demo_reader 1 (started demo_adapter 1 5000) p \<and> pu_commits p = [demo_good]
     \<and> accounted demo_crypto demo_reader (pu_adapter p) demo_good \<and> prefix (pu_commits p) (pu_fetched p)"
proof -
  have c: "pu_commits demo_confirmed = [demo_good]" "pu_fetched demo_confirmed = [demo_good]"
    by (simp_all add: demo_confirmed_def demo_flushed_def)
  show ?thesis
    using consumer_no_loss [OF demo_run] demo_run [of demo_crypto] c demo_parse_good
    by (intro exI [of _ demo_confirmed]) simp
qed

section \<open>Two paths on which an offset is overtaken\<close>

text \<open>The node does not answer; the broker and the database do.\<close>

definition mute_flusher :: flusher where
  "mute_flusher = demo_flusher\<lparr>fl_world := demo_world\<lparr>wo_price := (\<lambda>_. Inl ''timeout'')\<rparr>\<rparr>"

lemma mute_world:
  "wo_price (fl_world mute_flusher) n = Inl ''timeout''" "wo_nonce (fl_world mute_flusher) n = Inr 4"
  "wo_db (fl_world mute_flusher) n" "wo_dlq (fl_world mute_flusher) n" "wo_commit (fl_world mute_flusher) n"
  "wo_now (fl_world mute_flusher) n = int n" "fl_abi mute_flusher = demo_abi" "fl_warehouse mute_flusher = Some 5"
  "fl_registry mute_flusher = None" "warehouseTarget mute_flusher = warehouseTarget demo_flusher"
  by (simp_all add: mute_flusher_def demo_world_sel demo_flusher_sel warehouseTarget_def)

lemma mute_filter:
  "filterAndMarkPending mute_flusher [demo_message] demo_adapter
     = (Inr [demo_message], demo_adapter\<lparr>ad_events := [demo_row OnchainPending 2], ad_calls := 2\<rparr>)"
  by (simp add: filterAndMarkPending_def Let_def store_defs mute_world demo_adapter_def demo_row_def aggregateSignedAction_def)

definition mute_adapter :: adapter where
  "mute_adapter = demo_adapter\<lparr>ad_events := [demo_row OnchainPending 2], ad_nonce := 4, ad_seeded := True, ad_calls := 4\<rparr>"

lemma mute_calldata:
  "SendCalldata (fl_world mute_flusher) to data g (demo_adapter\<lparr>ad_events := [demo_row OnchainPending 2], ad_calls := 2\<rparr>)
     = (Inl (ErrChainTransient ''gas price: timeout''), mute_adapter)"
  by (simp add: SendCalldata_def send_calldata_def reseedLocked_def ext_def tx_error_def tx_simps mute_world demo_adapter_def mute_adapter_def)

lemma mute_send: "\<exists>e. Send mute_flusher [demo_message] demo_adapter = (Inl e, mute_adapter)"
proof -
  have take1: "take 1 [m] = [m]" for m :: adapter_message by simp
  have chunks: "\<exists>e. send_chunks mute_flusher (warehouseTarget demo_flusher) (WarehouseActions 5) [demo_message] []
     (demo_adapter\<lparr>ad_events := [demo_row OnchainPending 2], ad_calls := 2\<rparr>) = (Inl e, mute_adapter)"
    by (subst send_chunks.simps)
      (simp only: list.case demo_chunk sum.case prod.case if_False one_neq_zero resolver_address_def resolver.case
        take1 tx_bind_apply take_error_def mute_calldata fst_conv snd_conv chain_err.case tx_fail_apply, (rule exI, rule refl)?)
  have "or_else [] (filterAndMarkPending mute_flusher [demo_message]) demo_adapter
     = (Inr [demo_message], demo_adapter\<lparr>ad_events := [demo_row OnchainPending 2], ad_calls := 2\<rparr>)"
    by (simp add: tx_error_def tx_handle_apply mute_filter)
  then have "sendActions mute_flusher (warehouseTarget mute_flusher) [demo_message] [] demo_adapter
    = send_chunks mute_flusher (warehouseTarget demo_flusher) (WarehouseActions 5) [demo_message] []
       (demo_adapter\<lparr>ad_events := [demo_row OnchainPending 2], ad_calls := 2\<rparr>)"
    unfolding sendActions_def tx_bind_apply mute_world by (simp add: demo_target)
  then show ?thesis
    using chunks by (auto simp: Send_def splitSegments_def segmentOf_def tx_bind_apply)
qed

definition stuck_pump :: pump where
  "stuck_pump = \<lparr> pu_adapter = mute_adapter,
     pu_batcher = \<lparr> ba_max = 2, ba_timeout = 5000, ba_msgs = [demo_message], ba_first = 4 \<rparr>,
     pu_todo = [DeadLetter demo_bad MissingIdHeader], pu_queue = [], pu_dead = False, pu_stopped = False,
     pu_fetched = [demo_good, demo_bad], pu_commits = [] \<rparr>"

lemma stuck_run: "consumer_runs mute_flusher X demo_reader 1 (started demo_adapter 2 5000) stuck_pump"
proof -
  have a: "demo_adapter\<lparr>ad_seeded := False\<rparr> = demo_adapter" "ad_calls demo_adapter = 0" "ad_calls mute_adapter = 4"
    by (simp_all add: demo_adapter_def mute_adapter_def)
  obtain e where send: "Send mute_flusher [demo_message] demo_adapter = (Inl e, mute_adapter)" using mute_send by blast
  let ?p1 = "\<lparr> pu_adapter = demo_adapter, pu_batcher = \<lparr> ba_max = 2, ba_timeout = 5000, ba_msgs = [demo_message], ba_first = 0 \<rparr>,
     pu_todo = [], pu_queue = [], pu_dead = False, pu_stopped = False, pu_fetched = [demo_good], pu_commits = [] \<rparr>"
  have "onMessage mute_flusher X demo_reader demo_good (started demo_adapter 2 5000) = ?p1"
    by (simp add: onMessage_def demo_parse_good started_def a clock_now_def Add_def NewBatcher_def ShouldFlush_def mute_world)
  then have s1: "consumer_step mute_flusher X demo_reader 1 (started demo_adapter 2 5000) ?p1"
    using consumer_step.Fetch [of "started demo_adapter 2 5000" mute_flusher X demo_reader 1 demo_good] by (simp add: started_def)
  have "onMessage mute_flusher X demo_reader demo_bad ?p1 = stuck_pump"
    by (simp add: onMessage_def demo_parse_bad drainSendSubmit_def Drain_def send Unshift_def clock_now_def mute_world a stuck_pump_def)
  then have "consumer_step mute_flusher X demo_reader 1 ?p1 stuck_pump"
    using consumer_step.Fetch [of ?p1 mute_flusher X demo_reader 1 demo_bad] by simp
  with s1 show ?thesis by (meson converse_rtranclp_into_rtranclp rtranclp.rtrancl_refl)
qed

lemma PublishAll_run:
  "wo_dlq W (ad_calls s) \<Longrightarrow> PublishAll W [m] r s = (Inr (), s\<lparr>ad_calls := ad_calls s + 1, ad_dlq := ad_dlq s @ [(m, r)]\<rparr>)"
  by (simp add: PublishAll_def tx_simps ext_def)

text \<open>The dead letter of an unparsable message is published, submitted and its offset committed.\<close>

lemma dead_letter_run:
  assumes "pu_todo p = [DeadLetter m e]" "\<not> pu_stopped p" "\<not> pu_dead p" "pu_queue p = []"
    "wo_dlq (fl_world F) (ad_calls (pu_adapter p))" "wo_commit (fl_world F) (ad_calls (pu_adapter p) + 1)"
  shows "consumer_runs F X K 1 p (p\<lparr>pu_todo := [], pu_commits := pu_commits p @ [m],
     pu_adapter := (pu_adapter p)\<lparr>ad_calls := ad_calls (pu_adapter p) + 2, ad_dlq := ad_dlq (pu_adapter p) @ [(m, ParseFailed e)]\<rparr>\<rparr>)"
proof -
  let ?a = "(pu_adapter p)\<lparr>ad_calls := ad_calls (pu_adapter p) + 1, ad_dlq := ad_dlq (pu_adapter p) @ [(m, ParseFailed e)]\<rparr>"
  let ?b = "\<lparr> bt_txs = [], bt_msgs = [m] \<rparr>"
  let ?p1 = "p\<lparr>pu_adapter := ?a, pu_todo := [SubmitBatch ?b]\<rparr>"
  have s1: "consumer_step F X K 1 p ?p1"
    using consumer_step.Published [of p m e "[]" F ?a X K 1, OF assms(2,1) PublishAll_run [OF assms(5)]] by simp
  have s2: "consumer_step F X K 1 ?p1 (?p1\<lparr>pu_todo := [], pu_queue := [?b]\<rparr>)"
    using consumer_step.Submit [of ?p1 ?b "[]" 1 F X K] assms by simp
  have c: "confirmAndCommit F ?b ?a = (Inr (), ?a\<lparr>ad_calls := ad_calls ?a + 1\<rparr>)"
    using assms(6) by (simp add: confirmAndCommit_def tx_simps ext_def)
  let ?q = "p\<lparr>pu_todo := [], pu_commits := pu_commits p @ [m],
     pu_adapter := (pu_adapter p)\<lparr>ad_calls := ad_calls (pu_adapter p) + 2, ad_dlq := ad_dlq (pu_adapter p) @ [(m, ParseFailed e)]\<rparr>\<rparr>"
  let ?p2 = "?p1\<lparr>pu_todo := [], pu_queue := [?b]\<rparr>"
  have q: "?p2\<lparr>pu_adapter := ?a\<lparr>ad_calls := ad_calls ?a + 1\<rparr>, pu_queue := [], pu_commits := pu_commits ?p2 @ bt_msgs ?b\<rparr> = ?q"
    using assms(4) by (cases p; cases "pu_adapter p") simp
  have "consumer_step F X K 1 ?p2 (?p2\<lparr>pu_adapter := ?a\<lparr>ad_calls := ad_calls ?a + 1\<rparr>, pu_queue := [],
      pu_commits := pu_commits ?p2 @ bt_msgs ?b\<rparr>)"
    by (rule consumer_step.Collected) (use c assms(3) in simp_all)
  then have s3: "consumer_step F X K 1 ?p2 ?q" unfolding q .
  show ?thesis using s1 s2 s3 by (meson converse_rtranclp_into_rtranclp rtranclp.rtrancl_refl)
qed

text \<open>C28: the offset of an unparsable message can overtake messages that were never sent. The batcher holds
  a message, the node does not answer, and a message that does not parse arrives: draining fails and
  puts the message back without an error, the unparsable one is dead-lettered and its higher offset
  is committed. The first message is neither sent nor accounted for; after a restart Kafka will not
  deliver it again.\<close>

theorem parse_failure_overtakes:
  "\<exists>p. consumer_runs mute_flusher X demo_reader 1 (started demo_adapter 2 5000) p
     \<and> pu_fetched p = [demo_good, demo_bad] \<and> km_offset demo_good < km_offset demo_bad \<and> pu_commits p = [demo_bad]
     \<and> ad_sent (pu_adapter p) = [] \<and> \<not> accounted X demo_reader (pu_adapter p) demo_good"
proof -
  let ?p = "stuck_pump\<lparr>pu_todo := [], pu_commits := pu_commits stuck_pump @ [demo_bad],
     pu_adapter := (pu_adapter stuck_pump)\<lparr>ad_calls := ad_calls (pu_adapter stuck_pump) + 2,
       ad_dlq := ad_dlq (pu_adapter stuck_pump) @ [(demo_bad, ParseFailed MissingIdHeader)]\<rparr>\<rparr>"
  have "consumer_runs mute_flusher X demo_reader 1 stuck_pump ?p"
    by (rule dead_letter_run) (simp_all add: stuck_pump_def mute_world)
  then have "consumer_runs mute_flusher X demo_reader 1 (started demo_adapter 2 5000) ?p"
    using stuck_run [of X] by (rule rtranclp_trans [rotated])
  moreover have "\<not> accounted X demo_reader (pu_adapter ?p) demo_good"
    by (simp add: accounted_def demo_parse_good traced_def stuck_pump_def mute_adapter_def demo_row_def recorded_def has_tx_def)
  moreover have "ad_sent (pu_adapter ?p) = []" by (simp add: stuck_pump_def mute_adapter_def demo_adapter_def)
  ultimately show ?thesis
    by (intro exI [of _ ?p]) (simp add: stuck_pump_def demo_good_def demo_bad_def)
qed

text \<open>The broker refuses the first publication only.\<close>

definition deaf_flusher :: flusher where
  "deaf_flusher = demo_flusher\<lparr>fl_world := demo_world\<lparr>wo_dlq := (\<lambda>n. 0 < n)\<rparr>\<rparr>"

definition demo_bad_next :: kafka_message where
  "demo_bad_next = demo_bad\<lparr>km_offset := 9\<rparr>"

text \<open>A message that cannot be dead-lettered is not fetched again. When the broker refuses the dead
  letter, the loop goes on without the message; the next message is dead-lettered and its higher
  offset is committed, while the first one is on no topic and in no row.\<close>

theorem dlq_failure_overtakes:
  "\<exists>p. consumer_runs deaf_flusher X demo_reader 1 (started demo_adapter 1 5000) p
     \<and> pu_fetched p = [demo_bad, demo_bad_next] \<and> km_offset demo_bad < km_offset demo_bad_next \<and> pu_commits p = [demo_bad_next]
     \<and> \<not> accounted X demo_reader (pu_adapter p) demo_bad"
proof -
  have a: "demo_adapter\<lparr>ad_seeded := False\<rparr> = demo_adapter" "ad_calls demo_adapter = 0" by (simp_all add: demo_adapter_def)
  have w: "wo_dlq (fl_world deaf_flusher) n \<longleftrightarrow> 0 < n" "wo_commit (fl_world deaf_flusher) n" for n
    by (simp_all add: deaf_flusher_def demo_world_sel)
  have bad: "ParseMessage X K demo_bad_next = Inl MissingIdHeader" for K
    by (simp add: ParseMessage_def demo_bad_next_def demo_bad_def headerValue_def)
  let ?b = "\<lparr> ba_max = 1, ba_timeout = 5000, ba_msgs = [], ba_first = 0 \<rparr>"
  let ?p = "\<lambda>a t f. \<lparr> pu_adapter = a, pu_batcher = ?b, pu_todo = t, pu_queue = [], pu_dead = False, pu_stopped = False,
     pu_fetched = f, pu_commits = [] \<rparr>"
  let ?a1 = "demo_adapter\<lparr>ad_calls := 1\<rparr>"
  let ?p1 = "?p demo_adapter [DeadLetter demo_bad MissingIdHeader] [demo_bad]"
  let ?p2 = "?p ?a1 [] [demo_bad]"
  let ?p3 = "?p ?a1 [DeadLetter demo_bad_next MissingIdHeader] [demo_bad, demo_bad_next]"
  have "onMessage deaf_flusher X demo_reader demo_bad (started demo_adapter 1 5000) = ?p1"
    by (simp add: onMessage_def demo_parse_bad started_def a NewBatcher_def drainSendSubmit_def Drain_def)
  then have s1: "consumer_step deaf_flusher X demo_reader 1 (started demo_adapter 1 5000) ?p1"
    using consumer_step.Fetch [of "started demo_adapter 1 5000" deaf_flusher X demo_reader 1 demo_bad] by (simp add: started_def)
  have "PublishAll (fl_world deaf_flusher) [demo_bad] (ParseFailed MissingIdHeader) demo_adapter = (Inl DlqFault, ?a1)"
    by (simp add: PublishAll_def tx_simps ext_def w a)
  then have s2: "consumer_step deaf_flusher X demo_reader 1 ?p1 ?p2"
    using consumer_step.NotPublished [of ?p1 demo_bad MissingIdHeader "[]" deaf_flusher DlqFault ?a1 X demo_reader 1] by simp
  have "onMessage deaf_flusher X demo_reader demo_bad_next ?p2 = ?p3"
    by (simp add: onMessage_def bad drainSendSubmit_def Drain_def)
  then have s3: "consumer_step deaf_flusher X demo_reader 1 ?p2 ?p3"
    using consumer_step.Fetch [of ?p2 deaf_flusher X demo_reader 1 demo_bad_next] by simp
  let ?q = "?p3\<lparr>pu_todo := [], pu_commits := pu_commits ?p3 @ [demo_bad_next], pu_adapter := (pu_adapter ?p3)
     \<lparr>ad_calls := ad_calls (pu_adapter ?p3) + 2, ad_dlq := ad_dlq (pu_adapter ?p3) @ [(demo_bad_next, ParseFailed MissingIdHeader)]\<rparr>\<rparr>"
  have "consumer_runs deaf_flusher X demo_reader 1 ?p3 ?q"
    by (rule dead_letter_run) (simp_all add: w)
  then have "consumer_runs deaf_flusher X demo_reader 1 (started demo_adapter 1 5000) ?q"
    using s1 s2 s3 by (meson converse_rtranclp_into_rtranclp)
  moreover have "\<not> accounted X demo_reader (pu_adapter ?q) demo_bad"
  proof -
    have "demo_bad \<noteq> demo_bad_next" by (simp add: demo_bad_next_def demo_bad_def)
    then show ?thesis by (simp add: accounted_def demo_parse_bad demo_adapter_def)
  qed
  ultimately show ?thesis by (intro exI [of _ ?q]) (simp add: demo_bad_next_def demo_bad_def)
qed

end
