(* ===== verification/AuditStore.thy ===== *)
theory AuditStore
  imports Stock ChainClient
begin

text \<open>
  \<^verbatim>\<open>wms/internal/audit\<close>, the two sides it compares: the submitted actions and the
  domain rows behind them (\<^verbatim>\<open>repository.go\<close>, \<^verbatim>\<open>details.go\<close>, \<^verbatim>\<open>details_repository.go\<close>), and
  what the contract logged (\<^verbatim>\<open>chain.go\<close>, \<^verbatim>\<open>chain_decode.go\<close>). The database is read as one
  snapshot. The node is the parameter record \<open>node\<close>: \<open>nd_filter\<close> answers a log filter, a list of
  topic alternatives per position, the empty list for any. The ABI coder is \<open>audit_abi\<close>.
\<close>

datatype audit_err =
    ChainFault string | AuditProductNotFound | ActionNotFound uuid | ErrDomainRowMissing | ErrDomainInconsistent
  | ErrUnknownActionType byte | ErrActionNotInTx | NotApplyActions

section \<open>Submitted actions\<close>

record audit_action =
  aa_id :: uuid
  aa_operation :: uuid
  aa_part :: nat
  aa_type :: byte
  aa_items :: "uuid list"
  aa_salt :: bytes32
  aa_submitted :: timestamp
  aa_operator :: uuid
  aa_name :: string
  aa_org :: uuid
  aa_org_name :: string
  aa_key :: bytes32
  aa_owner :: uuid
  aa_status :: "onchain_status option"
  aa_reject :: "int option"

text \<open>The joins of \<^verbatim>\<open>actionSelect\<close>: without its key, organization or user a row is not returned.\<close>

definition actionSelect :: "wms_db \<Rightarrow> warehouse_action \<Rightarrow> audit_action option" where
  "actionSelect s w =
     Option.bind (List.find (\<lambda>k. pk_credential k = wa_signer w) (passkey_credentials s)) (\<lambda>pc.
     Option.bind (List.find (\<lambda>g. og_id g = pk_org pc) (organizations s)) (\<lambda>g.
     Option.bind (List.find (\<lambda>u. us_id u = wa_created_by w) (users s)) (\<lambda>u.
     let oe = List.find (\<lambda>e. oe_event e = wa_id w) (onchain_events s) in
     Some \<lparr> aa_id = wa_id w, aa_operation = wa_operation w, aa_part = wa_part w, aa_type = wa_type w,
       aa_items = wa_items w, aa_salt = wa_salt w,
       aa_submitted = (case wa_submitted w of None \<Rightarrow> 0 | Some t \<Rightarrow> t),
       aa_operator = wa_created_by w, aa_name = us_name u, aa_org = pk_org pc, aa_org_name = og_name g,
       aa_key = pk_key_id pc, aa_owner = pk_user pc, aa_status = map_option oe_status oe,
       aa_reject = Option.bind oe oe_reject \<rparr>)))"

text \<open>\<^verbatim>\<open>ORDER BY submitted_at, part_index\<close> and \<^verbatim>\<open>scanActions\<close>\<close>

definition scanActions :: "(warehouse_action \<Rightarrow> bool) \<Rightarrow> wms_db \<Rightarrow> audit_action list" where
  "scanActions P s = List.map_filter (actionSelect s)
     (sort_key (\<lambda>w. the (wa_submitted w)) (sort_key wa_part
       (filter (\<lambda>w. wa_submitted w \<noteq> None \<and> P w) (warehouse_actions s))))"

definition ActionsForProduct :: "uuid \<Rightarrow> wms_db \<Rightarrow> audit_action list" where
  "ActionsForProduct productID = scanActions (\<lambda>w. productID \<in> set (wa_items w))"

definition ActionByID :: "uuid \<Rightarrow> wms_db \<Rightarrow> audit_action option" where
  "ActionByID actionID s = (case scanActions (\<lambda>w. wa_id w = actionID) s of [] \<Rightarrow> None | a # _ \<Rightarrow> Some a)"

definition AllActions :: "wms_db \<Rightarrow> audit_action list" where
  "AllActions = scanActions (\<lambda>_. True)"

definition ProductID :: "crypto \<Rightarrow> string \<Rightarrow> wms_db \<Rightarrow> audit_err + uuid" where
  "ProductID X key s =
     (case List.find (\<lambda>p. pr_qr p = key \<or> uuid_string X (pr_id p) = key) (products s) of
        None \<Rightarrow> Inl AuditProductNotFound | Some p \<Rightarrow> Inr (pr_id p))"

section \<open>Details recomputed from the domain tables\<close>

record Details =
  dt_type :: byte
  dt_salt :: bytes32
  dt_cargoplace :: uuid
  dt_storage_bin :: uuid
  dt_shipping_bin :: uuid
  dt_dispatch :: uuid
  dt_orders :: "uuid list"
  dt_operator :: uuid
  dt_ms :: "64 word"

definition DetailsHash :: "crypto \<Rightarrow> Details \<Rightarrow> audit_err + bytes32" where
  "DetailsHash X d =
     (if dt_type d = TypeReceive then Inr (ReceiveDetailsHash X (dt_salt d) (dt_cargoplace d) (dt_operator d) (dt_ms d))
      else if dt_type d = TypePutAway then Inr (PutAwayDetailsHash X (dt_salt d) (dt_storage_bin d) (dt_operator d) (dt_ms d))
      else if dt_type d = TypePick then
        Inr (PickDetailsHash X (dt_salt d) (dt_shipping_bin d) (dt_orders d) (dt_operator d) (dt_ms d))
      else if dt_type d = TypeShip then
        Inr (ShipDetailsHash X (dt_salt d) (dt_dispatch d) (dt_shipping_bin d) (dt_orders d) (dt_operator d) (dt_ms d))
      else Inl (ErrUnknownActionType (dt_type d)))"

text \<open>The details of an action before its own fields are known.\<close>

definition no_details :: "audit_action \<Rightarrow> Details" where
  "no_details a = \<lparr> dt_type = aa_type a, dt_salt = aa_salt a, dt_cargoplace = uuid_Nil, dt_storage_bin = uuid_Nil,
     dt_shipping_bin = uuid_Nil, dt_dispatch = uuid_Nil, dt_orders = [], dt_operator = uuid_Nil, dt_ms = 0 \<rparr>"

definition ms_word :: "timestamp \<Rightarrow> 64 word" where
  "ms_word t = word_of_int (unix_milli t)"

text \<open>\<^verbatim>\<open>CollectExactlyOneRow\<close> over the distinct rows, and \<^verbatim>\<open>detailError\<close>\<close>

definition exactly_one :: "'r list \<Rightarrow> audit_err + 'r" where
  "exactly_one rows = (case remdups rows of [] \<Rightarrow> Inl ErrDomainRowMissing | [r] \<Rightarrow> Inr r | _ \<Rightarrow> Inl ErrDomainInconsistent)"

definition receiveDetails :: "audit_action \<Rightarrow> wms_db \<Rightarrow> audit_err + Details" where
  "receiveDetails a s =
     (case exactly_one (map (\<lambda>r. (tl_cargoplace r, tl_operator r, tl_occurred r))
         (filter (\<lambda>r. tl_operation r = Some (aa_operation a) \<and> tl_action r = ''CLOSE_CARGO'') (receiving_table s))) of
        Inl e \<Rightarrow> Inl e
      | Inr (c, u, t) \<Rightarrow> Inr ((no_details a)\<lparr>dt_cargoplace := c, dt_operator := u, dt_ms := ms_word t\<rparr>))"

definition putAwayDetails :: "audit_action \<Rightarrow> wms_db \<Rightarrow> audit_err + Details" where
  "putAwayDetails a s =
     (case exactly_one (map (\<lambda>r. (pw_bin r, pw_operator r, pw_occurred r))
         (filter (\<lambda>r. pw_action r = Some (aa_id a)) (putaways s))) of
        Inl e \<Rightarrow> Inl e
      | Inr (b, u, t) \<Rightarrow> Inr ((no_details a)\<lparr>dt_storage_bin := b, dt_operator := u, dt_ms := ms_word t\<rparr>))"

definition shippingBufferBin :: "audit_action \<Rightarrow> wms_db \<Rightarrow> audit_err + uuid" where
  "shippingBufferBin a s =
     (let bs = remdups (map pr_bin (filter (\<lambda>p. pr_id p \<in> set (aa_items a)) (products s))) in
      if None \<in> set bs then Inl ErrDomainRowMissing
      else case bs of [] \<Rightarrow> Inl ErrDomainRowMissing | [b] \<Rightarrow> Inr (the b) | _ \<Rightarrow> Inl ErrDomainInconsistent)"

text \<open>A task without an operator is scanned as the zero id.\<close>

definition pickDetails :: "audit_action \<Rightarrow> wms_db \<Rightarrow> audit_err + Details" where
  "pickDetails a s =
     (let tasks = filter (\<lambda>t. at_action t = Some (aa_id a)) (assembly_tasks s) in
      case exactly_one (map (\<lambda>t. (at_operator t, at_unloaded t)) tasks) of
        Inl e \<Rightarrow> Inl e
      | Inr (u, None) \<Rightarrow> Inl ErrDomainRowMissing
      | Inr (u, Some t) \<Rightarrow>
          if map at_order tasks = [] then Inl ErrDomainRowMissing
          else case shippingBufferBin a s of Inl e \<Rightarrow> Inl e
          | Inr b \<Rightarrow> Inr ((no_details a)\<lparr>dt_shipping_bin := b, dt_orders := remdups (map at_order tasks),
              dt_operator := (case u of None \<Rightarrow> uuid_Nil | Some u \<Rightarrow> u), dt_ms := ms_word t\<rparr>))"

definition shipDetails :: "audit_action \<Rightarrow> wms_db \<Rightarrow> audit_err + Details" where
  "shipDetails a s =
     (case exactly_one (map (\<lambda>r. (sp_dispatch r, sp_operator r, sp_occurred r))
         (filter (\<lambda>r. sp_action r = Some (aa_id a)) (shippings s))) of
        Inl e \<Rightarrow> Inl e
      | Inr (d, u, t) \<Rightarrow>
          (let os = remdups (List.map_filter pr_order (filter (\<lambda>p. pr_id p \<in> set (aa_items a)) (products s))) in
           case shippingBufferBin a s of Inl e \<Rightarrow> Inl e
           | Inr b \<Rightarrow> Inr ((no_details a)\<lparr>dt_shipping_bin := b, dt_dispatch := d, dt_orders := os, dt_operator := u, dt_ms := ms_word t\<rparr>)))"

definition DetailsOf :: "audit_action \<Rightarrow> wms_db \<Rightarrow> audit_err + Details" where
  "DetailsOf a s =
     (if aa_type a = TypeReceive then receiveDetails a s
      else if aa_type a = TypePutAway then putAwayDetails a s
      else if aa_type a = TypePick then pickDetails a s
      else if aa_type a = TypeShip then shipDetails a s
      else Inl (ErrUnknownActionType (aa_type a)))"

section \<open>The items behind an action\<close>

definition partItems :: "uuid list \<Rightarrow> nat \<Rightarrow> uuid list" where
  "partItems sorted_ids part =
     (let start = part * MaxItemsPerAction in
      if start \<ge> length sorted_ids then []
      else take (min (start + MaxItemsPerAction) (length sorted_ids) - start) (drop start sorted_ids))"

definition receiveDomainItems :: "crypto \<Rightarrow> audit_action \<Rightarrow> wms_db \<Rightarrow> uuid list" where
  "receiveDomainItems X a s =
     (let closed = map tl_cargoplace (filter (\<lambda>r. tl_operation r = Some (aa_operation a) \<and> tl_action r = ''CLOSE_CARGO'') (receiving_table s));
          scanned = filter (\<lambda>r. tl_action r = ''SCAN_QR'' \<and> tl_product r \<noteq> None \<and> tl_cargoplace r \<in> set closed
            \<and> (\<exists>b\<in>set (boxes s). tl_box r = Some (bx_id b) \<and> bx_status b = BoxClosed)) (receiving_table s)
      in partItems (SortByItemID X (map (\<lambda>r. the (tl_product r)) scanned)) (aa_part a))"

definition DomainItems :: "crypto \<Rightarrow> audit_action \<Rightarrow> wms_db \<Rightarrow> audit_err + uuid list" where
  "DomainItems X a s =
     (if aa_type a = TypeReceive then Inr (receiveDomainItems X a s)
      else if aa_type a = TypePutAway then Inr (map pw_product (filter (\<lambda>r. pw_action r = Some (aa_id a)) (putaways s)))
      else if aa_type a = TypePick then Inr (map at_product (filter (\<lambda>t. at_action t = Some (aa_id a)) (assembly_tasks s)))
      else if aa_type a = TypeShip then Inr (map sp_product (filter (\<lambda>r. sp_action r = Some (aa_id a)) (shippings s)))
      else Inl (ErrUnknownActionType (aa_type a)))"

section \<open>The chain\<close>

record audit_log =
  al_topics :: "bytes32 list"
  al_data :: bytes
  al_block :: "64 word"
  al_tx :: bytes32

record audit_key =
  ak_point :: p256_point
  ak_org :: uuid
  ak_role :: byte
  ak_active :: bool

record node =
  nd_filter :: "bytes32 list list \<Rightarrow> string + audit_log list"
  nd_time :: "64 word \<Rightarrow> string + timestamp"
  nd_call_key :: "bytes32 \<Rightarrow> string + bytes"
  nd_tx :: "bytes32 \<Rightarrow> string + bytes"

record audit_abi =
  ua_item_moved :: bytes32
  ua_applied :: bytes32
  ua_rejected :: bytes32
  ua_unpack_applied :: "bytes \<Rightarrow> (byte \<times> bytes32 \<times> nat) option"
  ua_unpack_rejected :: "bytes \<Rightarrow> (byte \<times> nat) option"
  ua_unpack_key :: "bytes \<Rightarrow> audit_key option"
  ua_selector :: bytes
  ua_unpack_actions :: "bytes \<Rightarrow> chain_warehouse_action list option"

record ChainAction =
  ca_id :: uuid
  ca_key :: bytes32
  ca_org :: uuid
  ca_type :: byte
  ca_details :: bytes32
  ca_count :: nat
  ca_block :: "64 word"
  ca_time :: timestamp
  ca_tx :: bytes32

record ChainRejection =
  cr_id :: uuid
  cr_reason :: byte
  cr_item :: nat
  cr_tx :: bytes32

definition filterLogs :: "node \<Rightarrow> bytes32 list list \<Rightarrow> audit_err + audit_log list" where
  "filterLogs N topics = map_sum ChainFault (\<lambda>ls. ls) (nd_filter N topics)"

definition ActionIDsForItem :: "crypto \<Rightarrow> node \<Rightarrow> audit_abi \<Rightarrow> uuid \<Rightarrow> audit_err + uuid list" where
  "ActionIDsForItem X N B productID =
     (case filterLogs N [[ua_item_moved B], [ItemID X productID]] of Inl e \<Rightarrow> Inl e
      | Inr logs \<Rightarrow> Inr (dedup (\<lambda>i. i) {} (List.map_filter
          (\<lambda>l. if length (al_topics l) < 3 then None else Some (topic_uuid (al_topics l ! 2))) logs)))"

definition ItemsOfAction :: "node \<Rightarrow> audit_abi \<Rightarrow> uuid \<Rightarrow> audit_err + bytes32 list" where
  "ItemsOfAction N B actionID =
     (case filterLogs N [[ua_item_moved B], [], [uuid_topic actionID]] of Inl e \<Rightarrow> Inl e
      | Inr logs \<Rightarrow> Inr (List.map_filter (\<lambda>l. if length (al_topics l) < 2 then None else Some (al_topics l ! 1)) logs))"

text \<open>The loop over the logs; a Go map is the list of its entries, the newest first.\<close>

primrec applied_logs :: "node \<Rightarrow> audit_abi \<Rightarrow> audit_log list \<Rightarrow> (uuid \<times> ChainAction) list \<Rightarrow> audit_err + (uuid \<times> ChainAction) list" where
  "applied_logs N B [] out = Inr out"
| "applied_logs N B (l # ls) out =
     (if length (al_topics l) < 4 then applied_logs N B ls out
      else case ua_unpack_applied B (al_data l) of None \<Rightarrow> Inl (ChainFault ''unpack'')
      | Some (actionType, detailsHash, itemCount) \<Rightarrow>
        (case nd_time N (al_block l) of Inl e \<Rightarrow> Inl (ChainFault e)
         | Inr blockTime \<Rightarrow>
             (let i = topic_uuid (al_topics l ! 1) in
              applied_logs N B ls ((i, \<lparr> ca_id = i, ca_key = al_topics l ! 2, ca_org = topic_uuid (al_topics l ! 3),
                ca_type = actionType, ca_details = detailsHash, ca_count = itemCount, ca_block = al_block l,
                ca_time = blockTime, ca_tx = al_tx l \<rparr>) # out))))"

definition Applied :: "node \<Rightarrow> audit_abi \<Rightarrow> uuid list \<Rightarrow> audit_err + (uuid \<times> ChainAction) list" where
  "Applied N B ids =
     (case filterLogs N [[ua_applied B], map uuid_topic ids] of Inl e \<Rightarrow> Inl e
      | Inr logs \<Rightarrow> applied_logs N B logs [])"

primrec rejected_logs :: "audit_abi \<Rightarrow> audit_log list \<Rightarrow> (uuid \<times> ChainRejection) list \<Rightarrow> audit_err + (uuid \<times> ChainRejection) list" where
  "rejected_logs B [] out = Inr out"
| "rejected_logs B (l # ls) out =
     (if length (al_topics l) < 2 then rejected_logs B ls out
      else case ua_unpack_rejected B (al_data l) of None \<Rightarrow> Inl (ChainFault ''unpack'')
      | Some (reason, itemIndex) \<Rightarrow>
          (let i = topic_uuid (al_topics l ! 1) in
           rejected_logs B ls ((i, \<lparr> cr_id = i, cr_reason = reason, cr_item = itemIndex, cr_tx = al_tx l \<rparr>) # out)))"

definition Rejected :: "node \<Rightarrow> audit_abi \<Rightarrow> uuid list \<Rightarrow> audit_err + (uuid \<times> ChainRejection) list" where
  "Rejected N B ids =
     (case filterLogs N [[ua_rejected B], map uuid_topic ids] of Inl e \<Rightarrow> Inl e
      | Inr logs \<Rightarrow> rejected_logs B logs [])"

definition KeyOf :: "node \<Rightarrow> audit_abi \<Rightarrow> bytes32 \<Rightarrow> audit_err + audit_key" where
  "KeyOf N B keyID =
     (case nd_call_key N keyID of Inl e \<Rightarrow> Inl (ChainFault e)
      | Inr out \<Rightarrow> if out = [] then Inl (ChainFault ''empty eth_call response'')
          else case ua_unpack_key B out of None \<Rightarrow> Inl (ChainFault ''unpack'') | Some k \<Rightarrow> Inr k)"

record OnChainAuth =
  oa_items :: "bytes32 list"
  oa_details :: bytes32
  oa_key :: bytes32
  oa_type :: byte
  oa_webauthn :: webauthn

text \<open>\<^verbatim>\<open>int(x.Int64())\<close>: the low 64 bits, signed.\<close>

definition go_int64 :: "int \<Rightarrow> int" where
  "go_int64 x = sint (word_of_int x :: 64 word)"

definition decodeApplyActions :: "audit_abi \<Rightarrow> bytes \<Rightarrow> uuid \<Rightarrow> audit_err + OnChainAuth" where
  "decodeApplyActions B data actionID =
     (if length data < 4 \<or> take 4 data \<noteq> ua_selector B then Inl NotApplyActions
      else case ua_unpack_actions B (drop 4 data) of None \<Rightarrow> Inl (ChainFault ''unpack'')
      | Some entries \<Rightarrow>
        (case List.find (\<lambda>c. wx_action c = actionID) entries of None \<Rightarrow> Inl ErrActionNotInTx
         | Some c \<Rightarrow> Inr \<lparr> oa_items = wx_items c, oa_details = wx_details_hash c, oa_key = wx_key c, oa_type = wx_type c,
             oa_webauthn = \<lparr> wn_authenticator_data = wb_authenticator_data (wx_auth c),
               wn_client_data_json = wb_client_data_json (wx_auth c),
               wn_challenge_index = go_int64 (wb_challenge_index (wx_auth c)),
               wn_type_index = go_int64 (wb_type_index (wx_auth c)),
               wn_r = wb_r (wx_auth c), wn_s = wb_s (wx_auth c) \<rparr> \<rparr>))"

definition AuthOf :: "node \<Rightarrow> audit_abi \<Rightarrow> bytes32 \<Rightarrow> uuid \<Rightarrow> audit_err + OnChainAuth" where
  "AuthOf N B tx actionID =
     (case nd_tx N tx of Inl e \<Rightarrow> Inl (ChainFault e) | Inr data \<Rightarrow> decodeApplyActions B data actionID)"

end
