(* ===== verification/Auditor.thy ===== *)
theory Auditor
  imports AuditStore
begin

text \<open>
  \<^verbatim>\<open>wms/internal/audit\<close>: the auditor (\<^verbatim>\<open>audit.go\<close>, \<^verbatim>\<open>audit_compare.go\<close>) and the view of one
  product (\<^verbatim>\<open>http.go\<close>). The human-readable detail text of a finding is left out.
\<close>

datatype check = CheckOK | CheckMismatch | CheckSkipped

datatype stage_status = StatusApplied | StatusRejected | StatusPending | StatusMissingOnChain | StatusMissingInDB

datatype finding_kind =
    KindDetailsHash | KindItems | KindSigner | KindSignature | KindType | KindMissingInDB | KindMissingOnChain

type_synonym finding = "uuid \<times> finding_kind"

record Stage =
  sg_action :: uuid
  sg_type :: byte
  sg_status :: stage_status
  sg_operator :: uuid
  sg_name :: string
  sg_org :: uuid
  sg_org_name :: string
  sg_key :: string
  sg_block :: "64 word"
  sg_time :: "timestamp option"
  sg_tx :: string
  sg_reason :: byte
  sg_details :: check
  sg_items :: check
  sg_signer :: check
  sg_signature :: check
  sg_findings :: "finding list"

text \<open>The auditor: its store, the chain reader and the clock.\<close>

record auditor =
  au_crypto :: crypto
  au_db :: wms_db
  au_node :: node
  au_abi :: audit_abi
  au_now :: timestamp

text \<open>Ten minutes in nanoseconds.\<close>

definition PendingStaleAfter :: int where
  "PendingStaleAfter = 600000000000"

definition add_finding :: "uuid \<Rightarrow> finding_kind \<Rightarrow> Stage \<Rightarrow> Stage" where
  "add_finding i k s = s\<lparr>sg_findings := sg_findings s @ [(i, k)]\<rparr>"

section \<open>Comparing one action\<close>

text \<open>A zero stage with all checks skipped.\<close>

definition empty_stage :: Stage where
  "empty_stage = \<lparr> sg_action = uuid_Nil, sg_type = 0, sg_status = StatusPending, sg_operator = uuid_Nil, sg_name = [],
     sg_org = uuid_Nil, sg_org_name = [], sg_key = [], sg_block = 0, sg_time = None, sg_tx = [], sg_reason = 0,
     sg_details = CheckSkipped, sg_items = CheckSkipped, sg_signer = CheckSkipped, sg_signature = CheckSkipped, sg_findings = [] \<rparr>"

text \<open>The fields a stage takes from the submitted action.\<close>

definition db_stage :: "audit_action \<Rightarrow> Stage" where
  "db_stage a = empty_stage\<lparr>sg_action := aa_id a, sg_type := aa_type a, sg_operator := aa_operator a, sg_name := aa_name a,
     sg_org := aa_org a, sg_org_name := aa_org_name a, sg_key := Hex32 (aa_key a)\<rparr>"

definition checkDetailsHash :: "auditor \<Rightarrow> audit_action \<Rightarrow> ChainAction \<Rightarrow> Stage \<Rightarrow> audit_err + Details option \<times> Stage" where
  "checkDetailsHash U a applied s =
     (case DetailsOf a (au_db U) of
        Inl e \<Rightarrow> if e = ErrDomainRowMissing \<or> e = ErrDomainInconsistent
          then Inr (None, add_finding (aa_id a) KindDetailsHash (s\<lparr>sg_details := CheckMismatch\<rparr>)) else Inl e
      | Inr d \<Rightarrow> (case DetailsHash (au_crypto U) d of Inl e \<Rightarrow> Inl e
        | Inr h \<Rightarrow> if h \<noteq> ca_details applied
            then Inr (Some d, add_finding (aa_id a) KindDetailsHash (s\<lparr>sg_details := CheckMismatch\<rparr>))
            else Inr (Some d, s\<lparr>sg_details := CheckOK\<rparr>)))"

definition checkItems :: "auditor \<Rightarrow> audit_action \<Rightarrow> Stage \<Rightarrow> audit_err + Stage" where
  "checkItems U a s =
     (case ItemsOfAction (au_node U) (au_abi U) (aa_id a) of Inl e \<Rightarrow> Inl e
      | Inr chainItems \<Rightarrow> (case DomainItems (au_crypto U) a (au_db U) of Inl e \<Rightarrow> Inl e
        | Inr domainItems \<Rightarrow>
            (let chainSet = remdups chainItems; dbSet = remdups (map (ItemID (au_crypto U)) domainItems);
                 same = (length chainSet = length dbSet \<and> (\<forall>it\<in>set dbSet. it \<in> set chainSet));
                 duplicated = (length dbSet \<noteq> length domainItems)
             in if \<not> same \<or> duplicated then Inr (add_finding (aa_id a) KindItems (s\<lparr>sg_items := CheckMismatch\<rparr>))
                else Inr (s\<lparr>sg_items := CheckOK\<rparr>))))"

definition checkSigner :: "audit_action \<Rightarrow> ChainAction \<Rightarrow> Details option \<Rightarrow> Stage \<Rightarrow> Stage" where
  "checkSigner a applied d s =
     (if ca_key applied = aa_key a \<and> ca_org applied = aa_org a \<and> aa_owner a = aa_operator a
         \<and> (case d of None \<Rightarrow> True | Some d \<Rightarrow> dt_operator d = aa_operator a)
      then s\<lparr>sg_signer := CheckOK\<rparr>
      else add_finding (aa_id a) KindSigner (s\<lparr>sg_signer := CheckMismatch\<rparr>))"

definition itemsHashWords :: "crypto \<Rightarrow> bytes32 list \<Rightarrow> bytes32" where
  "itemsHashWords X ids = keccak X (concat (map word32_bytes ids))"

definition checkSignature :: "auditor \<Rightarrow> audit_action \<Rightarrow> ChainAction \<Rightarrow> Stage \<Rightarrow> audit_err + Stage" where
  "checkSignature U a applied s =
     (case KeyOf (au_node U) (au_abi U) (ca_key applied) of Inl e \<Rightarrow> Inl e
      | Inr k \<Rightarrow> (case AuthOf (au_node U) (au_abi U) (ca_tx applied) (aa_id a) of Inl e \<Rightarrow> Inl e
        | Inr auth \<Rightarrow>
            (let challenge = Challenge (au_crypto U) (aa_id a) (ca_type applied)
                   (itemsHashWords (au_crypto U) (oa_items auth)) (ca_details applied)
             in if VerifyOnChain (au_crypto U) (oa_webauthn auth) challenge (ak_point k) \<noteq> None
                then Inr (add_finding (aa_id a) KindSignature (s\<lparr>sg_signature := CheckMismatch\<rparr>))
                else Inr (s\<lparr>sg_signature := CheckOK\<rparr>))))"

definition appliedStage :: "auditor \<Rightarrow> audit_action \<Rightarrow> ChainAction \<Rightarrow> audit_err + Stage" where
  "appliedStage U a applied =
     (let s = (db_stage a)\<lparr>sg_action := ca_id applied, sg_type := ca_type applied, sg_status := StatusApplied,
            sg_key := Hex32 (ca_key applied), sg_block := ca_block applied, sg_time := Some (ca_time applied),
            sg_tx := Hex32 (ca_tx applied)\<rparr> in
      if aa_type a \<noteq> ca_type applied then Inr (add_finding (aa_id a) KindType s)
      else case checkDetailsHash U a applied s of Inl e \<Rightarrow> Inl e
      | Inr (d, s) \<Rightarrow> (case checkItems U a s of Inl e \<Rightarrow> Inl e
        | Inr s \<Rightarrow> checkSignature U a applied (checkSigner a applied d s)))"

definition stage :: "auditor \<Rightarrow> audit_action option \<Rightarrow> ChainAction option \<Rightarrow> ChainRejection option \<Rightarrow> audit_err + Stage" where
  "stage U db applied rejected =
     (case db of
        None \<Rightarrow>
          (let s = (case applied of
               Some ca \<Rightarrow> empty_stage\<lparr>sg_action := ca_id ca, sg_type := ca_type ca, sg_status := StatusMissingInDB,
                 sg_org := ca_org ca, sg_key := Hex32 (ca_key ca), sg_block := ca_block ca, sg_time := Some (ca_time ca),
                 sg_tx := Hex32 (ca_tx ca)\<rparr>
             | None \<Rightarrow> (case rejected of
                 Some cr \<Rightarrow> empty_stage\<lparr>sg_action := cr_id cr, sg_status := StatusMissingInDB, sg_tx := Hex32 (cr_tx cr), sg_reason := cr_reason cr\<rparr>
               | None \<Rightarrow> empty_stage\<lparr>sg_status := StatusMissingInDB\<rparr>))
           in Inr (add_finding (sg_action s) KindMissingInDB s))
      | Some a \<Rightarrow> (case applied of
          Some ca \<Rightarrow> appliedStage U a ca
        | None \<Rightarrow> (case rejected of
            Some cr \<Rightarrow> Inr ((db_stage a)\<lparr>sg_status := StatusRejected, sg_tx := Hex32 (cr_tx cr), sg_reason := cr_reason cr\<rparr>)
          | None \<Rightarrow>
              if aa_status a = Some OnchainPending \<or> aa_status a = Some OnchainSent then
                (if au_now U - aa_submitted a \<le> PendingStaleAfter then Inr ((db_stage a)\<lparr>sg_status := StatusPending\<rparr>)
                 else Inr (add_finding (aa_id a) KindMissingOnChain ((db_stage a)\<lparr>sg_status := StatusMissingOnChain\<rparr>)))
              else Inr (add_finding (aa_id a) KindMissingOnChain ((db_stage a)\<lparr>sg_status := StatusMissingOnChain\<rparr>)))))"

section \<open>Products, actions, everything\<close>

text \<open>The ids in the order of first appearance, and the last action of each id.\<close>

definition union_ids :: "uuid list \<Rightarrow> audit_action list \<Rightarrow> uuid list" where
  "union_ids first dbActions = dedup (\<lambda>i. i) {} (first @ map aa_id dbActions)"

definition db_by :: "audit_action list \<Rightarrow> uuid \<Rightarrow> audit_action option" where
  "db_by dbActions = map_of (rev (map (\<lambda>a. (aa_id a, a)) dbActions))"

text \<open>One call of \<open>stage\<close> per id, in order; the first infrastructure error ends the loop.\<close>

primrec stages :: "auditor \<Rightarrow> (uuid \<Rightarrow> audit_action option) \<Rightarrow> (uuid \<times> ChainAction) list \<Rightarrow> (uuid \<times> ChainRejection) list
   \<Rightarrow> uuid list \<Rightarrow> audit_err + (uuid \<times> Stage) list" where
  "stages U dbBy applied rejected [] = Inr []"
| "stages U dbBy applied rejected (i # is) =
     (case stage U (dbBy i) (map_of applied i) (map_of rejected i) of Inl e \<Rightarrow> Inl e
      | Inr s \<Rightarrow> (case stages U dbBy applied rejected is of Inl e \<Rightarrow> Inl e | Inr ss \<Rightarrow> Inr ((i, s) # ss)))"

text \<open>Go's zero time, before every other.\<close>

definition zero_time :: timestamp where
  "zero_time = -62135596800000000000"

definition AuditProduct :: "auditor \<Rightarrow> uuid \<Rightarrow> audit_err + uuid \<times> Stage list" where
  "AuditProduct U productID =
     (case ActionIDsForItem (au_crypto U) (au_node U) (au_abi U) productID of Inl e \<Rightarrow> Inl e
      | Inr chainIDs \<Rightarrow>
        (let dbActions = ActionsForProduct productID (au_db U); ids = union_ids chainIDs dbActions in
         case Applied (au_node U) (au_abi U) ids of Inl e \<Rightarrow> Inl e
         | Inr applied \<Rightarrow> (case Rejected (au_node U) (au_abi U) ids of Inl e \<Rightarrow> Inl e
           | Inr rejected \<Rightarrow> (case stages U (db_by dbActions) applied rejected ids of Inl e \<Rightarrow> Inl e
             | Inr items \<Rightarrow>
                 Inr (productID, map snd (sort_key (\<lambda>(i, s). case map_of applied i of Some ca \<Rightarrow> ca_time ca
                    | None \<Rightarrow> (case db_by dbActions i of Some a \<Rightarrow> aa_submitted a | None \<Rightarrow> zero_time)) items))))))"

definition AuditAction :: "auditor \<Rightarrow> uuid \<Rightarrow> audit_err + Stage" where
  "AuditAction U actionID =
     (let db = ActionByID actionID (au_db U) in
      case Applied (au_node U) (au_abi U) [actionID] of Inl e \<Rightarrow> Inl e
      | Inr applied \<Rightarrow> (case Rejected (au_node U) (au_abi U) [actionID] of Inl e \<Rightarrow> Inl e
        | Inr rejected \<Rightarrow>
            if db = None \<and> map_of applied actionID = None \<and> map_of rejected actionID = None
            then Inl (ActionNotFound actionID)
            else stage U db (map_of applied actionID) (map_of rejected actionID)))"

definition chain_only :: "(uuid \<times> ChainAction) list \<Rightarrow> (uuid \<Rightarrow> audit_action option) \<Rightarrow> uuid list" where
  "chain_only applied dbBy =
     sort_key (\<lambda>i. ca_block (the (map_of applied i))) (sort (filter (\<lambda>i. dbBy i = None) (remdups (map fst applied))))"

definition AuditAll :: "auditor \<Rightarrow> audit_err + finding list" where
  "AuditAll U =
     (let dbActions = AllActions (au_db U); dbBy = db_by dbActions; dbIDs = union_ids [] dbActions in
      case Applied (au_node U) (au_abi U) [] of Inl e \<Rightarrow> Inl e
      | Inr applied \<Rightarrow> (case Rejected (au_node U) (au_abi U) dbIDs of Inl e \<Rightarrow> Inl e
        | Inr rejected \<Rightarrow> (case stages U dbBy applied rejected (dbIDs @ chain_only applied dbBy) of Inl e \<Rightarrow> Inl e
          | Inr ss \<Rightarrow> Inr (concat (map (\<lambda>(i, s). sg_findings s) ss)))))"

section \<open>The view of one product\<close>

datatype http_reply = Unauthorized | Forbidden | NotFound | InternalError | Reply "(audit_action \<times> uuid list \<times> (audit_err + Details)) list"

text \<open>\<^verbatim>\<open>actionView\<close>: a broken domain record is shown, any other error ends the request.\<close>

definition actionView :: "auditor \<Rightarrow> audit_action \<Rightarrow> audit_err + audit_action \<times> uuid list \<times> (audit_err + Details)" where
  "actionView U a =
     (case DomainItems (au_crypto U) a (au_db U) of Inl e \<Rightarrow> Inl e
      | Inr items \<Rightarrow> (case DetailsOf a (au_db U) of
          Inr d \<Rightarrow> Inr (a, items, Inr d)
        | Inl e \<Rightarrow> if e = ErrDomainRowMissing \<or> e = ErrDomainInconsistent then Inr (a, items, Inl e) else Inl e))"

primrec action_views :: "auditor \<Rightarrow> audit_action list
   \<Rightarrow> audit_err + (audit_action \<times> uuid list \<times> (audit_err + Details)) list" where
  "action_views U [] = Inr []"
| "action_views U (a # as) =
     (case actionView U a of Inl e \<Rightarrow> Inl e
      | Inr v \<Rightarrow> (case action_views U as of Inl e \<Rightarrow> Inl e | Inr vs \<Rightarrow> Inr (v # vs)))"

definition GetProduct :: "auditor \<Rightarrow> (uuid \<times> user_role) option \<Rightarrow> string \<Rightarrow> http_reply" where
  "GetProduct U who key =
     (case who of None \<Rightarrow> Unauthorized
      | Some (userID, role) \<Rightarrow>
        if userID = uuid_Nil then Unauthorized
        else if role \<noteq> UserRoleAuditor \<and> role \<noteq> UserRoleAdmin then Forbidden
        else case ProductID (au_crypto U) key (au_db U) of
          Inl e \<Rightarrow> if e = AuditProductNotFound then NotFound else InternalError
        | Inr productID \<Rightarrow> (case action_views U (ActionsForProduct productID (au_db U)) of
            Inl e \<Rightarrow> InternalError | Inr vs \<Rightarrow> Reply vs))"

end
