(* ===== verification/AuditFlow.thy ===== *)
theory AuditFlow
  imports Auditor PutawayFlow
begin

text \<open>
  What the audit decides: a run without findings is exactly the agreement of the database with
  the chain, and what the service, the adapter and the contract do together is such a run.
\<close>

section \<open>Agreement\<close>

text \<open>A submitted action and its log agree in all that the audit can compare.\<close>

definition consistent :: "auditor \<Rightarrow> audit_action \<Rightarrow> ChainAction \<Rightarrow> bool" where
  "consistent U a ca \<longleftrightarrow> aa_type a = ca_type ca
   \<and> (\<exists>d. DetailsOf a (au_db U) = Inr d \<and> DetailsHash (au_crypto U) d = Inr (ca_details ca) \<and> dt_operator d = aa_operator a)
   \<and> (\<exists>moved items. ItemsOfAction (au_node U) (au_abi U) (aa_id a) = Inr moved \<and> DomainItems (au_crypto U) a (au_db U) = Inr items
        \<and> distinct (map (ItemID (au_crypto U)) items) \<and> set moved = ItemID (au_crypto U) ` set items)
   \<and> ca_key ca = aa_key a \<and> ca_org ca = aa_org a \<and> aa_owner a = aa_operator a
   \<and> (\<exists>k auth. KeyOf (au_node U) (au_abi U) (ca_key ca) = Inr k \<and> AuthOf (au_node U) (au_abi U) (ca_tx ca) (aa_id a) = Inr auth
        \<and> VerifyOnChain (au_crypto U) (oa_webauthn auth) (Challenge (au_crypto U) (aa_id a) (ca_type ca)
             (itemsHashWords (au_crypto U) (oa_items auth)) (ca_details ca)) (ak_point k) = None)"

text \<open>Besides, an action may be refused by the contract or be on its way for a short time.\<close>

definition acceptable :: "auditor \<Rightarrow> audit_action option \<Rightarrow> ChainAction option \<Rightarrow> ChainRejection option \<Rightarrow> bool" where
  "acceptable U db applied rejected =
     (case db of None \<Rightarrow> False
      | Some a \<Rightarrow> (case applied of Some ca \<Rightarrow> consistent U a ca
        | None \<Rightarrow> rejected \<noteq> None
            \<or> (aa_status a \<in> {Some OnchainPending, Some OnchainSent} \<and> au_now U - aa_submitted a \<le> PendingStaleAfter)))"

lemma add_finding_simps [simp]:
  "sg_findings (add_finding i k s) = sg_findings s @ [(i, k)]"
  by (simp add: add_finding_def)

lemma db_stage_findings [simp]: "sg_findings (db_stage a) = []"
  by (simp add: db_stage_def empty_stage_def)

lemma checkDetailsHash_clean:
  assumes "checkDetailsHash U a ca s = Inr (od, s')" "sg_findings s = []"
  shows "sg_findings s' = [] \<longleftrightarrow>
    (\<exists>d. od = Some d \<and> DetailsOf a (au_db U) = Inr d \<and> DetailsHash (au_crypto U) d = Inr (ca_details ca))"
  using assms unfolding checkDetailsHash_def by (auto split: sum.splits if_splits)

lemma checkDetailsHash_details:
  "checkDetailsHash U a ca s = Inr (od, s') \<Longrightarrow> DetailsOf a (au_db U) = Inr d \<Longrightarrow> od = Some d"
  unfolding checkDetailsHash_def by (auto split: sum.splits if_splits)

lemma same_sets:
  "length (remdups xs) = length (remdups ys) \<and> (\<forall>y\<in>set (remdups ys). y \<in> set (remdups xs)) \<longleftrightarrow> set xs = set ys"
proof
  assume "length (remdups xs) = length (remdups ys) \<and> (\<forall>y\<in>set (remdups ys). y \<in> set (remdups xs))"
  then have "set ys \<subseteq> set xs" "card (set xs) = card (set ys)" by (auto simp: length_remdups_card_conv)
  then show "set xs = set ys" by (metis List.finite_set card_subset_eq)
qed (auto simp: length_remdups_card_conv)

lemma checkItems_clean:
  assumes "checkItems U a s = Inr s'"
  shows "sg_findings s' = [] \<longleftrightarrow> sg_findings s = []
    \<and> (\<exists>moved items. ItemsOfAction (au_node U) (au_abi U) (aa_id a) = Inr moved \<and> DomainItems (au_crypto U) a (au_db U) = Inr items
        \<and> distinct (map (ItemID (au_crypto U)) items) \<and> set moved = ItemID (au_crypto U) ` set items)"
proof -
  obtain moved items where m: "ItemsOfAction (au_node U) (au_abi U) (aa_id a) = Inr moved" "DomainItems (au_crypto U) a (au_db U) = Inr items"
    using assms unfolding checkItems_def by (auto split: sum.splits)
  have d: "length (remdups (map (ItemID (au_crypto U)) items)) \<noteq> length items \<longleftrightarrow> \<not> distinct (map (ItemID (au_crypto U)) items)"
    by (metis length_map length_remdups_eq remdups_id_iff_distinct)
  show ?thesis
    using assms unfolding checkItems_def m sum.case Let_def same_sets d by (auto split: if_splits)
qed

lemma checkSigner_clean:
  "sg_findings (checkSigner a ca od s) = [] \<longleftrightarrow> sg_findings s = [] \<and> ca_key ca = aa_key a \<and> ca_org ca = aa_org a
     \<and> aa_owner a = aa_operator a \<and> (\<forall>d. od = Some d \<longrightarrow> dt_operator d = aa_operator a)"
  by (auto simp: checkSigner_def split: option.splits)

lemma checkSignature_clean:
  assumes "checkSignature U a ca s = Inr s'"
  shows "sg_findings s' = [] \<longleftrightarrow> sg_findings s = []
    \<and> (\<exists>k auth. KeyOf (au_node U) (au_abi U) (ca_key ca) = Inr k \<and> AuthOf (au_node U) (au_abi U) (ca_tx ca) (aa_id a) = Inr auth
        \<and> VerifyOnChain (au_crypto U) (oa_webauthn auth) (Challenge (au_crypto U) (aa_id a) (ca_type ca)
             (itemsHashWords (au_crypto U) (oa_items auth)) (ca_details ca)) (ak_point k) = None)"
  using assms unfolding checkSignature_def Let_def by (auto split: sum.splits if_splits)

lemma appliedStage_clean:
  assumes "appliedStage U a ca = Inr s"
  shows "sg_findings s = [] \<longleftrightarrow> consistent U a ca"
proof (cases "aa_type a = ca_type ca")
  case True
  let ?s0 = "(db_stage a)\<lparr>sg_action := ca_id ca, sg_type := ca_type ca, sg_status := StatusApplied,
            sg_key := Hex32 (ca_key ca), sg_block := ca_block ca, sg_time := Some (ca_time ca), sg_tx := Hex32 (ca_tx ca)\<rparr>"
  obtain od s1 s2 where c: "checkDetailsHash U a ca ?s0 = Inr (od, s1)" "checkItems U a s1 = Inr s2"
      "checkSignature U a ca (checkSigner a ca od s2) = Inr s"
    using assms True unfolding appliedStage_def Let_def by (auto split: sum.splits prod.splits)
  have "sg_findings ?s0 = []" by simp
  note d = checkDetailsHash_clean [OF c(1) this]
  show ?thesis
    unfolding checkSignature_clean [OF c(3)] checkSigner_clean checkItems_clean [OF c(2)] d consistent_def
    using True checkDetailsHash_details [OF c(1)] by auto
qed (use assms in \<open>auto simp: appliedStage_def Let_def consistent_def\<close>)

lemma stage_clean:
  assumes "stage U db applied rejected = Inr s"
  shows "sg_findings s = [] \<longleftrightarrow> acceptable U db applied rejected"
proof (cases db)
  case (Some a)
  show ?thesis
  proof (cases applied)
    case None
    then show ?thesis using assms Some by (auto simp: stage_def acceptable_def split: option.splits if_splits)
  next
    case ca: (Some ca)
    show ?thesis using appliedStage_clean assms unfolding stage_def acceptable_def Some ca option.case by blast
  qed
qed (use assms in \<open>auto simp: stage_def acceptable_def Let_def\<close>)

lemma stages_clean:
  assumes "stages U dbBy applied rejected ids = Inr ss"
  shows "concat (map (\<lambda>(i, s). sg_findings s) ss) = []
     \<longleftrightarrow> (\<forall>i\<in>set ids. acceptable U (dbBy i) (map_of applied i) (map_of rejected i))"
  using assms
proof (induction ids arbitrary: ss)
  case (Cons i ids)
  then obtain s ss' where s: "stage U (dbBy i) (map_of applied i) (map_of rejected i) = Inr s" "stages U dbBy applied rejected ids = Inr ss'"
    "ss = (i, s) # ss'" by (auto split: sum.splits)
  show ?case using Cons.IH [OF s(2)] stage_clean [OF s(1)] s(3) by auto
qed simp


lemma set_chain_only: "set (chain_only applied dbBy) = {i \<in> fst ` set applied. dbBy i = None}"
  by (auto simp: chain_only_def)

lemma set_union_ids: "set (union_ids first as) = set first \<union> aa_id ` set as"
  by (simp add: union_ids_def)

lemma db_by_None: "db_by as i = None \<longleftrightarrow> i \<notin> aa_id ` set as"
  by (auto simp: db_by_def map_of_eq_None_iff image_iff)

lemma db_by_distinct:
  assumes "distinct (map aa_id as)" "a \<in> set as" shows "db_by as (aa_id a) = Some a"
proof -
  have "distinct (map fst (rev (map (\<lambda>a. (aa_id a, a)) as)))" using assms(1) by (simp add: comp_def flip: rev_map)
  then show ?thesis using assms(2) unfolding db_by_def by (simp add: map_of_eq_Some_iff)
qed

lemma actionSelect_id: "actionSelect s w = Some a \<Longrightarrow> aa_id a = wa_id w"
  by (auto simp: actionSelect_def bind_eq_Some_conv Let_def)

lemma distinct_actions:
  assumes "distinct (map wa_id (warehouse_actions s))" shows "distinct (map aa_id (scanActions P s))"
proof -
  have k: "distinct (map aa_id (List.map_filter (actionSelect s) ws))" if "distinct (map wa_id ws)" for ws
    using that
  proof (induction ws)
    case (Cons w ws)
    have "aa_id ` set (List.map_filter (actionSelect s) ws) \<subseteq> wa_id ` set ws"
      by (force simp: List.map_filter_def dest: actionSelect_id)
    with Cons show ?case by (fastforce simp: map_filter_simps split: option.splits dest: actionSelect_id)
  qed (simp add: map_filter_simps)
  have "distinct (map wa_id (sort_key f (sort_key g (filter Q (warehouse_actions s)))))" for f g Q
  proof -
    have "distinct (warehouse_actions s)" "inj_on wa_id (set (warehouse_actions s))" using assms by (auto simp: distinct_map)
    then show ?thesis by (simp add: distinct_map inj_on_subset)
  qed
  then show ?thesis unfolding scanActions_def by (rule k)
qed


lemma AuditAll_parts:
  assumes "AuditAll U = Inr fs"
  obtains applied rejected ss where "Applied (au_node U) (au_abi U) [] = Inr applied"
    "Rejected (au_node U) (au_abi U) (union_ids [] (AllActions (au_db U))) = Inr rejected"
    "stages U (db_by (AllActions (au_db U))) applied rejected
       (union_ids [] (AllActions (au_db U)) @ chain_only applied (db_by (AllActions (au_db U)))) = Inr ss"
    "fs = concat (map (\<lambda>(i, s). sg_findings s) ss)"
  using assms unfolding AuditAll_def Let_def by (auto split: sum.splits)

text \<open>C2: the audit reports nothing exactly when the database and the chain agree. When a complete audit
  runs to its end, its list of findings is empty if and only if every submitted action is consistent
  with its log, or refused by the contract, or still within the ten minutes it may take, and every
  action the contract applied is one of the database.\<close>

theorem AuditAll_clean:
  assumes run: "AuditAll U = Inr fs" and keys: "distinct (map wa_id (warehouse_actions (au_db U)))"
  shows "\<exists>applied rejected. Applied (au_node U) (au_abi U) [] = Inr applied
    \<and> Rejected (au_node U) (au_abi U) (map aa_id (AllActions (au_db U))) = Inr rejected
    \<and> (fs = [] \<longleftrightarrow>
         (\<forall>a\<in>set (AllActions (au_db U)). acceptable U (Some a) (map_of applied (aa_id a)) (map_of rejected (aa_id a)))
         \<and> fst ` set applied \<subseteq> aa_id ` set (AllActions (au_db U)))"
proof -
  let ?as = "AllActions (au_db U)"
  have d: "distinct (map aa_id ?as)" unfolding AllActions_def by (rule distinct_actions [OF keys])
  have ids: "union_ids [] ?as = map aa_id ?as" using d unfolding union_ids_def by (simp add: dedup_distinct)
  obtain applied rejected ss where r: "Applied (au_node U) (au_abi U) [] = Inr applied"
    "Rejected (au_node U) (au_abi U) (map aa_id ?as) = Inr rejected"
    "stages U (db_by ?as) applied rejected (map aa_id ?as @ chain_only applied (db_by ?as)) = Inr ss"
    "fs = concat (map (\<lambda>(i, s). sg_findings s) ss)"
    using run by (rule AuditAll_parts) (simp add: ids)
  have "fs = [] \<longleftrightarrow> (\<forall>i\<in>set (map aa_id ?as @ chain_only applied (db_by ?as)). acceptable U (db_by ?as i) (map_of applied i) (map_of rejected i))"
    unfolding r(4) by (rule stages_clean [OF r(3)])
  also have "\<dots> \<longleftrightarrow> (\<forall>a\<in>set ?as. acceptable U (Some a) (map_of applied (aa_id a)) (map_of rejected (aa_id a)))
      \<and> (\<forall>i\<in>set (chain_only applied (db_by ?as)). acceptable U None (map_of applied i) (map_of rejected i))"
    using db_by_distinct [OF d] unfolding set_append set_chain_only ball_Un set_map ball_simps(9) mem_Collect_eq
    by (metis (mono_tags, lifting) mem_Collect_eq)
  also have "(\<forall>i\<in>set (chain_only applied (db_by ?as)). acceptable U None (map_of applied i) (map_of rejected i))
      \<longleftrightarrow> fst ` set applied \<subseteq> aa_id ` set ?as"
    unfolding set_chain_only acceptable_def db_by_None by auto
  finally show ?thesis using r(1,2) by blast
qed


section \<open>A placement under audit\<close>

text \<open>A part of a placement as its draft leaves it.\<close>

definition placement_part :: "crypto \<Rightarrow> uuid \<Rightarrow> uuid \<Rightarrow> int \<Rightarrow> part \<Rightarrow> bool" where
  "placement_part X u b ms p \<longleftrightarrow> pt_items p \<noteq> []
     \<and> pt_details_hash p = PutAwayDetailsHash X (pt_salt p) b u (word_of_int ms)
     \<and> pt_challenge p = Challenge X (pt_action p) TypePutAway (ItemsHash X (pt_items p)) (pt_details_hash p)"

lemma draft_placement:
  assumes "DraftPlaceToStorageBin C E u ids b s = (Inr op, s')"
  shows "\<exists>ms. op_details op = PutawayDetails b ms \<and> op_type op = TypePutAway \<and> op_created_by op = u \<and> \<not> op_submitted op
    \<and> (\<forall>p\<in>set (op_parts op). placement_part (cf_crypto C) u b ms p) \<and> set (op_items op) = set ids \<and> distinct (op_items op)"
proof -
  obtain items s1 where d: "(draft_operation C E TypePutAway u (PutawayDetails b) items
        (\<lambda>ms salt _. PutAwayDetailsHash (cf_crypto C) salt b u ms) :: operation putaway_tx) s1 = (Inr op, s')" "items = dedup (\<lambda>x. x) {} ids"
    using assms unfolding DraftPlaceToStorageBin_def Let_def svc_oks by blast
  obtain signer where op: "op = NewOperation (cf_crypto C) E TypePutAway u signer
      (PutawayDetails b (unix_milli (truncate_ms (clock E 0)))) items
      (\<lambda>salt _. PutAwayDetailsHash (cf_crypto C) salt b u (word_of_int (unix_milli (truncate_ms (clock E 0)))))"
    using draft_ok [OF d(1)] by blast
  have i: "op_items op = SortByItemID (cf_crypto C) items"
    unfolding op_items_def op by (simp add: new_parts_items)
  show ?thesis
    unfolding i d(2)
    by (intro exI [of _ "unix_milli (truncate_ms (clock E 0))"])
       (auto simp: op placement_part_def SortByItemID_def dest: new_parts_sizes new_parts_challenge)
qed

text \<open>The rows of a draft, still as it inserted them.\<close>

definition drafted_rows :: "operation \<Rightarrow> wms_db \<Rightarrow> bool" where
  "drafted_rows op s \<longleftrightarrow>
     filter (\<lambda>r. wa_operation r = op_id op) (warehouse_actions s) = map (action_row op) (enumerate 0 (op_parts op))"

lemma drafted_scan:
  assumes "drafted_rows op s" "op_parts op \<noteq> []" "\<not> op_submitted op"
    and P: "\<And>r. wa_operation r = op_id op \<Longrightarrow> wa_created_by r = op_created_by op \<Longrightarrow> P r" "\<And>r. P r \<Longrightarrow> wa_operation r = op_id op"
  shows "scanOperation (operation_rows P s) (op_id op) = Some (op\<lparr>op_signer_key_id := 0\<rparr>)"
proof -
  let ?rows = "map (action_row op) (enumerate 0 (op_parts op))"
  have "filter P (warehouse_actions s) = filter P (filter (\<lambda>r. wa_operation r = op_id op) (warehouse_actions s))"
    using P(2) by (auto intro!: filter_cong)
  also have "\<dots> = ?rows"
    using assms(1) P(1) unfolding drafted_rows_def by (auto simp: filter_id_conv action_row_def)
  finally have rows: "operation_rows P s = ?rows"
    by (simp add: operation_rows_def sort_key_action_rows)
  have ne: "?rows \<noteq> []" using assms(2) by (cases "op_parts op") auto
  moreover have "\<And>r. r \<in> set ?rows \<Longrightarrow> wa_signer r = op_signer op \<and> wa_created_by r = op_created_by op
      \<and> wa_type r = op_type op \<and> wa_details r = op_details op \<and> wa_submitted r = None"
    by (auto simp: action_row_def)
  moreover have "map part_of_row ?rows = op_parts op" by (simp add: comp_def)
  ultimately have "foldl scan_row (empty_operation (op_id op)) ?rows =
     \<lparr> op_id = op_id op, op_type = op_type op, op_created_by = op_created_by op,
       op_signer = op_signer op, op_signer_key_id = 0, op_details = op_details op,
       op_parts = op_parts op, op_submitted = False \<rparr>"
    using scan_draft_rows [of ?rows "op_signer op" "op_created_by op" "op_type op" "op_details op"]
    by simp
  then have "foldl scan_row (empty_operation (op_id op)) ?rows = op\<lparr>op_signer_key_id := 0\<rparr>"
    using assms(3) by (simp only:) simp
  then show ?thesis using ne by (simp add: rows scanOperation_Some)
qed

lemma part_of_item:
  assumes "distinct (concat (map pt_items parts))" "p \<in> set parts" "q \<in> set parts" "x \<in> set (pt_items p)" "x \<in> set (pt_items q)"
  shows "p = q"
  using assms by (induction parts) fastforce+

lemma partByProduct_iff:
  assumes "distinct (concat (map pt_items parts))" "distinct (map pt_action parts)" "p \<in> set parts"
    and "x \<in> set (concat (map pt_items parts))"
  shows "partByProduct parts x = pt_action p \<longleftrightarrow> x \<in> set (pt_items p)"
proof -
  obtain q where q: "q \<in> set parts" "x \<in> set (pt_items q)" "partByProduct parts x = pt_action q"
    using partByProduct_part [OF assms(4)] by blast
  show ?thesis
    using q assms part_of_item [OF assms(1,3) q(1)] distinct_keyD [of pt_action parts p q] by metis
qed

lemma placed_filter:
  "filter (\<lambda>r. pw_action r = Some a) (map (putaway_entry E b u t parts) (enumerate n ps))
     = map (putaway_entry E b u t parts) (filter (\<lambda>(i, q). partByProduct parts (pr_id q) = a) (enumerate n ps))"
  by (induction ps arbitrary: n) (auto simp: putaway_entry_def)

lemma placed_products:
  "map pw_product (filter (\<lambda>r. pw_action r = Some a) (map (putaway_entry E b u t parts) (enumerate n ps)))
     = filter (\<lambda>x. partByProduct parts x = a) (map pr_id ps)"
  by (induction ps arbitrary: n) (auto simp: putaway_entry_def)

lemma placed_details:
  "set (map (\<lambda>r. (pw_bin r, pw_operator r, pw_occurred r)) (filter (\<lambda>r. pw_action r = Some a) (map (putaway_entry E b u t parts) (enumerate n ps))))
     \<subseteq> {(b, u, t)}"
  by (auto simp: putaway_entry_def)

lemma exactly_one_const: "rows \<noteq> [] \<Longrightarrow> set rows \<subseteq> {r} \<Longrightarrow> exactly_one rows = Inr r"
proof -
  have "remdups xs = [r]" if "xs \<noteq> []" "set xs \<subseteq> {r}" for xs
    using that
  proof (induction xs)
    case (Cons x xs)
    then show ?case by (cases xs) auto
  qed simp
  then show "rows \<noteq> [] \<Longrightarrow> set rows \<subseteq> {r} \<Longrightarrow> exactly_one rows = Inr r" by (simp add: exactly_one_def)
qed


lemma placed_part:
  assumes rows: "pws = old @ map (putaway_entry E b u t parts) (enumerate 0 ps)"
    and ps: "map pr_id ps = sort (concat (map pt_items parts))"
    and dist: "distinct (concat (map pt_items parts))" "distinct (map pt_action parts)"
    and p: "p \<in> set parts" "pt_items p \<noteq> []"
    and new: "\<forall>w\<in>set old. pw_action w \<noteq> Some (pt_action p)"
  shows "set (map pw_product (filter (\<lambda>r. pw_action r = Some (pt_action p)) pws)) = set (pt_items p)"
    and "distinct (map pw_product (filter (\<lambda>r. pw_action r = Some (pt_action p)) pws))"
    and "exactly_one (map (\<lambda>r. (pw_bin r, pw_operator r, pw_occurred r)) (filter (\<lambda>r. pw_action r = Some (pt_action p)) pws)) = Inr (b, u, t)"
proof -
  let ?new = "map (putaway_entry E b u t parts) (enumerate 0 ps)"
  have f: "filter (\<lambda>r. pw_action r = Some (pt_action p)) pws = filter (\<lambda>r. pw_action r = Some (pt_action p)) ?new"
    using new unfolding rows by (simp add: filter_empty_conv)
  have m: "map pw_product (filter (\<lambda>r. pw_action r = Some (pt_action p)) ?new)
      = filter (\<lambda>x. partByProduct parts x = pt_action p) (sort (concat (map pt_items parts)))"
    unfolding placed_products ps ..
  have "{x \<in> set (concat (map pt_items parts)). partByProduct parts x = pt_action p} = set (pt_items p)"
    using partByProduct_iff [OF dist p(1)] p(1) by auto
  then show s: "set (map pw_product (filter (\<lambda>r. pw_action r = Some (pt_action p)) pws)) = set (pt_items p)"
    unfolding f m by simp
  show "distinct (map pw_product (filter (\<lambda>r. pw_action r = Some (pt_action p)) pws))"
    unfolding f m using dist(1) by simp
  have "filter (\<lambda>r. pw_action r = Some (pt_action p)) pws \<noteq> []" using s p(2) by (metis list.simps(8) set_empty)
  then show "exactly_one (map (\<lambda>r. (pw_bin r, pw_operator r, pw_occurred r)) (filter (\<lambda>r. pw_action r = Some (pt_action p)) pws)) = Inr (b, u, t)"
    unfolding f using placed_details by (intro exactly_one_const) auto
qed

text \<open>What the contract leaves of a call that it applies: one log that repeats it, one log per item,
  the transaction that carried it; and the registry's entry of its key.\<close>

definition logged :: "auditor \<Rightarrow> chain_warehouse_action \<Rightarrow> uuid \<Rightarrow> p256_point \<Rightarrow> ChainAction \<Rightarrow> bool" where
  "logged U c org key ca \<longleftrightarrow> ca_id ca = wx_action c \<and> ca_type ca = wx_type c \<and> ca_details ca = wx_details_hash c
   \<and> ca_key ca = wx_key c \<and> ca_org ca = org
   \<and> ItemsOfAction (au_node U) (au_abi U) (wx_action c) = Inr (wx_items c)
   \<and> (\<exists>k. KeyOf (au_node U) (au_abi U) (wx_key c) = Inr k \<and> ak_point k = key)
   \<and> (\<exists>data calls. nd_tx (au_node U) (ca_tx ca) = Inr data \<and> 4 \<le> length data \<and> take 4 data = ua_selector (au_abi U)
        \<and> ua_unpack_actions (au_abi U) (drop 4 data) = Some calls \<and> List.find (\<lambda>d. wx_action d = wx_action c) calls = Some c)"

lemma logged_auth:
  assumes "logged U c org key ca" "wx_auth c = auth_of wa" "wn_challenge_index wa = 23" "wn_type_index wa = 1"
  shows "\<exists>auth. AuthOf (au_node U) (au_abi U) (ca_tx ca) (wx_action c) = Inr auth \<and> oa_items auth = wx_items c \<and> oa_webauthn auth = wa"
proof -
  have i: "go_int64 23 = 23" "go_int64 1 = 1" by (simp_all add: go_int64_def)
  show ?thesis
    using assms i unfolding logged_def AuthOf_def decodeApplyActions_def by (cases wa) (auto simp: auth_of_def not_less)
qed

lemma consistent_stage:
  assumes "consistent U a ca"
  shows "\<exists>st. stage U (Some a) (Some ca) rejected = Inr st \<and> sg_findings st = [] \<and> sg_status st = StatusApplied
    \<and> sg_details st = CheckOK \<and> sg_items st = CheckOK \<and> sg_signer st = CheckOK \<and> sg_signature st = CheckOK"
proof -
  let ?X = "au_crypto U"
  obtain d moved items k auth where ty: "aa_type a = ca_type ca"
    and d: "DetailsOf a (au_db U) = Inr d" "DetailsHash ?X d = Inr (ca_details ca)" "dt_operator d = aa_operator a"
    and i: "ItemsOfAction (au_node U) (au_abi U) (aa_id a) = Inr moved" "DomainItems ?X a (au_db U) = Inr items"
      "distinct (map (ItemID ?X) items)" "set moved = ItemID ?X ` set items"
    and k: "ca_key ca = aa_key a" "ca_org ca = aa_org a" "aa_owner a = aa_operator a"
    and v: "KeyOf (au_node U) (au_abi U) (ca_key ca) = Inr k" "AuthOf (au_node U) (au_abi U) (ca_tx ca) (aa_id a) = Inr auth"
      "VerifyOnChain ?X (oa_webauthn auth) (Challenge ?X (aa_id a) (ca_type ca) (itemsHashWords ?X (oa_items auth)) (ca_details ca)) (ak_point k) = None"
    using assms unfolding consistent_def by blast
  have r: "length (remdups moved) = length (remdups (map (ItemID ?X) items)) \<and> (\<forall>it\<in>set (remdups (map (ItemID ?X) items)). it \<in> set (remdups moved))"
    unfolding same_sets using i(4) by simp
  have "length (remdups (map (ItemID ?X) items)) = length items" using i(3) by (simp add: distinct_remdups_id)
  then have 2: "checkItems U a s = Inr (s\<lparr>sg_items := CheckOK\<rparr>)" for s
    unfolding checkItems_def i(1,2) sum.case Let_def using r by simp
  have 1: "checkDetailsHash U a ca s = Inr (Some d, s\<lparr>sg_details := CheckOK\<rparr>)" for s
    using d by (simp add: checkDetailsHash_def)
  have 3: "checkSigner a ca (Some d) s = s\<lparr>sg_signer := CheckOK\<rparr>" for s
    using k d(3) by (simp add: checkSigner_def)
  have 4: "checkSignature U a ca s = Inr (s\<lparr>sg_signature := CheckOK\<rparr>)" for s
    unfolding checkSignature_def v(1,2) sum.case Let_def v(3) by simp
  show ?thesis
    by (simp add: stage_def appliedStage_def Let_def ty 1 2 3 4)
qed


lemma ActiveSigner_stored:
  assumes "ActiveSigner X chain u s = (Inr signer, s1)" "pk_wf s"
  shows "pk_wf s1 \<and> (\<exists>q\<in>set (passkey_credentials s1). pk_credential q = pk_credential signer \<and> pk_user q = u
    \<and> pk_key q = pk_key signer \<and> pk_key_id q = pk_key_id signer)"
proof -
  obtain p where p: "p \<in> set (passkey_credentials s)" "pk_user p = u" "\<exists>st. signer = p\<lparr>pk_status := st\<rparr>"
  proof -
    obtain p where l: "LatestPasskey u s = Some p" and run: "(case chain of
            None \<Rightarrow> if pk_status p \<noteq> PasskeyStatusActive then tx_fail ErrSignerKeyNotActive else tx_return p
          | Some ask \<Rightarrow> confirmActive X ask p) s = (Inr signer, s1)"
      using assms(1) unfolding ActiveSigner_def
      by (cases "LatestPasskey u s") (auto simp: get_bind_apply tx_fail_apply split: if_splits)
    have "p = signer \<or> (\<exists>st. signer = p\<lparr>pk_status := st\<rparr>)"
    proof (cases chain)
      case (Some ask)
      then have c: "confirmActive X ask p s = (Inr signer, s1)" using run by simp
      then obtain st where "ask [registry_id p] = Some st" unfolding confirmActive_def
        by (cases "ask [registry_id p]") (simp_all add: tx_fail_apply)
      with c obtain v where "registry_status X st p = Some v" unfolding confirmActive_def
        by (cases "registry_status X st p") (simp_all add: tx_fail_apply)
      with c \<open>ask [registry_id p] = Some st\<close> show ?thesis
        unfolding confirmActive_def by (simp add: svc_oks) blast
    qed (use run in \<open>auto simp: tx_simps split: if_splits\<close>)
    have "p = p\<lparr>pk_status := pk_status p\<rparr>" by simp
    then show thesis using \<open>p = signer \<or> _\<close> LatestPasskey_in [OF l] by (metis that)
  qed
  have "pk_forward s s1" using ActiveSigner_forward assms(1) by (rule tx_relD)
  then obtain st where "pk_wf s1" "p\<lparr>pk_status := st\<rparr> \<in> set (passkey_credentials s1)"
    using assms(2) p(1) unfolding pk_forward_def by blast
  then show ?thesis using p(2,3) by (auto intro!: bexI [of _ "p\<lparr>pk_status := st\<rparr>"])
qed

lemma actionSelect_row:
  assumes "a \<in> set (AllActions s)" "distinct (map wa_id (warehouse_actions s))" "w \<in> set (warehouse_actions s)" "wa_id w = aa_id a"
  shows "actionSelect s w = Some a"
proof -
  obtain v where v: "v \<in> set (warehouse_actions s)" "actionSelect s v = Some a"
    using assms(1) by (auto simp: AllActions_def scanActions_def List.map_filter_def)
  then have "wa_id v = wa_id w" using actionSelect_id [OF v(2)] assms(4) by simp
  then show ?thesis using v distinct_keyD [OF assms(2) v(1) assms(3)] by simp
qed

lemma actionSelect_fields:
  assumes "actionSelect s w = Some a" "List.find (\<lambda>k. pk_credential k = wa_signer w) (passkey_credentials s) = Some pc"
  shows "aa_id a = wa_id w" "aa_type a = wa_type w" "aa_salt a = wa_salt w" "aa_operator a = wa_created_by w"
    "aa_key a = pk_key_id pc" "aa_owner a = pk_user pc" "aa_org a = pk_org pc"
  using assms by (auto simp: actionSelect_def bind_eq_Some_conv Let_def)

lemma drafted_row:
  assumes "drafted_rows op s" "p \<in> set (op_parts op)"
  obtains i where "action_row op (i, p) \<in> set (warehouse_actions s)" "wa_operation (action_row op (i, p)) = op_id op"
proof -
  obtain i where "i < length (op_parts op)" "op_parts op ! i = p" using assms(2) by (auto simp: in_set_conv_nth)
  then have "(i, p) \<in> set (enumerate 0 (op_parts op))" by (simp add: in_set_enumerate_eq)
  then have "action_row op (i, p) \<in> set (filter (\<lambda>r. wa_operation r = op_id op) (warehouse_actions s))"
    using assms(1) unfolding drafted_rows_def by simp
  then show thesis by (auto intro: that)
qed


lemma drafted_locks:
  assumes d: "drafted_rows op t" and op: "op_parts op \<noteq> []" "\<not> op_submitted op"
  shows "LockOperation (op_id op) (op_created_by op) t = (Inr (op\<lparr>op_signer_key_id := 0\<rparr>), t)"
proof -
  have "wa_submitted q = None" if "q \<in> set (warehouse_actions t)" "wa_operation q = op_id op" for q
  proof -
    have "q \<in> set (filter (\<lambda>r. wa_operation r = op_id op) (warehouse_actions t))" using that by simp
    then have "q \<in> set (map (action_row op) (enumerate 0 (op_parts op)))" using d unfolding drafted_rows_def by (simp only:)
    then obtain x where "q = action_row op x" by auto
    then show ?thesis by (simp add: action_row_def split: prod.splits)
  qed
  then have "\<not> submitted_op (op_id op) (op_created_by op) t" unfolding submitted_op_def by auto
  then show ?thesis
    using drafted_scan [OF d op, of "\<lambda>r. wa_operation r = op_id op \<and> wa_created_by r = op_created_by op"]
    unfolding LockOperation_ok by simp
qed

text \<open>The payload queued under the id of a part is the envelope of that part.\<close>

lemma queued_payload:
  assumes env: "Envelopes X op signer as rp origins = Inr pl" and out: "out = old @ map2 outbox_row (op_parts op) pl"
    and acts: "distinct (map pt_action (op_parts op))" "pt_action ` set (op_parts op) \<inter> ob_event ` set old = {}"
    and p: "p \<in> set (op_parts op)" and ob: "ob \<in> set out" "ob_event ob = pt_action p"
  shows "envelope_part X op signer as rp origins p = Inr (ob_payload ob)"
proof -
  have e: "list_all2 (\<lambda>p raw. envelope_part X op signer as rp origins p = Inr raw) (op_parts op) pl"
    using env by (simp add: Envelopes_def envelope_parts_ok split: if_splits)
  have "ob \<notin> set old" using acts(2) ob(2) p by auto
  then obtain x where x: "x \<in> set (zip (op_parts op) pl)" "ob = (case x of (q, raw) \<Rightarrow> outbox_row q raw)"
    using ob(1) unfolding out by auto
  obtain q raw where qr: "x = (q, raw)" by (cases x)
  have "q \<in> set (op_parts op)" using x(1) qr by (auto dest: set_zip_leftD)
  moreover have "pt_action q = pt_action p" using x(2) ob(2) qr by (simp add: outbox_row_def)
  ultimately have "q = p" using distinct_keyD [OF acts(1) _ p] by blast
  moreover have "envelope_part X op signer as rp origins q = Inr raw"
    using e x(1) qr by (auto simp: list_all2_iff)
  ultimately show ?thesis using x(2) qr by (simp add: outbox_row_def)
qed

text \<open>A submitted placement, from the operation its draft returned.\<close>

lemma submitted_placement:
  assumes submit: "SubmitPlaceToStorageBin C E u (op_id op) as s = (Inr r, s')"
    and rows: "drafted_rows op s" and op: "op_details op = PutawayDetails b ms" "op_created_by op = u" "op_parts op \<noteq> []" "\<not> op_submitted op"
    and keys: "pk_wf s"
  obtains signer pl ps now where "Envelopes (cf_crypto C) (op\<lparr>op_signer_key_id := 0\<rparr>) signer as (cf_rp C) (cf_origins C) = Inr pl"
    "map pr_id ps = sort (op_items op)" "distinct (map pt_action (op_parts op))"
    "pt_action ` set (op_parts op) \<inter> ob_event ` set (outbox_events s) = {}"
    "outbox_events s' = outbox_events s @ map2 outbox_row (op_parts op) pl"
    "putaways s' = putaways s @ map (putaway_entry E b u (of_unix_milli ms) (op_parts op)) (enumerate 0 ps)"
    "warehouse_actions s' = sql_update (\<lambda>r. wa_operation r = op_id op) (\<lambda>r. r\<lparr>wa_submitted := Some now\<rparr>) (warehouse_actions s)"
    "\<forall>pc. List.find (\<lambda>k. pk_credential k = op_signer op) (passkey_credentials s') = Some pc
       \<longrightarrow> pk_user pc = u \<and> pk_key pc = pk_key signer \<and> pk_key_id pc = pk_key_id signer"
proof -
  let ?op = "op\<lparr>op_signer_key_id := 0\<rparr>"
  obtain op' pl sa bn where l: "(load_submission C TypePutAway u (op_id op) as :: (operation \<times> string list) putaway_tx) s = (Inr (op', pl), sa)"
    and place: "place_locked E u (op_id op) (op_details op') op' pl sa = (Inr bn, s')"
    using SubmitPlace_run [OF submit] by blast
  note k = keys_only_tables [OF submit_head(1) [OF l]]
  obtain signer where sg: "load_operation (op_id op) s = (Inr (Some op'), s)" "ActiveSigner (cf_crypto C) (cf_chain C) u s = (Inr signer, sa)"
    "pk_credential signer = op_signer op'" "Envelopes (cf_crypto C) op' signer as (cf_rp C) (cf_origins C) = Inr pl"
    using l by (rule load_submission_ok)
  have op': "op' = ?op"
    using sg(1) drafted_scan [OF rows op(3,4), of "\<lambda>r. wa_operation r = op_id op"] by (simp add: load_operation_def tx_simps)
  have lk: "LockOperation (op_id op) u sa = (Inr ?op, sa)"
    using drafted_locks [of op sa] rows op k by (simp add: drafted_rows_def)
  obtain ps where ps: "map pr_id ps = sort (op_items op)" and acts: "distinct (map pt_action (op_parts op))"
      "pt_action ` set (op_parts op) \<inter> ob_event ` set (outbox_events sa) = {}"
    and out: "outbox_events s' = outbox_events sa @ map2 outbox_row (op_parts op) pl"
    and pw: "putaways s' = putaways sa @ map (putaway_entry E b u (of_unix_milli ms) (op_parts op)) (enumerate 0 ps)"
    and q: "queued (op_id op) u sa s'" and pk: "passkey_credentials s' = passkey_credentials sa"
    using place_locked_ok [OF place] lk by (auto simp: op' op op_items_def)
  obtain now where wa: "warehouse_actions s' = sql_update (\<lambda>r. wa_operation r = op_id op) (\<lambda>r. r\<lparr>wa_submitted := Some now\<rparr>) (warehouse_actions s)"
    using q k unfolding queued_def by auto
  have pc: "pk_user pc = u \<and> pk_key pc = pk_key signer \<and> pk_key_id pc = pk_key_id signer"
    if pc: "List.find (\<lambda>k. pk_credential k = op_signer op) (passkey_credentials s') = Some pc" for pc
  proof -
    note st = ActiveSigner_stored [OF sg(2) keys]
    have c: "pc \<in> set (passkey_credentials sa)" "pk_credential pc = op_signer op" using find_Some_set [OF pc] pk by auto
    obtain q where q: "q \<in> set (passkey_credentials sa)" "pk_credential q = pk_credential signer" "pk_user q = u"
      "pk_key q = pk_key signer" "pk_key_id q = pk_key_id signer" using st by blast
    have "pc = q" using pk_unique [OF conjunct1 [OF st] c(1) q(1)] c(2) q(2) sg(3) op' by simp
    then show ?thesis using q by simp
  qed
  show thesis
    by (rule that [OF sg(4) [unfolded op'] ps acts(1) _ _ _ wa]) (use acts(2) out pw k pc in auto)
qed

text \<open>The rows of one part, and a log of its call, agree.\<close>

lemma placed_consistent:
  assumes pp: "placement_part (cf_crypto C) u b ms p" "p \<in> set (op_parts op)" and op: "op_type op = TypePutAway" "op_created_by op = u"
    and items: "distinct (op_items op)" "inj_on (ItemID (cf_crypto C)) (set (op_items op))" "distinct (map pt_action (op_parts op))"
    and rows: "drafted_rows op s" "distinct (map wa_id (warehouse_actions s))"
    and wa': "warehouse_actions s' = sql_update (\<lambda>r. wa_operation r = op_id op) (\<lambda>r. r\<lparr>wa_submitted := Some now\<rparr>) (warehouse_actions s)"
    and pw: "putaways s' = putaways s @ map (putaway_entry E b u (of_unix_milli ms) (op_parts op)) (enumerate 0 ps)"
    and ps: "map pr_id ps = sort (op_items op)" and new: "\<forall>w\<in>set (putaways s). pw_action w \<noteq> Some (pt_action p)"
    and pc: "List.find (\<lambda>k. pk_credential k = op_signer op) (passkey_credentials s') = Some pc" "pk_user pc = u"
    and tuple: "VerifyOnChain (cf_crypto C) wa (pt_challenge p) (pk_key pc) = None" "wn_challenge_index wa = 23" "wn_type_index wa = 1"
    and U: "au_crypto U = cf_crypto C" "au_db U = s'" "act \<in> set (AllActions s')" "aa_id act = pt_action p"
    and ch: "logged U \<lparr> wx_action = pt_action p, wx_type = TypePutAway, wx_items = map (ItemID (cf_crypto C)) (pt_items p),
          wx_details_hash = pt_details_hash p, wx_key = pk_key_id pc, wx_auth = auth_of wa \<rparr> (pk_org pc) (pk_key pc) ca"
  shows "consistent U act ca"
proof -
  let ?X = "cf_crypto C" and ?rows = "filter (\<lambda>r. pw_action r = Some (pt_action p)) (putaways s')"
  obtain i where row: "action_row op (i, p) \<in> set (warehouse_actions s)" "wa_operation (action_row op (i, p)) = op_id op"
    using rows(1) pp(2) by (rule drafted_row)
  let ?w = "(action_row op (i, p))\<lparr>wa_submitted := Some now\<rparr>"
  have w: "?w \<in> set (warehouse_actions s')" "distinct (map wa_id (warehouse_actions s'))"
    using row rows(2) unfolding wa' by (force simp: set_sql_update, simp add: sql_update_def comp_def if_distrib cong: if_cong)
  have "actionSelect s' ?w = Some act"
    by (rule actionSelect_row [OF U(3) w(2) w(1)]) (simp add: U(4) action_row_def)
  moreover have "List.find (\<lambda>k. pk_credential k = wa_signer ?w) (passkey_credentials s') = Some pc"
    using pc by (simp add: action_row_def)
  ultimately have f: "aa_type act = TypePutAway" "aa_salt act = pt_salt p" "aa_operator act = u" "aa_key act = pk_key_id pc"
      "aa_owner act = u" "aa_org act = pk_org pc"
    using actionSelect_fields [of s' ?w act pc] by (auto simp: action_row_def op pc)
  have lg: "ca_type ca = TypePutAway" "ca_details ca = pt_details_hash p" "ca_key ca = pk_key_id pc" "ca_org ca = pk_org pc"
    using ch by (simp_all add: logged_def)
  have types: "TypePutAway \<noteq> TypeReceive" by (simp add: action_types)
  have rw: "set (map pw_product ?rows) = set (pt_items p)" "distinct (map pw_product ?rows)"
    "exactly_one (map (\<lambda>r. (pw_bin r, pw_operator r, pw_occurred r)) ?rows) = Inr (b, u, of_unix_milli ms)"
    using placed_part [OF pw _ _ items(3) pp(2) _ new] ps items(1) pp(1)
    by (simp_all add: op_items_def placement_part_def)
  have details: "DetailsOf act s' = Inr ((no_details act)\<lparr>dt_storage_bin := b, dt_operator := u, dt_ms := ms_word (of_unix_milli ms)\<rparr>)"
    unfolding DetailsOf_def f(1) putAwayDetails_def U(4) rw(3) using types by simp
  have hash: "DetailsHash ?X ((no_details act)\<lparr>dt_storage_bin := b, dt_operator := u, dt_ms := ms_word (of_unix_milli ms)\<rparr>) = Inr (pt_details_hash p)"
    using pp(1) types by (simp add: DetailsHash_def no_details_def f placement_part_def ms_word_def unix_milli_def of_unix_milli_def)
  have domain: "DomainItems ?X act s' = Inr (map pw_product ?rows)"
    unfolding DomainItems_def f(1) U(4) using types by simp
  have "set (pt_items p) \<subseteq> set (op_items op)" using pp(2) by (auto simp: op_items_def)
  then have "inj_on (ItemID ?X) (set (map pw_product ?rows))" unfolding rw(1) by (rule inj_on_subset [OF items(2)])
  then have dist': "distinct (map (ItemID ?X) (map pw_product ?rows))" using rw(2) unfolding distinct_map [of "ItemID ?X" "map pw_product ?rows"] by blast
  obtain kk where kk: "KeyOf (au_node U) (au_abi U) (ca_key ca) = Inr kk" "ak_point kk = pk_key pc"
    using ch by (auto simp: logged_def)
  obtain auth where auth: "AuthOf (au_node U) (au_abi U) (ca_tx ca) (pt_action p) = Inr auth" "oa_items auth = map (ItemID ?X) (pt_items p)"
    "oa_webauthn auth = wa"
    using logged_auth [OF ch _ tuple(2,3)] by auto
  have words: "itemsHashWords ?X (map (ItemID ?X) (pt_items p)) = ItemsHash ?X (pt_items p)"
    by (simp add: itemsHashWords_def ItemsHash_def items_preimage_def comp_def)
  have ok: "VerifyOnChain ?X (oa_webauthn auth) (Challenge ?X (pt_action p) (ca_type ca) (itemsHashWords ?X (oa_items auth)) (ca_details ca)) (ak_point kk) = None"
    using tuple(1) pp(1) by (simp add: auth kk lg words placement_part_def)
  have moved: "ItemsOfAction (au_node U) (au_abi U) (pt_action p) = Inr (map (ItemID ?X) (pt_items p))"
    using ch by (simp add: logged_def)
  show ?thesis
    unfolding consistent_def U(1,2,4) details domain moved
    using hash dist' rw(1) kk auth ok lg f by simp
qed

text \<open>C1: honest work passes the audit, from the draft to the chain. Take a placement that was drafted and,
  its rows untouched, submitted with success. The payload queued for any of its parts, carried over
  Kafka, is read by the adapter as one contract call; and once the contract has logged that call, the
  audit of the action finds nothing: details, items, signer and signature are all in order. What is
  relied on: the codecs read back what they wrote, no two of the products share an item id, the
  assertion came from a browser, the registry holds the key the service holds.\<close>

theorem placement_audits_clean:
  assumes draft: "DraftPlaceToStorageBin C E u ids b s0 = (Inr op, s1)" and rows: "drafted_rows op s"
    and submit: "SubmitPlaceToStorageBin C E' u (op_id op) as s = (Inr r, s')"
    and keys: "pk_wf s" "distinct (map wa_id (warehouse_actions s))"
    and p: "p \<in> set (op_parts op)" and new: "\<forall>w\<in>set (putaways s). pw_action w \<noteq> Some (pt_action p)"
    and pc: "List.find (\<lambda>k. pk_credential k = op_signer op) (passkey_credentials s') = Some pc"
    and ob: "ob \<in> set (outbox_events s')" "ob_event ob = pt_action p" and m: "carries (cf_crypto C) K (pt_action p) (ob_payload ob) m"
    and uuids: "\<And>v. v \<in> set (pt_items p) \<Longrightarrow> cc_uuid K (uuid_string (cf_crypto C) v) = Some v"
    and json: "\<And>a wa. map_of as (pt_action p) = Some a \<Longrightarrow>
       Verify (cf_crypto C) a (pt_challenge p) (pk_key pc) (cf_rp C) (cf_origins C) = Inr wa \<Longrightarrow>
       cc_json_envelope K (json_envelope (cf_crypto C) (envelope_of (cf_crypto C) op pc p wa))
         = Some (read_envelope (envelope_of (cf_crypto C) op pc p wa))"
    and laws: "ecdsa_laws (cf_crypto C)" "inj_on (ItemID (cf_crypto C)) (set ids)"
    and browser: "\<And>a. map_of as (pt_action p) = Some a \<Longrightarrow> \<exists>rest. as_client_data_json a = canonical_client_data (pt_challenge p) rest"
  shows "\<exists>c. ParseMessage (cf_crypto C) K m = Inr \<lparr> am_event = pt_action p, am_payload = WarehousePayload c, am_kafka = m \<rparr>
    \<and> (\<forall>U act ca rejected. au_crypto U = cf_crypto C \<longrightarrow> au_db U = s' \<longrightarrow> act \<in> set (AllActions s') \<longrightarrow> aa_id act = pt_action p
         \<longrightarrow> logged U c (pk_org pc) (pk_key pc) ca
         \<longrightarrow> (\<exists>st. stage U (Some act) (Some ca) rejected = Inr st \<and> sg_findings st = [] \<and> sg_status st = StatusApplied
           \<and> sg_details st = CheckOK \<and> sg_items st = CheckOK \<and> sg_signer st = CheckOK \<and> sg_signature st = CheckOK))"
proof -
  let ?X = "cf_crypto C" and ?op = "op\<lparr>op_signer_key_id := 0\<rparr>"
  obtain ms where op: "op_details op = PutawayDetails b ms" "op_type op = TypePutAway" "op_created_by op = u" "\<not> op_submitted op"
    and pp: "placement_part ?X u b ms p" and items: "set (op_items op) = set ids" "distinct (op_items op)"
    using draft_placement [OF draft] p by blast
  have ne: "op_parts op \<noteq> []" using p by auto
  obtain signer pl ps now where sub: "Envelopes ?X ?op signer as (cf_rp C) (cf_origins C) = Inr pl"
    "map pr_id ps = sort (op_items op)" "distinct (map pt_action (op_parts op))"
    "pt_action ` set (op_parts op) \<inter> ob_event ` set (outbox_events s) = {}"
    "outbox_events s' = outbox_events s @ map2 outbox_row (op_parts op) pl"
    "putaways s' = putaways s @ map (putaway_entry E' b u (of_unix_milli ms) (op_parts op)) (enumerate 0 ps)"
    "warehouse_actions s' = sql_update (\<lambda>r. wa_operation r = op_id op) (\<lambda>r. r\<lparr>wa_submitted := Some now\<rparr>) (warehouse_actions s)"
    and "\<forall>pc. List.find (\<lambda>k. pk_credential k = op_signer op) (passkey_credentials s') = Some pc
       \<longrightarrow> pk_user pc = u \<and> pk_key pc = pk_key signer \<and> pk_key_id pc = pk_key_id signer"
    by (rule submitted_placement [OF submit rows op(1,3) ne op(4) keys(1)])
  then have pc': "pk_user pc = u \<and> pk_key pc = pk_key signer \<and> pk_key_id pc = pk_key_id signer"
    using pc by blast
  have part: "envelope_part ?X ?op signer as (cf_rp C) (cf_origins C) p = Inr (ob_payload ob)"
    by (rule queued_payload [OF sub(1) _ _ _ _ ob]) (use sub(3,4,5) p in auto)
  have env: "envelope_of ?X ?op signer p wa = envelope_of ?X op pc p wa" for wa
    by (simp add: envelope_of_def pc')
  have j: "cc_json_envelope K (json_envelope ?X (envelope_of ?X ?op signer p wa)) = Some (read_envelope (envelope_of ?X ?op signer p wa))"
    if "Verify ?X a (pt_challenge p) (pk_key signer) (cf_rp C) (cf_origins C) = Inr wa" "map_of as (pt_action p) = Some a" for a wa
    using json [OF that(2)] that(1) pc' unfolding env by simp
  have ty: "op_type ?op \<in> {TypeReceive, TypePutAway, TypePick, TypeShip}" by (simp add: op)
  obtain a wa where a': "map_of as (pt_action p) = Some a" "Verify ?X a (pt_challenge p) (pk_key signer) (cf_rp C) (cf_origins C) = Inr wa"
    and call': "ParseMessage ?X K m = Inr \<lparr> am_event = pt_action p, am_payload = WarehousePayload
        \<lparr> wx_action = pt_action p, wx_type = op_type ?op, wx_items = map (ItemID ?X) (pt_items p),
          wx_details_hash = pt_details_hash p, wx_key = pk_key_id signer, wx_auth = auth_of wa \<rparr>, am_kafka = m \<rparr>"
    by (rule ParseMessage_part [OF part m uuids j ty])
  have call: "ParseMessage ?X K m = Inr \<lparr> am_event = pt_action p, am_payload = WarehousePayload
        \<lparr> wx_action = pt_action p, wx_type = TypePutAway, wx_items = map (ItemID ?X) (pt_items p),
          wx_details_hash = pt_details_hash p, wx_key = pk_key_id pc, wx_auth = auth_of wa \<rparr>, am_kafka = m \<rparr>"
    using call' pc' by (simp add: op)
  have a: "map_of as (pt_action p) = Some a" "Verify ?X a (pt_challenge p) (pk_key pc) (cf_rp C) (cf_origins C) = Inr wa"
    using a' pc' by simp_all
  obtain rest where canonical: "as_client_data_json a = canonical_client_data (pt_challenge p) rest" using browser [OF a(1)] by blast
  note tuple = verified_tuple [OF laws(1) a(2) canonical] verified_indices [OF a(2) canonical]
  have inj: "inj_on (ItemID ?X) (set (op_items op))" using laws(2) items(1) by simp
  note agree = placed_consistent [OF pp p op(2,3) items(2) inj sub(3) rows keys(2) sub(7,6,2) new pc conjunct1 [OF pc'] tuple]
  show ?thesis
    by (rule exI, rule conjI [OF call], intro allI impI, rule consistent_stage, rule agree)
qed

section \<open>One placement, drafted, signed, logged and audited\<close>

definition audit_crypto :: crypto where
  "audit_crypto = demo_crypto\<lparr>keccak := \<lambda>_. 9\<rparr>"

definition audit_config :: config where
  "audit_config = demo_config\<lparr>cf_crypto := audit_crypto\<rparr>"

definition audit_part :: part where
  "audit_part = \<lparr> pt_action = 101, pt_items = [40], pt_salt = 0, pt_details_hash = 9, pt_challenge = 9 \<rparr>"

definition audit_op :: operation where
  "audit_op = \<lparr> op_id = 100, op_type = TypePutAway, op_created_by = 2, op_signer = [1], op_signer_key_id = pk_key_id demo_passkey,
     op_details = PutawayDetails 60 0, op_parts = [audit_part], op_submitted = False \<rparr>"

definition audit_db :: wms_db where
  "audit_db = demo_place_db\<lparr>warehouse_actions := [], users := [\<lparr> us_id = 2, us_name = ''O'', us_password_hash = [],
     us_role = UserRoleOperator, us_active = True, us_org = Some 3 \<rparr>], organizations := [\<lparr> og_id = 3, og_name = ''N'' \<rparr>]\<rparr>"

definition audit_drafted :: wms_db where
  "audit_drafted = audit_db\<lparr>warehouse_actions := [action_row audit_op (0, audit_part)]\<rparr>"

lemma audit_signer: "passkey_credentials s = [demo_passkey] \<Longrightarrow> ActiveSigner X None 2 s = (Inr demo_passkey, s)"
  by (simp add: ActiveSigner_def get_bind_apply LatestPasskey_def newest_passkey_def live_def tx_simps)
    (simp add: demo_passkey_def tx_simps)

lemma audit_hashes: "Challenge audit_crypto i t h d = 9" "PutAwayDetailsHash audit_crypto salt b u ms = 9" "ItemID audit_crypto v = 9"
  by (simp_all add: Challenge_def PutAwayDetailsHash_def entityDetailsHash_def ItemID_def audit_crypto_def)

lemma audit_new: "NewOperation audit_crypto demo_env TypePutAway 2 demo_passkey (PutawayDetails 60 (unix_milli (truncate_ms 0))) [40]
    (\<lambda>salt _. PutAwayDetailsHash audit_crypto salt 60 2 ms) = audit_op"
proof -
  have "SortByItemID audit_crypto [40] = [40]" by (simp add: SortByItemID_def)
  moreover have "new_parts audit_crypto demo_env TypePutAway (\<lambda>salt _. 9) [40] 0 0 = [audit_part]"
    by (simp add: new_parts_unfold newPart_def audit_hashes audit_part_def MaxItemsPerAction_def Let_def)
  ultimately show ?thesis
    by (simp add: NewOperation_def audit_hashes audit_op_def unix_milli_def truncate_ms_def) (simp add: demo_passkey_def)
qed

lemma audit_insert:
  "warehouse_actions s = [] \<Longrightarrow> InsertOperation audit_op s = (Inr (), s\<lparr>warehouse_actions := [action_row audit_op (0, audit_part)]\<rparr>)"
proof -
  assume w: "warehouse_actions s = []"
  have "op_parts audit_op = [audit_part]" by (simp add: audit_op_def)
  then show ?thesis using w by (cases s) (simp add: InsertOperation_def insert_action_def tx_simps)
qed

lemma audit_draft:
  "DraftPlaceToStorageBin audit_config demo_env 2 [40] 60 audit_db = (Inr audit_op, audit_drafted)"
proof -
  have upper: "upper_trim ''buffer'' = ''BUFFER''" "upper_trim ''A1'' = ''A1''" by code_simp+
  show ?thesis
    by (simp add: DraftPlaceToStorageBin_def audit_db_def demo_place_db_def tx_simps Let_def empty_db_def
      chain_rejected_def putaway_reads sql_row_def storage_bin_def normal_section_def upper demo_signed_def draft_operation_def key_tx_def ops_tx_def
      audit_signer audit_config_def demo_config_def audit_new audit_insert audit_drafted_def)
qed

lemma audit_Verify: "Verify audit_crypto demo_assertion 9 demo_key ''wms'' [''https://wms''] = Inr demo_webauthn"
  using demo_challenge [of 9]
  by (simp add: Verify_def audit_crypto_def demo_crypto_def demo_assertion_def demo_webauthn_def Let_def nth_append
      type_index_canonical challenge_index_canonical fill32_def low_s_def key_on_curve_def
      flag_set_def word32_bytes_zero)

abbreviation audit_loaded :: operation where
  "audit_loaded \<equiv> audit_op\<lparr>op_signer_key_id := 0\<rparr>"

lemma audit_op_simps [simp]: "op_id audit_op = 100" "op_type audit_op = TypePutAway" "op_created_by audit_op = 2" "op_signer audit_op = [1]"
  "op_details audit_op = PutawayDetails 60 0" "op_parts audit_op = [audit_part]" "\<not> op_submitted audit_op" "op_items audit_op = [40]"
  "op_items (audit_op\<lparr>op_signer_key_id := k\<rparr>) = [40]"
  by (simp_all add: audit_op_def op_items_def audit_part_def)

lemma audit_part_simps [simp]: "pt_action audit_part = 101" "pt_items audit_part = [40]" "pt_challenge audit_part = 9" "pt_details_hash audit_part = 9"
  by (simp_all add: audit_part_def)

lemma audit_rows: "warehouse_actions s = [action_row audit_op (0, audit_part)] \<Longrightarrow> drafted_rows audit_op s"
  by (simp add: drafted_rows_def action_row_def)

lemma audit_load: "warehouse_actions s = [action_row audit_op (0, audit_part)] \<Longrightarrow> load_operation 100 s = (Inr (Some audit_loaded), s)"
  using drafted_scan [OF audit_rows, of s "\<lambda>r. wa_operation r = 100"] by (simp add: load_operation_def tx_simps)

lemma audit_lock: "warehouse_actions s = [action_row audit_op (0, audit_part)] \<Longrightarrow> LockOperation 100 2 s = (Inr audit_loaded, s)"
  using drafted_locks [OF audit_rows, of s] by simp

lemma audit_envelopes:
  "Envelopes audit_crypto audit_loaded demo_passkey [(101, demo_assertion)] ''wms'' [''https://wms''] = Inr [''e'']"
proof -
  have "as_credential demo_assertion = [1]" by (simp add: demo_assertion_def)
  moreover have "json_envelope audit_crypto = ed_action_id" by (simp add: audit_crypto_def demo_crypto_def)
  moreover have "uuid_string audit_crypto 101 = ''e''" by (simp add: audit_crypto_def demo_crypto_def) code_simp
  moreover have "pk_credential demo_passkey = [1]" "pk_key demo_passkey = demo_key" by (simp_all add: demo_passkey_def)
  ultimately show ?thesis
    by (simp add: Envelopes_def envelope_part_def audit_Verify envelope_of_def)
qed

lemma audit_loads:
  "warehouse_actions s = [action_row audit_op (0, audit_part)] \<Longrightarrow> passkey_credentials s = [demo_passkey] \<Longrightarrow>
   load_submission audit_config TypePutAway 2 100 [(101, demo_assertion)] s = (Inr (audit_loaded, [''e'']), s)"
  by (simp add: load_submission_def tx_simps ops_tx_def key_tx_def audit_load audit_signer audit_config_def demo_config_def audit_envelopes)
    (simp add: demo_passkey_def)

definition audit_placed :: wms_db where
  "audit_placed = audit_drafted
     \<lparr> products := map (stored_in 60) (products audit_drafted),
       putaways := [\<lparr> pw_event = 100, pw_product = 40, pw_from_bin = 50, pw_bin = 60, pw_operator = 2, pw_occurred = 0, pw_action = Some 101 \<rparr>],
       warehouse_actions := [(action_row audit_op (0, audit_part))\<lparr>wa_submitted := Some 0\<rparr>],
       outbox_events := [outbox_row audit_part ''e''] \<rparr>"

lemma audit_write: "warehouse_actions s = [action_row audit_op (0, audit_part)] \<Longrightarrow> outbox_events s = [] \<Longrightarrow>
   WriteActions 0 audit_loaded [''e''] s = (Inr (), s\<lparr>warehouse_actions := [(action_row audit_op (0, audit_part))\<lparr>wa_submitted := Some 0\<rparr>],
       outbox_events := [outbox_row audit_part ''e'']\<rparr>)"
  by (cases s) (simp add: WriteActions_def tx_simps sql_update_def action_row_def)

lemma audit_submit:
  "\<exists>r. SubmitPlaceToStorageBin audit_config demo_env 2 100 [(101, demo_assertion)] audit_drafted = (Inr r, audit_placed)"
proof -
  have upper: "upper_trim ''buffer'' = ''BUFFER''" "upper_trim ''A1'' = ''A1''" by code_simp+
  show ?thesis
    by (simp add: SubmitPlaceToStorageBin_def place_locked_def audit_drafted_def audit_db_def demo_place_db_def demo_signed_def audit_loads tx_simps ops_tx_def Let_def empty_db_def
      chain_rejected_def putaway_reads sql_row_def storage_bin_def normal_section_def upper audit_lock
      demo_signer InsertPutaway_def UpdateProductStorage_def audit_write place_product_def audit_placed_def sql_update_def stored_in_def partByProduct_def of_unix_milli_def)
qed

text \<open>The message of the part, the contract's logs of its call and the audit over them.\<close>

definition audit_message :: kafka_message where
  "audit_message = \<lparr> km_topic = ''t'', km_partition = 0, km_offset = 0, km_key = ''e'', km_value = ''e'',
     km_headers = [(''id'', ''e''), (''aggregate_type'', ''signed_action'')] \<rparr>"

definition audit_codec :: codec where
  "audit_codec = \<lparr> cc_uuid = (\<lambda>s. case s of [c] \<Rightarrow> Some (of_char c) | _ \<Rightarrow> None), cc_json_string = Some,
     cc_json_envelope = (\<lambda>_. Some (read_envelope (envelope_of audit_crypto audit_op demo_passkey audit_part demo_webauthn))) \<rparr>"

definition audit_applied :: "chain_warehouse_action \<Rightarrow> ChainAction" where
  "audit_applied c = \<lparr> ca_id = wx_action c, ca_key = wx_key c, ca_org = 3, ca_type = wx_type c, ca_details = wx_details_hash c,
     ca_count = length (wx_items c), ca_block = 8, ca_time = 5, ca_tx = 6 \<rparr>"

definition audit_chain :: "chain_warehouse_action \<Rightarrow> node" where
  "audit_chain c = \<lparr>
     nd_filter = (\<lambda>topics. if hd topics = [1] then Inr (map (\<lambda>it. \<lparr> al_topics = [1, it, uuid_topic (wx_action c)], al_data = [], al_block = 8, al_tx = 6 \<rparr>) (wx_items c))
        else if hd topics = [2] then Inr [\<lparr> al_topics = [2, uuid_topic (wx_action c), wx_key c, uuid_topic 3], al_data = [], al_block = 8, al_tx = 6 \<rparr>]
        else Inr []),
     nd_time = (\<lambda>_. Inr 5), nd_call_key = (\<lambda>_. Inr [1]), nd_tx = (\<lambda>_. Inr [1, 2, 3, 4]) \<rparr>"

definition audit_coder :: "chain_warehouse_action \<Rightarrow> audit_abi" where
  "audit_coder c = \<lparr> ua_item_moved = 1, ua_applied = 2, ua_rejected = 3,
     ua_unpack_applied = (\<lambda>_. Some (wx_type c, wx_details_hash c, length (wx_items c))), ua_unpack_rejected = (\<lambda>_. None),
     ua_unpack_key = (\<lambda>_. Some \<lparr> ak_point = demo_key, ak_org = 3, ak_role = 1, ak_active = True \<rparr>),
     ua_selector = [1, 2, 3, 4], ua_unpack_actions = (\<lambda>_. Some [c]) \<rparr>"

definition audit_auditor :: "chain_warehouse_action \<Rightarrow> auditor" where
  "audit_auditor c = \<lparr> au_crypto = audit_crypto, au_db = audit_placed, au_node = audit_chain c, au_abi = audit_coder c, au_now = 0 \<rparr>"

definition audit_entry :: audit_action where
  "audit_entry = \<lparr> aa_id = 101, aa_operation = 100, aa_part = 0, aa_type = TypePutAway, aa_items = [40], aa_salt = 0, aa_submitted = 0,
     aa_operator = 2, aa_name = ''O'', aa_org = 3, aa_org_name = ''N'', aa_key = 4, aa_owner = 2, aa_status = None, aa_reject = None \<rparr>"

lemma audit_tables: "warehouse_actions audit_placed = [(action_row audit_op (0, audit_part))\<lparr>wa_submitted := Some 0\<rparr>]"
  "passkey_credentials audit_placed = [demo_passkey]" "outbox_events audit_placed = [outbox_row audit_part ''e'']"
  "warehouse_actions audit_drafted = [action_row audit_op (0, audit_part)]" "passkey_credentials audit_drafted = [demo_passkey]"
  "putaways audit_drafted = []" "pk_credential demo_passkey = [1]" "pk_org demo_passkey = 3" "pk_key demo_passkey = demo_key"
  by (simp_all add: audit_placed_def audit_drafted_def audit_db_def demo_place_db_def demo_signed_def empty_db_def demo_passkey_def)

lemma audit_actions: "AllActions audit_placed = [audit_entry]"
proof -
  have "users audit_placed = [\<lparr> us_id = 2, us_name = ''O'', us_password_hash = [], us_role = UserRoleOperator, us_active = True, us_org = Some 3 \<rparr>]"
    "organizations audit_placed = [\<lparr> og_id = 3, og_name = ''N'' \<rparr>]" "onchain_events audit_placed = []"
    by (simp_all add: audit_placed_def audit_drafted_def audit_db_def demo_place_db_def demo_signed_def empty_db_def)
  then show ?thesis
    by (simp add: AllActions_def scanActions_def actionSelect_def audit_tables action_row_def map_filter_simps audit_entry_def)
      (simp add: demo_passkey_def audit_part_def)
qed

lemma audit_logged: "logged (audit_auditor c) c 3 demo_key (audit_applied c)"
  by (simp add: logged_def audit_auditor_def audit_applied_def ItemsOfAction_def filterLogs_def audit_chain_def audit_coder_def KeyOf_def
      List.map_filter_def comp_def)

lemma audit_uuid: "uuid_string audit_crypto 101 = ''e''"
  by (simp add: audit_crypto_def demo_crypto_def) code_simp

theorem placement_audits_clean_witness:
  "\<exists>r c st. SubmitPlaceToStorageBin audit_config demo_env 2 100 [(101, demo_assertion)] audit_drafted = (Inr r, audit_placed)
     \<and> ParseMessage audit_crypto audit_codec audit_message = Inr \<lparr> am_event = 101, am_payload = WarehousePayload c, am_kafka = audit_message \<rparr>
     \<and> stage (audit_auditor c) (Some audit_entry) (Some (audit_applied c)) None = Inr st \<and> sg_findings st = [] \<and> sg_signature st = CheckOK"
proof -
  obtain r where run: "SubmitPlaceToStorageBin audit_config demo_env 2 (op_id audit_op) [(101, demo_assertion)] audit_drafted = (Inr r, audit_placed)"
    using audit_submit by auto
  have X: "cf_crypto audit_config = audit_crypto" "cf_rp audit_config = ''wms''" "cf_origins audit_config = [''https://wms'']"
    by (simp_all add: audit_config_def demo_config_def)
  have keys: "pk_wf audit_drafted" "distinct (map wa_id (warehouse_actions audit_drafted))"
    by (simp_all add: pk_wf_def audit_tables)
  have pc: "List.find (\<lambda>k. pk_credential k = op_signer audit_op) (passkey_credentials audit_placed) = Some demo_passkey"
    by (simp add: audit_tables)
  have ob: "outbox_row audit_part ''e'' \<in> set (outbox_events audit_placed)" "ob_event (outbox_row audit_part ''e'') = pt_action audit_part"
    by (simp_all add: audit_tables outbox_row_def)
  have m: "carries (cf_crypto audit_config) audit_codec (pt_action audit_part) (ob_payload (outbox_row audit_part ''e'')) audit_message"
    unfolding X by (simp add: carries_def audit_message_def audit_codec_def headerValue_def aggregateSignedAction_def outbox_row_def audit_uuid)
  have u: "cc_uuid audit_codec (uuid_string (cf_crypto audit_config) v) = Some v" if "v \<in> set (pt_items audit_part)" for v
  proof -
    have "of_char (char_of (40 :: nat)) = (40 :: uuid)" by code_simp
    then show ?thesis using that unfolding X by (simp add: audit_codec_def audit_crypto_def demo_crypto_def)
  qed
  have as: "a = demo_assertion" if "map_of [(101, demo_assertion)] (pt_action audit_part) = Some a" for a
    using that by simp
  have json: "cc_json_envelope audit_codec (json_envelope (cf_crypto audit_config) (envelope_of (cf_crypto audit_config) audit_op demo_passkey audit_part wa))
      = Some (read_envelope (envelope_of (cf_crypto audit_config) audit_op demo_passkey audit_part wa))"
    if "map_of [(101, demo_assertion)] (pt_action audit_part) = Some a"
      "Verify (cf_crypto audit_config) a (pt_challenge audit_part) (pk_key demo_passkey) (cf_rp audit_config) (cf_origins audit_config) = Inr wa" for a wa
  proof -
    have "wa = demo_webauthn" using that(2) audit_Verify unfolding as [OF that(1)] X by (simp add: audit_tables)
    then show ?thesis unfolding X by (simp add: audit_codec_def)
  qed
  have laws: "ecdsa_laws (cf_crypto audit_config)" unfolding X by (auto simp: audit_crypto_def demo_crypto_def ecdsa_laws_def)
  have browser: "\<exists>rest. as_client_data_json a = canonical_client_data (pt_challenge audit_part) rest"
    if "map_of [(101, demo_assertion)] (pt_action audit_part) = Some a" for a
    unfolding as [OF that] by (auto simp: demo_assertion_def)
  have inj: "inj_on (ItemID (cf_crypto audit_config)) (set [40])" "audit_part \<in> set (op_parts audit_op)"
    "\<forall>w\<in>set (putaways audit_drafted). pw_action w \<noteq> Some (pt_action audit_part)"
    by (simp_all add: audit_tables)
  have "\<exists>c. ParseMessage (cf_crypto audit_config) audit_codec audit_message = Inr \<lparr> am_event = pt_action audit_part, am_payload = WarehousePayload c, am_kafka = audit_message \<rparr>
    \<and> (\<forall>U act ca rejected. au_crypto U = cf_crypto audit_config \<longrightarrow> au_db U = audit_placed \<longrightarrow> act \<in> set (AllActions audit_placed) \<longrightarrow> aa_id act = pt_action audit_part
         \<longrightarrow> logged U c (pk_org demo_passkey) (pk_key demo_passkey) ca
         \<longrightarrow> (\<exists>st. stage U (Some act) (Some ca) rejected = Inr st \<and> sg_findings st = [] \<and> sg_status st = StatusApplied
           \<and> sg_details st = CheckOK \<and> sg_items st = CheckOK \<and> sg_signer st = CheckOK \<and> sg_signature st = CheckOK))"
    by (rule placement_audits_clean [OF audit_draft audit_rows [OF audit_tables(4)] run keys inj(2,3) pc ob m _ _ laws inj(1)])
      (erule u, erule (1) json, erule browser)
  then obtain c where c: "ParseMessage audit_crypto audit_codec audit_message = Inr \<lparr> am_event = 101, am_payload = WarehousePayload c, am_kafka = audit_message \<rparr>"
    and clean: "\<forall>U act ca rejected. au_crypto U = audit_crypto \<longrightarrow> au_db U = audit_placed \<longrightarrow> act \<in> set (AllActions audit_placed) \<longrightarrow> aa_id act = 101
         \<longrightarrow> logged U c 3 demo_key ca
         \<longrightarrow> (\<exists>st. stage U (Some act) (Some ca) rejected = Inr st \<and> sg_findings st = [] \<and> sg_status st = StatusApplied
           \<and> sg_details st = CheckOK \<and> sg_items st = CheckOK \<and> sg_signer st = CheckOK \<and> sg_signature st = CheckOK)"
    unfolding X audit_tables audit_part_simps by (elim exE conjE)
  have "\<exists>st. stage (audit_auditor c) (Some audit_entry) (Some (audit_applied c)) None = Inr st \<and> sg_findings st = [] \<and> sg_signature st = CheckOK"
    using clean [rule_format, OF _ _ _ _ audit_logged, of audit_entry None] by (auto simp: audit_auditor_def audit_actions audit_entry_def)
  then show ?thesis using run c by auto
qed

definition audit_call :: chain_warehouse_action where
  "audit_call = \<lparr> wx_action = 101, wx_type = TypePutAway, wx_items = [9], wx_details_hash = 9, wx_key = 4, wx_auth = auth_of demo_webauthn \<rparr>"

lemma audit_consistent: "consistent (audit_auditor audit_call) audit_entry (audit_applied audit_call)"
proof -
  have c: "wx_action audit_call = 101" "wx_auth audit_call = auth_of demo_webauthn" "wx_items audit_call = [9]" "wx_type audit_call = TypePutAway"
    "wx_details_hash audit_call = 9" "wx_key audit_call = 4" by (simp_all add: audit_call_def)
  have i: "wn_challenge_index demo_webauthn = 23" "wn_type_index demo_webauthn = 1" by (simp_all add: demo_webauthn_def)
  have laws: "ecdsa_laws audit_crypto" by (auto simp: audit_crypto_def demo_crypto_def ecdsa_laws_def)
  have "as_client_data_json demo_assertion = canonical_client_data 9 '',''" by (simp add: demo_assertion_def)
  note v = verified_tuple [OF laws audit_Verify this]
  obtain auth where auth: "AuthOf (audit_chain audit_call) (audit_coder audit_call) 6 101 = Inr auth" "oa_items auth = [9]" "oa_webauthn auth = demo_webauthn"
    using logged_auth [OF audit_logged c(2) i] by (auto simp: c audit_auditor_def audit_applied_def)
  have pw: "putaways audit_placed = [\<lparr> pw_event = 100, pw_product = 40, pw_from_bin = 50, pw_bin = 60, pw_operator = 2, pw_occurred = 0, pw_action = Some 101 \<rparr>]"
    by (simp add: audit_placed_def)
  have types: "TypePutAway \<noteq> TypeReceive" by (simp add: action_types)
  show ?thesis
    using types v auth audit_logged [of audit_call]
    by (simp add: consistent_def audit_auditor_def audit_applied_def audit_entry_def c DetailsOf_def putAwayDetails_def pw exactly_one_def
        DetailsHash_def no_details_def audit_hashes DomainItems_def logged_def itemsHashWords_def)
      (metis)
qed

lemma topic_uuid_topic [simp]: "topic_uuid (uuid_topic i) = i"
  by (rule bit_word_eqI) (simp add: topic_uuid_def uuid_topic_def bit_simps)

theorem AuditAll_clean_witness:
  "AuditAll (audit_auditor audit_call) = Inr []
     \<and> acceptable (audit_auditor audit_call) (Some audit_entry) (Some (audit_applied audit_call)) None"
proof -
  let ?U = "audit_auditor audit_call"
  have U: "AllActions (au_db ?U) = [audit_entry]" "aa_id audit_entry = 101" "warehouse_actions (au_db ?U) = [(action_row audit_op (0, audit_part))\<lparr>wa_submitted := Some 0\<rparr>]"
    by (simp_all add: audit_auditor_def audit_actions audit_tables) (simp add: audit_entry_def)
  have ap: "Applied (au_node ?U) (au_abi ?U) [] = Inr [(101, audit_applied audit_call)]"
    by (simp add: Applied_def filterLogs_def audit_auditor_def audit_chain_def audit_coder_def audit_applied_def topic_uuid_topic Let_def)
      (simp add: audit_call_def)
  have rj: "Rejected (au_node ?U) (au_abi ?U) [101] = Inr []"
    by (simp add: Rejected_def filterLogs_def audit_auditor_def audit_chain_def audit_coder_def)
  obtain st where st: "stage ?U (Some audit_entry) (Some (audit_applied audit_call)) None = Inr st" "sg_findings st = []"
    using consistent_stage [OF audit_consistent] by blast
  have run: "AuditAll ?U = Inr []"
    by (simp add: AuditAll_def U ap rj union_ids_def dedup_distinct chain_only_def db_by_def st Let_def)
  then have "\<forall>a\<in>set (AllActions (au_db ?U)). acceptable ?U (Some a) (map_of [(101, audit_applied audit_call)] (aa_id a)) (map_of [] (aa_id a))"
    using AuditAll_clean [OF run] ap rj by (auto simp: U)
  then show ?thesis using run by (simp add: U)
qed
end
