(* ===== verification/Auth.thy ===== *)
theory Auth
  imports Passkeys
begin

text \<open>
  \<^verbatim>\<open>wms/internal/auth\<close>: login, token refresh and registration (\<^verbatim>\<open>service.go\<close>,
  \<^verbatim>\<open>repository.go\<close>), the middleware that turns a bearer token into an identity, and the
  identity's place in the request (\<^verbatim>\<open>handler.go\<close>, \<^verbatim>\<open>context.go\<close>). The JWT and bcrypt libraries are the
  parameter record \<open>auth_lib\<close>.
\<close>

datatype auth_err =
    ErrInvalidCredentials | ErrInvalidToken | AuthForbidden | AuthInvalidInput | ErrUserExists
  | AuthNoRows | BadUserID | HashFailed | SignFailed

text \<open>The claims; the two dates are whole seconds.\<close>

record tokenClaims =
  cl_user :: string
  cl_role :: string
  cl_type :: string
  cl_issued :: int
  cl_expires :: int

text \<open>
  \<open>jwt_parse secret now token\<close>: the claims of a token that carries a valid HS256 signature and
  has not expired. \<open>bcrypt_hash\<close> takes its random salt.
\<close>

record auth_lib =
  jwt_sign :: "bytes \<Rightarrow> tokenClaims \<Rightarrow> string option"
  jwt_parse :: "bytes \<Rightarrow> timestamp \<Rightarrow> string \<Rightarrow> tokenClaims option"
  bcrypt_hash :: "bytes32 \<Rightarrow> string \<Rightarrow> string option"
  bcrypt_compare :: "string \<Rightarrow> string \<Rightarrow> bool"
  parse_uuid :: "string \<Rightarrow> uuid option"

record TokenPair =
  tp_access :: string
  tp_refresh :: string

record auth_service =
  ah_lib :: auth_lib
  ah_crypto :: crypto
  ah_secret :: bytes
  ah_access_ttl :: int
  ah_refresh_ttl :: int

type_synonym 'a auth_tx = "(wms_db, auth_err, 'a) tx"

section \<open>The store\<close>

definition GetUserByUsername :: "string \<Rightarrow> user auth_tx" where
  "GetUserByUsername username = tx_query (\<lambda>s. sql_row AuthNoRows (\<lambda>u. us_name u = username) (users s))"

definition GetUserByID :: "uuid \<Rightarrow> user auth_tx" where
  "GetUserByID i = tx_query (\<lambda>s. sql_row AuthNoRows (\<lambda>u. us_id u = i) (users s))"

text \<open>Two unique keys, the id and the name; either clash is \<^verbatim>\<open>ErrUserExists\<close>.\<close>

definition CreateUser :: "user \<Rightarrow> unit auth_tx" where
  "CreateUser u = (\<lambda>s.
     if us_name u \<in> us_name ` set (users s) then (Inl ErrUserExists, s)
     else sql_insert users users_update us_id ErrUserExists u s)"

section \<open>Tokens\<close>

definition tokenTypeAccess :: string where "tokenTypeAccess = ''access''"
definition tokenTypeRefresh :: string where "tokenTypeRefresh = ''refresh''"

definition parseToken :: "auth_service \<Rightarrow> timestamp \<Rightarrow> string \<Rightarrow> string \<Rightarrow> auth_err + tokenClaims" where
  "parseToken S now tokenString expectedType =
     (case jwt_parse (ah_lib S) (ah_secret S) now tokenString of None \<Rightarrow> Inl ErrInvalidToken
      | Some claims \<Rightarrow> if cl_type claims \<noteq> expectedType then Inl ErrInvalidToken else Inr claims)"

text \<open>\<^verbatim>\<open>jwt.NewNumericDate\<close> cuts a time to whole seconds.\<close>

definition numeric_date :: "timestamp \<Rightarrow> int" where
  "numeric_date t = t div 1000000000"

definition sign :: "auth_service \<Rightarrow> tokenClaims \<Rightarrow> auth_err + string" where
  "sign S claims = (case jwt_sign (ah_lib S) (ah_secret S) claims of None \<Rightarrow> Inl SignFailed | Some t \<Rightarrow> Inr t)"

definition generateAccessToken :: "auth_service \<Rightarrow> timestamp \<Rightarrow> uuid \<Rightarrow> user_role \<Rightarrow> auth_err + string" where
  "generateAccessToken S now userID role = sign S
     \<lparr> cl_user = uuid_string (ah_crypto S) userID, cl_role = role_name role, cl_type = tokenTypeAccess,
       cl_issued = numeric_date now, cl_expires = numeric_date (now + ah_access_ttl S) \<rparr>"

definition generateRefreshToken :: "auth_service \<Rightarrow> timestamp \<Rightarrow> uuid \<Rightarrow> auth_err + string" where
  "generateRefreshToken S now userID = sign S
     \<lparr> cl_user = uuid_string (ah_crypto S) userID, cl_role = [], cl_type = tokenTypeRefresh,
       cl_issued = numeric_date now, cl_expires = numeric_date (now + ah_refresh_ttl S) \<rparr>"

text \<open>The readings of the clock follow the one the call itself has made, if any.\<close>

definition generateTokenPair :: "auth_service \<Rightarrow> call_env \<Rightarrow> nat \<Rightarrow> user \<Rightarrow> TokenPair auth_tx" where
  "generateTokenPair S E k u =
     tx_bind (tx_lift (generateAccessToken S (clock E k) (us_id u) (us_role u))) (\<lambda>a.
     tx_bind (tx_lift (generateRefreshToken S (clock E (k + 1)) (us_id u))) (\<lambda>r.
     tx_return \<lparr> tp_access = a, tp_refresh = r \<rparr>))"

section \<open>The service\<close>

definition or_none :: "auth_err \<Rightarrow> 'a auth_tx \<Rightarrow> 'a auth_tx" where
  "or_none f m = tx_handle m (\<lambda>e. tx_fail (if e = AuthNoRows then f else e))"

definition Login :: "auth_service \<Rightarrow> call_env \<Rightarrow> string \<Rightarrow> string \<Rightarrow> TokenPair auth_tx" where
  "Login S E username password =
     tx_seq (tx_check (username \<noteq> [] \<and> password \<noteq> []) ErrInvalidCredentials)
    (tx_bind (or_none ErrInvalidCredentials (GetUserByUsername username)) (\<lambda>u.
     tx_seq (tx_check (us_active u) ErrInvalidCredentials)
    (tx_seq (tx_check (bcrypt_compare (ah_lib S) (us_password_hash u) password) ErrInvalidCredentials)
      (generateTokenPair S E 0 u))))"

definition Refresh :: "auth_service \<Rightarrow> call_env \<Rightarrow> string \<Rightarrow> TokenPair auth_tx" where
  "Refresh S E refreshToken =
     tx_bind (tx_lift (parseToken S (clock E 0) refreshToken tokenTypeRefresh)) (\<lambda>claims.
     case parse_uuid (ah_lib S) (cl_user claims) of None \<Rightarrow> tx_fail BadUserID
     | Some userID \<Rightarrow>
         tx_bind (or_none ErrInvalidToken (GetUserByID userID)) (\<lambda>u.
         tx_seq (tx_check (us_active u) ErrInvalidToken)
           (generateTokenPair S E 1 u)))"

definition isValidPasswordLength :: "string \<Rightarrow> bool" where
  "isValidPasswordLength password \<longleftrightarrow> 6 \<le> length password \<and> length password \<le> 72"

text \<open>The role of the request is text; a valid one names a role.\<close>

definition isValidRole :: "string \<Rightarrow> user_role option" where
  "isValidRole role = List.find (\<lambda>r. role_name r = role) [UserRoleAdmin, UserRoleOperator, UserRoleCustomer, UserRoleAuditor]"

definition Register :: "auth_service \<Rightarrow> call_env \<Rightarrow> uuid \<Rightarrow> string \<Rightarrow> string \<Rightarrow> string \<Rightarrow> string \<Rightarrow> user auth_tx" where
  "Register S E actorID actorRole username password role =
     tx_seq (tx_check (actorID \<noteq> uuid_Nil \<and> actorRole = role_name UserRoleAdmin) AuthForbidden)
    (tx_bind (or_none AuthForbidden (GetUserByID actorID)) (\<lambda>actor.
     tx_seq (tx_check (us_active actor \<and> us_role actor = UserRoleAdmin) AuthForbidden)
    (tx_seq (tx_check (username \<noteq> [] \<and> isValidPasswordLength password \<and> isValidRole role \<noteq> None) AuthInvalidInput)
    (case bcrypt_hash (ah_lib S) (random E 0) password of None \<Rightarrow> tx_fail HashFailed
     | Some passwordHash \<Rightarrow>
        (let u = \<lparr> us_id = fresh E 0, us_name = username, us_password_hash = passwordHash,
               us_role = the (isValidRole role), us_active = True, us_org = None \<rparr>
         in tx_seq (CreateUser u) (tx_return u))))))"

section \<open>Requests\<close>

text \<open>\<^verbatim>\<open>SplitN(header, " ", 2)\<close> with exactly two parts.\<close>

definition extractBearerToken :: "string \<Rightarrow> string option" where
  "extractBearerToken header =
     (let scheme = takeWhile (\<lambda>c. c \<noteq> CHR '' '') header; rest = dropWhile (\<lambda>c. c \<noteq> CHR '' '') header
      in if header = [] \<or> rest = [] \<or> scheme \<noteq> ''Bearer'' \<or> tl rest = [] then None else Some (tl rest))"

type_synonym identity = "(uuid \<times> string) option"

text \<open>\<open>None\<close> is a request that is answered with 401.\<close>

definition Middleware :: "auth_service \<Rightarrow> timestamp \<Rightarrow> string \<Rightarrow> identity" where
  "Middleware S now header =
     (case extractBearerToken header of None \<Rightarrow> None
      | Some tokenString \<Rightarrow> (case parseToken S now tokenString tokenTypeAccess of Inl e \<Rightarrow> None
        | Inr claims \<Rightarrow> (case parse_uuid (ah_lib S) (cl_user claims) of None \<Rightarrow> None
          | Some userID \<Rightarrow> Some (userID, cl_role claims))))"

definition UserIDFromCtx :: "identity \<Rightarrow> uuid" where
  "UserIDFromCtx ctx = (case ctx of None \<Rightarrow> uuid_Nil | Some (i, r) \<Rightarrow> i)"

definition UserRoleFromCtx :: "identity \<Rightarrow> string" where
  "UserRoleFromCtx ctx = (case ctx of None \<Rightarrow> [] | Some (i, r) \<Rightarrow> r)"

end
