(* ===== verification/Http.thy ===== *)
theory Http
  imports Auth
begin

text \<open>
  What the endpoints share: the reply (\<^verbatim>\<open>platform/httputil/response.go\<close>), the role gates
  (\<^verbatim>\<open>authz.go\<close>), and the shape of a handler (gate, decode, call the service, answer). The endpoints of
  \<^verbatim>\<open>auth\<close> are the first instances. A body that does not decode, or a field that is not a UUID, is
  \<open>None\<close>; the texts of messages are left out.
\<close>

section \<open>Replies\<close>

text \<open>The status, and the error code or the data of the envelope.\<close>

type_synonym 'a reply = "nat \<times> (string + 'a)"
type_synonym ('s, 'a) handler = "'s \<Rightarrow> 'a reply \<times> 's"
type_synonym 'a endpoint = "(wms_db, 'a) handler"

definition WriteError :: "nat \<Rightarrow> string \<Rightarrow> 'a reply" where
  "WriteError status code = (status, Inl code)"

definition WriteJSON :: "nat \<Rightarrow> 'a \<Rightarrow> 'a reply" where
  "WriteJSON status data = (status, Inr data)"

section \<open>Gates\<close>

definition requireRole :: "identity \<Rightarrow> user_role list \<Rightarrow> (nat \<times> string) + uuid" where
  "requireRole ctx allowed =
     (if UserIDFromCtx ctx = uuid_Nil then Inl (401, ''UNAUTHORIZED'')
      else if UserRoleFromCtx ctx \<in> set (map role_name allowed) then Inr (UserIDFromCtx ctx)
      else Inl (403, ''FORBIDDEN''))"

definition RequireOperator :: "identity \<Rightarrow> (nat \<times> string) + uuid" where
  "RequireOperator ctx = requireRole ctx [UserRoleOperator]"

definition RequireAdmin :: "identity \<Rightarrow> (nat \<times> string) + uuid" where
  "RequireAdmin ctx = requireRole ctx [UserRoleAdmin]"

definition RequireAdminOrOperator :: "identity \<Rightarrow> (nat \<times> string) + uuid" where
  "RequireAdminOrOperator ctx = requireRole ctx [UserRoleAdmin, UserRoleOperator]"

definition RequireAuditorOrAdmin :: "identity \<Rightarrow> (nat \<times> string) + uuid" where
  "RequireAuditorOrAdmin ctx = requireRole ctx [UserRoleAuditor, UserRoleAdmin]"

text \<open>Every route but login, refresh and health runs behind the middleware.\<close>

definition authenticated :: "auth_service \<Rightarrow> timestamp \<Rightarrow> string \<Rightarrow> (identity \<Rightarrow> ('s, 'a) handler) \<Rightarrow> ('s, 'a) handler" where
  "authenticated S now header k s =
     (case Middleware S now header of None \<Rightarrow> (WriteError 401 ''unauthorized'', s) | Some i \<Rightarrow> k (Some i) s)"

section \<open>Handlers\<close>

definition gated :: "(nat \<times> string) + uuid \<Rightarrow> (uuid \<Rightarrow> ('s, 'a) handler) \<Rightarrow> ('s, 'a) handler" where
  "gated gate k s = (case gate of Inl (status, code) \<Rightarrow> (WriteError status code, s) | Inr userID \<Rightarrow> k userID s)"

definition decoded :: "'r option \<Rightarrow> ('r \<Rightarrow> ('s, 'a) handler) \<Rightarrow> ('s, 'a) handler" where
  "decoded d k s = (case d of None \<Rightarrow> (WriteError 400 ''INVALID_REQUEST'', s) | Some x \<Rightarrow> k x s)"

definition answer_with :: "nat \<Rightarrow> ('e \<Rightarrow> nat \<times> string) \<Rightarrow> ('a \<Rightarrow> 'b) \<Rightarrow> ('s, 'e, 'a) tx \<Rightarrow> ('s, 'b) handler" where
  "answer_with success mapError view m s =
     (case m s of (Inl e, s') \<Rightarrow> (case mapError e of (status, code) \<Rightarrow> (WriteError status code, s'))
      | (Inr a, s') \<Rightarrow> (WriteJSON success (view a), s'))"

definition answer :: "('e \<Rightarrow> nat \<times> string) \<Rightarrow> ('a \<Rightarrow> 'b) \<Rightarrow> ('s, 'e, 'a) tx \<Rightarrow> ('s, 'b) handler" where
  "answer mapError view m = answer_with 200 mapError view m"

definition internal_error :: "nat \<times> string" where
  "internal_error = (500, ''INTERNAL_ERROR'')"

section \<open>The endpoints of \<^verbatim>\<open>auth\<close>\<close>

text \<open>These write plain text; its code stands for the text.\<close>

definition Login_http :: "auth_service \<Rightarrow> call_env \<Rightarrow> (string \<times> string) option \<Rightarrow> TokenPair endpoint" where
  "Login_http S E req = decoded req (\<lambda>(username, password).
     answer (\<lambda>e. if e = ErrInvalidCredentials then (401, ''unauthorized'') else internal_error) (\<lambda>pair. pair)
       (Login S E username password))"

definition Refresh_http :: "auth_service \<Rightarrow> call_env \<Rightarrow> string option \<Rightarrow> TokenPair endpoint" where
  "Refresh_http S E req = decoded req (\<lambda>refreshToken.
     answer (\<lambda>e. if e = ErrInvalidToken then (401, ''unauthorized'') else internal_error) (\<lambda>pair. pair)
       (Refresh S E refreshToken))"

definition register_error :: "auth_err \<Rightarrow> nat \<times> string" where
  "register_error e =
     (if e = AuthForbidden then (403, ''forbidden'') else if e = ErrUserExists then (409, ''user already exists'')
      else if e = AuthInvalidInput then (400, ''INVALID_REQUEST'') else internal_error)"

definition Register_http ::
  "auth_service \<Rightarrow> call_env \<Rightarrow> identity \<Rightarrow> (string \<times> string \<times> string) option \<Rightarrow> (uuid \<times> string) endpoint" where
  "Register_http S E ctx req = decoded req (\<lambda>(username, password, role).
     answer_with 201 register_error (\<lambda>u. (us_id u, us_name u))
       (Register S E (UserIDFromCtx ctx) (UserRoleFromCtx ctx) username password role))"

section \<open>What a handler can do\<close>

lemma gated_refused: "gated (Inl e) k s = (WriteError (fst e) (snd e), s)"
  by (simp add: gated_def case_prod_unfold)

lemma gated_passed: "gated (Inr u) k s = k u s"
  by (simp add: gated_def)

lemma requireRole_ok:
  "requireRole ctx allowed = Inr u \<longleftrightarrow> u \<noteq> uuid_Nil \<and> (\<exists>r\<in>set allowed. ctx = Some (u, role_name r))"
  by (auto simp: requireRole_def UserIDFromCtx_def UserRoleFromCtx_def split: option.splits prod.splits)

end
