(* ===== verification/Calendar.thy ===== *)
theory Calendar
  imports Prelude
begin

text \<open>
  What the code uses of Go's \<^verbatim>\<open>time\<close>, \<^verbatim>\<open>fmt\<close> and \<^verbatim>\<open>strconv\<close> to print dates and padded numbers and to
  read numbers. A day is the number of days since 1970-01-01; times before it do not occur. Printing is
  one-to-one.
\<close>

section \<open>Days, years and months\<close>

definition day_ns :: int where
  "day_ns = 86400000000000"

text \<open>The day of a time on a clock that shows \<open>zone\<close> nanoseconds more than UTC.\<close>

definition day_in :: "int \<Rightarrow> timestamp \<Rightarrow> nat" where
  "day_in zone t = nat ((t + zone) div day_ns)"

definition leap :: "nat \<Rightarrow> bool" where
  "leap y \<longleftrightarrow> y mod 4 = 0 \<and> (y mod 100 \<noteq> 0 \<or> y mod 400 = 0)"

definition days_in_year :: "nat \<Rightarrow> nat" where
  "days_in_year y = (if leap y then 366 else 365)"

definition month_lengths :: "nat \<Rightarrow> nat list" where
  "month_lengths y = [31, if leap y then 29 else 28, 31, 30, 31, 30, 31, 31, 30, 31, 30, 31]"

function year_from :: "nat \<Rightarrow> nat \<Rightarrow> nat \<times> nat" where
  "year_from y d = (if d < days_in_year y then (y, d) else year_from (y + 1) (d - days_in_year y))"
  by pat_completeness auto
termination
  by (relation "measure snd") (auto simp: days_in_year_def)

declare year_from.simps [simp del]

fun month_from :: "nat \<Rightarrow> nat list \<Rightarrow> nat \<Rightarrow> nat \<times> nat" where
  "month_from m [] d = (m, d + 1)"
| "month_from m (l # ls) d = (if d < l then (m, d + 1) else month_from (m + 1) ls (d - l))"

definition civil :: "nat \<Rightarrow> nat \<times> nat \<times> nat" where
  "civil day = (let (y, d) = year_from 1970 day in (y, month_from 1 (month_lengths y) d))"

section \<open>Printing\<close>

definition digit :: "nat \<Rightarrow> char" where
  "digit n = char_of (48 + n)"

fun dec :: "nat \<Rightarrow> string" where
  "dec n = (if n < 10 then [digit n] else dec (n div 10) @ [digit (n mod 10)])"

declare dec.simps [simp del]

text \<open>\<^verbatim>\<open>%0wd\<close>\<close>

definition pad :: "nat \<Rightarrow> nat \<Rightarrow> string" where
  "pad w n = replicate (w - length (dec n)) (digit 0) @ dec n"

text \<open>The layouts \<^verbatim>\<open>2006-0102\<close> and \<^verbatim>\<open>2006-01-02\<close>\<close>

definition format_compact :: "nat \<Rightarrow> string" where
  "format_compact day = (case civil day of (y, m, d) \<Rightarrow> pad 4 y @ CHR ''-'' # pad 2 m @ pad 2 d)"

definition format_date :: "nat \<Rightarrow> string" where
  "format_date day = (case civil day of (y, m, d) \<Rightarrow> pad 4 y @ CHR ''-'' # pad 2 m @ CHR ''-'' # pad 2 d)"

text \<open>\<^verbatim>\<open>UTC().Format(time.RFC3339)\<close>\<close>

definition format_rfc3339 :: "timestamp \<Rightarrow> string" where
  "format_rfc3339 t =
     (let sec = nat (t div 1000000000) mod 86400
      in format_date (day_in 0 t) @ CHR ''T'' # pad 2 (sec div 3600) @ CHR '':'' # pad 2 (sec div 60 mod 60)
         @ CHR '':'' # pad 2 (sec mod 60) @ ''Z'')"

section \<open>Reading numbers\<close>

definition num_of :: "string \<Rightarrow> nat" where
  "num_of s = foldl (\<lambda>a c. a * 10 + (of_char c - 48)) 0 s"

definition digits :: "string \<Rightarrow> bool" where
  "digits s \<longleftrightarrow> s \<noteq> [] \<and> (\<forall>c\<in>set s. CHR ''0'' \<le> c \<and> c \<le> CHR ''9'')"

text \<open>\<^verbatim>\<open>strconv.Atoi\<close> and \<^verbatim>\<open>ParseInt(s, 10, 64)\<close>: an optional sign, decimal digits, 64 bits.\<close>

definition Atoi :: "string \<Rightarrow> int option" where
  "Atoi s =
     (let neg = (s \<noteq> [] \<and> hd s = CHR ''-''); rest = (if s \<noteq> [] \<and> (hd s = CHR ''-'' \<or> hd s = CHR ''+'') then tl s else s);
          n = (if neg then - int (num_of rest) else int (num_of rest))
      in if digits rest \<and> - (2 ^ 63) \<le> n \<and> n < 2 ^ 63 then Some n else None)"

section \<open>Divisions\<close>

lemma le_quotient: "0 < (p :: int) \<Longrightarrow> q * p \<le> x \<longleftrightarrow> q \<le> x div p"
proof
  assume p: "0 < p" and "q \<le> x div p"
  then have "q * p \<le> x div p * p" by simp
  also have "\<dots> = x - x mod p" by (simp add: minus_mod_eq_div_mult)
  also have "\<dots> \<le> x" using p by simp
  finally show "q * p \<le> x" .
next
  assume "0 < p" "q * p \<le> x"
  then show "q \<le> x div p" using zdiv_mono1 [of "q * p" x p] by simp
qed

section \<open>One-to-one\<close>

lemma year_from_sound:
  "year_from y d = (y', r) \<Longrightarrow> y \<le> y' \<and> r < days_in_year y' \<and> d = sum days_in_year {y..<y'} + r"
proof (induction y d rule: year_from.induct)
  case (1 y d)
  show ?case
  proof (cases "d < days_in_year y")
    case True
    then show ?thesis using 1(2) by (simp add: year_from.simps [of y d])
  next
    case False
    then have "year_from (y + 1) (d - days_in_year y) = (y', r)" using 1(2) by (simp add: year_from.simps [of y d])
    from 1(1) [OF False this] have r: "y + 1 \<le> y'" "r < days_in_year y'" "d - days_in_year y = sum days_in_year {y + 1..<y'} + r" by auto
    have "sum days_in_year {y..<y'} = days_in_year y + sum days_in_year {y + 1..<y'}"
      using r(1) by (simp add: sum.atLeast_Suc_lessThan)
    then show ?thesis using r False by simp
  qed
qed

lemma month_from_sound:
  "month_from m ls d = (m', k) \<Longrightarrow> m \<le> m' \<and> 1 \<le> k \<and> d + 1 = sum_list (take (m' - m) ls) + k"
proof (induction m ls d rule: month_from.induct)
  case (2 m l ls d)
  show ?case
  proof (cases "d < l")
    case False
    then have "month_from (m + 1) ls (d - l) = (m', k)" using 2(2) by simp
    from 2(1) [OF False this] have r: "m + 1 \<le> m'" "1 \<le> k" "d - l + 1 = sum_list (take (m' - (m + 1)) ls) + k" by auto
    have "m' - m = Suc (m' - (m + 1))" using r(1) by simp
    then have "take (m' - m) (l # ls) = l # take (m' - (m + 1)) ls" by simp
    then show ?thesis using r False by simp
  qed (use 2 in auto)
qed auto

lemma month_from_bounds:
  "month_from m ls d = (m', k) \<Longrightarrow> d < sum_list ls \<Longrightarrow> \<forall>l\<in>set ls. l \<le> 31 \<Longrightarrow> k \<le> 31 \<and> m' < m + length ls"
proof (induction m ls d rule: month_from.induct)
  case (2 m l ls d)
  show ?case
  proof (cases "d < l")
    case False
    then have "month_from (m + 1) ls (d - l) = (m', k)" "d - l < sum_list ls" using 2(2,3) by auto
    then show ?thesis using 2(1) [OF False] 2(4) by auto
  qed (use 2 in auto)
qed auto

lemma civil_inject: "civil a = civil b \<longleftrightarrow> a = b"
proof
  assume eq: "civil a = civil b"
  obtain y r where a: "year_from 1970 a = (y, r)" by (cases "year_from 1970 a")
  obtain z t where b: "year_from 1970 b = (z, t)" by (cases "year_from 1970 b")
  have "z = y" and m: "month_from 1 (month_lengths y) r = month_from 1 (month_lengths z) t"
    using eq a b by (auto simp: civil_def)
  obtain m' k where mk: "month_from 1 (month_lengths y) r = (m', k)" by (cases "month_from 1 (month_lengths y) r")
  then have "month_from 1 (month_lengths y) t = (m', k)" using m \<open>z = y\<close> by simp
  then have "r = t" using month_from_sound [OF mk] month_from_sound by fastforce
  then show "a = b" using year_from_sound [OF a] year_from_sound [OF b] \<open>z = y\<close> by simp
qed simp

lemma civil_bounds: "civil day = (y, m, d) \<Longrightarrow> m < 100 \<and> d < 100"
proof -
  assume c: "civil day = (y, m, d)"
  obtain r where r: "year_from 1970 day = (y, r)" "month_from 1 (month_lengths y) r = (m, d)"
    using c by (cases "year_from 1970 day") (auto simp: civil_def)
  have "sum_list (month_lengths y) = days_in_year y" by (simp add: month_lengths_def days_in_year_def)
  moreover have "\<forall>l\<in>set (month_lengths y). l \<le> 31" "length (month_lengths y) = 12" by (auto simp: month_lengths_def)
  ultimately show ?thesis using month_from_bounds [OF r(2)] year_from_sound [OF r(1)] by auto
qed

lemma of_digit: "n < 10 \<Longrightarrow> (of_char (digit n) :: nat) = 48 + n"
  by (simp add: digit_def)

lemma num_of_dec: "num_of (dec n) = n"
proof (induction n rule: dec.induct)
  case (1 n)
  show ?case
  proof (cases "n < 10")
    case False
    then have "num_of (dec (n div 10)) = n div 10" using 1 by simp
    then show ?thesis using False by (simp add: dec.simps [of n] num_of_def of_digit)
  qed (simp add: dec.simps [of n] num_of_def of_digit)
qed

lemma num_of_pad: "num_of (pad w n) = n"
proof -
  have "foldl (\<lambda>a c. a * 10 + (of_char c - 48)) 0 (replicate k (digit 0)) = (0 :: nat)" for k
    by (induction k) (simp_all add: of_digit)
  then show ?thesis using num_of_dec [of n] by (simp add: num_of_def pad_def)
qed

lemma pad_inject: "pad w a = pad w b \<longleftrightarrow> a = b"
  by (metis num_of_pad)

lemma dash_not_digit: "n < 10 \<Longrightarrow> digit n \<noteq> CHR ''-''"
proof
  assume "n < 10" "digit n = CHR ''-''"
  then have "48 + n = (of_char (CHR ''-'') :: nat)" by (metis of_digit)
  then show False by simp
qed

lemma dash_not_dec: "CHR ''-'' \<notin> set (dec n)"
proof (induction n rule: dec.induct)
  case (1 n)
  then show ?case using dash_not_digit [of n] dash_not_digit [of "n mod 10"] by (subst dec.simps) auto
qed

lemma dash_not_pad [simp]: "CHR ''-'' \<notin> set (pad w n)"
  using dash_not_dec dash_not_digit [of 0] by (auto simp: pad_def)

lemma length_pad2: "n < 100 \<Longrightarrow> length (pad 2 n) = 2"
proof -
  assume "n < 100"
  then have "length (dec n) \<le> 2" by (subst dec.simps, subst dec.simps) auto
  moreover have "dec n \<noteq> []" by (subst dec.simps) auto
  ultimately show ?thesis by (cases "dec n") (auto simp: pad_def)
qed

lemma split_at_first: "x \<notin> set a \<Longrightarrow> x \<notin> set b \<Longrightarrow> a @ x # c = b @ x # d \<longleftrightarrow> a = b \<and> c = d"
proof (induction a arbitrary: b)
  case (Cons y a)
  then show ?case by (cases b) auto
qed (auto simp: neq_Nil_conv Cons_eq_append_conv)

lemma format_compact_inject: "format_compact a = format_compact b \<longleftrightarrow> a = b"
proof
  assume eq: "format_compact a = format_compact b"
  obtain y m d where a: "civil a = (y, m, d)" by (cases "civil a")
  obtain y' m' d' where b: "civil b = (y', m', d')" by (cases "civil b")
  have "pad 4 y = pad 4 y' \<and> pad 2 m @ pad 2 d = pad 2 m' @ pad 2 d'"
    using eq by (simp add: format_compact_def a b split_at_first)
  then have "y = y'" "m = m'" "d = d'"
    using civil_bounds [OF a] civil_bounds [OF b] by (auto simp: length_pad2 append_eq_append_conv pad_inject)
  then show "a = b" using a b civil_inject by metis
qed simp

lemma format_date_inject: "format_date a = format_date b \<longleftrightarrow> a = b"
proof
  assume eq: "format_date a = format_date b"
  obtain y m d where a: "civil a = (y, m, d)" by (cases "civil a")
  obtain y' m' d' where b: "civil b = (y', m', d')" by (cases "civil b")
  have "pad 4 y = pad 4 y' \<and> pad 2 m @ CHR ''-'' # pad 2 d = pad 2 m' @ CHR ''-'' # pad 2 d'"
    using eq by (simp add: format_date_def a b split_at_first)
  then have "y = y'" "m = m'" "d = d'" by (auto simp: split_at_first pad_inject)
  then show "a = b" using a b civil_inject by metis
qed simp

end
