(* ===== verification/OperationsHttp.thy ===== *)
theory OperationsHttp
  imports Http SignedSubmit Calendar
begin

text \<open>
  \<^verbatim>\<open>signedops/http.go\<close>: the draft as the signing browser sees it, the body of a submission, the replies
  for the errors of the package, and the status endpoint; and what the four signed operations' handlers
  have in common. \<open>uuids\<close> is the UUID parser.
\<close>

section \<open>Drafts\<close>

record draftPartView =
  dv_action :: string
  dv_items :: "string list"
  dv_details_hash :: string
  dv_challenge :: string

record DraftView =
  dv_operation :: string
  dv_type :: int
  dv_signer_key :: string
  dv_rp :: string
  dv_credential :: string
  dv_parts :: "draftPartView list"

text \<open>The constant fields (credential type, user verification, timeout) are left out.\<close>

definition NewDraftView :: "crypto \<Rightarrow> string \<Rightarrow> operation \<Rightarrow> DraftView" where
  "NewDraftView X rpID op =
     \<lparr> dv_operation = uuid_string X (op_id op), dv_type = uint (op_type op), dv_signer_key = Hex32 (op_signer_key_id op),
       dv_rp = rpID, dv_credential = b64_encode (op_signer op),
       dv_parts = map (\<lambda>p. \<lparr> dv_action = uuid_string X (pt_action p), dv_items = map (uuid_string X) (pt_items p),
          dv_details_hash = Hex32 (pt_details_hash p), dv_challenge = b64_encode (word32_bytes (pt_challenge p)) \<rparr>) (op_parts op) \<rparr>"

section \<open>Submissions\<close>

record SubmitRequest =
  sub_operation :: string
  sub_assertions :: "(string \<times> assertion_request) list"

text \<open>The result map is kept as the list of its entries; an action id that is there already is an error.\<close>

fun decode_assertions ::
  "(string \<Rightarrow> uuid option) \<Rightarrow> (uuid \<times> assertion) list \<Rightarrow> (string \<times> assertion_request) list \<Rightarrow> (uuid \<times> assertion) list option" where
  "decode_assertions uuids out [] = Some out"
| "decode_assertions uuids out ((rawID, a) # rest) =
     (case uuids rawID of None \<Rightarrow> None
      | Some actionID \<Rightarrow>
          if actionID \<in> fst ` set out then None
          else (case AssertionRequest_Decode a of None \<Rightarrow> None
                | Some assertion \<Rightarrow> decode_assertions uuids (out @ [(actionID, assertion)]) rest))"

definition SubmitRequest_Decode :: "(string \<Rightarrow> uuid option) \<Rightarrow> SubmitRequest \<Rightarrow> (uuid \<times> (uuid \<times> assertion) list) option" where
  "SubmitRequest_Decode uuids r =
     (case uuids (sub_operation r) of None \<Rightarrow> None
      | Some operationID \<Rightarrow> map_option (Pair operationID) (decode_assertions uuids [] (sub_assertions r)))"

section \<open>Errors\<close>

definition ops_error :: "sops_err \<Rightarrow> (nat \<times> string) option" where
  "ops_error e = (case e of
     ErrOperationNotFound \<Rightarrow> Some (404, ''OPERATION_NOT_FOUND'')
   | ErrOperationSubmitted \<Rightarrow> Some (409, ''OPERATION_ALREADY_SUBMITTED'')
   | ErrOperationNotSubmitted \<Rightarrow> Some (409, ''OPERATION_NOT_SUBMITTED'')
   | ErrSignerNotActive \<Rightarrow> Some (409, ''SIGNER_KEY_NOT_ACTIVE'')
   | ErrInvalidAssertion \<Rightarrow> Some (400, ''INVALID_ASSERTION'')
   | ErrInvalidRequest \<Rightarrow> Some (400, ''INVALID_REQUEST'')
   | _ \<Rightarrow> None)"

text \<open>A signed handler asks this package first, then the key lookup, then its own service.\<close>

definition signed_error :: "('e svc_err \<Rightarrow> nat \<times> string) \<Rightarrow> 'e svc_err \<Rightarrow> nat \<times> string" where
  "signed_error mapServiceError e =
     (case e of
        Ops o' \<Rightarrow> (case ops_error o' of Some r \<Rightarrow> r | None \<Rightarrow> mapServiceError e)
      | Key k \<Rightarrow> if k = ErrRegistryUnavailable then (503, ''REGISTRY_UNAVAILABLE'')
          else if k = ErrPasskeyNotFound \<or> k = ErrSignerKeyNotActive then (409, ''SIGNER_KEY_NOT_ACTIVE'')
          else mapServiceError e
      | _ \<Rightarrow> mapServiceError e)"

definition draft_http :: "config \<Rightarrow> ('e svc_err \<Rightarrow> nat \<times> string) \<Rightarrow> (wms_db, 'e svc_err, operation) tx \<Rightarrow> DraftView endpoint" where
  "draft_http C mapServiceError m = answer (signed_error mapServiceError) (NewDraftView (cf_crypto C) (cf_rp C)) m"

definition submit_http ::
  "(string \<Rightarrow> uuid option) \<Rightarrow> ('e svc_err \<Rightarrow> nat \<times> string) \<Rightarrow> SubmitRequest option
   \<Rightarrow> (uuid \<Rightarrow> (uuid \<times> assertion) list \<Rightarrow> (wms_db, 'e svc_err, 'a) tx) \<Rightarrow> 'a endpoint" where
  "submit_http uuids mapServiceError body submit =
     decoded (Option.bind body (SubmitRequest_Decode uuids)) (\<lambda>(operationID, assertions).
       answer (signed_error mapServiceError) (\<lambda>r. r) (submit operationID assertions))"

section \<open>Status\<close>

definition OperationStatus_http :: "(string \<Rightarrow> uuid option) \<Rightarrow> identity \<Rightarrow> string \<Rightarrow> (uuid \<times> part_status list) endpoint" where
  "OperationStatus_http uuids ctx raw = gated (RequireAdminOrOperator ctx) (\<lambda>userID.
     decoded (uuids raw) (\<lambda>operationID.
     answer (\<lambda>e. case ops_error e of Some r \<Rightarrow> r | None \<Rightarrow> internal_error) (Pair operationID)
       (OperationStatus operationID userID)))"

section \<open>What the browser sends back\<close>

text \<open>The body of a browser that signed every part of a draft it was shown.\<close>

definition encode_assertion :: "assertion \<Rightarrow> assertion_request" where
  "encode_assertion a = \<lparr> ar_credential_id = b64_encode (as_credential a),
     ar_authenticator_data = b64_encode (as_authenticator_data a),
     ar_client_data_json = b64_encode (string_bytes (as_client_data_json a)),
     ar_signature = b64_encode (as_signature a) \<rparr>"

definition signed_body :: "DraftView \<Rightarrow> assertion list \<Rightarrow> SubmitRequest" where
  "signed_body v as = \<lparr> sub_operation = dv_operation v, sub_assertions = zip (map dv_action (dv_parts v)) (map encode_assertion as) \<rparr>"

lemma Decode_encode: "AssertionRequest_Decode (encode_assertion a) = Some a"
  by (simp add: AssertionRequest_Decode_def encode_assertion_def b64_decode_encode bytes_string_bytes)

lemma decode_assertions_encoded:
  assumes "\<And>u. u \<in> set ids \<Longrightarrow> uuids (f u) = Some u" "length ids = length as" "distinct (map fst out @ ids)"
  shows "decode_assertions uuids out (zip (map f ids) (map encode_assertion as)) = Some (out @ zip ids as)"
  using assms(2,1,3)
proof (induction ids as arbitrary: out rule: list_induct2)
  case (Cons i ids a as)
  have "i \<notin> fst ` set out" using Cons.prems(2) by auto
  moreover have "distinct (map fst (out @ [(i, a)]) @ ids)" using Cons.prems(2) by auto
  ultimately show ?case using Cons.IH [of "out @ [(i, a)]"] Cons.prems(1) by (simp add: Decode_encode)
qed simp

lemma decode_assertions_distinct:
  "decode_assertions uuids out rs = Some out' \<Longrightarrow> distinct (map fst out) \<Longrightarrow> distinct (map fst out')"
  by (induction uuids out rs arbitrary: out' rule: decode_assertions.induct) (auto split: option.splits if_splits)

text \<open>C21: what is signed is what was drafted. From the draft a handler sends, the browser reads the challenge
  of every part exactly as the operation holds it; and the body it sends back, with one assertion for each
  part in order, is decoded into the operation's identifier and those assertions under the identifiers of
  their parts. Whatever the body, no action is decoded twice.\<close>

theorem draft_submit_roundtrip:
  assumes uuids: "\<And>u. uuids (uuid_string X u) = Some u"
    and parts: "distinct (map pt_action (op_parts op))" "length as = length (op_parts op)"
  shows "map (\<lambda>v. b64_decode (dv_challenge v)) (dv_parts (NewDraftView X rp op)) = map (\<lambda>p. Some (word32_bytes (pt_challenge p))) (op_parts op)
    \<and> SubmitRequest_Decode uuids (signed_body (NewDraftView X rp op) as) = Some (op_id op, zip (map pt_action (op_parts op)) as)
    \<and> (\<forall>body i out. SubmitRequest_Decode uuids body = Some (i, out) \<longrightarrow> distinct (map fst out))"
proof -
  have "decode_assertions uuids [] (zip (map (uuid_string X) (map pt_action (op_parts op))) (map encode_assertion as))
      = Some (zip (map pt_action (op_parts op)) as)"
    using decode_assertions_encoded [of "map pt_action (op_parts op)" uuids "uuid_string X" as "[]"] uuids parts by simp
  then show ?thesis
    using uuids decode_assertions_distinct [of uuids "[]"]
    by (auto simp: NewDraftView_def signed_body_def SubmitRequest_Decode_def b64_decode_encode comp_def split: option.splits)
qed

lemma draft_submit_roundtrip_witness:
  "SubmitRequest_Decode (\<lambda>t. Some (word_of_nat (num_of t)))
     (signed_body (NewDraftView (demo_crypto\<lparr>uuid_string := \<lambda>u. dec (unat u)\<rparr>) ''wms'' demo_operation) [demo_assertion])
   = Some (op_id demo_operation, [(pt_action (hd (op_parts demo_operation)), demo_assertion)])"
proof -
  have "word_of_nat (num_of (uuid_string (demo_crypto\<lparr>uuid_string := \<lambda>u. dec (unat u)\<rparr>) u)) = u" for u
    by (simp add: num_of_dec)
  then show ?thesis
    using draft_submit_roundtrip [of "\<lambda>t. Some (word_of_nat (num_of t))" "demo_crypto\<lparr>uuid_string := \<lambda>u. dec (unat u)\<rparr>" demo_operation "[demo_assertion]" "''wms''"]
    by (simp add: demo_operation_def)
qed

end
