(* ===== verification/ReceivingHttp.thy ===== *)
theory ReceivingHttp
  imports OperationsHttp Receiving
begin

text \<open>
  \<^verbatim>\<open>receiving/handler.go\<close> and \<^verbatim>\<open>close_signed_handler.go\<close>. A body is the tuple of its fields.
\<close>

definition receiving_error :: "receiving_err svc_err \<Rightarrow> nat \<times> string" where
  "receiving_error e = (case e of
     Svc ErrTTNNotFound \<Rightarrow> (404, ''TTN_NOT_FOUND'')
   | Svc ErrShipmentNotFound \<Rightarrow> (404, ''SHIPMENT_NOT_FOUND'')
   | Svc ErrShipmentAlreadyClosed \<Rightarrow> (409, ''SHIPMENT_ALREADY_CLOSED'')
   | Svc ErrShipmentNotInProgress \<Rightarrow> (409, ''SHIPMENT_NOT_IN_PROGRESS'')
   | Svc ErrCargoplaceNotInShipment \<Rightarrow> (400, ''CARGOPLACE_NOT_IN_SHIPMENT'')
   | Svc ErrCargoplaceAlreadyReceived \<Rightarrow> (409, ''CARGOPLACE_ALREADY_RECEIVED'')
   | Svc ErrCargoplaceNotFound \<Rightarrow> (404, ''CARGOPLACE_NOT_FOUND'')
   | Svc ErrCargoplaceNotReceivedAtGate \<Rightarrow> (409, ''CARGOPLACE_NOT_RECEIVED_AT_GATE'')
   | Svc ErrCargoplaceNotInProgress \<Rightarrow> (409, ''CARGOPLACE_NOT_IN_PROGRESS'')
   | Svc ErrCargoplaceEmpty \<Rightarrow> (409, ''CARGOPLACE_EMPTY'')
   | Svc ReceivingDraftStale \<Rightarrow> (409, ''DRAFT_STALE'')
   | Svc ErrBoxNotFound \<Rightarrow> (404, ''BOX_NOT_FOUND'')
   | Svc ErrBoxNotOpen \<Rightarrow> (409, ''BOX_NOT_OPEN'')
   | Svc ErrBoxNotInCargoplace \<Rightarrow> (400, ''BOX_NOT_IN_CARGOPLACE'')
   | Svc ErrBarcodeNotFound \<Rightarrow> (404, ''BARCODE_NOT_FOUND'')
   | Svc ErrSKUNotFound \<Rightarrow> (404, ''SKU_NOT_FOUND'')
   | Svc ErrQRAlreadyExists \<Rightarrow> (409, ''QR_ALREADY_EXISTS'')
   | Svc ReceivingBinNotFound \<Rightarrow> (404, ''BIN_NOT_FOUND'')
   | Svc ErrBinNotBuffer \<Rightarrow> (400, ''BIN_NOT_BUFFER'')
   | Svc ReceivingInvalidInput \<Rightarrow> (400, ''INVALID_REQUEST'')
   | _ \<Rightarrow> internal_error)"

definition ScanTTN_http :: "call_env \<Rightarrow> identity \<Rightarrow> string option \<Rightarrow> scan_ttn_result endpoint" where
  "ScanTTN_http E ctx body = gated (RequireOperator ctx) (\<lambda>operatorID. decoded body (\<lambda>ttnCode.
     answer receiving_error (\<lambda>r. r) (ScanTTN E operatorID ttnCode)))"

definition ScanCargoplace_http ::
  "(string \<Rightarrow> uuid option) \<Rightarrow> call_env \<Rightarrow> identity \<Rightarrow> (string \<times> string) option \<Rightarrow> scan_gate_result endpoint" where
  "ScanCargoplace_http uuids E ctx body = gated (RequireOperator ctx) (\<lambda>operatorID. decoded body (\<lambda>(shipment, cargoplaceCode).
     decoded (uuids shipment) (\<lambda>shipmentID.
     answer receiving_error (\<lambda>r. r) (ScanCargoplace E operatorID shipmentID cargoplaceCode))))"

definition AcceptShipment_http ::
  "(string \<Rightarrow> uuid option) \<Rightarrow> call_env \<Rightarrow> identity \<Rightarrow> string option \<Rightarrow> (uuid \<times> shipment_status \<times> progress) endpoint" where
  "AcceptShipment_http uuids E ctx body = gated (RequireOperator ctx) (\<lambda>operatorID. decoded body (\<lambda>shipment.
     decoded (uuids shipment) (\<lambda>shipmentID.
     answer receiving_error (\<lambda>r. r) (AcceptShipment E operatorID shipmentID))))"

definition ScanTableCargoplace_http ::
  "(string \<Rightarrow> uuid option) \<Rightarrow> call_env \<Rightarrow> identity \<Rightarrow> string option
   \<Rightarrow> (uuid \<times> string \<times> cargoplace_status \<times> expected_sku list \<times> int) endpoint" where
  "ScanTableCargoplace_http uuids E ctx body = gated (RequireOperator ctx) (\<lambda>operatorID. decoded body (\<lambda>cargoplace.
     decoded (uuids cargoplace) (\<lambda>cargoplaceID.
     answer receiving_error (\<lambda>r. r) (ScanTableCargoplace E operatorID cargoplaceID))))"

definition ScanBox_http ::
  "(string \<Rightarrow> uuid option) \<Rightarrow> call_env \<Rightarrow> identity \<Rightarrow> (string \<times> string) option \<Rightarrow> (uuid \<times> string \<times> box_status) endpoint" where
  "ScanBox_http uuids E ctx body = gated (RequireOperator ctx) (\<lambda>operatorID. decoded body (\<lambda>(cargoplace, boxBarcode).
     decoded (uuids cargoplace) (\<lambda>cargoplaceID.
     answer receiving_error (\<lambda>r. r) (ScanBox E operatorID cargoplaceID boxBarcode))))"

definition ScanSKU_http ::
  "(string \<Rightarrow> uuid option) \<Rightarrow> call_env \<Rightarrow> identity \<Rightarrow> (string \<times> string \<times> string) option \<Rightarrow> (uuid \<times> string \<times> string) endpoint" where
  "ScanSKU_http uuids E ctx body = gated (RequireOperator ctx) (\<lambda>operatorID. decoded body (\<lambda>(cargoplace, box, barcode).
     decoded (uuids cargoplace) (\<lambda>cargoplaceID. decoded (uuids box) (\<lambda>boxID.
     answer receiving_error (\<lambda>r. r) (ScanSKU E operatorID cargoplaceID boxID barcode)))))"

definition ScanQR_http ::
  "(string \<Rightarrow> uuid option) \<Rightarrow> call_env \<Rightarrow> identity \<Rightarrow> (string \<times> string \<times> string \<times> string) option \<Rightarrow> scan_qr_result endpoint" where
  "ScanQR_http uuids E ctx body = gated (RequireOperator ctx) (\<lambda>operatorID. decoded body (\<lambda>(cargoplace, box, skuRaw, qrCode).
     decoded (uuids cargoplace) (\<lambda>cargoplaceID. decoded (uuids box) (\<lambda>boxID. decoded (uuids skuRaw) (\<lambda>skuID.
     answer receiving_error (\<lambda>r. r) (ScanQR E operatorID cargoplaceID boxID skuID qrCode))))))"

definition CloseBox_http ::
  "(string \<Rightarrow> uuid option) \<Rightarrow> call_env \<Rightarrow> identity \<Rightarrow> string option \<Rightarrow> (uuid \<times> box_status \<times> nat) endpoint" where
  "CloseBox_http uuids E ctx body = gated (RequireOperator ctx) (\<lambda>operatorID. decoded body (\<lambda>box.
     decoded (uuids box) (\<lambda>boxID.
     answer receiving_error (\<lambda>r. r) (CloseBox E operatorID boxID))))"

definition ScanBuffer_http ::
  "(string \<Rightarrow> uuid option) \<Rightarrow> call_env \<Rightarrow> identity \<Rightarrow> (string \<times> string) option \<Rightarrow> (uuid \<times> string \<times> nat) endpoint" where
  "ScanBuffer_http uuids E ctx body = gated (RequireOperator ctx) (\<lambda>operatorID. decoded body (\<lambda>(cargoplace, bufferBin).
     decoded (uuids cargoplace) (\<lambda>cargoplaceID. decoded (uuids bufferBin) (\<lambda>bufferBinID.
     answer receiving_error (\<lambda>r. r) (ScanBuffer E operatorID cargoplaceID bufferBinID)))))"

definition DraftCloseCargoplace_http ::
  "config \<Rightarrow> (string \<Rightarrow> uuid option) \<Rightarrow> call_env \<Rightarrow> identity \<Rightarrow> string option \<Rightarrow> DraftView endpoint" where
  "DraftCloseCargoplace_http C uuids E ctx body = gated (RequireOperator ctx) (\<lambda>operatorID. decoded body (\<lambda>cargoplace.
     decoded (uuids cargoplace) (\<lambda>cargoplaceID.
     draft_http C receiving_error (DraftCloseCargoplace C E operatorID cargoplaceID))))"

definition SubmitCloseCargoplace_http ::
  "config \<Rightarrow> (string \<Rightarrow> uuid option) \<Rightarrow> call_env \<Rightarrow> identity \<Rightarrow> SubmitRequest option \<Rightarrow> close_cargoplace_result endpoint" where
  "SubmitCloseCargoplace_http C uuids E ctx body = gated (RequireOperator ctx) (\<lambda>operatorID.
     submit_http uuids receiving_error body (SubmitCloseCargoplace C E operatorID))"

end
