(* ===== verification/PutawayHttp.thy ===== *)
theory PutawayHttp
  imports OperationsHttp Putaway
begin

text \<open>\<^verbatim>\<open>putaway/handler.go\<close> and \<^verbatim>\<open>place_signed_handler.go\<close>.\<close>

definition putaway_error :: "putaway_err svc_err \<Rightarrow> nat \<times> string" where
  "putaway_error e = (case e of
     Svc ErrBufferBinNotFound \<Rightarrow> (404, ''BUFFER_BIN_NOT_FOUND'')
   | Svc ErrStorageBinNotFound \<Rightarrow> (404, ''STORAGE_BIN_NOT_FOUND'')
   | Svc PutawayProductNotFound \<Rightarrow> (404, ''PRODUCT_NOT_FOUND'')
   | Svc PutawayProductNotInBuffer \<Rightarrow> (409, ''PRODUCT_NOT_IN_BUFFER'')
   | Svc ErrProductNotReceived \<Rightarrow> (409, ''PRODUCT_NOT_RECEIVED'')
   | Svc ErrCargoplaceNotClosed \<Rightarrow> (409, ''CARGOPLACE_NOT_CLOSED'')
   | Svc PutawayDraftStale \<Rightarrow> (409, ''DRAFT_STALE'')
   | Svc PutawayChainRejected \<Rightarrow> (409, ''CHAIN_EVENT_REJECTED'')
   | Svc PutawayInvalidInput \<Rightarrow> (400, ''INVALID_REQUEST'')
   | _ \<Rightarrow> internal_error)"

definition maxProductIDsPerRequest :: nat where "maxProductIDsPerRequest = 200"

definition ScanBuffer_http ::
  "(string \<Rightarrow> uuid option) \<Rightarrow> identity \<Rightarrow> string option \<Rightarrow> (uuid \<times> string \<times> product_buffer_item list \<times> nat) endpoint" where
  "ScanBuffer_http uuids ctx body = gated (RequireOperator ctx) (\<lambda>operatorID. decoded body (\<lambda>bufferBin.
     decoded (uuids bufferBin) (\<lambda>bufferBinID.
     answer putaway_error (\<lambda>r. r) (GetBufferProducts operatorID bufferBinID))))"

definition ScanProduct_http ::
  "(string \<Rightarrow> uuid option) \<Rightarrow> identity \<Rightarrow> (string \<times> string) option \<Rightarrow> (uuid \<times> string \<times> string \<times> nat) endpoint" where
  "ScanProduct_http uuids ctx body = gated (RequireOperator ctx) (\<lambda>operatorID. decoded body (\<lambda>(productRaw, bufferBin).
     decoded (uuids productRaw) (\<lambda>productID. decoded (uuids bufferBin) (\<lambda>bufferBinID.
     answer putaway_error (\<lambda>r. r) (AddToPutawayCart operatorID productID bufferBinID)))))"

text \<open>Between 1 and 200 identifiers.\<close>

definition draft_products :: "(string \<Rightarrow> uuid option) \<Rightarrow> string list \<Rightarrow> uuid list option" where
  "draft_products uuids ids =
     (if ids = [] then None else if maxProductIDsPerRequest < length ids then None else those (map uuids ids))"

definition DraftPlaceToStorageBin_http ::
  "config \<Rightarrow> (string \<Rightarrow> uuid option) \<Rightarrow> call_env \<Rightarrow> identity \<Rightarrow> (string list \<times> string) option \<Rightarrow> DraftView endpoint" where
  "DraftPlaceToStorageBin_http C uuids E ctx body = gated (RequireOperator ctx) (\<lambda>operatorID. decoded body (\<lambda>(ids, storageBin).
     decoded (draft_products uuids ids) (\<lambda>productIDs. decoded (uuids storageBin) (\<lambda>storageBinID.
     draft_http C putaway_error (DraftPlaceToStorageBin C E operatorID productIDs storageBinID)))))"

definition SubmitPlaceToStorageBin_http ::
  "config \<Rightarrow> (string \<Rightarrow> uuid option) \<Rightarrow> call_env \<Rightarrow> identity \<Rightarrow> SubmitRequest option \<Rightarrow> scan_storage_bin_response endpoint" where
  "SubmitPlaceToStorageBin_http C uuids E ctx body = gated (RequireOperator ctx) (\<lambda>operatorID.
     submit_http uuids putaway_error body (SubmitPlaceToStorageBin C E operatorID))"

end
