(* ===== verification/AssemblyHttp.thy ===== *)
theory AssemblyHttp
  imports OperationsHttp Assembly
begin

text \<open>\<^verbatim>\<open>assembly/handler.go\<close> and \<^verbatim>\<open>unload_signed_handler.go\<close>.\<close>

definition assembly_error :: "assembly_err svc_err \<Rightarrow> nat \<times> string" where
  "assembly_error e = (case e of
     Svc AssemblyDestinationNotFound \<Rightarrow> (404, ''DESTINATION_NOT_FOUND'')
   | Svc ErrOrderNotNew \<Rightarrow> (409, ''ORDER_NOT_NEW'')
   | Svc AssemblySKUNotFound \<Rightarrow> (404, ''SKU_NOT_FOUND'')
   | Svc ErrNoTaskForProduct \<Rightarrow> (409, ''NO_TASK_FOR_PRODUCT'')
   | Svc ErrProductNotAllocated \<Rightarrow> (409, ''PRODUCT_NOT_ALLOCATED'')
   | Svc AssemblyChainRejected \<Rightarrow> (409, ''CHAIN_EVENT_REJECTED'')
   | Svc AssemblyInvalidInput \<Rightarrow> (400, ''INVALID_REQUEST'')
   | Svc AssemblyBinNotShippingBuffer \<Rightarrow> (400, ''BIN_NOT_SHIPPING_BUFFER'')
   | Svc ErrCartEmpty \<Rightarrow> (409, ''CART_EMPTY'')
   | Svc AssemblyDestinationMismatch \<Rightarrow> (409, ''DESTINATION_MISMATCH'')
   | Svc AssemblyDraftStale \<Rightarrow> (409, ''DRAFT_STALE'')
   | _ \<Rightarrow> internal_error)"

definition Allocate_http :: "(string \<Rightarrow> uuid option) \<Rightarrow> call_env \<Rightarrow> identity \<Rightarrow> string option \<Rightarrow> allocate_response endpoint" where
  "Allocate_http uuids E ctx body = gated (RequireAdminOrOperator ctx) (\<lambda>_. decoded body (\<lambda>dest.
     decoded (uuids dest) (\<lambda>destinationID.
     answer assembly_error (\<lambda>r. r) (Allocate E destinationID))))"

definition task_filter :: "string \<Rightarrow> string option" where
  "task_filter raw =
     (let taskStatus = (if raw = [] then ''PENDING'' else raw)
      in if taskStatus \<in> {''PENDING'', ''IN_PROGRESS'', ''DONE'', ''CANCELLED''} then Some taskStatus else None)"

definition GetTasks_http :: "(string \<Rightarrow> uuid option) \<Rightarrow> identity \<Rightarrow> string \<Rightarrow> string \<Rightarrow> string \<Rightarrow> task_item list endpoint" where
  "GetTasks_http uuids ctx dest oper raw = gated (RequireOperator ctx) (\<lambda>_.
     decoded (if dest = [] then None else uuids dest) (\<lambda>destinationID.
     decoded (if oper = [] then Some uuid_Nil else uuids oper) (\<lambda>operatorIDFilter.
     decoded (task_filter raw) (\<lambda>taskStatus.
     answer assembly_error (\<lambda>r. r) (GetTasks destinationID operatorIDFilter taskStatus)))))"

definition Pick_http :: "(string \<Rightarrow> uuid option) \<Rightarrow> call_env \<Rightarrow> identity \<Rightarrow> string option \<Rightarrow> (uuid \<times> nat) endpoint" where
  "Pick_http uuids E ctx body = gated (RequireOperator ctx) (\<lambda>operatorID. decoded body (\<lambda>productRaw.
     decoded (uuids productRaw) (\<lambda>productID.
     answer assembly_error (\<lambda>r. r) (Pick E operatorID productID))))"

definition DraftUnloadToShippingBuffer_http ::
  "config \<Rightarrow> (string \<Rightarrow> uuid option) \<Rightarrow> call_env \<Rightarrow> identity \<Rightarrow> string option \<Rightarrow> DraftView endpoint" where
  "DraftUnloadToShippingBuffer_http C uuids E ctx body = gated (RequireOperator ctx) (\<lambda>operatorID. decoded body (\<lambda>bufferBin.
     decoded (uuids bufferBin) (\<lambda>bufferBinID.
     draft_http C assembly_error (DraftUnloadToShippingBuffer C E operatorID bufferBinID))))"

definition SubmitUnloadToShippingBuffer_http ::
  "config \<Rightarrow> (string \<Rightarrow> uuid option) \<Rightarrow> call_env \<Rightarrow> identity \<Rightarrow> SubmitRequest option \<Rightarrow> scan_shipping_buffer_response endpoint" where
  "SubmitUnloadToShippingBuffer_http C uuids E ctx body = gated (RequireOperator ctx) (\<lambda>operatorID.
     submit_http uuids assembly_error body (SubmitUnloadToShippingBuffer C E operatorID))"

end
