(* ===== verification/ShippingHttp.thy ===== *)
theory ShippingHttp
  imports OperationsHttp Shipping
begin

text \<open>\<^verbatim>\<open>shipping/handler.go\<close> and \<^verbatim>\<open>ship_signed_handler.go\<close>.\<close>

definition shipping_error :: "shipping_err svc_err \<Rightarrow> nat \<times> string" where
  "shipping_error e = (case e of
     Svc ShippingBinNotFound \<Rightarrow> (404, ''BIN_NOT_FOUND'')
   | Svc ShippingBinNotShippingBuffer \<Rightarrow> (400, ''BIN_NOT_SHIPPING_BUFFER'')
   | Svc ErrDispatchNotFound \<Rightarrow> (404, ''DISPATCH_NOT_FOUND'')
   | Svc ErrDispatchAlreadyDeparted \<Rightarrow> (409, ''DISPATCH_ALREADY_DEPARTED'')
   | Svc ErrDispatchCancelled \<Rightarrow> (409, ''DISPATCH_CANCELLED'')
   | Svc ShippingDestinationMismatch \<Rightarrow> (409, ''DESTINATION_MISMATCH'')
   | Svc ErrDispatchNotAtGate \<Rightarrow> (409, ''DISPATCH_NOT_AT_GATE'')
   | Svc ErrBufferEmpty \<Rightarrow> (409, ''BUFFER_EMPTY'')
   | Svc ShippingProductNotInBuffer \<Rightarrow> (409, ''PRODUCT_NOT_IN_BUFFER'')
   | Svc (ErrPickingNotConfirmed ids) \<Rightarrow> (409, ''PICKING_NOT_CONFIRMED'')
   | Svc ShippingDraftStale \<Rightarrow> (409, ''DRAFT_STALE'')
   | Svc ShippingInvalidInput \<Rightarrow> (400, ''INVALID_REQUEST'')
   | _ \<Rightarrow> internal_error)"

definition maxProductIDsPerRequest :: nat where "maxProductIDsPerRequest = 200"

definition ScanBuffer_http ::
  "(string \<Rightarrow> uuid option) \<Rightarrow> identity \<Rightarrow> string option
   \<Rightarrow> (uuid \<times> string \<times> (uuid \<times> string \<times> string) \<times> ready_to_ship_product list \<times> nat) endpoint" where
  "ScanBuffer_http uuids ctx body = gated (RequireOperator ctx) (\<lambda>operatorID. decoded body (\<lambda>bufferBin.
     decoded (uuids bufferBin) (\<lambda>bufferBinID.
     answer shipping_error (\<lambda>r. r) (ShippingScanBuffer operatorID bufferBinID))))"

definition ScanDriver_http :: "call_env \<Rightarrow> identity \<Rightarrow> string option \<Rightarrow> dispatch_record endpoint" where
  "ScanDriver_http E ctx body = gated (RequireOperator ctx) (\<lambda>operatorID. decoded body (\<lambda>dispatchCode.
     answer shipping_error (\<lambda>r. r) (ScanDriver E operatorID dispatchCode)))"

definition DraftShip_http ::
  "config \<Rightarrow> (string \<Rightarrow> uuid option) \<Rightarrow> call_env \<Rightarrow> identity \<Rightarrow> (string \<times> string \<times> string list) option \<Rightarrow> DraftView endpoint" where
  "DraftShip_http C uuids E ctx body = gated (RequireOperator ctx) (\<lambda>operatorID. decoded body (\<lambda>(bufferBin, trip, ids).
     decoded (uuids bufferBin) (\<lambda>bufferBinID. decoded (uuids trip) (\<lambda>dispatchID.
     decoded (if maxProductIDsPerRequest < length ids then None else those (map uuids ids)) (\<lambda>productIDs.
     draft_http C shipping_error (DraftShip C E operatorID bufferBinID dispatchID productIDs))))))"

definition SubmitShip_http ::
  "config \<Rightarrow> (string \<Rightarrow> uuid option) \<Rightarrow> call_env \<Rightarrow> identity \<Rightarrow> SubmitRequest option \<Rightarrow> ship_response endpoint" where
  "SubmitShip_http C uuids E ctx body = gated (RequireOperator ctx) (\<lambda>operatorID.
     submit_http uuids shipping_error body (SubmitShip C E operatorID))"

end
