(* ===== verification/PasskeysHttp.thy ===== *)
theory PasskeysHttp
  imports OperationsHttp Calendar
begin

text \<open>
  \<^verbatim>\<open>passkeys/handler.go\<close> and \<^verbatim>\<open>actions_handler.go\<close>. The registration endpoints act on the service with
  its sessions, the others on the database. The process prints times in UTC.
\<close>

section \<open>Views\<close>

record passkeyView =
  vk_credential :: string
  vk_key_id :: string
  vk_qx :: string
  vk_qy :: string
  vk_role :: string
  vk_status :: passkey_status
  vk_created :: string

definition toPasskeyView :: "passkey \<Rightarrow> passkeyView" where
  "toPasskeyView p =
     \<lparr> vk_credential = b64_encode (pk_credential p), vk_key_id = Hex32 (pk_key_id p), vk_qx = Hex32 (px (pk_key p)),
       vk_qy = Hex32 (py (pk_key p)), vk_role = role_name (pk_role p), vk_status = pk_status p,
       vk_created = format_rfc3339 (pk_created p) \<rparr>"

record confirmationView =
  vc_action :: string
  vc_type :: byte
  vc_state :: confirmation_state
  vc_reject :: "int option"

definition toConfirmationView :: "crypto \<Rightarrow> key_confirmation \<Rightarrow> confirmationView" where
  "toConfirmationView X c =
     \<lparr> vc_action = uuid_string X (kc_action c), vc_type = kc_type c, vc_state = kc_state c, vc_reject = kc_reason c \<rparr>"

record memberView =
  vm_user :: string
  vm_name :: string
  vm_role :: string
  vm_passkey :: "passkeyView option"
  vm_confirmation :: "confirmationView option"

definition toOrganizationView :: "crypto \<Rightarrow> uuid \<times> string \<times> org_member list \<Rightarrow> string \<times> string \<times> memberView list" where
  "toOrganizationView X o' = (case o' of (orgID, name, members) \<Rightarrow>
     (uuid_string X orgID, name, map (\<lambda>m. \<lparr> vm_user = uuid_string X (om_user m), vm_name = om_name m, vm_role = role_name (om_role m),
        vm_passkey = map_option toPasskeyView (om_passkey m),
        vm_confirmation = map_option (toConfirmationView X) (om_confirmation m) \<rparr>) members))"

record keyActionDraftView =
  vd_action :: string
  vd_type :: int
  vd_subject_qx :: string
  vd_subject_qy :: string
  vd_details_hash :: string
  vd_signer_key :: string
  vd_challenge :: string
  vd_rp :: string
  vd_credential :: string

text \<open>The constant fields are left out, the empty list of items among them.\<close>

definition toDraftView :: "crypto \<Rightarrow> string \<Rightarrow> key_action_draft \<Rightarrow> keyActionDraftView" where
  "toDraftView X rpID d =
     \<lparr> vd_action = uuid_string X (ka_id (kf_action d)), vd_type = uint (ka_type (kf_action d)),
       vd_subject_qx = Hex32 (px (kf_subject d)), vd_subject_qy = Hex32 (py (kf_subject d)),
       vd_details_hash = Hex32 (kf_details_hash d), vd_signer_key = Hex32 (kf_signer_key_id d),
       vd_challenge = b64_encode (word32_bytes (ka_challenge (kf_action d))), vd_rp = rpID,
       vd_credential = b64_encode (ka_signer (kf_action d)) \<rparr>"

section \<open>Errors\<close>

definition passkey_error :: "passkey_err \<Rightarrow> nat \<times> string" where
  "passkey_error e = (case e of
     ErrForbidden \<Rightarrow> (403, ''FORBIDDEN'')
   | ErrNoOrganization \<Rightarrow> (403, ''NO_ORGANIZATION'')
   | ErrPasskeyExists \<Rightarrow> (409, ''PASSKEY_EXISTS'')
   | ErrInvalidRegistration \<Rightarrow> (400, ''INVALID_REGISTRATION'')
   | ErrPasskeyNotFound \<Rightarrow> (404, ''PASSKEY_NOT_FOUND'')
   | ErrRegistryUnavailable \<Rightarrow> (503, ''REGISTRY_UNAVAILABLE'')
   | ErrSignerKeyNotActive \<Rightarrow> (409, ''SIGNER_KEY_NOT_ACTIVE'')
   | ErrTargetNotPending \<Rightarrow> (409, ''TARGET_NOT_PENDING'')
   | ErrTargetNotActive \<Rightarrow> (409, ''TARGET_NOT_ACTIVE'')
   | ErrActionInProgress \<Rightarrow> (409, ''ACTION_IN_PROGRESS'')
   | ErrActionNotFound \<Rightarrow> (404, ''ACTION_NOT_FOUND'')
   | ErrActionAlreadySubmitted \<Rightarrow> (409, ''ACTION_ALREADY_SUBMITTED'')
   | ErrKeyInvalidAssertion \<Rightarrow> (400, ''INVALID_ASSERTION'')
   | ErrKeyInvalidRequest \<Rightarrow> (400, ''INVALID_REQUEST'')
   | _ \<Rightarrow> internal_error)"

section \<open>Endpoints\<close>

definition BeginRegistration_http ::
  "('sess, 'body, 'creation) webauthn_lib \<Rightarrow> call_env \<Rightarrow> identity \<Rightarrow> ('sess passkey_service, 'creation) handler" where
  "BeginRegistration_http W E ctx = gated (RequireAdminOrOperator ctx) (\<lambda>userID.
     answer passkey_error (\<lambda>creation. creation) (BeginRegistration W E userID))"

definition FinishRegistration_http ::
  "crypto \<Rightarrow> ('sess, 'body, 'creation) webauthn_lib \<Rightarrow> call_env \<Rightarrow> identity \<Rightarrow> 'body \<Rightarrow> ('sess passkey_service, passkeyView) handler" where
  "FinishRegistration_http X W E ctx body = gated (RequireAdminOrOperator ctx) (\<lambda>userID.
     answer_with 201 passkey_error toPasskeyView (FinishRegistration X W E userID body))"

definition MyPasskey_http :: "config \<Rightarrow> identity \<Rightarrow> passkeyView option endpoint" where
  "MyPasskey_http C ctx = gated (RequireAdminOrOperator ctx) (\<lambda>userID.
     answer passkey_error (map_option toPasskeyView) (MyPasskey (cf_crypto C) (cf_chain C) userID))"

definition Organization_http :: "config \<Rightarrow> identity \<Rightarrow> (string \<times> string \<times> memberView list) endpoint" where
  "Organization_http C ctx = gated (RequireAdmin ctx) (\<lambda>userID.
     answer passkey_error (toOrganizationView (cf_crypto C)) (Organization (cf_crypto C) (cf_chain C) userID))"

definition AdminKeyExport_http :: "config \<Rightarrow> identity \<Rightarrow> admin_key_export endpoint" where
  "AdminKeyExport_http C ctx = gated (RequireAdmin ctx) (\<lambda>userID.
     answer passkey_error (\<lambda>x. x) (AdminKeyExport (cf_crypto C) (cf_chain C) userID))"

definition draftKeyAction_http ::
  "config \<Rightarrow> (uuid \<Rightarrow> string \<Rightarrow> (wms_db, passkey_err, key_action_draft) tx) \<Rightarrow> identity \<Rightarrow> string option \<Rightarrow> keyActionDraftView endpoint" where
  "draftKeyAction_http C draft ctx body = gated (RequireAdmin ctx) (\<lambda>userID. decoded body (\<lambda>targetKeyID.
     answer passkey_error (toDraftView (cf_crypto C) (cf_rp C)) (draft userID targetKeyID)))"

definition DraftKeyRegister_http :: "config \<Rightarrow> call_env \<Rightarrow> identity \<Rightarrow> string option \<Rightarrow> keyActionDraftView endpoint" where
  "DraftKeyRegister_http C E = draftKeyAction_http C (DraftKeyRegister (cf_crypto C) (cf_chain C) E)"

definition DraftKeyRevoke_http :: "config \<Rightarrow> call_env \<Rightarrow> identity \<Rightarrow> string option \<Rightarrow> keyActionDraftView endpoint" where
  "DraftKeyRevoke_http C E = draftKeyAction_http C (DraftKeyRevoke (cf_crypto C) (cf_chain C) E)"

definition RejectKey_http :: "config \<Rightarrow> identity \<Rightarrow> string option \<Rightarrow> unit endpoint" where
  "RejectKey_http C ctx body = gated (RequireAdmin ctx) (\<lambda>userID. decoded body (\<lambda>targetKeyID.
     answer passkey_error (\<lambda>u. u) (RejectKey (cf_crypto C) (cf_chain C) userID targetKeyID)))"

definition SubmitKeyAction_http ::
  "config \<Rightarrow> (string \<Rightarrow> uuid option) \<Rightarrow> call_env \<Rightarrow> identity \<Rightarrow> string \<Rightarrow> assertion_request option \<Rightarrow> confirmationView endpoint" where
  "SubmitKeyAction_http C uuids E ctx rawID body = gated (RequireAdmin ctx) (\<lambda>userID. decoded (uuids rawID) (\<lambda>actionID.
     decoded (Option.bind body AssertionRequest_Decode) (\<lambda>a.
     answer passkey_error (toConfirmationView (cf_crypto C))
       (SubmitKeyAction (cf_crypto C) E (cf_rp C) (cf_origins C) userID actionID a))))"

end
