(* ===== verification/Dispatches.thy ===== *)
theory Dispatches
  imports Http Calendar
begin

text \<open>
  \<^verbatim>\<open>wms/internal/dispatches\<close> and \<^verbatim>\<open>wms/internal/destinations\<close>: planning a trip under a generated code,
  listing trips and shops. PostgreSQL prints dates on a clock \<open>dbz\<close> nanoseconds ahead of UTC, the Go
  process on one \<open>goz\<close> ahead.
\<close>

datatype disp_err =
    ErrDestinationNotFound | ErrDispatchNotFound
  | DispatchConflict \<comment> \<open>a unique key\<close>
  | DispatchInvalidText \<comment> \<open>an argument that is not a value of the column's type\<close>

type_synonym 'a disp_tx = "(wms_db, disp_err, 'a) tx"

record NewDispatchQuery =
  nq_destination :: uuid
  nq_vehicle :: string
  nq_driver :: string
  nq_phone :: "string option"
  nq_scheduled :: timestamp

record DispatchFilter =
  df_status :: "string option"
  df_destination :: uuid
  df_warehouse :: int

section \<open>A new trip\<close>

text \<open>\<^verbatim>\<open>NOW()::DATE\<close> as a time: the last midnight of the database's clock.\<close>

definition midnight :: "int \<Rightarrow> timestamp \<Rightarrow> timestamp" where
  "midnight dbz t = (t + dbz) div day_ns * day_ns - dbz"

definition GetActualDispatchCode :: "int \<Rightarrow> timestamp \<Rightarrow> nat disp_tx" where
  "GetActualDispatchCode dbz now =
     tx_get (\<lambda>s. sql_count (\<lambda>d. midnight dbz now \<le> dp_created d) (outbound_dispatches s))"

definition dispatch_code :: "nat \<Rightarrow> nat \<Rightarrow> string" where
  "dispatch_code day n = ''DSP-'' @ format_compact day @ ''-'' @ pad 3 n"

text \<open>
  The transaction began at \<open>clock E 0\<close>, which is its \<^verbatim>\<open>NOW()\<close>; \<open>clock E 1\<close> is the later reading of
  \<^verbatim>\<open>time.Now()\<close>. The advisory lock makes the count and the insertion one step.
\<close>

definition CreateDispatchCode :: "int \<Rightarrow> int \<Rightarrow> call_env \<Rightarrow> string disp_tx" where
  "CreateDispatchCode dbz goz E =
     tx_bind (GetActualDispatchCode dbz (clock E 0)) (\<lambda>count.
       tx_return (dispatch_code (day_in goz (clock E 1)) (count + 1)))"

definition insert_dispatch :: "call_env \<Rightarrow> NewDispatchQuery \<Rightarrow> string \<Rightarrow> outbound_dispatch disp_tx" where
  "insert_dispatch E disp dispCode =
     tx_bind (tx_query (\<lambda>s. sql_row ErrDestinationNotFound (\<lambda>de. de_id de = nq_destination disp) (destinations s))) (\<lambda>de.
     let d = \<lparr> dp_id = fresh E 0, dp_code = dispCode, dp_warehouse = de_warehouse de, dp_destination = nq_destination disp,
               dp_vehicle = nq_vehicle disp, dp_driver = nq_driver disp, dp_phone = nq_phone disp,
               dp_status = OutboundDispatchStatusScheduled, dp_scheduled = nq_scheduled disp, dp_arrived = None,
               dp_departed = None, dp_created = clock E 0 \<rparr>
     in tx_bind (tx_get (\<lambda>s. dp_code ` set (outbound_dispatches s))) (\<lambda>codes.
        tx_seq (tx_check (dispCode \<notin> codes) DispatchConflict)
       (tx_seq (sql_insert outbound_dispatches outbound_dispatches_update dp_id DispatchConflict d)
          (tx_return d))))"

definition CreateNewDispatch :: "int \<Rightarrow> int \<Rightarrow> call_env \<Rightarrow> NewDispatchQuery \<Rightarrow> outbound_dispatch disp_tx" where
  "CreateNewDispatch dbz goz E query =
     WithTx (tx_bind (CreateDispatchCode dbz goz E) (insert_dispatch E query))"

section \<open>Reading trips\<close>

definition GetDispatchByID :: "uuid \<Rightarrow> outbound_dispatch disp_tx" where
  "GetDispatchByID dispID = tx_query (\<lambda>s. sql_row ErrDispatchNotFound (\<lambda>d. dp_id d = dispID) (outbound_dispatches s))"

text \<open>
  The query text is put together from conditions on numbered arguments, with the arguments beside it.
  PostgreSQL looks an argument up by its number and reads it as a value of the column's type.
\<close>

datatype filter_column = StatusColumn | DestinationColumn | WarehouseColumn
datatype query_arg = TextArg string | UuidArg uuid | IntArg int

definition dispatch_query :: "DispatchFilter \<Rightarrow> (filter_column \<times> nat) list \<times> query_arg list" where
  "dispatch_query flt =
     (let (query, args, argcount) = ([], [], 1);
          (query, args, argcount) =
            (case df_status flt of None \<Rightarrow> (query, args, argcount)
             | Some st \<Rightarrow> (query @ [(StatusColumn, argcount)], args @ [TextArg st], argcount + 1));
          (query, args, argcount) =
            (if df_destination flt \<noteq> uuid_Nil
             then (query @ [(DestinationColumn, argcount)], args @ [UuidArg (df_destination flt)], argcount + 1)
             else (query, args, argcount));
          (query, args) =
            (if df_warehouse flt \<noteq> - 1
             then (query @ [(WarehouseColumn, argcount)], args @ [IntArg (df_warehouse flt)])
             else (query, args))
      in (query, args))"

definition dispatch_status_name :: "dispatch_status \<Rightarrow> string" where
  "dispatch_status_name st = (case st of OutboundDispatchStatusScheduled \<Rightarrow> ''SCHEDULED''
     | OutboundDispatchStatusAtGate \<Rightarrow> ''AT_GATE'' | OutboundDispatchStatusDeparted \<Rightarrow> ''DEPARTED''
     | OutboundDispatchStatusCancelled \<Rightarrow> ''CANCELLED'')"

definition dispatch_status_of :: "string \<Rightarrow> dispatch_status option" where
  "dispatch_status_of t = List.find (\<lambda>st. dispatch_status_name st = t)
     [OutboundDispatchStatusScheduled, OutboundDispatchStatusAtGate, OutboundDispatchStatusDeparted, OutboundDispatchStatusCancelled]"

definition sql_condition :: "query_arg list \<Rightarrow> filter_column \<times> nat \<Rightarrow> (outbound_dispatch \<Rightarrow> bool) option" where
  "sql_condition args c =
     (if snd c = 0 \<or> length args < snd c then None
      else case (fst c, args ! (snd c - 1)) of
        (StatusColumn, TextArg t) \<Rightarrow> map_option (\<lambda>st d. dp_status d = st) (dispatch_status_of t)
      | (DestinationColumn, UuidArg u) \<Rightarrow> Some (\<lambda>d. dp_destination d = u)
      | (WarehouseColumn, IntArg n) \<Rightarrow> Some (\<lambda>d. dp_warehouse d = n)
      | _ \<Rightarrow> None)"

definition GetDispatchesByFilter :: "DispatchFilter \<Rightarrow> outbound_dispatch list disp_tx" where
  "GetDispatchesByFilter flt = tx_query (\<lambda>s.
     let (query, args) = dispatch_query flt; conds = map (sql_condition args) query
     in if None \<in> set conds then Inl DispatchInvalidText
        else Inr (sort_key dp_scheduled
               (filter (\<lambda>d. \<forall>c\<in>set conds. the c d) (outbound_dispatches s))))"

section \<open>Shops\<close>

text \<open>\<open>coll\<close> is the order the database compares texts in.\<close>

definition GetDestinations :: "(string \<Rightarrow> 'k :: linorder) \<Rightarrow> int \<Rightarrow> destination list disp_tx" where
  "GetDestinations coll warehouseID = tx_get (\<lambda>s.
     take 1000 (sort_key (\<lambda>d. coll (de_code d))
       (filter (\<lambda>d. 0 < warehouseID \<longrightarrow> de_warehouse d = warehouseID) (destinations s))))"

section \<open>Requests\<close>

text \<open>A query parameter that is missing is the empty text.\<close>

definition read_filter :: "(string \<Rightarrow> uuid option) \<Rightarrow> string \<Rightarrow> string \<Rightarrow> string \<Rightarrow> DispatchFilter option" where
  "read_filter uuids status destID whId =
     (case (if destID = [] then Some uuid_Nil else uuids destID) of None \<Rightarrow> None
      | Some dest \<Rightarrow> (case (if whId = [] then Some (- 1) else Atoi whId) of None \<Rightarrow> None
        | Some wh \<Rightarrow> Some \<lparr> df_status = (if status = [] then None else Some status), df_destination = dest, df_warehouse = wh \<rparr>))"

definition GetDispatches_http ::
  "(string \<Rightarrow> uuid option) \<Rightarrow> identity \<Rightarrow> string \<Rightarrow> string \<Rightarrow> string \<Rightarrow> outbound_dispatch list endpoint" where
  "GetDispatches_http uuids ctx status destID whId = gated (RequireOperator ctx) (\<lambda>_.
     decoded (read_filter uuids status destID whId) (\<lambda>flt.
     answer (\<lambda>e. (503, ''INTERNAL_ERROR'')) (\<lambda>ds. ds) (GetDispatchesByFilter flt)))"

definition later :: "nat \<Rightarrow> call_env \<Rightarrow> call_env" where
  "later n E = E\<lparr>clock := \<lambda>k. clock E (k + n)\<rparr>"

definition acceptable_dispatch :: "timestamp \<Rightarrow> NewDispatchQuery \<Rightarrow> NewDispatchQuery option" where
  "acceptable_dispatch now inputData =
     (if nq_driver inputData = [] then None else if nq_vehicle inputData = [] then None
      else if nq_scheduled inputData < now - 60000000000 then None else Some inputData)"

definition NewDispatch_http ::
  "int \<Rightarrow> int \<Rightarrow> call_env \<Rightarrow> identity \<Rightarrow> NewDispatchQuery option \<Rightarrow> outbound_dispatch endpoint" where
  "NewDispatch_http dbz goz E ctx body = gated (RequireOperator ctx) (\<lambda>_.
     decoded (Option.bind body (acceptable_dispatch (clock E 0))) (\<lambda>inputData.
     answer (\<lambda>e. if e = ErrDestinationNotFound then (404, ''NOT_FOUND'') else (503, ''INTERNAL_ERROR'')) (\<lambda>d. d)
       (CreateNewDispatch dbz goz (later 1 E) inputData)))"

definition GetDispatchByID_http :: "(string \<Rightarrow> uuid option) \<Rightarrow> identity \<Rightarrow> string \<Rightarrow> outbound_dispatch endpoint" where
  "GetDispatchByID_http uuids ctx dispatch_id = gated (RequireOperator ctx) (\<lambda>_.
     decoded (uuids dispatch_id) (\<lambda>dispatchID.
     answer (\<lambda>e. if e = ErrDispatchNotFound then (404, ''NOT_FOUND'') else (503, ''INTERNAL_ERROR'')) (\<lambda>d. d)
       (GetDispatchByID dispatchID)))"

definition GetDestinations_http :: "(string \<Rightarrow> 'k :: linorder) \<Rightarrow> identity \<Rightarrow> string \<Rightarrow> destination list endpoint" where
  "GetDestinations_http coll ctx raw = gated (RequireOperator ctx) (\<lambda>_.
     decoded (if raw = [] then Some 0 else Option.bind (Atoi raw) (\<lambda>n. if n \<le> 0 then None else Some n)) (\<lambda>warehouseID.
     answer (\<lambda>e. internal_error) (\<lambda>ds. ds) (GetDestinations coll warehouseID)))"

end
