(* ===== verification/Analytics.thy ===== *)
theory Analytics
  imports Http Calendar "HOL-Library.List_Lexorder" "HOL-Library.Char_ord" Complex_Main
begin

text \<open>
  \<^verbatim>\<open>wms/internal/analytics\<close>: the summary of the tables, the report on what the chain has confirmed and
  the daily volume of signed actions (\<^verbatim>\<open>repository.go\<close>, \<^verbatim>\<open>derive.go\<close>, \<^verbatim>\<open>handler.go\<close>). Counts are
  integers; the rate is the exact quotient, which Go rounds to a \<^verbatim>\<open>float64\<close>. \<open>created\<close> is the
  column \<^verbatim>\<open>outbox_events.created_at\<close>, which the rows of the model do not hold.
\<close>

section \<open>Grouping\<close>

text \<open>\<^verbatim>\<open>SELECT key, count(*) ... GROUP BY key\<close>; the order of the groups is not used.\<close>

definition group_count :: "('r \<Rightarrow> 'k) \<Rightarrow> 'r list \<Rightarrow> ('k \<times> int) list" where
  "group_count key rows = map (\<lambda>k. (k, int (sql_count (\<lambda>r. key r = k) rows))) (remdups (map key rows))"

definition stageOfAction :: "wms_db \<Rightarrow> uuid \<Rightarrow> string" where
  "stageOfAction s event =
     (case List.find (\<lambda>w. wa_id w = event) (warehouse_actions s) of None \<Rightarrow> ''keys''
      | Some w \<Rightarrow> if wa_type w = 1 then ''receiving'' else if wa_type w = 2 then ''putaway''
          else if wa_type w = 3 then ''picking'' else if wa_type w = 4 then ''shipping'' else ''keys'')"

definition onchain_status_name :: "onchain_status \<Rightarrow> string" where
  "onchain_status_name st = (case st of OnchainPending \<Rightarrow> ''PENDING'' | OnchainSent \<Rightarrow> ''SENT''
     | OnchainCommitted \<Rightarrow> ''COMMITTED'' | OnchainFailed \<Rightarrow> ''FAILED'')"

section \<open>The summary\<close>

record Totals =
  to_skus :: int
  to_products :: int
  to_orders :: int
  to_dispatches :: int
  to_destinations :: int

record SummaryReport =
  sm_totals :: Totals
  sm_today :: int
  sm_products :: "(product_status \<times> int) list"
  sm_orders :: "(order_status \<times> int) list"
  sm_dispatches :: "(dispatch_status \<times> int) list"

definition GetSummary :: "(outbox_event \<Rightarrow> timestamp) \<Rightarrow> timestamp \<Rightarrow> wms_db \<Rightarrow> SummaryReport" where
  "GetSummary created now s =
     \<lparr> sm_totals = \<lparr> to_skus = int (length (skus s)), to_products = int (length (products s)),
         to_orders = int (length (orders s)), to_dispatches = int (length (outbound_dispatches s)),
         to_destinations = int (length (destinations s)) \<rparr>,
       sm_today = int (sql_count (\<lambda>e. now div day_ns * day_ns \<le> created e) (outbox_events s)),
       sm_products = group_count pr_status (products s),
       sm_orders = group_count or_status (orders s),
       sm_dispatches = group_count dp_status (outbound_dispatches s) \<rparr>"

section \<open>Confirmation by the chain\<close>

record StageOnchain =
  so_stage :: string
  so_total :: int
  so_committed :: int
  so_sent :: int
  so_pending :: int
  so_failed :: int

record OnchainEventRef =
  er_event :: string
  er_stage :: string
  er_tx :: "string option"
  er_error :: "string option"
  er_updated :: string

record OnchainReport =
  rp_total :: int
  rp_committed :: int
  rp_sent :: int
  rp_pending :: int
  rp_failed :: int
  rp_rate :: rat
  rp_by_stage :: "StageOnchain list"
  rp_recent_failed :: "OnchainEventRef list"
  rp_recent_committed :: "OnchainEventRef list"

definition fsmOrder :: "string list" where
  "fsmOrder = [''receiving'', ''putaway'', ''picking'', ''shipping'']"

definition clampNonNeg :: "int \<Rightarrow> int" where
  "clampNonNeg v = (if v < 0 then 0 else v)"

definition confirmationRate :: "int \<Rightarrow> int \<Rightarrow> rat" where
  "confirmationRate committed n = (if n \<le> 0 then 0 else of_int committed / of_int n)"

definition orderStages :: "string set \<Rightarrow> string list" where
  "orderStages present = fsmOrder @ sorted_list_of_set (present - set fsmOrder)"

text \<open>The accumulators of one stage, and the loop over the grouped rows that fills them.\<close>

record stageAcc =
  sa_committed :: int
  sa_sent :: int
  sa_failed :: int

type_synonym stage_map = "(string \<Rightarrow> stageAcc option) \<times> string set"

definition acc_update :: "string \<Rightarrow> (stageAcc \<Rightarrow> stageAcc) \<Rightarrow> stage_map \<Rightarrow> stage_map" where
  "acc_update k f m =
     (case m of (stageStatus, present) \<Rightarrow>
        (stageStatus(k \<mapsto> f (case stageStatus k of None \<Rightarrow> \<lparr> sa_committed = 0, sa_sent = 0, sa_failed = 0 \<rparr> | Some a \<Rightarrow> a)),
         insert k present))"

definition acc_row :: "(string \<times> string) \<times> int \<Rightarrow> stage_map \<Rightarrow> stage_map" where
  "acc_row row m =
     (case row of ((stage, status), n) \<Rightarrow>
        if status = ''COMMITTED'' then acc_update stage (\<lambda>a. a\<lparr>sa_committed := sa_committed a + n\<rparr>) m
        else if status = ''SENT'' then acc_update stage (\<lambda>a. a\<lparr>sa_sent := sa_sent a + n\<rparr>) m
        else if status = ''FAILED'' then acc_update stage (\<lambda>a. a\<lparr>sa_failed := sa_failed a + n\<rparr>) m
        else m)"

definition lookup0 :: "(string \<times> int) list \<Rightarrow> string \<Rightarrow> int" where
  "lookup0 rows k = (case map_of (rev rows) k of None \<Rightarrow> 0 | Some n \<Rightarrow> n)"

definition deriveOnchain ::
  "(string \<times> int) list \<Rightarrow> ((string \<times> string) \<times> int) list \<Rightarrow> int \<Rightarrow> (string \<times> int) list
   \<Rightarrow> OnchainEventRef list \<Rightarrow> OnchainEventRef list \<Rightarrow> OnchainReport" where
  "deriveOnchain statusCounts byAgg outboxTotal outboxByType recentFailed recentCommitted =
     (let committed = lookup0 statusCounts ''COMMITTED''; sent = lookup0 statusCounts ''SENT'';
          failed = lookup0 statusCounts ''FAILED'';
          (stageStatus, present) = fold acc_row byAgg (Map.empty, set (map fst outboxByType))
      in \<lparr> rp_total = outboxTotal, rp_committed = committed, rp_sent = sent,
           rp_pending = clampNonNeg (outboxTotal - committed - sent - failed), rp_failed = failed,
           rp_rate = confirmationRate committed outboxTotal,
           rp_by_stage = map (\<lambda>stage.
             let total = lookup0 outboxByType stage;
                 (c, st, f) = (case stageStatus stage of None \<Rightarrow> (0, 0, 0) | Some a \<Rightarrow> (sa_committed a, sa_sent a, sa_failed a))
             in \<lparr> so_stage = stage, so_total = total, so_committed = c, so_sent = st,
                  so_pending = clampNonNeg (total - c - st - f), so_failed = f \<rparr>) (orderStages present),
           rp_recent_failed = recentFailed, rp_recent_committed = recentCommitted \<rparr>)"

definition eventRefs :: "crypto \<Rightarrow> wms_db \<Rightarrow> onchain_status \<Rightarrow> nat \<Rightarrow> OnchainEventRef list" where
  "eventRefs X s st limit =
     map (\<lambda>e. \<lparr> er_event = uuid_string X (oe_event e), er_stage = stageOfAction s (oe_event e), er_tx = oe_tx e,
                er_error = oe_error e, er_updated = format_rfc3339 (oe_updated e) \<rparr>)
       (take limit (sort_key (\<lambda>e. - oe_updated e) (filter (\<lambda>e. oe_status e = st) (onchain_events s))))"

definition GetOnchain :: "crypto \<Rightarrow> nat \<Rightarrow> nat \<Rightarrow> wms_db \<Rightarrow> OnchainReport" where
  "GetOnchain X failedLimit committedLimit s =
     deriveOnchain
       (group_count (\<lambda>e. onchain_status_name (oe_status e)) (onchain_events s))
       (group_count (\<lambda>e. (stageOfAction s (oe_event e), onchain_status_name (oe_status e))) (onchain_events s))
       (int (length (outbox_events s)))
       (group_count (\<lambda>e. stageOfAction s (ob_event e)) (outbox_events s))
       (eventRefs X s OnchainFailed failedLimit) (eventRefs X s OnchainCommitted committedLimit)"

section \<open>Daily volume\<close>

record ThroughputReport =
  tr_days :: "string list"
  tr_series :: "(string \<times> int list) list"
  tr_totals :: "int list"

definition bump :: "int list \<Rightarrow> nat \<Rightarrow> int \<Rightarrow> int list" where
  "bump xs i n = xs[i := xs ! i + n]"

definition pivot_row ::
  "(string \<Rightarrow> nat option) \<Rightarrow> (nat \<times> string) \<times> int \<Rightarrow> (string \<Rightarrow> int list) \<times> int list \<Rightarrow> (string \<Rightarrow> int list) \<times> int list" where
  "pivot_row idx row acc =
     (case (row, acc) of (((day, stage), n), (counts, totals)) \<Rightarrow>
        case idx (format_date day) of None \<Rightarrow> (counts, totals)
        | Some i \<Rightarrow> (counts(stage := bump (counts stage) i n), bump totals i n))"

definition pivotThroughput :: "((nat \<times> string) \<times> int) list \<Rightarrow> nat \<Rightarrow> nat \<Rightarrow> ThroughputReport" where
  "pivotThroughput rows days0 today =
     (let days = (if days0 < 1 then 1 else days0);
          start = today - (days - 1);
          axis = map (\<lambda>i. format_date (start + i)) [0..<days];
          idx = map_of (rev (zip axis [0..<days]));
          stages = orderStages (set (map (snd \<circ> fst) rows));
          (counts, totals) = fold (pivot_row idx) rows (\<lambda>_. replicate days 0, replicate days 0)
      in \<lparr> tr_days = axis, tr_series = map (\<lambda>stage. (stage, counts stage)) stages, tr_totals = totals \<rparr>)"

text \<open>The query reads the database's \<^verbatim>\<open>now()\<close>, the pivot the process's clock.\<close>

definition throughput_rows :: "(outbox_event \<Rightarrow> timestamp) \<Rightarrow> timestamp \<Rightarrow> nat \<Rightarrow> wms_db \<Rightarrow> ((nat \<times> string) \<times> int) list" where
  "throughput_rows created now days s =
     group_count (\<lambda>e. (day_in 0 (created e), stageOfAction s (ob_event e)))
       (filter (\<lambda>e. (now div day_ns - (int days - 1)) * day_ns \<le> created e) (outbox_events s))"

definition GetThroughput :: "(outbox_event \<Rightarrow> timestamp) \<Rightarrow> call_env \<Rightarrow> nat \<Rightarrow> wms_db \<Rightarrow> ThroughputReport" where
  "GetThroughput created E days s =
     pivotThroughput (throughput_rows created (clock E 0) days s) days (day_in 0 (clock E 1))"

section \<open>Requests\<close>

definition recentFeedLimit :: nat where "recentFeedLimit = 10"
definition defaultThroughputDays :: nat where "defaultThroughputDays = 14"
definition maxThroughputDays :: nat where "maxThroughputDays = 90"

definition GetSummary_http :: "(outbox_event \<Rightarrow> timestamp) \<Rightarrow> call_env \<Rightarrow> identity \<Rightarrow> SummaryReport endpoint" where
  "GetSummary_http created E ctx = gated (RequireAdminOrOperator ctx) (\<lambda>_ s. (WriteJSON 200 (GetSummary created (clock E 0) s), s))"

definition GetOnchain_http :: "crypto \<Rightarrow> identity \<Rightarrow> OnchainReport endpoint" where
  "GetOnchain_http X ctx = gated (RequireAdminOrOperator ctx) (\<lambda>_ s.
     (WriteJSON 200 (GetOnchain X recentFeedLimit recentFeedLimit s), s))"

definition throughput_days :: "string \<Rightarrow> nat option" where
  "throughput_days raw =
     (if raw = [] then Some defaultThroughputDays
      else Option.bind (Atoi raw) (\<lambda>n. if n < 1 \<or> int maxThroughputDays < n then None else Some (nat n)))"

definition GetThroughput_http :: "(outbox_event \<Rightarrow> timestamp) \<Rightarrow> call_env \<Rightarrow> identity \<Rightarrow> string \<Rightarrow> ThroughputReport endpoint" where
  "GetThroughput_http created E ctx raw = gated (RequireAdminOrOperator ctx) (\<lambda>_.
     decoded (throughput_days raw) (\<lambda>days s. (WriteJSON 200 (GetThroughput created E days s), s)))"

end
