(* ===== verification/Products.thy ===== *)
theory Products
  imports Http ReceivingStore Calendar
begin

text \<open>
  \<^verbatim>\<open>wms/internal/products\<close>: the list of the products touched last and the timeline of one product
  (\<^verbatim>\<open>repository.go\<close>, \<^verbatim>\<open>handler.go\<close>). \<open>updated\<close> and \<open>created\<close> are the columns
  \<^verbatim>\<open>products.updated_at\<close> and \<^verbatim>\<open>outbox_events.created_at\<close>, which the rows of the model do not hold.
\<close>

datatype products_err = ProductsNotFound | ProductsNullStage \<comment> \<open>a NULL read into a Go string\<close>

record ProductHeader =
  ph_id :: uuid
  ph_qr :: string
  ph_sku :: string
  ph_status :: product_status

record RecentProduct =
  rq_header :: ProductHeader
  rq_updated :: string

record TimelineStep =
  tm_stage :: string
  tm_event_type :: string
  tm_occurred :: string
  tm_event :: uuid
  tm_tx :: "string option"
  tm_chain :: onchain_status
  tm_chain_updated :: "string option"
  tm_error :: "string option"

section \<open>The queries\<close>

text \<open>The join with the SKU drops a product without one.\<close>

definition product_header :: "wms_db \<Rightarrow> product \<Rightarrow> ProductHeader option" where
  "product_header s p = map_option (\<lambda>k. \<lparr> ph_id = pr_id p, ph_qr = pr_qr p, ph_sku = sk_name k, ph_status = pr_status p \<rparr>)
     (List.find (\<lambda>k. sk_id k = pr_sku p) (skus s))"

definition Recent :: "(product \<Rightarrow> timestamp) \<Rightarrow> nat \<Rightarrow> wms_db \<Rightarrow> RecentProduct list" where
  "Recent updated limit s =
     take limit (List.map_filter (\<lambda>p. map_option (\<lambda>h. \<lparr> rq_header = h, rq_updated = format_rfc3339 (updated p) \<rparr>) (product_header s p))
       (sort_key (\<lambda>p. - updated p) (products s)))"

definition resolveProduct :: "(string \<Rightarrow> uuid option) \<Rightarrow> string \<Rightarrow> (wms_db, products_err, ProductHeader) tx" where
  "resolveProduct uuids key = tx_query (\<lambda>s.
     case Option.bind
            (case uuids key of Some i \<Rightarrow> List.find (\<lambda>p. pr_id p = i) (products s)
             | None \<Rightarrow> List.find (\<lambda>p. pr_qr p = key) (products s)) (product_header s) of
       None \<Rightarrow> Inl ProductsNotFound | Some h \<Rightarrow> Inr h)"

definition stage_name :: "byte \<Rightarrow> string option" where
  "stage_name t = (if t = 1 then Some ''receiving'' else if t = 2 then Some ''putaway''
     else if t = 3 then Some ''picking'' else if t = 4 then Some ''shipping'' else None)"

text \<open>The signed actions that contain the product, each joined with its event; oldest first.\<close>

definition timeline_rows :: "(outbox_event \<Rightarrow> timestamp) \<Rightarrow> uuid \<Rightarrow> wms_db \<Rightarrow> (warehouse_action \<times> outbox_event) list" where
  "timeline_rows created productID s =
     sort_key (\<lambda>(w, ob). created ob)
       (List.map_filter (\<lambda>w. if productID \<notin> set (wa_items w) then None
          else map_option (\<lambda>ob. (w, ob)) (List.find (\<lambda>ob. ob_event ob = wa_id w) (outbox_events s)))
        (warehouse_actions s))"

definition timeline_step :: "(outbox_event \<Rightarrow> timestamp) \<Rightarrow> wms_db \<Rightarrow> warehouse_action \<times> outbox_event \<Rightarrow> TimelineStep option" where
  "timeline_step created s row =
     (case row of (w, ob) \<Rightarrow> let onc = onchain_row s (wa_id w) in
        map_option (\<lambda>stage. \<lparr> tm_stage = stage, tm_event_type = ob_event_type ob, tm_occurred = format_rfc3339 (created ob),
          tm_event = wa_id w, tm_tx = Option.bind onc oe_tx,
          tm_chain = (case onc of None \<Rightarrow> OnchainPending | Some e \<Rightarrow> oe_status e),
          tm_chain_updated = map_option (\<lambda>e. format_rfc3339 (oe_updated e)) onc,
          tm_error = Option.bind onc oe_error \<rparr>) (stage_name (wa_type w)))"

definition Timeline ::
  "(outbox_event \<Rightarrow> timestamp) \<Rightarrow> (string \<Rightarrow> uuid option) \<Rightarrow> string \<Rightarrow> (wms_db, products_err, ProductHeader \<times> TimelineStep list) tx" where
  "Timeline created uuids key =
     tx_bind (resolveProduct uuids key) (\<lambda>header.
     tx_bind (tx_get (\<lambda>s. map (timeline_step created s) (timeline_rows created (ph_id header) s))) (\<lambda>steps.
     tx_seq (tx_check (None \<notin> set steps) ProductsNullStage)
       (tx_return (header, map the steps))))"

section \<open>Requests\<close>

definition defaultRecentLimit :: nat where "defaultRecentLimit = 20"
definition maxRecentLimit :: nat where "maxRecentLimit = 50"

definition recent_limit :: "string \<Rightarrow> nat" where
  "recent_limit q =
     (let limit = (case (if q = [] then None else Atoi q) of None \<Rightarrow> defaultRecentLimit
                   | Some n \<Rightarrow> if 0 < n then nat n else defaultRecentLimit)
      in if maxRecentLimit < limit then maxRecentLimit else limit)"

definition GetRecent_http :: "(product \<Rightarrow> timestamp) \<Rightarrow> identity \<Rightarrow> string \<Rightarrow> RecentProduct list endpoint" where
  "GetRecent_http updated ctx q = gated (RequireAdminOrOperator ctx) (\<lambda>_ s.
     (WriteJSON 200 (Recent updated (recent_limit q) s), s))"

definition GetTimeline_http ::
  "(outbox_event \<Rightarrow> timestamp) \<Rightarrow> (string \<Rightarrow> uuid option) \<Rightarrow> identity \<Rightarrow> string
   \<Rightarrow> (ProductHeader \<times> TimelineStep list) endpoint" where
  "GetTimeline_http created uuids ctx raw = gated (RequireAdminOrOperator ctx) (\<lambda>_.
     let key = TrimSpace raw in
     if key = [] then Pair (WriteError 400 ''MISSING_KEY'')
     else answer (\<lambda>e. if e = ProductsNotFound then (404, ''PRODUCT_NOT_FOUND'') else internal_error) (\<lambda>t. t)
       (Timeline created uuids key))"

section \<open>What the answers hold\<close>

lemma set_map_filter: "set (List.map_filter f xs) = {y. \<exists>x\<in>set xs. f x = Some y}"
  by (induction xs) (auto simp: List.map_filter_simps split: option.splits)

lemma distinct_map_filter_key:
  assumes "distinct (map key xs)" "\<And>x y. f x = Some y \<Longrightarrow> key' y = key x"
  shows "distinct (map key' (List.map_filter f xs))"
  using assms(1)
proof (induction xs)
  case (Cons x xs)
  then show ?case using assms(2) by (auto simp: List.map_filter_simps set_map_filter image_iff split: option.splits)
qed (simp add: List.map_filter_simps)

text \<open>C40: the timeline of a product is complete. For a product that is found it lists, in the order the actions
  were submitted, exactly the signed actions that contain the product and have been queued, each once, under
  the stage of its type and with the status of its mirror row, or as pending without one.\<close>

theorem Timeline_complete:
  assumes keys: "distinct (map wa_id (warehouse_actions s))" "distinct (map ob_event (outbox_events s))"
    and types: "\<forall>w\<in>set (warehouse_actions s). wa_type w \<in> {1, 2, 3, 4}"
    and found: "resolveProduct uuids key s = (Inr h, s)"
  shows "\<exists>rows. Timeline created uuids key s = (Inr (h, map (the \<circ> timeline_step created s) rows), s)
    \<and> distinct rows \<and> sorted (map (created \<circ> snd) rows)
    \<and> set rows = {(w, ob). w \<in> set (warehouse_actions s) \<and> ph_id h \<in> set (wa_items w) \<and> ob \<in> set (outbox_events s) \<and> ob_event ob = wa_id w}
    \<and> (\<forall>(w, ob)\<in>set rows. let st = the (timeline_step created s (w, ob)) in
         Some (tm_stage st) = stage_name (wa_type w) \<and> tm_event st = wa_id w
         \<and> tm_chain st = (case onchain_row s (wa_id w) of None \<Rightarrow> OnchainPending | Some e \<Rightarrow> oe_status e))"
proof -
  let ?f = "\<lambda>w. if ph_id h \<notin> set (wa_items w) then None
      else map_option (\<lambda>ob. (w, ob)) (List.find (\<lambda>ob. ob_event ob = wa_id w) (outbox_events s))"
  let ?rows = "timeline_rows created (ph_id h) s"
  have event: "List.find (\<lambda>ob. ob_event ob = wa_id w) (outbox_events s) = Some ob \<longleftrightarrow> ob \<in> set (outbox_events s) \<and> ob_event ob = wa_id w" for w ob
    using find_Some_set [of "\<lambda>ob. ob_event ob = wa_id w" "outbox_events s" ob] find_key [OF keys(2), of ob] by auto
  have sets: "set ?rows = {(w, ob). w \<in> set (warehouse_actions s) \<and> ph_id h \<in> set (wa_items w) \<and> ob \<in> set (outbox_events s) \<and> ob_event ob = wa_id w}"
    by (auto simp: timeline_rows_def set_map_filter event split: if_splits)
  have "distinct (map (wa_id \<circ> fst) (List.map_filter ?f (warehouse_actions s)))"
    by (rule distinct_map_filter_key [OF keys(1)]) (auto split: if_splits)
  then have dist: "distinct ?rows" by (simp add: timeline_rows_def distinct_map)
  have "sorted (map (\<lambda>(w, ob). created ob) ?rows)" by (simp add: timeline_rows_def)
  then have sorted: "sorted (map (created \<circ> snd) ?rows)" by (simp add: comp_def case_prod_unfold)
  have stage: "timeline_step created s (w, ob) \<noteq> None" if "(w, ob) \<in> set ?rows" for w ob
    using that types sets by (auto simp: timeline_step_def stage_name_def Let_def)
  have "None \<notin> set (map (timeline_step created s) ?rows)"
  proof
    assume "None \<in> set (map (timeline_step created s) ?rows)"
    then obtain w ob where "(w, ob) \<in> set ?rows" "timeline_step created s (w, ob) = None" by auto
    then show False using stage by blast
  qed
  then have "Timeline created uuids key s = (Inr (h, map (the \<circ> timeline_step created s) ?rows), s)"
    using found by (simp add: Timeline_def tx_simps)
  moreover have "let st = the (timeline_step created s (w, ob)) in
         Some (tm_stage st) = stage_name (wa_type w) \<and> tm_event st = wa_id w
         \<and> tm_chain st = (case onchain_row s (wa_id w) of None \<Rightarrow> OnchainPending | Some e \<Rightarrow> oe_status e)"
    if "(w, ob) \<in> set ?rows" for w ob
    using stage [OF that] by (auto simp: timeline_step_def Let_def)
  ultimately show ?thesis using sets dist sorted by (intro exI [of _ ?rows]) auto
qed

text \<open>The limit of a request, whatever its text.\<close>

lemma Recent_bounded:
  "recent_limit q = (case Atoi q of None \<Rightarrow> 20 | Some n \<Rightarrow> if 0 < n then min (nat n) 50 else 20)"
  "length (Recent updated (recent_limit q) s) \<le> 50"
proof -
  have "Atoi [] = None" by (simp add: Atoi_def digits_def)
  then show "recent_limit q = (case Atoi q of None \<Rightarrow> 20 | Some n \<Rightarrow> if 0 < n then min (nat n) 50 else 20)"
    by (auto simp: recent_limit_def defaultRecentLimit_def maxRecentLimit_def Let_def split: option.splits)
  then show "length (Recent updated (recent_limit q) s) \<le> 50" by (auto simp: Recent_def split: option.splits)
qed

section \<open>A concrete product\<close>

definition demo_traced :: product where
  "demo_traced = \<lparr> pr_id = 5, pr_sku = 6, pr_shipment = 1, pr_cargoplace = 2, pr_box = None, pr_qr = ''Q'', pr_bin = None,
     pr_order = None, pr_status = ProductStatusReceived, pr_created = 0 \<rparr>"

definition demo_trace :: "uuid \<Rightarrow> byte \<Rightarrow> warehouse_action" where
  "demo_trace i t = \<lparr> wa_id = i, wa_operation = i, wa_part = 0, wa_type = t, wa_signer = [], wa_created_by = 7, wa_items = [5],
     wa_salt = 0, wa_details_hash = 0, wa_challenge = 0, wa_details = PutawayDetails 1 0, wa_submitted = None \<rparr>"

definition demo_trace_event :: outbox_event where
  "demo_trace_event = \<lparr> ob_event = 8, ob_aggregate = 8, ob_aggregate_type = ''signed_action'', ob_event_type = ''wms.action.v1'',
     ob_hash = [], ob_payload = [] \<rparr>"

definition demo_trace_db :: wms_db where
  "demo_trace_db = empty_db\<lparr>skus := [\<lparr> sk_id = 6, sk_name = ''Tea'' \<rparr>], products := [demo_traced],
     warehouse_actions := [demo_trace 8 2, demo_trace 9 3], outbox_events := [demo_trace_event]\<rparr>"

lemma Timeline_complete_witness:
  "\<exists>h t. Timeline (\<lambda>_. 0) (\<lambda>_. None) ''Q'' demo_trace_db = (Inr (h, [t]), demo_trace_db)"
proof -
  have db: "warehouse_actions demo_trace_db = [demo_trace 8 2, demo_trace 9 3]" "outbox_events demo_trace_db = [demo_trace_event]"
    "ob_event demo_trace_event = 8" "\<And>i t. wa_id (demo_trace i t) = i" "\<And>i t. wa_items (demo_trace i t) = [5]" "\<And>i t. wa_type (demo_trace i t) = t"
    by (simp_all add: demo_trace_db_def demo_trace_event_def demo_trace_def)
  let ?h = "\<lparr> ph_id = 5, ph_qr = ''Q'', ph_sku = ''Tea'', ph_status = ProductStatusReceived \<rparr>"
  have r: "resolveProduct (\<lambda>_. None) ''Q'' demo_trace_db = (Inr ?h, demo_trace_db)"
    by (simp add: resolveProduct_def tx_simps demo_trace_db_def demo_traced_def product_header_def)
  obtain rows where rows: "Timeline (\<lambda>_. 0) (\<lambda>_. None) ''Q'' demo_trace_db = (Inr (?h, map (the \<circ> timeline_step (\<lambda>_. 0) demo_trace_db) rows), demo_trace_db)"
    "distinct rows" "set rows = {(w, ob). w \<in> set (warehouse_actions demo_trace_db) \<and> 5 \<in> set (wa_items w) \<and> ob \<in> set (outbox_events demo_trace_db) \<and> ob_event ob = wa_id w}"
    using Timeline_complete [OF _ _ _ r, of "\<lambda>_. 0"] by (auto simp: db)
  have "set rows = {(demo_trace 8 2, demo_trace_event)}" using rows(3) by (auto simp: db)
  then have "length rows = 1" using distinct_card [OF rows(2)] by simp
  then show ?thesis using rows(1) by (auto simp: length_Suc_conv)
qed

end
