(* ===== verification/Router.thy ===== *)
theory Router
  imports ReceivingHttp PutawayHttp AssemblyHttp ShippingHttp PasskeysHttp Dispatches Analytics Products
begin

text \<open>
  The routes of the server (\<^verbatim>\<open>cmd/wms/main.go\<close> and every \<^verbatim>\<open>RegisterRoutes\<close>), as one function from a
  request to a reply and a new state, and who can change that state through it. The audit route acts on
  the node and not on this state (theory Auditor); the health route answers from connections.
\<close>

record ('k, 'sess, 'body, 'creation) server =
  sr_auth :: auth_service
  sr_config :: config
  sr_webauthn :: "('sess, 'body, 'creation) webauthn_lib"
  sr_uuids :: "string \<Rightarrow> uuid option"
  sr_db_zone :: int
  sr_zone :: int
  sr_collate :: "string \<Rightarrow> 'k"
  sr_created :: "outbox_event \<Rightarrow> timestamp"
  sr_updated :: "product \<Rightarrow> timestamp"

section \<open>Requests\<close>

datatype 'body api_request =
    PostLogin "(string \<times> string) option"
  | PostRefresh "string option"
  | PostRegister "(string \<times> string \<times> string) option"
  | PostScanTTN "string option"
  | PostScanCargoplace "(string \<times> string) option"
  | PostAcceptShipment "string option"
  | PostScanTableCargoplace "string option"
  | PostScanBox "(string \<times> string) option"
  | PostScanSKU "(string \<times> string \<times> string) option"
  | PostScanQR "(string \<times> string \<times> string \<times> string) option"
  | PostCloseBox "string option"
  | PostReceivingBuffer "(string \<times> string) option"
  | PostCloseDraft "string option"
  | PostCloseSubmit "SubmitRequest option"
  | PostPutawayBuffer "string option"
  | PostPutawayProduct "(string \<times> string) option"
  | PostPlaceDraft "(string list \<times> string) option"
  | PostPlaceSubmit "SubmitRequest option"
  | PostAllocate "string option"
  | GetTaskList string string string
  | PostPick "string option"
  | PostUnloadDraft "string option"
  | PostUnloadSubmit "SubmitRequest option"
  | PostShippingBuffer "string option"
  | PostScanDriver "string option"
  | PostShipDraft "(string \<times> string \<times> string list) option"
  | PostShipSubmit "SubmitRequest option"
  | GetDispatchList string string string
  | PostDispatch "NewDispatchQuery option"
  | GetDispatch string
  | GetDestinationList string
  | GetAnalyticsSummary
  | GetAnalyticsOnchain
  | GetAnalyticsThroughput string
  | GetProductsRecent string
  | GetProductsTimeline string
  | GetOperationStatus string
  | PostRegistrationBegin
  | PostRegistrationFinish 'body
  | GetMyPasskey
  | GetOrganization
  | GetAdminKey
  | PostRejectKey "string option"
  | PostKeyRegisterDraft "string option"
  | PostKeyRevokeDraft "string option"
  | PostKeySubmit string "assertion_request option"

section \<open>The server\<close>

text \<open>The state is that of the passkey service, which holds the database. The data of a reply is dropped here.\<close>

definition erased :: "('s, 'a) handler \<Rightarrow> ('s, unit) handler" where
  "erased h s = (case h s of ((status, r), s') \<Rightarrow> ((status, map_sum (\<lambda>c. c) (\<lambda>_. ()) r), s'))"

definition on_database :: "'a endpoint \<Rightarrow> ('sess passkey_service, unit) handler" where
  "on_database h v = (case erased h (sv_db v) of (r, s') \<Rightarrow> (r, v\<lparr>sv_db := s'\<rparr>))"

type_synonym 'sess route = "identity \<Rightarrow> ('sess passkey_service, unit) handler"

fun route :: "('k :: linorder, 'sess, 'body, 'creation) server \<Rightarrow> call_env \<Rightarrow> 'body api_request \<Rightarrow> 'sess route" where
  "route R E (PostLogin b) = (\<lambda>ctx. on_database (Login_http (sr_auth R) E b))"
| "route R E (PostRefresh b) = (\<lambda>ctx. on_database (Refresh_http (sr_auth R) E b))"
| "route R E (PostRegister b) = (\<lambda>ctx. on_database (Register_http (sr_auth R) E ctx b))"
| "route R E (PostScanTTN b) = (\<lambda>ctx. on_database (ScanTTN_http E ctx b))"
| "route R E (PostScanCargoplace b) = (\<lambda>ctx. on_database (ScanCargoplace_http (sr_uuids R) E ctx b))"
| "route R E (PostAcceptShipment b) = (\<lambda>ctx. on_database (AcceptShipment_http (sr_uuids R) E ctx b))"
| "route R E (PostScanTableCargoplace b) = (\<lambda>ctx. on_database (ScanTableCargoplace_http (sr_uuids R) E ctx b))"
| "route R E (PostScanBox b) = (\<lambda>ctx. on_database (ScanBox_http (sr_uuids R) E ctx b))"
| "route R E (PostScanSKU b) = (\<lambda>ctx. on_database (ScanSKU_http (sr_uuids R) E ctx b))"
| "route R E (PostScanQR b) = (\<lambda>ctx. on_database (ScanQR_http (sr_uuids R) E ctx b))"
| "route R E (PostCloseBox b) = (\<lambda>ctx. on_database (CloseBox_http (sr_uuids R) E ctx b))"
| "route R E (PostReceivingBuffer b) = (\<lambda>ctx. on_database (ReceivingHttp.ScanBuffer_http (sr_uuids R) E ctx b))"
| "route R E (PostCloseDraft b) = (\<lambda>ctx. on_database (DraftCloseCargoplace_http (sr_config R) (sr_uuids R) E ctx b))"
| "route R E (PostCloseSubmit b) = (\<lambda>ctx. on_database (SubmitCloseCargoplace_http (sr_config R) (sr_uuids R) E ctx b))"
| "route R E (PostPutawayBuffer b) = (\<lambda>ctx. on_database (PutawayHttp.ScanBuffer_http (sr_uuids R) ctx b))"
| "route R E (PostPutawayProduct b) = (\<lambda>ctx. on_database (ScanProduct_http (sr_uuids R) ctx b))"
| "route R E (PostPlaceDraft b) = (\<lambda>ctx. on_database (DraftPlaceToStorageBin_http (sr_config R) (sr_uuids R) E ctx b))"
| "route R E (PostPlaceSubmit b) = (\<lambda>ctx. on_database (SubmitPlaceToStorageBin_http (sr_config R) (sr_uuids R) E ctx b))"
| "route R E (PostAllocate b) = (\<lambda>ctx. on_database (Allocate_http (sr_uuids R) E ctx b))"
| "route R E (GetTaskList d u st) = (\<lambda>ctx. on_database (GetTasks_http (sr_uuids R) ctx d u st))"
| "route R E (PostPick b) = (\<lambda>ctx. on_database (Pick_http (sr_uuids R) E ctx b))"
| "route R E (PostUnloadDraft b) = (\<lambda>ctx. on_database (DraftUnloadToShippingBuffer_http (sr_config R) (sr_uuids R) E ctx b))"
| "route R E (PostUnloadSubmit b) = (\<lambda>ctx. on_database (SubmitUnloadToShippingBuffer_http (sr_config R) (sr_uuids R) E ctx b))"
| "route R E (PostShippingBuffer b) = (\<lambda>ctx. on_database (ShippingHttp.ScanBuffer_http (sr_uuids R) ctx b))"
| "route R E (PostScanDriver b) = (\<lambda>ctx. on_database (ScanDriver_http E ctx b))"
| "route R E (PostShipDraft b) = (\<lambda>ctx. on_database (DraftShip_http (sr_config R) (sr_uuids R) E ctx b))"
| "route R E (PostShipSubmit b) = (\<lambda>ctx. on_database (SubmitShip_http (sr_config R) (sr_uuids R) E ctx b))"
| "route R E (GetDispatchList st d w) = (\<lambda>ctx. on_database (GetDispatches_http (sr_uuids R) ctx st d w))"
| "route R E (PostDispatch b) = (\<lambda>ctx. on_database (NewDispatch_http (sr_db_zone R) (sr_zone R) E ctx b))"
| "route R E (GetDispatch i) = (\<lambda>ctx. on_database (GetDispatchByID_http (sr_uuids R) ctx i))"
| "route R E (GetDestinationList w) = (\<lambda>ctx. on_database (GetDestinations_http (sr_collate R) ctx w))"
| "route R E GetAnalyticsSummary = (\<lambda>ctx. on_database (GetSummary_http (sr_created R) E ctx))"
| "route R E GetAnalyticsOnchain = (\<lambda>ctx. on_database (GetOnchain_http (cf_crypto (sr_config R)) ctx))"
| "route R E (GetAnalyticsThroughput d) = (\<lambda>ctx. on_database (GetThroughput_http (sr_created R) E ctx d))"
| "route R E (GetProductsRecent q) = (\<lambda>ctx. on_database (GetRecent_http (sr_updated R) ctx q))"
| "route R E (GetProductsTimeline k) = (\<lambda>ctx. on_database (GetTimeline_http (sr_created R) (sr_uuids R) ctx k))"
| "route R E (GetOperationStatus i) = (\<lambda>ctx. on_database (OperationStatus_http (sr_uuids R) ctx i))"
| "route R E PostRegistrationBegin = (\<lambda>ctx. erased (BeginRegistration_http (sr_webauthn R) E ctx))"
| "route R E (PostRegistrationFinish b) = (\<lambda>ctx. erased (FinishRegistration_http (cf_crypto (sr_config R)) (sr_webauthn R) E ctx b))"
| "route R E GetMyPasskey = (\<lambda>ctx. on_database (MyPasskey_http (sr_config R) ctx))"
| "route R E GetOrganization = (\<lambda>ctx. on_database (Organization_http (sr_config R) ctx))"
| "route R E GetAdminKey = (\<lambda>ctx. on_database (AdminKeyExport_http (sr_config R) ctx))"
| "route R E (PostRejectKey b) = (\<lambda>ctx. on_database (RejectKey_http (sr_config R) ctx b))"
| "route R E (PostKeyRegisterDraft b) = (\<lambda>ctx. on_database (DraftKeyRegister_http (sr_config R) E ctx b))"
| "route R E (PostKeyRevokeDraft b) = (\<lambda>ctx. on_database (DraftKeyRevoke_http (sr_config R) E ctx b))"
| "route R E (PostKeySubmit i b) = (\<lambda>ctx. on_database (SubmitKeyAction_http (sr_config R) (sr_uuids R) E ctx i b))"

text \<open>Login and refresh are outside the middleware.\<close>

fun public :: "'body api_request \<Rightarrow> bool" where
  "public (PostLogin b) = True"
| "public (PostRefresh b) = True"
| "public q = False"

definition serve ::
  "('k :: linorder, 'sess, 'body, 'creation) server \<Rightarrow> timestamp \<Rightarrow> call_env \<Rightarrow> string \<Rightarrow> 'body api_request
   \<Rightarrow> ('sess passkey_service, unit) handler" where
  "serve R now E header q =
     (if public q then route R E q None else authenticated (sr_auth R) now header (route R E q))"

end
