(* ===== verification/AuthFlow.thy ===== *)
theory AuthFlow
  imports Auth Calendar
begin

text \<open>
  What the tokens stand for: an access token is the identity of the user who logged in until it
  expires, a refresh token is no identity and is worth what the user is worth when it is used, and only
  an active administrator makes users.
\<close>

section \<open>The libraries\<close>

text \<open>
  What the code relies on of the two libraries: a signed token is read back until its expiry date and
  not after, is not the empty text, a UUID prints and parses, and bcrypt accepts the password it hashed.
\<close>

definition auth_laws :: "auth_service \<Rightarrow> bool" where
  "auth_laws S \<longleftrightarrow>
     (\<forall>c t now. jwt_sign (ah_lib S) (ah_secret S) c = Some t \<longrightarrow>
        t \<noteq> [] \<and> jwt_parse (ah_lib S) (ah_secret S) now t = (if now < cl_expires c * 1000000000 then Some c else None))
   \<and> (\<forall>u. parse_uuid (ah_lib S) (uuid_string (ah_crypto S) u) = Some u)
   \<and> (\<forall>salt p h. bcrypt_hash (ah_lib S) salt p = Some h \<longrightarrow> bcrypt_compare (ah_lib S) h p)"

abbreviation bearer :: "string \<Rightarrow> string" where
  "bearer t \<equiv> ''Bearer '' @ t"

lemma extract_bearer: "t \<noteq> [] \<Longrightarrow> extractBearerToken (bearer t) = Some t"
  by (simp add: extractBearerToken_def)

lemma sign_ok: "sign S c = Inr t \<longleftrightarrow> jwt_sign (ah_lib S) (ah_secret S) c = Some t"
  by (auto simp: sign_def split: option.splits)

definition until :: "auth_service \<Rightarrow> int \<Rightarrow> timestamp \<Rightarrow> timestamp" where
  "until S ttl now = numeric_date (now + ttl) * 1000000000"

lemma access_token:
  assumes "auth_laws S" "generateAccessToken S t0 u r = Inr t"
  shows "Middleware S now (bearer t) = (if now < until S (ah_access_ttl S) t0 then Some (u, role_name r) else None)"
    and "parseToken S now t tokenTypeRefresh = Inl ErrInvalidToken"
proof -
  note s = assms(2) [unfolded generateAccessToken_def sign_ok]
  have t: "t \<noteq> []" and p: "\<And>now. jwt_parse (ah_lib S) (ah_secret S) now t = (if now < until S (ah_access_ttl S) t0 then
      Some \<lparr> cl_user = uuid_string (ah_crypto S) u, cl_role = role_name r, cl_type = tokenTypeAccess,
       cl_issued = numeric_date t0, cl_expires = numeric_date (t0 + ah_access_ttl S) \<rparr> else None)"
    using assms(1) s unfolding auth_laws_def until_def by fastforce+
  have id: "parse_uuid (ah_lib S) (uuid_string (ah_crypto S) u) = Some u" using assms(1) by (simp add: auth_laws_def)
  show "Middleware S now (bearer t) = (if now < until S (ah_access_ttl S) t0 then Some (u, role_name r) else None)"
    unfolding Middleware_def extract_bearer [OF t] by (simp add: parseToken_def p id)
  show "parseToken S now t tokenTypeRefresh = Inl ErrInvalidToken"
    by (simp add: parseToken_def p tokenTypeAccess_def tokenTypeRefresh_def)
qed

lemma refresh_token:
  assumes "auth_laws S" "generateRefreshToken S t0 u = Inr t"
  shows "Middleware S now (bearer t) = None"
    and "parseToken S now t tokenTypeRefresh = Inr c \<Longrightarrow> now < until S (ah_refresh_ttl S) t0 \<and> parse_uuid (ah_lib S) (cl_user c) = Some u"
    and "now < until S (ah_refresh_ttl S) t0 \<Longrightarrow> \<exists>c. parseToken S now t tokenTypeRefresh = Inr c \<and> parse_uuid (ah_lib S) (cl_user c) = Some u"
proof -
  note s = assms(2) [unfolded generateRefreshToken_def sign_ok]
  have t: "t \<noteq> []" and p: "\<And>now. jwt_parse (ah_lib S) (ah_secret S) now t = (if now < until S (ah_refresh_ttl S) t0 then
      Some \<lparr> cl_user = uuid_string (ah_crypto S) u, cl_role = [], cl_type = tokenTypeRefresh,
       cl_issued = numeric_date t0, cl_expires = numeric_date (t0 + ah_refresh_ttl S) \<rparr> else None)"
    using assms(1) s unfolding auth_laws_def until_def by fastforce+
  have id: "parse_uuid (ah_lib S) (uuid_string (ah_crypto S) u) = Some u" using assms(1) by (simp add: auth_laws_def)
  show "Middleware S now (bearer t) = None"
    unfolding Middleware_def extract_bearer [OF t] by (simp add: parseToken_def p tokenTypeAccess_def tokenTypeRefresh_def)
  show "parseToken S now t tokenTypeRefresh = Inr c \<Longrightarrow> now < until S (ah_refresh_ttl S) t0 \<and> parse_uuid (ah_lib S) (cl_user c) = Some u"
    "now < until S (ah_refresh_ttl S) t0 \<Longrightarrow> \<exists>c. parseToken S now t tokenTypeRefresh = Inr c \<and> parse_uuid (ah_lib S) (cl_user c) = Some u"
    by (auto simp: parseToken_def p id split: if_splits)
qed

lemma or_none_ok: "or_none e m s = (Inr a, s') \<longleftrightarrow> m s = (Inr a, s')"
  by (auto simp: or_none_def tx_handle_def tx_fail_apply split: prod.splits sum.splits)

lemma generateTokenPair_ok:
  "generateTokenPair S E k u s = (Inr p, s') \<longleftrightarrow> s' = s
     \<and> generateAccessToken S (clock E k) (us_id u) (us_role u) = Inr (tp_access p)
     \<and> generateRefreshToken S (clock E (k + 1)) (us_id u) = Inr (tp_refresh p)"
  by (cases p) (auto simp: generateTokenPair_def tx_oks)

lemma Login_ok:
  "Login S E name pw s = (Inr p, s') \<longleftrightarrow> name \<noteq> [] \<and> pw \<noteq> []
     \<and> (\<exists>u. List.find (\<lambda>u. us_name u = name) (users s) = Some u \<and> us_active u
          \<and> bcrypt_compare (ah_lib S) (us_password_hash u) pw \<and> generateTokenPair S E 0 u s = (Inr p, s'))"
  by (auto simp: Login_def tx_oks or_none_ok GetUserByUsername_def)

lemma Refresh_ok:
  "Refresh S E t s = (Inr p, s') \<longleftrightarrow> (\<exists>c i u. parseToken S (clock E 0) t tokenTypeRefresh = Inr c
     \<and> parse_uuid (ah_lib S) (cl_user c) = Some i \<and> List.find (\<lambda>u. us_id u = i) (users s) = Some u \<and> us_active u
     \<and> generateTokenPair S E 1 u s = (Inr p, s'))"
  by (auto simp: Refresh_def tx_oks tx_case_oks or_none_ok GetUserByID_def)

text \<open>C9: a login makes an identity, and nothing more. Whoever logs in is an active user whose password
  bcrypt accepts; nothing is written; until it expires, and not longer, the access token is taken by the
  middleware for that user with the role of that moment, while the refresh token is never taken for an
  identity and the access token never refreshes.\<close>

theorem Login_tokens:
  assumes laws: "auth_laws S" and login: "Login S E name pw s = (Inr p, s')"
  shows "s' = s \<and> (\<exists>u\<in>set (users s). us_name u = name \<and> us_active u \<and> bcrypt_compare (ah_lib S) (us_password_hash u) pw
    \<and> (\<forall>now. Middleware S now (bearer (tp_access p)) =
          (if now < until S (ah_access_ttl S) (clock E 0) then Some (us_id u, role_name (us_role u)) else None))
    \<and> (\<forall>now. Middleware S now (bearer (tp_refresh p)) = None)
    \<and> (\<forall>E' t. Refresh S E' (tp_access p) t = (Inl ErrInvalidToken, t)))"
proof -
  obtain u where u: "List.find (\<lambda>u. us_name u = name) (users s) = Some u" "us_active u"
      "bcrypt_compare (ah_lib S) (us_password_hash u) pw"
    and g: "generateTokenPair S E 0 u s = (Inr p, s')"
    using login unfolding Login_ok by blast
  note g' = g [unfolded generateTokenPair_ok]
  have "Refresh S E' (tp_access p) t = (Inl ErrInvalidToken, t)" for E' t
    using access_token(2) [OF laws conjunct1 [OF conjunct2 [OF g']]]
    by (simp add: Refresh_def tx_bind_def tx_lift_def)
  then show ?thesis
    using find_Some_set [OF u(1)] u(2,3) g' access_token(1) [OF laws] refresh_token(1) [OF laws] by auto
qed

text \<open>C18: a refresh is worth what the user is worth now. The refresh token of a login, used at any later
  time in any state of the database, gives a new pair exactly when it has not expired, the user still
  exists and is active, and the tokens can be signed; the identity in the new access token carries the
  role the user has then, not the one of the login.\<close>

theorem Refresh_current:
  assumes laws: "auth_laws S" and login: "Login S E name pw s = (Inr p, s')"
    and refresh: "Refresh S E' (tp_refresh p) t = (Inr q, t')"
  shows "t' = t \<and> clock E' 0 < until S (ah_refresh_ttl S) (clock E 1)
    \<and> (\<exists>u\<in>set (users s). us_name u = name \<and> (\<exists>v\<in>set (users t). us_id v = us_id u \<and> us_active v
        \<and> (\<forall>now. now < until S (ah_access_ttl S) (clock E' 1) \<longrightarrow>
             Middleware S now (bearer (tp_access q)) = Some (us_id u, role_name (us_role v)))))"
proof -
  obtain u where u: "List.find (\<lambda>u. us_name u = name) (users s) = Some u" and g: "generateTokenPair S E 0 u s = (Inr p, s')"
    using login unfolding Login_ok by blast
  obtain c i v where c: "parseToken S (clock E' 0) (tp_refresh p) tokenTypeRefresh = Inr c" "parse_uuid (ah_lib S) (cl_user c) = Some i"
    and v: "List.find (\<lambda>u. us_id u = i) (users t) = Some v" "us_active v" and h: "generateTokenPair S E' 1 v t = (Inr q, t')"
    using refresh unfolding Refresh_ok by blast
  have "generateRefreshToken S (clock E 1) (us_id u) = Inr (tp_refresh p)" using g by (simp add: generateTokenPair_ok)
  from refresh_token(2) [OF laws this c(1)] have r: "clock E' 0 < until S (ah_refresh_ttl S) (clock E 1)" "i = us_id u"
    using c(2) by auto
  note h' = h [unfolded generateTokenPair_ok]
  show ?thesis
    using r find_Some_set [OF u] find_Some_set [OF v(1)] v(2) h' access_token(1) [OF laws conjunct1 [OF conjunct2 [OF h']]]
    by auto
qed

text \<open>The two unique keys of the table, and names that can log in.\<close>

definition users_wf :: "wms_db \<Rightarrow> bool" where
  "users_wf s \<longleftrightarrow> distinct (map us_id (users s)) \<and> distinct (map us_name (users s)) \<and> (\<forall>u\<in>set (users s). us_name u \<noteq> [])"

lemma isValidRole_Some: "isValidRole role = Some r \<longleftrightarrow> role_name r = role"
proof -
  have "inj role_name" unfolding inj_def role_name_def by (auto split: user_role.splits)
  then show ?thesis
    by (cases r) (auto simp: isValidRole_def role_name_def split: user_role.splits)
qed

lemma Register_ok:
  "Register S E i r name pw role s = (Inr u, s') \<longleftrightarrow> i \<noteq> uuid_Nil \<and> r = role_name UserRoleAdmin
     \<and> (\<exists>a. List.find (\<lambda>a. us_id a = i) (users s) = Some a \<and> us_active a \<and> us_role a = UserRoleAdmin)
     \<and> name \<noteq> [] \<and> isValidPasswordLength pw \<and> isValidRole role \<noteq> None
     \<and> (\<exists>h. bcrypt_hash (ah_lib S) (random E 0) pw = Some h
          \<and> u = \<lparr> us_id = fresh E 0, us_name = name, us_password_hash = h, us_role = the (isValidRole role), us_active = True, us_org = None \<rparr>)
     \<and> us_name u \<notin> us_name ` set (users s) \<and> us_id u \<notin> us_id ` set (users s) \<and> s' = s\<lparr>users := users s @ [u]\<rparr>"
  by (cases s) (auto simp: Register_def tx_oks tx_case_oks or_none_ok GetUserByID_def CreateUser_def Let_def sql_insert_def split: if_splits)

text \<open>C36: registration is an administrator's act and yields a user who can log in. It succeeds only for an
  active administrator of the database, whatever the token says; it adds exactly one active user, with
  a free name and the role that was asked for, and keeps the table well formed; with the password that
  was given, that user's login then answers with the tokens of that user.\<close>

theorem Register_Login:
  assumes laws: "auth_laws S" and wf: "users_wf s" and ok: "Register S E i r name pw role s = (Inr u, s')"
  shows "(\<exists>a\<in>set (users s). us_id a = i \<and> us_active a \<and> us_role a = UserRoleAdmin)
    \<and> s' = s\<lparr>users := users s @ [u]\<rparr> \<and> users_wf s' \<and> us_name u = name \<and> us_active u \<and> role_name (us_role u) = role
    \<and> Login S E' name pw s' = generateTokenPair S E' 0 u s'"
proof -
  note R = ok [unfolded Register_ok]
  obtain h where h: "bcrypt_hash (ah_lib S) (random E 0) pw = Some h" "us_password_hash u = h" "us_name u = name" "us_active u"
      "us_id u = fresh E 0" "us_role u = the (isValidRole role)"
    using R by auto
  have s': "s' = s\<lparr>users := users s @ [u]\<rparr>" and new: "name \<notin> us_name ` set (users s)" "us_id u \<notin> us_id ` set (users s)" "name \<noteq> []" "pw \<noteq> []"
    using R h(3) by (auto simp: isValidPasswordLength_def)
  have "List.find (\<lambda>u. us_name u = name) (users s) = None" using new(1) by (auto simp: find_None_iff)
  then have "List.find (\<lambda>u. us_name u = name) (users s') = Some u"
    unfolding s' using h(3) by (simp add: find_append_None)
  moreover have "bcrypt_compare (ah_lib S) (us_password_hash u) pw" using laws h(1,2) unfolding auth_laws_def by blast
  ultimately have "Login S E' name pw s' = generateTokenPair S E' 0 u s'"
    using new(3,4) h(4) by (simp add: Login_def tx_simps or_none_def GetUserByUsername_def sql_row_def)
  moreover have "users_wf s'" using wf new h(3) unfolding users_wf_def s' by auto
  moreover have "role_name (us_role u) = role"
  proof -
    obtain x where x: "isValidRole role = Some x" using R by blast
    have "us_role u = x" unfolding h(6) x by simp
    then show ?thesis using iffD1 [OF isValidRole_Some x] by (rule ssubst)
  qed
  moreover obtain a where a: "List.find (\<lambda>a. us_id a = i) (users s) = Some a" "us_active a" "us_role a = UserRoleAdmin"
    using R by blast
  have "\<exists>a\<in>set (users s). us_id a = i \<and> us_active a \<and> us_role a = UserRoleAdmin"
    using find_Some_set [OF a(1)] a(2,3) by blast
  ultimately show ?thesis using s' h(3,4) by simp
qed

section \<open>A concrete service\<close>

text \<open>One administrator, tokens kept in a table, a password that is its own hash.\<close>

definition demo_tokens :: "(tokenClaims \<times> string) list" where
  "demo_tokens =
     [(\<lparr> cl_user = dec 7, cl_role = ''ADMIN'', cl_type = ''access'', cl_issued = 0, cl_expires = 900 \<rparr>, ''a0''),
      (\<lparr> cl_user = dec 7, cl_role = [], cl_type = ''refresh'', cl_issued = 0, cl_expires = 3600 \<rparr>, ''r0''),
      (\<lparr> cl_user = dec 7, cl_role = ''ADMIN'', cl_type = ''access'', cl_issued = 60, cl_expires = 960 \<rparr>, ''a1''),
      (\<lparr> cl_user = dec 7, cl_role = [], cl_type = ''refresh'', cl_issued = 60, cl_expires = 3660 \<rparr>, ''r1'')]"

definition demo_auth :: auth_service where
  "demo_auth = \<lparr> ah_lib = \<lparr> jwt_sign = (\<lambda>_. map_of demo_tokens),
       jwt_parse = (\<lambda>_ now t. case map_of (map (\<lambda>(c, t). (t, c)) demo_tokens) t of None \<Rightarrow> None
          | Some c \<Rightarrow> if now < cl_expires c * 1000000000 then Some c else None),
       bcrypt_hash = (\<lambda>_. Some), bcrypt_compare = (=), parse_uuid = (\<lambda>t. Some (word_of_nat (num_of t))) \<rparr>,
     ah_crypto = demo_crypto\<lparr>uuid_string := (\<lambda>u. dec (unat u))\<rparr>, ah_secret = [1],
     ah_access_ttl = 900000000000, ah_refresh_ttl = 3600000000000 \<rparr>"

definition demo_admin :: user where
  "demo_admin = \<lparr> us_id = 7, us_name = ''alice'', us_password_hash = ''secret'', us_role = UserRoleAdmin, us_active = True, us_org = None \<rparr>"

definition demo_users_db :: wms_db where
  "demo_users_db = empty_db\<lparr>users := [demo_admin]\<rparr>"

definition demo_later :: call_env where
  "demo_later = demo_env\<lparr>clock := \<lambda>k. 60000000000 + int k\<rparr>"

lemma demo_auth_laws: "auth_laws demo_auth"
proof -
  have "t \<noteq> [] \<and> map_of (map (\<lambda>(c, t). (t, c)) demo_tokens) t = Some c" if "map_of demo_tokens c = Some t" for c t
  proof -
    have "(c, t) \<in> set demo_tokens" using that by (rule map_of_SomeD)
    then show ?thesis by (auto simp: demo_tokens_def)
  qed
  then show ?thesis by (auto simp: auth_laws_def demo_auth_def num_of_dec)
qed

lemma demo_login: "Login demo_auth demo_env ''alice'' ''secret'' demo_users_db = (Inr \<lparr> tp_access = ''a0'', tp_refresh = ''r0'' \<rparr>, demo_users_db)"
  by (simp add: Login_ok generateTokenPair_ok generateAccessToken_def generateRefreshToken_def sign_ok demo_auth_def
      demo_users_db_def demo_admin_def demo_tokens_def numeric_date_def tokenTypeAccess_def tokenTypeRefresh_def role_name_def)

lemma demo_refresh: "Refresh demo_auth demo_later ''r0'' demo_users_db = (Inr \<lparr> tp_access = ''a1'', tp_refresh = ''r1'' \<rparr>, demo_users_db)"
  by (simp add: Refresh_ok parseToken_def generateTokenPair_ok generateAccessToken_def generateRefreshToken_def sign_ok demo_auth_def
      demo_users_db_def demo_admin_def demo_tokens_def numeric_date_def tokenTypeAccess_def tokenTypeRefresh_def role_name_def
      demo_later_def num_of_dec)

lemma demo_auth_times:
  "until demo_auth (ah_access_ttl demo_auth) 0 = 900000000000"
  "until demo_auth (ah_access_ttl demo_auth) 60000000001 = 960000000000"
  "until demo_auth (ah_refresh_ttl demo_auth) 7000000 = 3600000000000"
  by (simp_all add: demo_auth_def until_def numeric_date_def)

lemma Login_tokens_witness:
  "Middleware demo_auth 899000000000 (bearer ''a0'') = Some (7, ''ADMIN'')
   \<and> Middleware demo_auth 900000000000 (bearer ''a0'') = None
   \<and> Middleware demo_auth 5 (bearer ''r0'') = None
   \<and> Refresh demo_auth demo_later ''a0'' empty_db = (Inl ErrInvalidToken, empty_db)"
proof -
  have u: "users demo_users_db = [demo_admin]" "us_id demo_admin = 7" "role_name (us_role demo_admin) = ''ADMIN''"
    by (simp_all add: demo_users_db_def demo_admin_def role_name_def)
  have t: "tp_access \<lparr> tp_access = ''a0'', tp_refresh = ''r0'' \<rparr> = ''a0''" "tp_refresh \<lparr> tp_access = ''a0'', tp_refresh = ''r0'' \<rparr> = ''r0''"
    "clock demo_env 0 = 0" by simp_all
  obtain v where v: "v \<in> set [demo_admin]"
    and m: "\<forall>now. Middleware demo_auth now (bearer ''a0'') = (if now < 900000000000 then Some (us_id v, role_name (us_role v)) else None)"
      "\<forall>now. Middleware demo_auth now (bearer ''r0'') = None"
      "\<forall>E' t. Refresh demo_auth E' ''a0'' t = (Inl ErrInvalidToken, t)"
    using Login_tokens [OF demo_auth_laws demo_login, unfolded u(1) t demo_auth_times] by blast
  have "v = demo_admin" using v by simp
  then show ?thesis using m(1) [rule_format, of 899000000000] m(1) [rule_format, of 900000000000] m(2,3) by (simp add: u)
qed

lemma Refresh_current_witness:
  "clock demo_later 0 < 3600000000000 \<and> Middleware demo_auth 950000000000 (bearer ''a1'') = Some (7, ''ADMIN'')"
proof -
  have u: "users demo_users_db = [demo_admin]" "us_id demo_admin = 7" "role_name (us_role demo_admin) = ''ADMIN''"
    by (simp_all add: demo_users_db_def demo_admin_def role_name_def)
  have l: "tp_refresh \<lparr> tp_access = ''a0'', tp_refresh = ''r0'' \<rparr> = ''r0''" "clock demo_later 1 = 60000000001"
    by (simp_all add: demo_later_def)
  note R = Refresh_current [OF demo_auth_laws demo_login, unfolded l(1), OF demo_refresh]
  show ?thesis using R by (simp add: u l(2) [simplified] demo_auth_times)
qed

lemma Register_Login_witness:
  "users_wf (snd (Register demo_auth demo_env 7 ''ADMIN'' ''bob'' ''hunter2'' ''OPERATOR'' demo_users_db))
   \<and> (let s = snd (Register demo_auth demo_env 7 ''ADMIN'' ''bob'' ''hunter2'' ''OPERATOR'' demo_users_db)
      in Login demo_auth demo_env ''bob'' ''hunter2'' s = generateTokenPair demo_auth demo_env 0 (last (users s)) s)"
proof -
  let ?u = "\<lparr> us_id = 100, us_name = ''bob'', us_password_hash = ''hunter2'', us_role = UserRoleOperator, us_active = True, us_org = None \<rparr>"
  have r: "Register demo_auth demo_env 7 ''ADMIN'' ''bob'' ''hunter2'' ''OPERATOR'' demo_users_db
      = (Inr ?u, demo_users_db\<lparr>users := users demo_users_db @ [?u]\<rparr>)"
    by (simp add: Register_ok demo_users_db_def demo_admin_def demo_auth_def isValidPasswordLength_def isValidRole_def role_name_def)
  have wf: "users_wf demo_users_db" by (simp add: users_wf_def demo_users_db_def demo_admin_def)
  show ?thesis using Register_Login [OF demo_auth_laws wf r, of demo_env] unfolding r by simp
qed

end
