(* ===== verification/RouterFlow.thy ===== *)
theory RouterFlow
  imports Router AuthFlow
begin

text \<open>
  Who may do what through the server: the tables of the roles that are let in and of those that can change
  anything, and the proof that the handlers keep to them.
\<close>

section \<open>The tables\<close>

text \<open>The roles a route answers.\<close>

fun callers :: "'body api_request \<Rightarrow> user_role set" where
  "callers (PostRegister b) = {UserRoleAdmin}"
| "callers (PostAllocate b) = {UserRoleAdmin, UserRoleOperator}"
| "callers GetAnalyticsSummary = {UserRoleAdmin, UserRoleOperator}"
| "callers GetAnalyticsOnchain = {UserRoleAdmin, UserRoleOperator}"
| "callers (GetAnalyticsThroughput d) = {UserRoleAdmin, UserRoleOperator}"
| "callers (GetProductsRecent q) = {UserRoleAdmin, UserRoleOperator}"
| "callers (GetProductsTimeline k) = {UserRoleAdmin, UserRoleOperator}"
| "callers (GetOperationStatus i) = {UserRoleAdmin, UserRoleOperator}"
| "callers PostRegistrationBegin = {UserRoleAdmin, UserRoleOperator}"
| "callers (PostRegistrationFinish b) = {UserRoleAdmin, UserRoleOperator}"
| "callers GetMyPasskey = {UserRoleAdmin, UserRoleOperator}"
| "callers GetOrganization = {UserRoleAdmin}"
| "callers GetAdminKey = {UserRoleAdmin}"
| "callers (PostRejectKey b) = {UserRoleAdmin}"
| "callers (PostKeyRegisterDraft b) = {UserRoleAdmin}"
| "callers (PostKeyRevokeDraft b) = {UserRoleAdmin}"
| "callers (PostKeySubmit i b) = {UserRoleAdmin}"
| "callers q = {UserRoleOperator}"

text \<open>The routes that never change the state.\<close>

fun reading :: "'body api_request \<Rightarrow> bool" where
  "reading (PostLogin b) = True"
| "reading (PostRefresh b) = True"
| "reading (PostPutawayBuffer b) = True"
| "reading (PostPutawayProduct b) = True"
| "reading (GetTaskList d u st) = True"
| "reading (PostShippingBuffer b) = True"
| "reading (GetDispatchList st d w) = True"
| "reading (GetDispatch i) = True"
| "reading (GetDestinationList w) = True"
| "reading GetAnalyticsSummary = True"
| "reading GetAnalyticsOnchain = True"
| "reading (GetAnalyticsThroughput d) = True"
| "reading (GetProductsRecent q) = True"
| "reading (GetProductsTimeline k) = True"
| "reading (GetOperationStatus i) = True"
| "reading q = False"

section \<open>Gates\<close>

definition has_role :: "identity \<Rightarrow> user_role set \<Rightarrow> bool" where
  "has_role ctx roles \<longleftrightarrow> (\<exists>u r. ctx = Some (u, role_name r) \<and> u \<noteq> uuid_Nil \<and> r \<in> roles)"

lemma requireRole_refuses:
  "\<not> has_role ctx (set allowed) \<Longrightarrow> requireRole ctx allowed \<in> {Inl (401, ''UNAUTHORIZED''), Inl (403, ''FORBIDDEN'')}"
proof -
  assume no: "\<not> has_role ctx (set allowed)"
  then have "requireRole ctx allowed \<noteq> Inr u" for u unfolding requireRole_ok has_role_def by blast
  from this [of "UserIDFromCtx ctx"] show ?thesis by (simp add: requireRole_def split: if_splits)
qed

text \<open>A handler refuses when it answers 401 or 403 and does nothing else.\<close>

definition refuses :: "('s, 'a) handler \<Rightarrow> bool" where
  "refuses h \<longleftrightarrow> (\<forall>s. snd (h s) = s \<and> fst (fst (h s)) \<in> {401, 403})"

lemma refuses_gated: "\<not> has_role ctx (set allowed) \<Longrightarrow> refuses (gated (requireRole ctx allowed) k)"
  using requireRole_refuses [of ctx allowed] by (auto simp: refuses_def gated_refused WriteError_def)

lemma refuses_erased: "refuses h \<Longrightarrow> refuses (erased h)"
  by (auto simp: refuses_def erased_def case_prod_unfold)

lemma refuses_on_database: "refuses h \<Longrightarrow> refuses (on_database h)"
  using refuses_erased [of h] by (auto simp: refuses_def on_database_def case_prod_unfold)

section \<open>Reading\<close>

named_theorems keeps_intro

definition keeps :: "('s \<Rightarrow> 'a \<times> 's) \<Rightarrow> bool" where
  "keeps h \<longleftrightarrow> (\<forall>s. snd (h s) = s)"

lemma keeps_tx [keeps_intro]:
  "keeps (tx_return a)" "keeps (tx_fail e)" "keeps (tx_query q)" "keeps (tx_get g)" "keeps (tx_check b e)" "keeps (tx_lift r)"
  by (simp_all add: keeps_def tx_simps)

lemma keeps_bind [keeps_intro]: "keeps m \<Longrightarrow> (\<And>a. keeps (f a)) \<Longrightarrow> keeps (tx_bind m f)"
  by (auto simp: keeps_def tx_simps split: prod.splits sum.splits)

lemma keeps_seq [keeps_intro]: "keeps m \<Longrightarrow> keeps k \<Longrightarrow> keeps (tx_seq m k)"
  by (auto simp: keeps_def tx_simps split: prod.splits sum.splits)

lemma keeps_handle [keeps_intro]: "keeps m \<Longrightarrow> (\<And>e. keeps (f e)) \<Longrightarrow> keeps (tx_handle m f)"
  by (auto simp: keeps_def tx_simps split: prod.splits sum.splits)

lemma keeps_handler [keeps_intro]:
  "keeps m \<Longrightarrow> keeps (answer_with n f view m)" "(\<And>u. keeps (k u)) \<Longrightarrow> keeps (gated g k)"
  "(\<And>x. keeps (j x)) \<Longrightarrow> keeps (decoded d j)"
  by (auto simp: keeps_def answer_with_def gated_def decoded_def case_prod_unfold split: sum.splits option.splits)

lemma keeps_reply [keeps_intro]: "keeps (\<lambda>s. (f s, s))"
  by (simp add: keeps_def)

lemma keeps_erased: "keeps h \<Longrightarrow> keeps (erased h)"
  by (simp add: keeps_def erased_def case_prod_unfold)

lemma keeps_on_database: "keeps h \<Longrightarrow> keeps (on_database h)"
  using keeps_erased [of h] by (simp add: keeps_def on_database_def case_prod_unfold)

lemma keeps_cases [keeps_intro]:
  "(\<And>x. c = Some x \<Longrightarrow> keeps (f x)) \<Longrightarrow> (c = None \<Longrightarrow> keeps g) \<Longrightarrow> keeps (case c of None \<Rightarrow> g | Some x \<Rightarrow> f x)"
  "(b \<Longrightarrow> keeps h) \<Longrightarrow> (\<not> b \<Longrightarrow> keeps k) \<Longrightarrow> keeps (if b then h else k)"
  "(\<And>x y. p = (x, y) \<Longrightarrow> keeps (j x y)) \<Longrightarrow> keeps (case p of (x, y) \<Rightarrow> j x y)"
  by (simp_all split: option.split prod.split)

lemmas reading_handlers =
  Login_http_def Refresh_http_def PutawayHttp.ScanBuffer_http_def ScanProduct_http_def GetTasks_http_def
  ShippingHttp.ScanBuffer_http_def GetDispatches_http_def GetDispatchByID_http_def GetDestinations_http_def
  GetSummary_http_def GetOnchain_http_def GetThroughput_http_def GetRecent_http_def GetTimeline_http_def
  OperationStatus_http_def

lemmas reading_services =
  answer_def Login_def Refresh_def or_none_def GetUserByUsername_def GetUserByID_def generateTokenPair_def
  GetBufferProducts_def AddToPutawayCart_def GetTasks_def ShippingScanBuffer_def GetDispatchesByFilter_def
  GetBufferBinByID_def Putaway.GetProductByID_def GetSKUByProductID_def AssemblyGetTasks_def GetBinWithDestinationByID_def
  Dispatches.GetDispatchByID_def GetDestinations_def Timeline_def resolveProduct_def OperationStatus_def

lemma reading_route: "reading q \<Longrightarrow> keeps (route R E q ctx)"
  by (cases q; simp only: route.simps reading.simps; (intro keeps_on_database; unfold reading_handlers reading_services Let_def; intro keeps_intro; fail)?)

section \<open>Refusing\<close>

lemmas role_gates = RequireOperator_def RequireAdmin_def RequireAdminOrOperator_def

lemmas gated_handlers = reading_handlers
  ScanTTN_http_def ScanCargoplace_http_def AcceptShipment_http_def ScanTableCargoplace_http_def ScanBox_http_def ScanSKU_http_def
  ScanQR_http_def CloseBox_http_def ReceivingHttp.ScanBuffer_http_def DraftCloseCargoplace_http_def SubmitCloseCargoplace_http_def
  DraftPlaceToStorageBin_http_def SubmitPlaceToStorageBin_http_def Allocate_http_def Pick_http_def
  DraftUnloadToShippingBuffer_http_def SubmitUnloadToShippingBuffer_http_def ScanDriver_http_def DraftShip_http_def SubmitShip_http_def
  NewDispatch_http_def BeginRegistration_http_def FinishRegistration_http_def MyPasskey_http_def Organization_http_def
  AdminKeyExport_http_def RejectKey_http_def DraftKeyRegister_http_def DraftKeyRevoke_http_def draftKeyAction_http_def SubmitKeyAction_http_def

text \<open>Registration checks its caller in the service, after the body: it answers 400 or 403.\<close>

fun registers :: "'body api_request \<Rightarrow> bool" where
  "registers (PostRegister b) = True"
| "registers q = False"

lemma route_refuses:
  assumes "\<not> has_role ctx (callers q)" "\<not> public q" "\<not> registers q"
  shows "refuses (route R E q ctx)"
  using assms
  by (cases q; simp only: route.simps callers.simps public.simps registers.simps not_True_eq_False)
    (unfold gated_handlers role_gates, (intro refuses_on_database refuses_erased refuses_gated; simp)+)

lemma keeps_refused: "refuses h \<Longrightarrow> snd (h s) = s"
  by (simp add: refuses_def)

text \<open>A registration by anyone but an administrator changes nothing.\<close>

lemma Register_refused:
  assumes "\<not> has_role ctx {UserRoleAdmin}"
  shows "snd (Register_http S E ctx b s) = s \<and> fst (fst (Register_http S E ctx b s)) \<in> {400, 403}"
proof -
  have "\<not> (UserIDFromCtx ctx \<noteq> uuid_Nil \<and> UserRoleFromCtx ctx = role_name UserRoleAdmin)"
    using assms by (auto simp: has_role_def UserIDFromCtx_def UserRoleFromCtx_def split: option.splits prod.splits)
  then have "Register S E (UserIDFromCtx ctx) (UserRoleFromCtx ctx) name pw role s = (Inl AuthForbidden, s)" for name pw role
    by (auto simp: Register_def tx_simps)
  then show ?thesis
    by (cases b) (auto simp: Register_http_def decoded_def answer_with_def register_error_def WriteError_def)
qed

lemma serve_private: "\<not> public q \<Longrightarrow> serve R now E header q v =
  (case Middleware (sr_auth R) now header of None \<Rightarrow> (WriteError 401 ''unauthorized'', v) | Some i \<Rightarrow> route R E q (Some i) v)"
  by (simp add: serve_def authenticated_def)

text \<open>C19: no one without the role gets past the gate of a route. For every route but the public ones (login
  and refresh): unless the bearer token of the request is taken for a user with one of the roles of its
  route, the state of the server, database and registration sessions, is as before, and the answer is 401
  or 403. One route answers 400 instead when its body does not decode, the registration of a user, which
  decodes before it looks at the role.\<close>

theorem serve_refuses:
  assumes "\<not> has_role (Middleware (sr_auth R) now header) (callers q)" "\<not> public q"
  shows "snd (serve R now E header q v) = v
    \<and> fst (fst (serve R now E header q v)) \<in> (if registers q then {400, 401, 403} else {401, 403})"
proof (cases "Middleware (sr_auth R) now header")
  case None
  then show ?thesis using assms(2) by (simp add: serve_private WriteError_def)
next
  case (Some i)
  note s = serve_private [OF assms(2), of R now E header v, unfolded Some option.case]
  show ?thesis
  proof (cases "registers q")
    case True
    then obtain b where q: "q = PostRegister b" by (cases q) auto
    have "\<not> has_role (Some i) {UserRoleAdmin}" using assms(1) by (simp add: Some q)
    from Register_refused [OF this, of "sr_auth R" E b "sv_db v"] show ?thesis
      unfolding s by (auto simp: q on_database_def erased_def case_prod_unfold)
  next
    case False
    have "refuses (route R E q (Some i))" using route_refuses assms False by (simp add: Some)
    then show ?thesis unfolding s by (simp add: refuses_def False)
  qed
qed

text \<open>C7: who can change what the server holds. If a request leaves the state different from before, its route
  is one of those that write, and its bearer token is taken for a user with one of the roles of that route:
  in particular never an auditor or a customer, and never a request without a token.\<close>

theorem serve_writes:
  assumes "snd (serve R now E header q v) \<noteq> v"
  shows "\<not> reading q \<and> (\<exists>u r. Middleware (sr_auth R) now header = Some (u, role_name r) \<and> u \<noteq> uuid_Nil
    \<and> r \<in> callers q \<and> r \<in> {UserRoleAdmin, UserRoleOperator})"
proof -
  have pub: "public q \<Longrightarrow> reading q" by (cases q) auto
  have roles: "\<not> public q \<Longrightarrow> callers q \<subseteq> {UserRoleAdmin, UserRoleOperator}" by (cases q) auto
  have read: "\<not> reading q"
  proof
    assume "reading q"
    from reading_route [OF this] have "snd (serve R now E header q v) = v"
      by (auto simp: keeps_def serve_def authenticated_def split: option.splits)
    then show False using assms by simp
  qed
  then have "\<not> public q" using pub by blast
  then have "has_role (Middleware (sr_auth R) now header) (callers q)" using serve_refuses assms by blast
  then show ?thesis using read roles \<open>\<not> public q\<close> unfolding has_role_def by blast
qed

section \<open>A concrete server\<close>

definition demo_server :: "(nat, unit, unit, unit) server" where
  "demo_server = \<lparr> sr_auth = demo_auth, sr_config = demo_config,
     sr_webauthn = \<lparr> wl_begin = (\<lambda>_ _. None), wl_create = (\<lambda>_ _ _ _. None) \<rparr>,
     sr_uuids = (\<lambda>t. Some (word_of_nat (num_of t))), sr_db_zone = 0, sr_zone = 0, sr_collate = length,
     sr_created = (\<lambda>_. 0), sr_updated = (\<lambda>_. 0) \<rparr>"

definition demo_service :: "unit passkey_service" where
  "demo_service = \<lparr> sv_sessions = [], sv_db = demo_users_db \<rparr>"

abbreviation bob :: "unit api_request" where
  "bob \<equiv> PostRegister (Some (''bob'', ''hunter2'', ''OPERATOR''))"

lemma demo_admin_token: "Middleware demo_auth 5 (bearer ''a0'') = Some (7, ''ADMIN'')"
  using access_token(1) [OF demo_auth_laws, of 0 7 UserRoleAdmin "''a0''" 5]
  by (simp add: generateAccessToken_def sign_ok demo_auth_times role_name_def)
     (simp add: demo_auth_def demo_tokens_def numeric_date_def tokenTypeAccess_def)

lemma serve_writes_witness:
  "snd (serve demo_server 5 demo_env (bearer ''a0'') bob demo_service) \<noteq> demo_service
   \<and> (\<exists>u r. Middleware demo_auth 5 (bearer ''a0'') = Some (u, role_name r) \<and> r = UserRoleAdmin)"
proof -
  let ?u = "\<lparr> us_id = 100, us_name = ''bob'', us_password_hash = ''hunter2'', us_role = UserRoleOperator, us_active = True, us_org = None \<rparr>"
  have r: "Register demo_auth demo_env 7 ''ADMIN'' ''bob'' ''hunter2'' ''OPERATOR'' demo_users_db
      = (Inr ?u, demo_users_db\<lparr>users := users demo_users_db @ [?u]\<rparr>)"
    by (simp add: Register_ok demo_users_db_def demo_admin_def demo_auth_def isValidPasswordLength_def isValidRole_def role_name_def)
  have u: "users demo_users_db = [demo_admin]" by (simp add: demo_users_db_def)
  have "users (sv_db (snd (serve demo_server 5 demo_env (bearer ''a0'') bob demo_service))) = [demo_admin, ?u]"
    by (simp add: serve_def authenticated_def demo_server_def demo_admin_token [simplified] on_database_def erased_def Register_http_def decoded_def
        answer_with_def UserIDFromCtx_def UserRoleFromCtx_def demo_service_def WriteJSON_def r u)
  then have c: "snd (serve demo_server 5 demo_env (bearer ''a0'') bob demo_service) \<noteq> demo_service"
    by (auto simp: demo_service_def u)
  show ?thesis using serve_writes [OF c] c by (auto simp: demo_server_def)
qed

lemma serve_refuses_witness:
  "snd (serve demo_server 5 demo_env (bearer ''a0'') (PostScanTTN (Some ''T'')) demo_service) = demo_service
   \<and> fst (fst (serve demo_server 5 demo_env [] (PostScanTTN None) demo_service)) \<in> {401, 403}"
proof -
  have "Middleware demo_auth 5 [] = None" by (simp add: Middleware_def extractBearerToken_def)
  then have n: "\<not> has_role (Middleware (sr_auth demo_server) 5 (bearer ''a0'')) (callers (PostScanTTN (Some ''T'')))"
    "\<not> has_role (Middleware (sr_auth demo_server) 5 []) (callers (PostScanTTN None))"
    using demo_admin_token by (simp_all add: has_role_def demo_server_def role_name_def)
  show ?thesis
    using serve_refuses [OF n(1), of demo_env demo_service] serve_refuses [OF n(2), of demo_env demo_service] by simp
qed

end
