(* ===== verification/DispatchFlow.thy ===== *)
theory DispatchFlow
  imports Dispatches
begin

text \<open>
  Trip codes: as long as a creation does not run across midnight every code is new, and one that does
  blocks the whole next day. The listing of trips answers its filter.
\<close>

section \<open>Codes\<close>

lemma dispatch_code_inject: "dispatch_code d n = dispatch_code e m \<longleftrightarrow> d = e \<and> n = m"
proof
  assume eq: "dispatch_code d n = dispatch_code e m"
  have len: "length (rev (''-'' @ pad 3 n)) = Suc (length (pad 3 n))" for n by simp
  have "rev (pad 3 n) @ CHR ''-'' # rev (format_compact d) = rev (pad 3 m) @ CHR ''-'' # rev (format_compact e)"
    using eq by (simp add: dispatch_code_def flip: rev_append) (metis append.assoc append_Cons append_Nil rev.simps(2) rev_append rev_rev_ident)
  then have "rev (pad 3 n) = rev (pad 3 m) \<and> rev (format_compact d) = rev (format_compact e)"
    by (subst (asm) split_at_first) simp_all
  then show "d = e \<and> n = m" by (simp add: pad_inject format_compact_inject)
qed simp

definition since :: "int \<Rightarrow> nat \<Rightarrow> wms_db \<Rightarrow> nat" where
  "since dbz day s = sql_count (\<lambda>d. day \<le> day_in dbz (dp_created d)) (outbound_dispatches s)"

lemma midnight_le:
  assumes "0 \<le> now + dbz" "0 \<le> t + dbz"
  shows "midnight dbz now \<le> t \<longleftrightarrow> day_in dbz now \<le> day_in dbz t"
proof -
  have p: "0 < day_ns" by (simp add: day_ns_def)
  have "midnight dbz now \<le> t \<longleftrightarrow> (now + dbz) div day_ns * day_ns \<le> t + dbz" by (auto simp: midnight_def)
  also have "\<dots> \<longleftrightarrow> (now + dbz) div day_ns \<le> (t + dbz) div day_ns"
    by (rule le_quotient [OF p])
  also have "\<dots> \<longleftrightarrow> day_in dbz now \<le> day_in dbz t"
    unfolding day_in_def using assms p by (simp add: nat_le_eq_zle pos_imp_zdiv_nonneg_iff)
  finally show ?thesis .
qed

text \<open>All times lie after 1970 on the database's clock.\<close>

definition times_ok :: "int \<Rightarrow> wms_db \<Rightarrow> bool" where
  "times_ok dbz s \<longleftrightarrow> (\<forall>d\<in>set (outbound_dispatches s). 0 \<le> dp_created d + dbz)"

text \<open>The invariant: a code with number \<open>n\<close> of a day is in use only when \<open>n\<close> trips were made from that day on.\<close>

definition codes_ok :: "int \<Rightarrow> wms_db \<Rightarrow> bool" where
  "codes_ok dbz s \<longleftrightarrow> times_ok dbz s \<and>
     (\<forall>d\<in>set (outbound_dispatches s). \<forall>day n. dp_code d = dispatch_code day n \<longrightarrow> n \<le> since dbz day s)"

definition created :: "call_env \<Rightarrow> NewDispatchQuery \<Rightarrow> destination \<Rightarrow> string \<Rightarrow> outbound_dispatch" where
  "created E q de code = \<lparr> dp_id = fresh E 0, dp_code = code, dp_warehouse = de_warehouse de, dp_destination = de_id de,
     dp_vehicle = nq_vehicle q, dp_driver = nq_driver q, dp_phone = nq_phone q, dp_status = OutboundDispatchStatusScheduled,
     dp_scheduled = nq_scheduled q, dp_arrived = None, dp_departed = None, dp_created = clock E 0 \<rparr>"

lemma count_since:
  assumes "times_ok dbz s" "0 \<le> now + dbz"
  shows "sql_count (\<lambda>d. midnight dbz now \<le> dp_created d) (outbound_dispatches s) = since dbz (day_in dbz now) s"
  using assms midnight_le by (auto simp: since_def sql_count_def times_ok_def intro!: arg_cong [of _ _ length] filter_cong)

lemma CreateNewDispatch_run:
  assumes "times_ok dbz s" "0 \<le> clock E 0 + dbz"
  shows "CreateNewDispatch dbz goz E q s =
    (let code = dispatch_code (day_in goz (clock E 1)) (since dbz (day_in dbz (clock E 0)) s + 1) in
     case List.find (\<lambda>de. de_id de = nq_destination q) (destinations s) of
       None \<Rightarrow> (Inl ErrDestinationNotFound, s)
     | Some de \<Rightarrow> if code \<in> dp_code ` set (outbound_dispatches s) \<or> fresh E 0 \<in> dp_id ` set (outbound_dispatches s)
         then (Inl DispatchConflict, s)
         else (Inr (created E q de code), s\<lparr>outbound_dispatches := outbound_dispatches s @ [created E q de code]\<rparr>))"
proof (cases "List.find (\<lambda>de. de_id de = nq_destination q) (destinations s)")
  case (Some de)
  then have "nq_destination q = de_id de" using find_Some_set by fastforce
  then show ?thesis using Some
    by (simp add: CreateNewDispatch_def CreateDispatchCode_def GetActualDispatchCode_def insert_dispatch_def tx_simps
        count_since [OF assms] Let_def sql_row_def created_def)
qed (simp add: CreateNewDispatch_def CreateDispatchCode_def GetActualDispatchCode_def insert_dispatch_def tx_simps sql_row_def Let_def)

lemma since_append:
  "outbound_dispatches t = outbound_dispatches s @ D \<Longrightarrow>
   since dbz day t = since dbz day s + length (filter (\<lambda>d. day \<le> day_in dbz (dp_created d)) D)"
  by (simp add: since_def sql_count_def)

text \<open>C20: codes never clash within a day. When all codes in use are within the counts of their days and a
  creation takes its two readings of the clock on the same day, it can fail for want of the shop only: the
  trip is stored as asked, scheduled, under the next number of the day, a code no other trip has, and all
  codes are within their counts again.\<close>

theorem CreateNewDispatch_same_day:
  assumes codes: "codes_ok dbz s" and time: "0 \<le> clock E 0 + dbz"
    and day: "day_in dbz (clock E 0) = day_in goz (clock E 1)" and new: "fresh E 0 \<notin> dp_id ` set (outbound_dispatches s)"
    and shop: "List.find (\<lambda>de. de_id de = nq_destination q) (destinations s) = Some de"
  shows "\<exists>d. CreateNewDispatch dbz goz E q s = (Inr d, s\<lparr>outbound_dispatches := outbound_dispatches s @ [d]\<rparr>)
    \<and> d = created E q de (dispatch_code (day_in goz (clock E 1)) (since dbz (day_in goz (clock E 1)) s + 1))
    \<and> dp_code d \<notin> dp_code ` set (outbound_dispatches s)
    \<and> codes_ok dbz (s\<lparr>outbound_dispatches := outbound_dispatches s @ [d]\<rparr>)"
proof -
  let ?D = "day_in goz (clock E 1)"
  let ?n = "since dbz ?D s"
  let ?d = "created E q de (dispatch_code ?D (?n + 1))"
  let ?t = "s\<lparr>outbound_dispatches := outbound_dispatches s @ [?d]\<rparr>"
  have times: "times_ok dbz s" using codes by (simp add: codes_ok_def)
  have free: "dispatch_code ?D (?n + 1) \<notin> dp_code ` set (outbound_dispatches s)"
  proof
    assume "dispatch_code ?D (?n + 1) \<in> dp_code ` set (outbound_dispatches s)"
    then obtain d where "d \<in> set (outbound_dispatches s)" "dp_code d = dispatch_code ?D (?n + 1)" by auto
    then have "?n + 1 \<le> ?n" using codes unfolding codes_ok_def by blast
    then show False by simp
  qed
  have run: "CreateNewDispatch dbz goz E q s = (Inr ?d, ?t)"
    using free new shop by (simp add: CreateNewDispatch_run [OF times time] day Let_def)
  have "outbound_dispatches ?t = outbound_dispatches s @ [?d]" by simp
  note more = since_append [OF this, of dbz]
  have grow: "since dbz e s \<le> since dbz e ?t" for e unfolding more by simp
  have "since dbz ?D ?t = ?n + 1" unfolding more by (simp add: created_def day)
  moreover have "dp_code ?d = dispatch_code ?D (?n + 1)" by (simp add: created_def)
  ultimately have "n \<le> since dbz e ?t" if "x \<in> set (outbound_dispatches s @ [?d])" "dp_code x = dispatch_code e n" for x e n
  proof (cases "x = ?d")
    case False
    then have "n \<le> since dbz e s" using that codes unfolding codes_ok_def by auto
    then show ?thesis using grow by (rule order_trans)
  qed (use that in \<open>auto simp: dispatch_code_inject\<close>)
  moreover have "times_ok dbz ?t" using times time by (auto simp: times_ok_def created_def)
  ultimately have "codes_ok dbz ?t" by (auto simp: codes_ok_def)
  then show ?thesis using run free by (auto simp: created_def)
qed

text \<open>C8: a creation that runs across midnight blocks the next day. Its transaction begins on one day and
  reads the clock for its code on a later one; if \<open>n\<close> trips were made on the first day, then as soon as
  \<open>n\<close> trips have been made on the second, every creation of that day ends in a conflict of codes and
  changes nothing, whatever it asks for.\<close>

theorem late_dispatch_blocks:
  assumes times: "times_ok dbz s" "0 \<le> clock E 0 + dbz" and late: "day_in dbz (clock E 0) < day_in goz (clock E 1)"
    and before: "since dbz (day_in goz (clock E 1)) s = 0"
    and ok: "CreateNewDispatch dbz goz E q s = (Inr d, s')"
    and next_day: "outbound_dispatches t = outbound_dispatches s' @ D" "length D = since dbz (day_in dbz (clock E 0)) s"
      "\<forall>x\<in>set D. 0 \<le> dp_created x + dbz \<and> day_in goz (clock E 1) \<le> day_in dbz (dp_created x)"
    and now: "0 \<le> clock E' 0 + dbz" "day_in dbz (clock E' 0) = day_in goz (clock E 1)" "day_in goz (clock E' 1) = day_in goz (clock E 1)"
    and shop: "nq_destination q' \<in> de_id ` set (destinations t)"
  shows "CreateNewDispatch dbz goz E' q' t = (Inl DispatchConflict, t)"
proof -
  let ?D = "day_in goz (clock E 1)"
  let ?n = "since dbz (day_in dbz (clock E 0)) s"
  have s': "outbound_dispatches s' = outbound_dispatches s @ [d]" "dp_code d = dispatch_code ?D (?n + 1)" "dp_created d = clock E 0"
    using ok by (auto simp: CreateNewDispatch_run [OF times] Let_def created_def split: option.splits if_splits)
  have all: "outbound_dispatches t = outbound_dispatches s @ ([d] @ D)" using s'(1) next_day(1) by simp
  have "filter (\<lambda>x. ?D \<le> day_in dbz (dp_created x)) D = D" using next_day(3) by (simp add: filter_id_conv)
  then have n: "since dbz ?D t = ?n"
    using late next_day(2) s'(3) before by (simp add: since_append [OF all])
  have t: "times_ok dbz t" using times next_day(3) s'(3) unfolding times_ok_def all by auto
  obtain de where de: "List.find (\<lambda>de. de_id de = nq_destination q') (destinations t) = Some de"
    using shop by (cases "List.find (\<lambda>de. de_id de = nq_destination q') (destinations t)") (auto simp: find_None_iff)
  have "dispatch_code ?D (?n + 1) \<in> dp_code ` set (outbound_dispatches t)" using s'(2) by (auto simp: all)
  then show ?thesis using de n now(2,3) by (simp add: CreateNewDispatch_run [OF t now(1)] Let_def)
qed

section \<open>The listing\<close>

definition matches :: "DispatchFilter \<Rightarrow> outbound_dispatch \<Rightarrow> bool" where
  "matches f d \<longleftrightarrow> (\<forall>t. df_status f = Some t \<longrightarrow> dispatch_status_name (dp_status d) = t)
     \<and> (df_destination f \<noteq> uuid_Nil \<longrightarrow> dp_destination d = df_destination f)
     \<and> (df_warehouse f \<noteq> - 1 \<longrightarrow> dp_warehouse d = df_warehouse f)"

lemma dispatch_status_of_Some: "dispatch_status_of t = Some st \<longleftrightarrow> dispatch_status_name st = t"
  by (cases st) (auto simp: dispatch_status_of_def dispatch_status_name_def split: dispatch_status.splits)

lemma dispatch_status_name_inject: "dispatch_status_name a = dispatch_status_name b \<longleftrightarrow> a = b"
  by (cases a; cases b) (simp_all add: dispatch_status_name_def)

text \<open>C37: the composed query means its filter. However many of the three conditions are present, the
  numbered arguments line up: the listing fails exactly when a status is asked for that does not exist, and
  otherwise returns the trips that meet every condition of the filter, each once, by the time they are
  scheduled for.\<close>

theorem GetDispatchesByFilter_matches:
  "GetDispatchesByFilter f s =
    (if \<exists>t. df_status f = Some t \<and> t \<notin> range dispatch_status_name then (Inl DispatchInvalidText, s)
     else (Inr (sort_key dp_scheduled (filter (matches f) (outbound_dispatches s))), s))"
proof -
  have name [simp]: "dispatch_status_of (dispatch_status_name st) = Some st" for st by (simp add: dispatch_status_of_Some)
  have none: "dispatch_status_of t = None" if "t \<notin> range dispatch_status_name" for t
    using that dispatch_status_of_Some [of t] by (metis not_None_eq rangeI)
  have matches: "matches f = (\<lambda>d. (\<forall>t. df_status f = Some t \<longrightarrow> dispatch_status_name (dp_status d) = t)
     \<and> (df_destination f \<noteq> uuid_Nil \<longrightarrow> dp_destination d = df_destination f)
     \<and> (df_warehouse f \<noteq> - 1 \<longrightarrow> dp_warehouse d = df_warehouse f))"
    by (simp add: fun_eq_iff matches_def)
  note query = GetDispatchesByFilter_def tx_simps dispatch_query_def sql_condition_def matches dispatch_status_name_inject
  consider "df_status f = None" | t where "df_status f = Some t" "t \<notin> range dispatch_status_name"
    | st where "df_status f = Some (dispatch_status_name st)"
    by (cases "df_status f") auto
  then show ?thesis
  proof cases
    case 1
    then show ?thesis by (cases "df_destination f = uuid_Nil"; cases "df_warehouse f = - 1"; simp add: query)
  next
    case 2
    then show ?thesis by (simp add: query none)
  next
    case 3
    then show ?thesis by (cases "df_destination f = uuid_Nil"; cases "df_warehouse f = - 1"; simp add: query)
  qed
qed

section \<open>Concrete trips\<close>

definition demo_shop :: destination where
  "demo_shop = \<lparr> de_id = 80, de_code = ''D'', de_name = ''Shop'', de_address = None, de_warehouse = 1 \<rparr>"

definition demo_request :: NewDispatchQuery where
  "demo_request = \<lparr> nq_destination = 80, nq_vehicle = ''A1'', nq_driver = ''Ivan'', nq_phone = None, nq_scheduled = 90000000000000 \<rparr>"

definition demo_trips_db :: wms_db where
  "demo_trips_db = empty_db\<lparr>destinations := [demo_shop]\<rparr>"

definition demo_midnight :: call_env where
  "demo_midnight = demo_env\<lparr>clock := \<lambda>k. 86399999999999 + int k\<rparr>"

definition demo_morning :: call_env where
  "demo_morning = demo_env\<lparr>clock := \<lambda>k. 86400000000000 + int k, fresh := \<lambda>k. 101\<rparr>"

lemma demo_trips [simp]: "destinations demo_trips_db = [demo_shop]" "outbound_dispatches demo_trips_db = []"
  "de_id demo_shop = 80" "nq_destination demo_request = 80"
  by (simp_all add: demo_trips_db_def demo_shop_def demo_request_def empty_db_def)

lemma CreateNewDispatch_same_day_witness:
  "\<exists>d. CreateNewDispatch 0 0 demo_morning demo_request demo_trips_db
      = (Inr d, demo_trips_db\<lparr>outbound_dispatches := [d]\<rparr>) \<and> dp_code d = ''DSP-1970-0102-001''"
proof -
  have d: "day_in 0 (clock demo_morning 0) = 1" "day_in 0 (clock demo_morning 1) = 1"
    by (simp_all add: day_in_def day_ns_def demo_morning_def)
  have c: "dispatch_code 1 1 = ''DSP-1970-0102-001''"
    by (simp add: dispatch_code_def format_compact_def civil_def year_from.simps days_in_year_def leap_def month_lengths_def pad_def dec.simps digit_def) code_simp
  have n: "since 0 1 demo_trips_db = 0" by (simp add: since_def sql_count_def)
  have ok: "codes_ok 0 demo_trips_db" by (simp add: codes_ok_def times_ok_def)
  have t: "0 \<le> clock demo_morning 0 + 0" by (simp add: demo_morning_def)
  obtain d where "CreateNewDispatch 0 0 demo_morning demo_request demo_trips_db =
      (Inr d, demo_trips_db\<lparr>outbound_dispatches := outbound_dispatches demo_trips_db @ [d]\<rparr>)"
    and "d = created demo_morning demo_request demo_shop (dispatch_code (day_in 0 (clock demo_morning 1)) (since 0 (day_in 0 (clock demo_morning 1)) demo_trips_db + 1))"
    using CreateNewDispatch_same_day [OF ok t, of 0 demo_request demo_shop] d by auto
  then show ?thesis unfolding d n by (simp add: created_def c [simplified])
qed

lemma late_dispatch_blocks_witness:
  "\<exists>d s. CreateNewDispatch 0 0 demo_midnight demo_request demo_trips_db = (Inr d, s)
    \<and> CreateNewDispatch 0 0 demo_morning demo_request s = (Inl DispatchConflict, s)"
proof -
  have d: "day_in 0 (clock demo_midnight 0) = 0" "day_in 0 (clock demo_midnight 1) = 1"
    "day_in 0 (clock demo_morning 0) = 1" "day_in 0 (clock demo_morning 1) = 1"
    by (simp_all add: day_in_def day_ns_def demo_midnight_def demo_morning_def)
  have t: "times_ok 0 demo_trips_db" "0 \<le> clock demo_midnight 0 + 0" "0 \<le> clock demo_morning 0 + 0"
    by (simp_all add: times_ok_def demo_midnight_def demo_morning_def)
  have n: "since 0 k demo_trips_db = 0" for k by (simp add: since_def sql_count_def)
  define e where "e = created demo_midnight demo_request demo_shop (dispatch_code 1 1)"
  define s where "s = demo_trips_db\<lparr>outbound_dispatches := [e]\<rparr>"
  have r: "CreateNewDispatch 0 0 demo_midnight demo_request demo_trips_db = (Inr e, s)"
    by (simp add: CreateNewDispatch_run [OF t(1,2)] Let_def d [simplified] n e_def s_def)
  have "CreateNewDispatch 0 0 demo_morning demo_request s = (Inl DispatchConflict, s)"
    by (rule late_dispatch_blocks [OF t(1,2) _ _ r, where D = "[]"]) (use d n t in \<open>simp_all add: s_def\<close>)
  then show ?thesis using r by blast
qed

end
