(* ===== verification/AnalyticsFlow.thy ===== *)
theory AnalyticsFlow
  imports Analytics
begin

text \<open>
  The figures add up: the days and stages of the volume report count every event once, and the stages of
  the chain report partition the outbox.
\<close>

section \<open>Groups\<close>

definition group_sum :: "('k \<Rightarrow> bool) \<Rightarrow> ('k \<times> int) list \<Rightarrow> int" where
  "group_sum P G = (\<Sum>(k, n)\<leftarrow>G. if P k then n else 0)"

lemma group_sum_simps [simp]:
  "group_sum P [] = 0"
  "group_sum P ((k, n) # G) = (if P k then n else 0) + group_sum P G"
  by (simp_all add: group_sum_def)

lemma sql_count_simps [simp]:
  "sql_count P [] = 0"
  "sql_count P (x # xs) = (if P x then 1 else 0) + sql_count P xs"
  by (simp_all add: sql_count_def)

lemma sum_counts:
  assumes "finite A" "key ` set rows \<subseteq> A"
  shows "(\<Sum>k\<in>A. if P k then int (sql_count (\<lambda>r. key r = k) rows) else 0) = int (sql_count (\<lambda>r. P (key r)) rows)"
  using assms(2)
proof (induction rows)
  case (Cons r rows)
  have "(\<Sum>k\<in>A. if P k then int (sql_count (\<lambda>x. key x = k) (r # rows)) else 0) =
      (\<Sum>k\<in>A. (if k = key r then (if P k then 1 else 0) else 0) + (if P k then int (sql_count (\<lambda>x. key x = k) rows) else 0))"
    by (rule sum.cong) auto
  also have "\<dots> = (if P (key r) then 1 else 0) + int (sql_count (\<lambda>x. P (key x)) rows)"
    using Cons assms(1) by (simp add: sum.distrib sum.delta)
  finally show ?case by simp
qed (auto intro: sum.neutral)

lemma group_sum_count: "group_sum P (group_count key rows) = int (sql_count (\<lambda>r. P (key r)) rows)"
proof -
  have "group_sum P (group_count key rows) = (\<Sum>k\<leftarrow>remdups (map key rows). if P k then int (sql_count (\<lambda>r. key r = k) rows) else 0)"
    by (simp add: group_sum_def group_count_def comp_def cong: if_cong)
  also have "\<dots> = (\<Sum>k\<in>key ` set rows. if P k then int (sql_count (\<lambda>r. key r = k) rows) else 0)"
    by (simp add: sum_list_distinct_conv_sum_set)
  finally show ?thesis using sum_counts [of "key ` set rows" key rows P] by simp
qed

lemma lookup0_count: "lookup0 (group_count key rows) k = int (sql_count (\<lambda>r. key r = k) rows)"
proof (cases "k \<in> key ` set rows")
  case True
  have "map fst (group_count key rows) = remdups (map key rows)" by (simp add: group_count_def comp_def)
  then have "distinct (map fst (rev (group_count key rows)))" by (simp flip: rev_map)
  moreover have "(k, int (sql_count (\<lambda>r. key r = k) rows)) \<in> set (rev (group_count key rows))"
    using True by (auto simp: group_count_def)
  ultimately show ?thesis unfolding lookup0_def by (simp add: map_of_eq_Some_iff [THEN iffD2])
next
  case False
  then have "map_of (rev (group_count key rows)) k = None" by (auto simp: map_of_eq_None_iff group_count_def)
  moreover have "sql_count (\<lambda>r. key r = k) rows = 0" using False by (auto simp: sql_count_def filter_empty_conv)
  ultimately show ?thesis by (simp add: lookup0_def)
qed

lemma set_orderStages: "finite present \<Longrightarrow> set (orderStages present) = set fsmOrder \<union> present"
  by (auto simp: orderStages_def)

lemma distinct_orderStages: "finite present \<Longrightarrow> distinct (orderStages present)"
  by (auto simp: orderStages_def fsmOrder_def)

section \<open>Daily volume\<close>

lemma length_bump [simp]: "length (bump xs i n) = length xs"
  by (simp add: bump_def)

lemma bump_nth: "j < length xs \<Longrightarrow> bump xs i n ! j = xs ! j + (if i = j then n else 0)"
  by (cases "i < length xs") (auto simp: bump_def nth_list_update)

lemma fold_pivot:
  assumes "fold (pivot_row idx) rows (C, T) = (C', T')" "\<And>st. length (C st) = days" "length T = days"
  shows "length T' = days \<and> (\<forall>st. length (C' st) = days)
    \<and> (\<forall>i<days. T' ! i = T ! i + group_sum (\<lambda>k. idx (format_date (fst k)) = Some i) rows
        \<and> (\<forall>st. C' st ! i = C st ! i + group_sum (\<lambda>k. idx (format_date (fst k)) = Some i \<and> snd k = st) rows))"
  using assms
proof (induction rows arbitrary: C T)
  case (Cons row rows)
  obtain day st n where row: "row = ((day, st), n)" by (metis prod.exhaust)
  show ?case
  proof (cases "idx (format_date day)")
    case None
    then have "pivot_row idx row (C, T) = (C, T)" by (simp add: row pivot_row_def)
    then have "fold (pivot_row idx) rows (C, T) = (C', T')" using Cons.prems(1) by simp
    from Cons.IH [OF this Cons.prems(2,3)] show ?thesis by (simp add: row None)
  next
    case (Some j)
    then have "pivot_row idx row (C, T) = (C(st := bump (C st) j n), bump T j n)" by (simp add: row pivot_row_def)
    then have f: "fold (pivot_row idx) rows (C(st := bump (C st) j n), bump T j n) = (C', T')"
      using Cons.prems(1) by simp
    have "length ((C(st := bump (C st) j n)) x) = days" for x using Cons.prems(2) by simp
    from Cons.IH [OF f this] show ?thesis using Cons.prems(2,3) by (auto simp: row Some bump_nth)
  qed
qed simp

definition axis_of :: "nat \<Rightarrow> nat \<Rightarrow> string list" where
  "axis_of start days = map (\<lambda>i. format_date (start + i)) [0..<days]"

lemma axis_index:
  "map_of (rev (zip (axis_of start days) [0..<days])) (format_date d) = Some i \<longleftrightarrow> i < days \<and> d = start + i"
proof -
  have dist: "distinct (axis_of start days)" by (simp add: axis_of_def distinct_map inj_on_def format_date_inject)
  have "length (axis_of start days) = days" by (simp add: axis_of_def)
  then have "distinct (map fst (rev (zip (axis_of start days) [0..<days])))" using dist by (simp flip: rev_map)
  then have "map_of (rev (zip (axis_of start days) [0..<days])) (format_date d) = Some i
      \<longleftrightarrow> (format_date d, i) \<in> set (zip (axis_of start days) [0..<days])" by (simp add: map_of_eq_Some_iff)
  also have "\<dots> \<longleftrightarrow> i < days \<and> d = start + i" by (auto simp: axis_of_def in_set_zip format_date_inject intro!: exI [of _ i])
  finally show ?thesis .
qed

lemma pivot_report:
  fixes days today :: nat
  assumes "1 \<le> days"
  defines "start \<equiv> today - (days - 1)"
  shows "tr_days (pivotThroughput rows days today) = axis_of start days"
    and "length (tr_totals (pivotThroughput rows days today)) = days"
    and "map fst (tr_series (pivotThroughput rows days today)) = orderStages (set (map (snd \<circ> fst) rows))"
    and "i < days \<Longrightarrow> tr_totals (pivotThroughput rows days today) ! i = group_sum (\<lambda>k. fst k = start + i) rows"
    and "(st, counts) \<in> set (tr_series (pivotThroughput rows days today)) \<Longrightarrow> length counts = days
      \<and> (\<forall>i<days. counts ! i = group_sum (\<lambda>k. fst k = start + i \<and> snd k = st) rows)"
proof -
  let ?idx = "map_of (rev (zip (axis_of start days) [0..<days]))"
  obtain C T where f: "fold (pivot_row ?idx) rows (\<lambda>_. replicate days 0, replicate days 0) = (C, T)"
    by (cases "fold (pivot_row ?idx) rows (\<lambda>_. replicate days 0, replicate days 0)")
  have r: "pivotThroughput rows days today = \<lparr> tr_days = axis_of start days,
      tr_series = map (\<lambda>st. (st, C st)) (orderStages (set (map (snd \<circ> fst) rows))), tr_totals = T \<rparr>"
    using assms f unfolding pivotThroughput_def axis_of_def by (simp add: Let_def comp_def)
  note p = fold_pivot [OF f, of days, simplified, unfolded axis_index]
  show "tr_days (pivotThroughput rows days today) = axis_of start days" unfolding r by simp
  show "length (tr_totals (pivotThroughput rows days today)) = days" unfolding r using p by simp
  show "map fst (tr_series (pivotThroughput rows days today)) = orderStages (set (map (snd \<circ> fst) rows))"
    unfolding r by (simp add: comp_def)
  show "i < days \<Longrightarrow> tr_totals (pivotThroughput rows days today) ! i = group_sum (\<lambda>k. fst k = start + i) rows"
    unfolding r using p by simp
  show "(st, counts) \<in> set (tr_series (pivotThroughput rows days today)) \<Longrightarrow> length counts = days
      \<and> (\<forall>i<days. counts ! i = group_sum (\<lambda>k. fst k = start + i \<and> snd k = st) rows)"
    unfolding r using p by auto
qed

text \<open>C39: the daily volume report counts every action once. On an axis of consecutive dates that ends on the
  day the report is made, the total of a day is the number of events of the outbox created on it, the value
  of a stage the number of those whose action is of that stage; every series covers the axis, no stage
  appears twice, and the totals are the sums of the series.\<close>

theorem GetThroughput_counts:
  fixes created :: "outbox_event \<Rightarrow> timestamp"
  assumes times: "\<forall>e\<in>set (outbox_events s). 0 \<le> created e" "0 \<le> clock E 0" "clock E 0 \<le> clock E 1"
    and days: "1 \<le> days" "days \<le> day_in 0 (clock E 1)"
  defines "start \<equiv> day_in 0 (clock E 1) - (days - 1)" and "r \<equiv> GetThroughput created E days s"
  shows "tr_days r = map (\<lambda>i. format_date (start + i)) [0..<days] \<and> length (tr_totals r) = days
    \<and> distinct (map fst (tr_series r))
    \<and> (\<forall>i<days. tr_totals r ! i = int (sql_count (\<lambda>e. day_in 0 (created e) = start + i) (outbox_events s))
        \<and> tr_totals r ! i = (\<Sum>(st, counts)\<leftarrow>tr_series r. counts ! i))
    \<and> (\<forall>(st, counts)\<in>set (tr_series r). length counts = days
        \<and> (\<forall>i<days. counts ! i = int (sql_count (\<lambda>e. day_in 0 (created e) = start + i \<and> stageOfAction s (ob_event e) = st) (outbox_events s))))"
proof -
  let ?rows = "throughput_rows created (clock E 0) days s"
  let ?stages = "orderStages (set (map (snd \<circ> fst) ?rows))"
  have r: "r = pivotThroughput ?rows days (day_in 0 (clock E 1))" by (simp add: r_def GetThroughput_def)
  note rep = pivot_report [OF days(1), where rows = ?rows and today = "day_in 0 (clock E 1)", folded start_def r]
  have inside: "(clock E 0 div day_ns - (int days - 1)) * day_ns \<le> created e"
    if "e \<in> set (outbox_events s)" "day_in 0 (created e) = start + i" for e i
  proof -
    have "clock E 0 div day_ns \<le> clock E 1 div day_ns" using times(3) by (rule zdiv_mono1) (simp add: day_ns_def)
    moreover have "int (day_in 0 (clock E 1)) = clock E 1 div day_ns" "int (day_in 0 (created e)) = created e div day_ns"
      using times that(1) by (simp_all add: day_in_def day_ns_def pos_imp_zdiv_nonneg_iff)
    ultimately have "clock E 0 div day_ns - (int days - 1) \<le> created e div day_ns" using that(2) days unfolding start_def by linarith
    then show ?thesis by (subst le_quotient) (simp_all add: day_ns_def)
  qed
  have sum: "group_sum P ?rows = int (sql_count (\<lambda>e. P (day_in 0 (created e), stageOfAction s (ob_event e))) (outbox_events s))"
    if "\<And>k. P k \<Longrightarrow> \<exists>i. fst k = start + i" for P
    unfolding throughput_rows_def group_sum_count sql_count_def filter_filter
    using inside that by (intro arg_cong [of _ _ int] arg_cong [of _ _ length] filter_cong) fastforce+
  have tot: "tr_totals r ! i = int (sql_count (\<lambda>e. day_in 0 (created e) = start + i) (outbox_events s))" if "i < days" for i
    using rep(4) [OF that] sum [of "\<lambda>k. fst k = start + i"] by simp
  have ser: "length counts = days \<and> (\<forall>i<days. counts ! i =
      int (sql_count (\<lambda>e. day_in 0 (created e) = start + i \<and> stageOfAction s (ob_event e) = st) (outbox_events s)))"
    if "(st, counts) \<in> set (tr_series r)" for st counts
    using rep(5) [OF that] sum [of "\<lambda>k. fst k = start + _ \<and> snd k = st"] by auto
  have "tr_totals r ! i = (\<Sum>(st, counts)\<leftarrow>tr_series r. counts ! i)" if i: "i < days" for i
  proof -
    let ?day = "filter (\<lambda>e. day_in 0 (created e) = start + i) (outbox_events s)"
    have "(\<Sum>(st, counts)\<leftarrow>tr_series r. counts ! i) =
        (\<Sum>(st, counts)\<leftarrow>tr_series r. int (sql_count (\<lambda>e. stageOfAction s (ob_event e) = st) ?day))"
      using ser i by (intro arg_cong [of _ _ sum_list] map_cong) (auto simp: sql_count_def conj_commute)
    also have "\<dots> = (\<Sum>st\<leftarrow>?stages. int (sql_count (\<lambda>e. stageOfAction s (ob_event e) = st) ?day))"
      unfolding rep(3) [symmetric] by (simp add: comp_def case_prod_unfold)
    also have "\<dots> = (\<Sum>st\<in>set ?stages. int (sql_count (\<lambda>e. stageOfAction s (ob_event e) = st) ?day))"
      by (simp add: sum_list_distinct_conv_sum_set distinct_orderStages)
    also have "\<dots> = int (sql_count (\<lambda>e. True) ?day)"
    proof -
      have "(\<lambda>e. stageOfAction s (ob_event e)) ` set ?day \<subseteq> set ?stages"
        using inside by (force simp: set_orderStages throughput_rows_def group_count_def image_iff)
      from sum_counts [OF _ this, of "\<lambda>_. True"] show ?thesis by simp
    qed
    finally show ?thesis using tot [OF i] by (simp add: sql_count_def)
  qed
  moreover have "distinct (map fst (tr_series r))" using rep(3) by (simp add: distinct_orderStages)
  ultimately show ?thesis using rep(1,2) tot ser unfolding axis_of_def by auto
qed

section \<open>Confirmation\<close>

definition acc_field :: "(stageAcc \<Rightarrow> int) \<Rightarrow> (string \<Rightarrow> stageAcc option) \<Rightarrow> string \<Rightarrow> int" where
  "acc_field f m k = (case m k of None \<Rightarrow> 0 | Some a \<Rightarrow> f a)"

abbreviation counted :: "string \<Rightarrow> bool" where
  "counted st \<equiv> st \<in> {''COMMITTED'', ''SENT'', ''FAILED''}"

lemma fold_acc:
  assumes "fold acc_row rows (m, P) = (m', P')"
  shows "P' = P \<union> {stage | stage st n. ((stage, st), n) \<in> set rows \<and> counted st}
    \<and> acc_field sa_committed m' k = acc_field sa_committed m k + group_sum (\<lambda>x. x = (k, ''COMMITTED'')) rows
    \<and> acc_field sa_sent m' k = acc_field sa_sent m k + group_sum (\<lambda>x. x = (k, ''SENT'')) rows
    \<and> acc_field sa_failed m' k = acc_field sa_failed m k + group_sum (\<lambda>x. x = (k, ''FAILED'')) rows"
  using assms
proof (induction rows arbitrary: m P)
  case (Cons row rows)
  obtain stage st n where row: "row = ((stage, st), n)" by (metis prod.exhaust)
  obtain q Q where step: "acc_row row (m, P) = (q, Q)" by (cases "acc_row row (m, P)")
  have "fold acc_row rows (q, Q) = (m', P')" using Cons.prems step by simp
  note IH = Cons.IH [OF this]
  have "Q = P \<union> (if counted st then {stage} else {})"
    "acc_field sa_committed q k = acc_field sa_committed m k + (if (stage, st) = (k, ''COMMITTED'') then n else 0)"
    "acc_field sa_sent q k = acc_field sa_sent m k + (if (stage, st) = (k, ''SENT'') then n else 0)"
    "acc_field sa_failed q k = acc_field sa_failed m k + (if (stage, st) = (k, ''FAILED'') then n else 0)"
    using step by (auto simp: row acc_row_def acc_update_def acc_field_def split: if_splits option.splits)
  then show ?case using IH by (auto simp: row)
qed simp

definition mirrored :: "wms_db \<Rightarrow> outbox_event \<Rightarrow> onchain_status option" where
  "mirrored s e = map_option oe_status (onchain_row s (ob_event e))"

text \<open>The mirror holds rows of queued events only, one for each at most.\<close>

definition mirror_wf :: "wms_db \<Rightarrow> bool" where
  "mirror_wf s \<longleftrightarrow> distinct (map ob_event (outbox_events s)) \<and> distinct (map oe_event (onchain_events s))
     \<and> oe_event ` set (onchain_events s) \<subseteq> ob_event ` set (outbox_events s)"

lemma sql_count_card: "distinct (map f xs) \<Longrightarrow> sql_count P xs = card (f ` {x \<in> set xs. P x})"
proof -
  assume "distinct (map f xs)"
  then have "distinct (map f (filter P xs))" by (rule distinct_map_filter)
  then have "length (map f (filter P xs)) = card (set (map f (filter P xs)))" by (simp only: distinct_card)
  then show ?thesis by (simp add: sql_count_def)
qed

lemma count_mirrored:
  assumes "mirror_wf s"
  shows "sql_count (\<lambda>o'. Q (oe_event o') \<and> oe_status o' = st) (onchain_events s)
    = sql_count (\<lambda>e. Q (ob_event e) \<and> mirrored s e = Some st) (outbox_events s)"
proof -
  have d: "distinct (map oe_event (onchain_events s))" "distinct (map ob_event (outbox_events s))"
    and sub: "oe_event ` set (onchain_events s) \<subseteq> ob_event ` set (outbox_events s)"
    using assms by (simp_all add: mirror_wf_def)
  have row: "onchain_row s (oe_event o') = Some o'" if "o' \<in> set (onchain_events s)" for o'
    using find_key [OF d(1) that] by (simp add: onchain_row_def)
  have "oe_event ` {o' \<in> set (onchain_events s). Q (oe_event o') \<and> oe_status o' = st}
      = ob_event ` {e \<in> set (outbox_events s). Q (ob_event e) \<and> mirrored s e = Some st}"
  proof (intro equalityI subsetI; elim imageE CollectE conjE)
    fix x o' assume o': "x = oe_event o'" "o' \<in> set (onchain_events s)" "Q (oe_event o')" "oe_status o' = st"
    then obtain e where "e \<in> set (outbox_events s)" "ob_event e = oe_event o'" using sub by fastforce
    then show "x \<in> ob_event ` {e \<in> set (outbox_events s). Q (ob_event e) \<and> mirrored s e = Some st}"
      using o' row [OF o'(2)] by (auto simp: mirrored_def image_iff intro!: bexI [of _ e])
  next
    fix x e assume e: "x = ob_event e" "e \<in> set (outbox_events s)" "Q (ob_event e)" "mirrored s e = Some st"
    then obtain o' where o': "onchain_row s (ob_event e) = Some o'" "oe_status o' = st" by (auto simp: mirrored_def)
    then have "o' \<in> set (onchain_events s)" "oe_event o' = ob_event e"
      using find_Some_set unfolding onchain_row_def by fastforce+
    then show "x \<in> oe_event ` {o' \<in> set (onchain_events s). Q (oe_event o') \<and> oe_status o' = st}"
      using e o'(2) by (auto simp: image_iff intro!: bexI [of _ o'])
  qed
  then show ?thesis by (simp add: sql_count_card [OF d(1)] sql_count_card [OF d(2)])
qed

lemma onchain_status_name_inject: "onchain_status_name a = onchain_status_name b \<longleftrightarrow> a = b"
  by (cases a; cases b) (simp_all add: onchain_status_name_def)

text \<open>Events not yet sent, confirmed or rejected.\<close>

abbreviation waiting :: "wms_db \<Rightarrow> outbox_event \<Rightarrow> bool" where
  "waiting s e \<equiv> mirrored s e \<in> {None, Some OnchainPending}"

lemma count_partition:
  "int (sql_count Q xs) - int (sql_count (\<lambda>e. Q e \<and> mirrored s e = Some OnchainCommitted) xs)
     - int (sql_count (\<lambda>e. Q e \<and> mirrored s e = Some OnchainSent) xs)
     - int (sql_count (\<lambda>e. Q e \<and> mirrored s e = Some OnchainFailed) xs)
   = int (sql_count (\<lambda>e. Q e \<and> waiting s e) xs)"
proof (induction xs)
  case (Cons x xs)
  then show ?case
    by (cases "mirrored s x"; cases "the (mirrored s x)"; cases "Q x"; simp)
qed simp

definition stage_figures :: "wms_db \<Rightarrow> string \<Rightarrow> StageOnchain" where
  "stage_figures s st =
     (let of_stage = (\<lambda>P. int (sql_count (\<lambda>e. stageOfAction s (ob_event e) = st \<and> P e) (outbox_events s)))
      in \<lparr> so_stage = st, so_total = of_stage (\<lambda>e. True), so_committed = of_stage (\<lambda>e. mirrored s e = Some OnchainCommitted),
           so_sent = of_stage (\<lambda>e. mirrored s e = Some OnchainSent), so_pending = of_stage (waiting s),
           so_failed = of_stage (\<lambda>e. mirrored s e = Some OnchainFailed) \<rparr>)"

text \<open>C38: the report on the chain is a partition of the outbox. When the mirror holds one row for each event
  at most, and rows of queued events only, each event is counted as confirmed, sent, rejected or pending and
  nothing is cut off at zero, overall and in each of the distinct stages; the rate lies between zero and
  one; and the figures of the stages add up to those of the whole.\<close>

theorem GetOnchain_partition:
  fixes X :: crypto and n m :: nat and s :: wms_db
  assumes wf: "mirror_wf s"
  defines "r \<equiv> GetOnchain X n m s" and "tot \<equiv> \<lambda>P. int (sql_count P (outbox_events s))"
  shows "rp_total r = tot (\<lambda>e. True) \<and> rp_committed r = tot (\<lambda>e. mirrored s e = Some OnchainCommitted)
    \<and> rp_sent r = tot (\<lambda>e. mirrored s e = Some OnchainSent) \<and> rp_failed r = tot (\<lambda>e. mirrored s e = Some OnchainFailed)
    \<and> rp_pending r = tot (waiting s) \<and> rp_total r = rp_committed r + rp_sent r + rp_failed r + rp_pending r
    \<and> 0 \<le> rp_rate r \<and> rp_rate r \<le> 1
    \<and> (\<exists>stages. rp_by_stage r = map (stage_figures s) stages \<and> distinct stages)
    \<and> sum_list (map so_total (rp_by_stage r)) = rp_total r
    \<and> sum_list (map so_committed (rp_by_stage r)) = rp_committed r
    \<and> sum_list (map so_pending (rp_by_stage r)) = rp_pending r"
proof -
  let ?stage = "\<lambda>e. stageOfAction s (ob_event e)"
  let ?agg = "group_count (\<lambda>e. (stageOfAction s (oe_event e), onchain_status_name (oe_status e))) (onchain_events s)"
  let ?types = "group_count ?stage (outbox_events s)"
  obtain A P where f: "fold acc_row ?agg (Map.empty, set (map fst ?types)) = (A, P)"
    by (cases "fold acc_row ?agg (Map.empty, set (map fst ?types))")
  note acc = fold_acc [OF f]
  have fst_types: "set (map fst ?types) = ?stage ` set (outbox_events s)" by (force simp: group_count_def)
  have "{stage | stage st n. ((stage, st), n) \<in> set ?agg \<and> counted st} \<subseteq> ?stage ` set (outbox_events s)"
    using wf unfolding mirror_wf_def by (fastforce simp: group_count_def)
  then have P: "P = ?stage ` set (outbox_events s)" using acc fst_types by auto
  have status: "lookup0 (group_count (\<lambda>e. onchain_status_name (oe_status e)) (onchain_events s)) (onchain_status_name st)
      = tot (\<lambda>e. mirrored s e = Some st)" for st
    using count_mirrored [OF wf, of "\<lambda>_. True" st] by (simp add: lookup0_count onchain_status_name_inject tot_def)
  have stage: "group_sum (\<lambda>x. x = (k, onchain_status_name st)) ?agg = tot (\<lambda>e. ?stage e = k \<and> mirrored s e = Some st)" for k st
    using count_mirrored [OF wf, of "\<lambda>i. stageOfAction s i = k" st] by (simp add: group_sum_count onchain_status_name_inject tot_def)
  note names = status [of OnchainCommitted] status [of OnchainSent] status [of OnchainFailed]
  note fields = acc [THEN conjunct2, unfolded acc_field_def, simplified]
  have figures: "(let t = lookup0 ?types k;
        (c, st, f) = (case A k of None \<Rightarrow> (0, 0, 0) | Some a \<Rightarrow> (sa_committed a, sa_sent a, sa_failed a))
      in \<lparr> so_stage = k, so_total = t, so_committed = c, so_sent = st, so_pending = clampNonNeg (t - c - st - f), so_failed = f \<rparr>)
      = stage_figures s k" for k
  proof -
    have t: "lookup0 ?types k = tot (\<lambda>e. ?stage e = k)" by (simp add: lookup0_count tot_def)
    have c: "(case A k of None \<Rightarrow> (0, 0, 0) | Some a \<Rightarrow> (sa_committed a, sa_sent a, sa_failed a)) =
        (tot (\<lambda>e. ?stage e = k \<and> mirrored s e = Some OnchainCommitted), tot (\<lambda>e. ?stage e = k \<and> mirrored s e = Some OnchainSent),
         tot (\<lambda>e. ?stage e = k \<and> mirrored s e = Some OnchainFailed))"
      using acc [of k] stage [of k OnchainCommitted] stage [of k OnchainSent] stage [of k OnchainFailed]
      by (cases "A k") (simp_all add: acc_field_def onchain_status_name_def)
    show ?thesis
      using count_partition [of "\<lambda>e. ?stage e = k" "outbox_events s" s]
      unfolding t c by (simp add: stage_figures_def tot_def clampNonNeg_def Let_def)
  qed
  have part: "tot (\<lambda>e. True) - tot (\<lambda>e. mirrored s e = Some OnchainCommitted) - tot (\<lambda>e. mirrored s e = Some OnchainSent)
      - tot (\<lambda>e. mirrored s e = Some OnchainFailed) = tot (waiting s)"
    using count_partition [of "\<lambda>e. True" "outbox_events s" s] by (simp add: tot_def)
  have all: "int (length (outbox_events s)) = tot (\<lambda>e. True)" by (simp add: tot_def sql_count_def)
  have nonneg: "0 \<le> tot Q" for Q by (simp add: tot_def)
  have r: "r = \<lparr> rp_total = tot (\<lambda>e. True), rp_committed = tot (\<lambda>e. mirrored s e = Some OnchainCommitted),
      rp_sent = tot (\<lambda>e. mirrored s e = Some OnchainSent), rp_pending = tot (waiting s),
      rp_failed = tot (\<lambda>e. mirrored s e = Some OnchainFailed),
      rp_rate = confirmationRate (tot (\<lambda>e. mirrored s e = Some OnchainCommitted)) (tot (\<lambda>e. True)),
      rp_by_stage = map (stage_figures s) (orderStages P),
      rp_recent_failed = eventRefs X s OnchainFailed n, rp_recent_committed = eventRefs X s OnchainCommitted m \<rparr>"
    unfolding r_def GetOnchain_def deriveOnchain_def f
    using part nonneg [of "waiting s"] names figures
    by (simp add: all onchain_status_name_def clampNonNeg_def Let_def)
  have sums: "sum_list (map (\<lambda>st. int (sql_count (\<lambda>e. ?stage e = st \<and> Q e) (outbox_events s))) (orderStages P)) = tot Q" for Q
  proof -
    have "finite P" using P by simp
    then have "sum_list (map (\<lambda>st. int (sql_count (\<lambda>e. ?stage e = st \<and> Q e) (outbox_events s))) (orderStages P))
        = (\<Sum>st\<in>set (orderStages P). int (sql_count (\<lambda>e. ?stage e = st) (filter Q (outbox_events s))))"
      by (simp add: sum_list_distinct_conv_sum_set distinct_orderStages sql_count_def conj_commute)
    also have "\<dots> = tot Q"
      using sum_counts [of "set (orderStages P)" ?stage "filter Q (outbox_events s)" "\<lambda>_. True"] P
      by (auto simp: set_orderStages sql_count_def tot_def)
    finally show ?thesis .
  qed
  have "rp_rate r \<le> 1" "0 \<le> rp_rate r"
    using part nonneg [of "waiting s"] nonneg [of "\<lambda>e. mirrored s e = Some OnchainSent"]
      nonneg [of "\<lambda>e. mirrored s e = Some OnchainFailed"] nonneg [of "\<lambda>e. mirrored s e = Some OnchainCommitted"]
    by (auto simp: r confirmationRate_def divide_le_eq_1 simp flip: of_int_0_less_iff)
  moreover have "distinct (orderStages P)" using P by (simp add: distinct_orderStages)
  ultimately show ?thesis
    using part sums [of "\<lambda>e. True"] sums [of "\<lambda>e. mirrored s e = Some OnchainCommitted"] sums [of "waiting s"]
    by (auto simp: r stage_figures_def Let_def comp_def)
qed

section \<open>Concrete reports\<close>

definition demo_queued :: "uuid \<Rightarrow> outbox_event" where
  "demo_queued i = \<lparr> ob_event = i, ob_aggregate = i, ob_aggregate_type = ''signed_action'', ob_event_type = ''wms.action.v1'',
     ob_hash = [], ob_payload = [] \<rparr>"

definition demo_mirror_db :: wms_db where
  "demo_mirror_db = empty_db\<lparr>outbox_events := [demo_queued 1, demo_queued 2],
     onchain_events := [\<lparr> oe_event = 1, oe_aggregate = [], oe_tx = None, oe_status = OnchainCommitted, oe_reject = None,
       oe_error = None, oe_updated = 0 \<rparr>]\<rparr>"

definition demo_week :: call_env where
  "demo_week = demo_env\<lparr>clock := \<lambda>k. 604800000000000 + int k\<rparr>"

lemma demo_mirror [simp]:
  "outbox_events demo_mirror_db = [demo_queued 1, demo_queued 2]" "warehouse_actions demo_mirror_db = []"
  "ob_event (demo_queued i) = i"
  "onchain_events demo_mirror_db = [\<lparr> oe_event = 1, oe_aggregate = [], oe_tx = None, oe_status = OnchainCommitted, oe_reject = None,
       oe_error = None, oe_updated = 0 \<rparr>]"
  by (simp_all add: demo_mirror_db_def empty_db_def demo_queued_def)

lemma GetThroughput_counts_witness:
  "length (tr_totals (GetThroughput (\<lambda>e. 604700000000000) demo_week 3 demo_mirror_db)) = 3
   \<and> tr_totals (GetThroughput (\<lambda>e. 604700000000000) demo_week 3 demo_mirror_db) ! 1 = 2
   \<and> tr_totals (GetThroughput (\<lambda>e. 604700000000000) demo_week 3 demo_mirror_db) ! 2 = 0"
proof -
  have d: "day_in 0 (clock demo_week 1) = 7" by (simp add: day_in_def day_ns_def demo_week_def)
  have c: "day_in 0 604700000000000 = 6" by (simp add: day_in_def day_ns_def)
  show ?thesis
    using GetThroughput_counts [of demo_mirror_db "\<lambda>e. 604700000000000" demo_week 3, unfolded d]
    by (simp add: demo_week_def c)
qed

lemma GetOnchain_partition_witness:
  "rp_pending (GetOnchain demo_crypto 10 10 demo_mirror_db) = 1 \<and> rp_committed (GetOnchain demo_crypto 10 10 demo_mirror_db) = 1
   \<and> rp_total (GetOnchain demo_crypto 10 10 demo_mirror_db) = 2"
proof -
  have wf: "mirror_wf demo_mirror_db" by (simp add: mirror_wf_def)
  have m: "mirrored demo_mirror_db (demo_queued 1) = Some OnchainCommitted" "mirrored demo_mirror_db (demo_queued 2) = None"
    by (simp_all add: mirrored_def onchain_row_def)
  show ?thesis using GetOnchain_partition [OF wf, of demo_crypto 10 10] by (simp add: m)
qed

end
