(* ===== verification/Binding.thy ===== *)
theory Binding
  imports AuditStore
begin

text \<open>
  What a signature commits to: the challenge (\<^verbatim>\<open>signedaction/hash.go\<close>) over the hash of the items
  and the hash of the details (\<^verbatim>\<open>audit/details.go\<close>, \<^verbatim>\<open>Details.Hash\<close>), down to the byte strings that
  are hashed on the way.
\<close>

section \<open>The byte strings\<close>

text \<open>The entities of the details, by the type of the action, in the order of the ABI words.\<close>

definition detail_entities :: "Details \<Rightarrow> uuid list" where
  "detail_entities d =
     (if dt_type d = TypeReceive then [dt_cargoplace d] else if dt_type d = TypePutAway then [dt_storage_bin d]
      else if dt_type d = TypePick then [dt_shipping_bin d] else [dt_dispatch d, dt_shipping_bin d])"

definition lists_orders :: "Details \<Rightarrow> bool" where
  "lists_orders d \<longleftrightarrow> dt_type d = TypePick \<or> dt_type d = TypeShip"

definition details_preimage :: "Details \<Rightarrow> bytes" where
  "details_preimage d =
     (if lists_orders d then orderedListPreimage (dt_salt d) (detail_entities d) (dt_orders d) (dt_operator d) (dt_ms d)
      else word32_bytes (dt_salt d) @ concat (map uuid_word (detail_entities d)) @ uuid_word (dt_operator d) @ uint64_word (dt_ms d))"

lemma DetailsHash_preimage:
  "DetailsHash X d = Inr h \<Longrightarrow> h = keccak X (details_preimage d)"
  by (auto simp: DetailsHash_def details_preimage_def lists_orders_def detail_entities_def action_types ReceiveDetailsHash_def
      PutAwayDetailsHash_def entityDetailsHash_def PickDetailsHash_def ShipDetailsHash_def orderedListDetailsHash_def split: if_splits)

text \<open>What the details say of an action of their type: an order list is a set.\<close>

definition signed_details :: "Details \<Rightarrow> byte \<times> bytes32 \<times> uuid list \<times> uuid set \<times> uuid \<times> 64 word" where
  "signed_details d = (dt_type d, dt_salt d, detail_entities d, if lists_orders d then set (dt_orders d) else {}, dt_operator d, dt_ms d)"

text \<open>All byte strings that are hashed for one action: for the challenge, for its items, for its details and for every item.\<close>

definition hashed :: "crypto \<Rightarrow> uuid \<Rightarrow> uuid list \<Rightarrow> Details \<Rightarrow> bytes list" where
  "hashed X i ids d =
     challenge_preimage X i (dt_type d) (ItemsHash X ids) (keccak X (details_preimage d)) # items_preimage X ids # details_preimage d
     # map (\<lambda>p. string_bytes (uuid_string X p)) ids"

text \<open>Two different byte strings at the same place of the two lists, with the same hash.\<close>

definition collision :: "crypto \<Rightarrow> bytes list \<Rightarrow> bytes list \<Rightarrow> bool" where
  "collision X xs ys \<longleftrightarrow> (\<exists>(x, y)\<in>set (zip xs ys). x \<noteq> y \<and> keccak X x = keccak X y)"

lemma collision_Cons [simp]:
  "collision X (x # xs) (y # ys) \<longleftrightarrow> x \<noteq> y \<and> keccak X x = keccak X y \<or> collision X xs ys"
  by (auto simp: collision_def)

lemma collision_refl [simp]: "\<not> collision X xs xs"
  by (auto simp: collision_def zip_same)

section \<open>Each layer\<close>

lemma string_bytes_inject [simp]: "string_bytes s = string_bytes t \<longleftrightarrow> s = t"
  by (metis bytes_string_bytes)

lemma item_ids_binding:
  assumes "inj (uuid_string X)" "map (ItemID X) ids = map (ItemID X) ids'"
  shows "ids = ids' \<or> collision X (map (\<lambda>p. string_bytes (uuid_string X p)) ids) (map (\<lambda>p. string_bytes (uuid_string X p)) ids')"
  using assms(2)
proof (induction ids arbitrary: ids')
  case (Cons p ids)
  then obtain q qs where q: "ids' = q # qs" "ItemID X p = ItemID X q" "map (ItemID X) ids = map (ItemID X) qs" by auto
  show ?case
    using Cons.IH [OF q(3)] q(2) injD [OF assms(1)] unfolding q(1) ItemID_def by auto
qed simp

lemma details_binding:
  assumes same: "dt_type d = dt_type d'" "details_preimage d = details_preimage d'"
    and small: "length (dt_orders d) < 2 ^ 64" "length (dt_orders d') < 2 ^ 64"
  shows "signed_details d = signed_details d'"
proof -
  have len: "length (sortedUniqueOrderIDs ids) \<le> length ids" for ids
    using remdups_adj_length [of "sort ids"] by (simp add: sortedUniqueOrderIDs_eq)
  have short: "length (sortedUniqueOrderIDs (dt_orders d)) < 2 ^ 64" "length (sortedUniqueOrderIDs (dt_orders d')) < 2 ^ 64"
    using len [of "dt_orders d"] len [of "dt_orders d'"] small by linarith+
  have l: "length (detail_entities d) = length (detail_entities d')" and k: "lists_orders d = lists_orders d'"
    using same(1) by (simp_all add: detail_entities_def lists_orders_def)
  have c: "concat (map uuid_word us) = concat (map uuid_word vs) \<longleftrightarrow> us = vs" for us vs
    by (rule concat_map_fixed_inject [where n = 32]) simp_all
  have b: "length (concat (map uuid_word (detail_entities d))) = length (concat (map uuid_word (detail_entities d')))"
    using l by (simp add: length_concat comp_def sum_list_triv)
  show ?thesis
  proof (cases "lists_orders d")
    case True
    then show ?thesis
      using same(2) k unfolding details_preimage_def signed_details_def
      by (simp add: orderedListPreimage_inject [OF l short] same(1)) (metis set_sortedUniqueOrderIDs)
  next
    case False
    then show ?thesis
      using same k unfolding details_preimage_def signed_details_def by (simp add: append_eq_fixed b c)
  qed
qed

section \<open>The challenge\<close>

text \<open>C31: the challenge an operator signs binds the action. If two actions have the same challenge, built
  the way the services build it (the hash of the items' hashed ids, the hash of the details of the
  action's type), then they are the same action: the same action id and type, the same items in the
  same order, the same salt, the same cargoplace, bin or dispatch, the same set of orders, the same
  operator and the same time. Otherwise one of the byte strings hashed for the one differs from the
  byte string hashed at the same place for the other, and the two collide.\<close>

theorem Challenge_binding:
  assumes eq: "Challenge X i (dt_type d) (ItemsHash X ids) h = Challenge X i' (dt_type d') (ItemsHash X ids') h'"
    and details: "DetailsHash X d = Inr h" "DetailsHash X d' = Inr h'"
    and ids: "inj (uuid_string X)"
    and small: "length (dt_orders d) < 2 ^ 64" "length (dt_orders d') < 2 ^ 64"
  shows "i = i' \<and> ids = ids' \<and> signed_details d = signed_details d' \<or> collision X (hashed X i ids d) (hashed X i' ids' d')"
proof -
  have h: "h = keccak X (details_preimage d)" "h' = keccak X (details_preimage d')"
    using details DetailsHash_preimage by auto
  have i: "items_preimage X ids = items_preimage X ids' \<Longrightarrow> ids = ids'
      \<or> collision X (map (\<lambda>p. string_bytes (uuid_string X p)) ids) (map (\<lambda>p. string_bytes (uuid_string X p)) ids')"
    unfolding items_preimage_inject by (rule item_ids_binding [OF ids])
  have d: "dt_type d = dt_type d' \<Longrightarrow> details_preimage d = details_preimage d' \<Longrightarrow> signed_details d = signed_details d'"
    by (rule details_binding [OF _ _ small])
  show ?thesis
    using eq i d unfolding h hashed_def Challenge_def
    by (auto simp: challenge_preimage_inject ItemsHash_def)
qed

text \<open>Two shipments whose order lists differ as lists: the same set of orders, so the same challenge.\<close>

definition plain_crypto :: crypto where
  "plain_crypto = demo_crypto\<lparr>uuid_string := (\<lambda>u. bytes_string (uuid_bytes u))\<rparr>"

lemma of_char_unat: "of_char (char_of (unat b)) = (b :: byte)"
proof -
  have "unat (of_char (char_of (unat b)) :: byte) = unat b"
    using unat_byte_bound [of b] by (simp add: unat_of_char)
  then show ?thesis by (simp only: word_unat_eq_iff)
qed

lemma plain_ids: "inj (uuid_string plain_crypto)"
proof (rule injI)
  have b: "string_bytes (bytes_string bs) = bs" for bs
    by (induction bs) (simp_all add: bytes_string_def string_bytes_def of_char_unat)
  fix u v assume "uuid_string plain_crypto u = uuid_string plain_crypto v"
  then have "string_bytes (bytes_string (uuid_bytes u)) = string_bytes (bytes_string (uuid_bytes v))" by (simp add: plain_crypto_def)
  then show "u = v" by (simp add: b)
qed

definition one_ship :: "uuid list \<Rightarrow> Details" where
  "one_ship os = \<lparr> dt_type = TypeShip, dt_salt = 1, dt_cargoplace = 0, dt_storage_bin = 0, dt_shipping_bin = 3, dt_dispatch = 2,
     dt_orders = os, dt_operator = 4, dt_ms = 5 \<rparr>"

lemma one_ship_hash: "DetailsHash plain_crypto (one_ship os) = Inr (ShipDetailsHash plain_crypto 1 2 3 os 4 5)"
  by (simp add: DetailsHash_def one_ship_def action_types)

theorem Challenge_binding_witness:
  "one_ship [8, 7] \<noteq> one_ship [7, 8, 7]
     \<and> Challenge plain_crypto 9 4 (ItemsHash plain_crypto [6]) (ShipDetailsHash plain_crypto 1 2 3 [8, 7] 4 5)
         = Challenge plain_crypto 9 4 (ItemsHash plain_crypto [6]) (ShipDetailsHash plain_crypto 1 2 3 [7, 8, 7] 4 5)
     \<and> signed_details (one_ship [8, 7]) = signed_details (one_ship [7, 8, 7])"
proof -
  have p: "orderedListPreimage s es [8, 7] u t = orderedListPreimage s es [7, 8, 7] u t" for s es u t
    by (simp add: orderedListPreimage_def sortedUniqueOrderIDs_eq)
  then have e: "ShipDetailsHash plain_crypto 1 2 3 [8, 7] 4 5 = ShipDetailsHash plain_crypto 1 2 3 [7, 8, 7] 4 5"
    by (simp add: ShipDetailsHash_def orderedListDetailsHash_def)
  have q: "hashed plain_crypto 9 [6] (one_ship [8, 7]) = hashed plain_crypto 9 [6] (one_ship [7, 8, 7])"
    by (simp add: hashed_def details_preimage_def one_ship_def lists_orders_def detail_entities_def action_types p)
  have "9 = (9 :: uuid) \<and> [6] = [6 :: uuid] \<and> signed_details (one_ship [8, 7]) = signed_details (one_ship [7, 8, 7])
      \<or> collision plain_crypto (hashed plain_crypto 9 [6] (one_ship [8, 7])) (hashed plain_crypto 9 [6] (one_ship [7, 8, 7]))"
    by (rule Challenge_binding [OF _ one_ship_hash one_ship_hash plain_ids]) (simp_all add: e, simp_all add: one_ship_def)
  then show ?thesis using e unfolding q by (simp add: one_ship_def)
qed

end
