(* ===== verification/KeyRuns.thy ===== *)
theory KeyRuns
  imports SendFlow
begin

text \<open>
  The two writers of a key action's state together: the service, which drafts and submits key
  actions (\<^verbatim>\<open>wms/internal/passkeys\<close>), and the adapter, which mirrors the chain in
  \<^verbatim>\<open>onchain_events\<close> (\<^verbatim>\<open>ledger-adapter\<close>). First, no step of the adapter takes back that an action
  has been decided; then, over every interleaving of the two, no key has two actions that wait
  for the chain.
\<close>

section \<open>What is decided stays decided\<close>

definition mirror_row :: "onchain_event list \<Rightarrow> uuid \<Rightarrow> onchain_event option" where
  "mirror_row es i = List.find (\<lambda>e. oe_event e = i) es"

definition decided :: "onchain_event \<Rightarrow> bool" where
  "decided e \<longleftrightarrow> oe_status e = OnchainCommitted \<or> oe_status e = OnchainFailed"

definition decided_at :: "adapter \<Rightarrow> uuid \<Rightarrow> bool" where
  "decided_at s i \<longleftrightarrow> (case mirror_row (ad_events s) i of None \<Rightarrow> False | Some e \<Rightarrow> decided e)"

text \<open>Every decided action stays decided, and the rows of the actions in \<open>I\<close> are not touched.\<close>

definition settles :: "uuid set \<Rightarrow> adapter \<Rightarrow> adapter \<Rightarrow> bool" where
  "settles I s s' \<longleftrightarrow> (\<forall>i. decided_at s i \<longrightarrow> decided_at s' i)
     \<and> (\<forall>i\<in>I. mirror_row (ad_events s') i = mirror_row (ad_events s) i)"

interpretation stl: tx_preorder "settles I" for I
  by unfold_locales (auto simp: settles_def)

lemma settles_same: "ad_events s' = ad_events s \<Longrightarrow> settles I s s'"
  by (simp add: settles_def decided_at_def)

lemma settles_less: "settles I s s' \<Longrightarrow> J \<subseteq> I \<Longrightarrow> settles J s s'"
  by (auto simp: settles_def)

lemma settles_undecided: "settles I s s' \<Longrightarrow> i \<in> I \<Longrightarrow> \<not> decided_at s i \<Longrightarrow> \<not> decided_at s' i"
  by (simp add: settles_def decided_at_def)

lemma settles_ext [tx_rules]: "tx_rel (settles I) (ext f)"
  by (simp add: tx_rel_def ext_def settles_same)

lemma settles_store [tx_rules]: "tx_rel (settles I) m \<Longrightarrow> tx_rel (settles I) (store_call W m)"
  unfolding store_call_def by (intro tx_rules)

lemma mirror_row_update:
  "(\<And>e. P e \<Longrightarrow> oe_event (f e) = oe_event e) \<Longrightarrow>
   mirror_row (sql_update P f es) i = map_option (\<lambda>e. if P e then f e else e) (mirror_row es i)"
  by (induction es) (auto simp: mirror_row_def sql_update_def)

lemma mirror_row_event: "mirror_row es i = Some e \<Longrightarrow> oe_event e = i"
  by (auto simp: mirror_row_def find_Some_iff)

lemma settles_update:
  assumes "\<And>e. P e \<Longrightarrow> oe_event (f e) = oe_event e \<and> (decided_at s (oe_event e) \<longrightarrow> decided (f e))" "\<And>e. oe_event e \<in> I \<Longrightarrow> \<not> P e"
  shows "settles I s (ad_events_update (sql_update P f) s)"
proof -
  have row: "mirror_row (sql_update P f (ad_events s)) i = map_option (\<lambda>e. if P e then f e else e) (mirror_row (ad_events s) i)" for i
    by (rule mirror_row_update) (use assms(1) in blast)
  have "decided_at (ad_events_update (sql_update P f) s) i" if d: "decided_at s i" for i
  proof -
    obtain e where e: "mirror_row (ad_events s) i = Some e" "decided e" using d by (auto simp: decided_at_def split: option.splits)
    have "decided (if P e then f e else e)" using e(2) assms(1) [of e] d mirror_row_event [OF e(1)] by auto
    then show ?thesis by (simp add: decided_at_def row e(1))
  qed
  moreover have "mirror_row (sql_update P f (ad_events s)) i = mirror_row (ad_events s) i" if "i \<in> I" for i
    using assms(2) that mirror_row_event [of "ad_events s" i] by (cases "mirror_row (ad_events s) i") (auto simp: row)
  ultimately show ?thesis by (simp add: settles_def)
qed

lemma settles_events_update:
  assumes "\<And>now e. P e \<Longrightarrow> oe_event (f now e) = oe_event e \<and> decided (f now e)" "\<And>e. oe_event e \<in> I \<Longrightarrow> \<not> P e"
  shows "tx_rel (settles I) (events_update W P f)"
proof -
  have "tx_rel (settles I) (tx_modify (\<lambda>s. ad_events_update (sql_update P (f (wo_now W (ad_calls s)))) s))"
    unfolding tx_rel_def tx_simps snd_conv by (intro allI settles_update) (use assms in auto)
  then show ?thesis unfolding events_update_def by (rule settles_store)
qed

lemma settles_marks [tx_rules]:
  "set ids \<inter> I = {} \<Longrightarrow> tx_rel (settles I) (MarkCommitted W ids)"
  "set ids \<inter> I = {} \<Longrightarrow> tx_rel (settles I) (MarkFailed W ids h reason)"
  "set ids \<inter> I = {} \<Longrightarrow> tx_rel (settles I) (MarkRejected W ids h r)"
  unfolding MarkCommitted_def MarkFailed_def MarkRejected_def
  by (intro tx_rules settles_events_update; auto simp: decided_def)+

lemma settles_reads [tx_rules]:
  "tx_rel (settles I) (Exists W i)" "tx_rel (settles I) (StatusAndTx W i)" "tx_rel (settles I) (ListReconcilable W age)"
  "tx_rel (settles I) (StateOutcome W A r i)"
  unfolding Exists_def StatusAndTx_def ListReconcilable_def StateOutcome_def actionState_def rejectedReason_def
  by (intro tx_rules)+

lemma settles_publish [tx_rules]: "tx_rel (settles I) (PublishAll W ms r)"
proof -
  have "tx_rel (settles I) (tx_modify (ad_dlq_update f))" for f
    by (simp add: tx_rel_def tx_simps settles_same)
  then show ?thesis unfolding PublishAll_def by (intro tx_rules)
qed

lemma find_snoc: "List.find P (xs @ [x]) = (case List.find P xs of None \<Rightarrow> if P x then Some x else None | Some y \<Rightarrow> Some y)"
  by (induction xs) auto

lemma settles_insert [tx_rules]: "i \<notin> I \<Longrightarrow> tx_rel (settles I) (InsertPending W i a)"
proof -
  assume i: "i \<notin> I"
  have "settles I s (ad_events_update (\<lambda>t. t @ [e]) s)" if "\<forall>x\<in>set (ad_events s). oe_event x \<noteq> i" "oe_event e = i" for s e
  proof -
    have "mirror_row (ad_events s @ [e]) j = (case mirror_row (ad_events s) j of None \<Rightarrow> if j = i then Some e else None | Some x \<Rightarrow> Some x)" for j
      using that by (auto simp: mirror_row_def find_snoc split: option.splits)
    then show ?thesis using i by (auto simp: settles_def decided_at_def split: option.splits)
  qed
  then have "tx_rel (settles I) (tx_modify (\<lambda>s. if \<exists>e\<in>set (ad_events s). oe_event e = i then s
     else ad_events_update (\<lambda>t. t @ [\<lparr> oe_event = i, oe_aggregate = a, oe_tx = None, oe_status = OnchainPending,
       oe_reject = None, oe_error = None, oe_updated = wo_now W (ad_calls s) \<rparr>]) s))"
    by (simp add: tx_rel_def tx_simps settles_same)
  then show ?thesis unfolding InsertPending_def by (rule settles_store)
qed

lemma settles_failure [tx_rules]: "set ids \<inter> I = {} \<Longrightarrow> tx_rel (settles I) (recordFailure F ps ids h r)"
  unfolding recordFailure_def by (intro tx_rules)

lemma settles_outcomes [tx_rules]: "set ids \<inter> I = {} \<Longrightarrow> tx_rel (settles I) (applyActionOutcomes F rc ids h)"
proof -
  assume i: "set ids \<inter> I = {}"
  have s: "tx_rel (settles I) (state_of_action F i rs)" for i rs by (induction rs) (auto intro!: tx_rules)
  have "tx_rel (settles I) (fill_outcomes F rs ids os)" for rs ids os by (induction ids arbitrary: os) (auto intro!: tx_rules s)
  then show ?thesis
    unfolding applyActionOutcomes_def resolveActionOutcomes_def Let_def by (intro tx_rules) (use i in auto)
qed

lemma settles_receipt [tx_rules]: "set ids \<inter> I = {} \<Longrightarrow> tx_rel (settles I) (reconcileReceipt F ids h)"
proof -
  assume i: "set ids \<inter> I = {}"
  have one: "settles I s (s\<lparr>ad_calls := Suc (ad_calls s)\<rparr>)" for s by (simp add: settles_same)
  have "tx_rel (settles I) (tx_seq (applyActionOutcomes F r ids h) (tx_return True))"
    "tx_rel (settles I) (tx_seq (MarkFailed (fl_world F) ids h e) (tx_return True))" for r e
    using i by (intro tx_rules; assumption)+
  then show ?thesis
    unfolding tx_rel_def reconcileReceipt_run
    by (auto simp: one split: sum.split receipt_err.split intro: stl.R_trans [OF one])
qed

lemma settles_reconcile: "tx_rel (settles {}) (reconcileOnce F age)"
proof -
  have g: "tx_rel (settles {}) (reconcile_groups F rows hs)" for rows hs by (induction hs) (auto intro!: tx_rules)
  show ?thesis unfolding reconcileOnce_def by (intro tx_rules g)
qed

lemma settles_calldata [tx_rules]: "tx_rel (settles I) (SendCalldata W to data g)"
proof -
  have "settles I s (snd (SendCalldata W to data g s))" for s
  proof -
    obtain r s' where r: "SendCalldata W to data g s = (r, s')" by fastforce
    then show ?thesis using SendCalldata_cases [OF r] by (simp add: same_records_def settles_same)
  qed
  then show ?thesis by (simp add: tx_rel_def)
qed

lemma settles_wait [tx_rules]: "tx_rel (settles I) (WaitReceipt W h timeout)"
proof -
  have "settles I s (snd (WaitReceipt W h timeout s))" for s
  proof -
    obtain n r where "WaitReceipt W h timeout s = (r, s\<lparr>ad_calls := ad_calls s + n + 1\<rparr>)" using WaitReceipt_ends by blast
    then show ?thesis by (simp add: settles_same)
  qed
  then show ?thesis by (simp add: tx_rel_def)
qed

lemma settles_confirm: "tx_rel (settles {}) (confirmAndCommit F b)"
proof -
  have c: "tx_rel (settles {}) (Confirm F t)" for t unfolding Confirm_def by (intro tx_rules) auto
  have "tx_rel (settles {}) (confirm_each F txs is)" for txs "is" by (induction "is") (auto intro!: tx_rules c)
  then show ?thesis unfolding confirmAndCommit_def by (intro tx_rules)
qed

section \<open>Sending marks undecided actions only\<close>

lemma settles_filter [tx_rules]: "I \<subseteq> set seen \<Longrightarrow> tx_rel (settles I) (filter_pending F seen ms)"
proof (induction ms arbitrary: seen)
  case (Cons m ms)
  have "I \<subseteq> set (am_event m # seen)" using Cons.prems by auto
  note rest = Cons.IH [OF this] and same = Cons.IH [OF Cons.prems]
  show ?case
    by (auto simp: Let_def split_def intro!: tx_rules rest same) (use Cons.prems in auto)
qed (simp add: tx_rules)

lemma InsertPending_undecided:
  assumes "InsertPending W i a s = (Inr u, s')" "mirror_row (ad_events s) i = None"
  shows "\<not> decided_at s' i"
proof -
  have "\<not> (\<exists>e\<in>set (ad_events s). oe_event e = i)" using assms(2) by (auto simp: mirror_row_def find_None_iff)
  with store_call_ok [OF assms(1) [unfolded InsertPending_def]]
  obtain e where "ad_events s' = ad_events s @ [e]" "oe_event e = i" "oe_status e = OnchainPending"
    by (auto simp: tx_modify_ok)
  then show ?thesis using assms(2) by (simp add: decided_at_def decided_def mirror_row_def find_snoc)
qed

lemma StatusAndTx_decided:
  assumes "StatusAndTx W i s = (Inr (st, h), s')"
  shows "decided_at s' i \<longrightarrow> st = OnchainCommitted \<or> st = OnchainFailed"
  using store_call_ok [OF assms [unfolded StatusAndTx_def]]
  by (auto simp: tx_query_ok decided_at_def decided_def mirror_row_def split: option.splits)

lemma undecided_pending:
  assumes "filter_pending F seen ms s = (Inr pending, s')" "p \<in> set pending"
  shows "\<not> decided_at s' (am_event p)"
  using assms
proof (induction ms arbitrary: seen s pending)
  case (Cons m ms)
  show ?case
  proof (cases "am_event m \<in> set seen")
    case True
    then show ?thesis using Cons.IH [of seen s pending] Cons.prems by auto
  next
    case new: False
    let ?rest = "filter_pending F (am_event m # seen) ms"
    have keep: "\<not> decided_at s' (am_event m)" if "?rest t = (q, s')" "\<not> decided_at t (am_event m)" for t q
    proof -
      have "tx_rel (settles {am_event m}) ?rest" by (rule settles_filter) simp
      from settles_undecided [OF tx_relD [OF this that(1)] _ that(2)] show ?thesis by simp
    qed
    obtain ok t where t: "Exists (fl_world F) (am_event m) s = (Inr ok, t)"
      "(if \<not> ok then tx_seq (InsertPending (fl_world F) (am_event m) aggregateSignedAction)
            (tx_bind ?rest (\<lambda>pending. tx_return (m # pending)))
        else tx_bind (StatusAndTx (fl_world F) (am_event m)) (\<lambda>(status, txHash).
          if status = OnchainCommitted then ?rest
          else if txHash \<noteq> '''' then tx_bind (reconcileReceipt F [am_event m] txHash) (\<lambda>_. ?rest)
          else if status = OnchainFailed then ?rest
          else tx_bind ?rest (\<lambda>pending. tx_return (m # pending)))) t = (Inr pending, s')"
      using Cons.prems(1) new by (auto simp: Let_def tx_bind_ok)
    show ?thesis
    proof (cases ok)
      case False
      then obtain u rest where u: "InsertPending (fl_world F) (am_event m) aggregateSignedAction t = (Inr (), u)"
        "?rest u = (Inr rest, s')" "pending = m # rest"
        using t(2) by (auto simp: tx_seq_ok tx_bind_ok tx_return_ok)
      have "mirror_row (ad_events t) (am_event m) = None"
        using Exists_ok [OF t(1)] False by (auto simp: known_def mirror_row_def find_None_iff)
      then have "\<not> decided_at u (am_event m)" by (rule InsertPending_undecided [OF u(1)])
      then show ?thesis using keep [OF u(2)] Cons.IH [OF u(2)] Cons.prems(2) u(3) by auto
    next
      case True
      then obtain st h u where st: "StatusAndTx (fl_world F) (am_event m) t = (Inr (st, h), u)"
        "(if st = OnchainCommitted then ?rest
          else if h \<noteq> '''' then tx_bind (reconcileReceipt F [am_event m] h) (\<lambda>_. ?rest)
          else if st = OnchainFailed then ?rest
          else tx_bind ?rest (\<lambda>pending. tx_return (m # pending))) u = (Inr pending, s')"
        using t(2) by (auto simp: tx_bind_ok)
      have u: "decided_at u (am_event m) \<longrightarrow> st = OnchainCommitted \<or> st = OnchainFailed" by (rule StatusAndTx_decided [OF st(1)])
      consider v where "?rest v = (Inr pending, s')"
        | rest where "st \<noteq> OnchainCommitted" "st \<noteq> OnchainFailed" "?rest u = (Inr rest, s')" "pending = m # rest"
        using st(2) by (auto simp: tx_bind_ok tx_return_ok split: if_splits)
      then show ?thesis
      proof cases
        case 1
        then show ?thesis using Cons.IH Cons.prems(2) by blast
      next
        case 2
        then show ?thesis using keep [OF 2(3)] u Cons.IH [OF 2(3)] Cons.prems(2) by auto
      qed
    qed
  qed
qed (simp add: tx_return_ok)

lemma MarkSent_undecided:
  assumes "MarkSent W ids h s = (r, s')" "\<forall>i\<in>set ids. \<not> decided_at s i" "set ids \<inter> I = {}"
  shows "settles I s s'"
proof (cases "ids = [] \<or> \<not> wo_db W (ad_calls s)")
  case True
  then have "ad_events s' = ad_events s" using assms(1) by (cases "ids = []") (auto simp: MarkSent_def events_update_def store_call_def ext_def tx_simps)
  then show ?thesis by (rule settles_same)
next
  case False
  let ?P = "\<lambda>e. oe_event e \<in> set ids \<and> oe_status e \<noteq> OnchainCommitted"
  let ?f = "\<lambda>e. e\<lparr>oe_tx := Some h, oe_status := OnchainSent, oe_updated := wo_now W (Suc (ad_calls s))\<rparr>"
  have "s' = ad_events_update (sql_update ?P ?f) (s\<lparr>ad_calls := Suc (ad_calls s)\<rparr>)"
    using assms(1) False by (simp add: MarkSent_def events_update_def store_call_def ext_def tx_simps)
  moreover have "settles I s (ad_events_update (sql_update ?P ?f) s)"
    by (rule settles_update) (use assms(2,3) in auto)
  ultimately show ?thesis by (simp add: settles_def decided_at_def)
qed

lemma settles_chunks:
  assumes "send_chunks F t r pending infl s = (res, s')" "distinct (map am_event pending)"
    "\<forall>p\<in>set pending. \<not> decided_at s (am_event p)" "set (map am_event pending) \<inter> I = {}"
  shows "settles I s s'"
  using assms
proof (induction "length pending" arbitrary: pending infl s I rule: less_induct)
  case less
  show ?case
  proof (cases rule: send_chunks_cases [of pending F t r infl])
    case Done
    then show ?thesis using less.prems(1) by (simp add: tx_return_apply settles_same)
  next
    case (Unsendable p rest reason)
    let ?J = "I \<union> set (map am_event rest)"
    have rel: "tx_rel (settles ?J) (or_else infl (recordFailure F [p] [am_event p] '''' reason))"
      by (intro or_else_forward settles_failure) (use less.prems(2,4) Unsendable(1) in auto)
    from less.prems(1) [unfolded Unsendable(2)] show ?thesis
    proof (cases rule: seq_cases)
      case (1 e)
      from settles_less [OF tx_relD [OF rel 1(1)]] show ?thesis by simp
    next
      case (2 u)
      have u: "settles ?J s u" by (rule tx_relD [OF rel 2(1)])
      have "settles I u s'"
        by (rule less.hyps [OF _ 2(2)]) (use less.prems(2-4) Unsendable(1) settles_undecided [OF u] in auto)
      then show ?thesis using settles_less [OF u] stl.R_trans by blast
    qed
  next
    case (Chunk n data)
    let ?chunk = "take n pending" and ?rest = "drop n pending"
    let ?J = "I \<union> set (map am_event ?rest)"
    have split: "set pending = set ?chunk \<union> set ?rest" by (metis append_take_drop_id set_append)
    have dis: "distinct (map am_event ?rest)" "set (idsOf ?chunk) \<inter> ?J = {}"
    proof -
      have "distinct (map am_event ?chunk @ map am_event ?rest)" using less.prems(2) by (metis append_take_drop_id map_append)
      then show "distinct (map am_event ?rest)" "set (idsOf ?chunk) \<inter> ?J = {}"
        using less.prems(4) split by (auto simp: idsOf_def)
    qed
    obtain out u where u: "SendCalldata (fl_world F) (resolver_address r) data (tg_gas_floor t ?chunk) s = (out, u)"
      "after_send F t r pending infl n out u = (res, s')"
      using less.prems(1) unfolding Chunk(4) by (auto simp: tx_bind_apply take_error_def split: prod.splits)
    have su: "settles UNIV s u" by (rule tx_relD [OF settles_calldata u(1)])
    have rest: "settles I s s'" if v: "settles ?J u v" and c: "send_chunks F t r ?rest fl v = (res, s')" for v fl
    proof -
      have sv: "settles ?J s v" using settles_less [OF su] v stl.R_trans by blast
      have "settles I v s'"
        by (rule less.hyps [OF _ c dis(1)]) (use less.prems(3,4) split Chunk(1,2) settles_undecided [OF sv] in auto)
      then show ?thesis using settles_less [OF sv] stl.R_trans by blast
    qed
    have stop: "settles I s s'" if "settles ?J u s'"
      using settles_less [OF su, of I] settles_less [OF that, of I] stl.R_trans by blast
    show ?thesis
    proof (cases out)
      case (Inr h)
      have mark: "settles ?J u v" if o: "or_else infl (MarkSent (fl_world F) (idsOf ?chunk) (Hex32 h)) u = (q, v)" for q v
      proof -
        obtain q' where "MarkSent (fl_world F) (idsOf ?chunk) (Hex32 h) u = (q', v)"
          using o by (cases "MarkSent (fl_world F) (idsOf ?chunk) (Hex32 h) u") (auto simp: tx_error_def tx_handle_apply tx_fail_apply split: sum.splits)
        then show ?thesis
          by (rule MarkSent_undecided) (use less.prems(3) split settles_undecided [OF su] dis(2) in \<open>auto simp: idsOf_def\<close>)
      qed
      show ?thesis using u(2) [unfolded Inr sum.case]
        by (cases rule: seq_cases) (use mark stop rest in blast)+
    next
      case (Inl e)
      have fail: "settles ?J u v" if "or_else infl (recordFailure F ?chunk (idsOf ?chunk) '''' x) u = (q, v)" for q v x
        by (rule tx_relD [OF or_else_forward [OF settles_failure [OF dis(2)]] that])
      show ?thesis
      proof (cases e)
        case (ErrChainTransient x)
        then show ?thesis using u(2) Inl settles_less [OF su, of I] by (simp add: tx_fail_apply)
      next
        case (ErrChainRevert x)
        show ?thesis using u(2) [unfolded Inl ErrChainRevert sum.case chain_err.case]
          by (cases rule: seq_cases) (use fail stop rest in blast)+
      next
        case (ErrSignTx x)
        show ?thesis using u(2) [unfolded Inl ErrSignTx sum.case chain_err.case]
          by (cases rule: seq_cases) (use fail stop rest in blast)+
      qed
    qed
  qed
qed

lemma settles_actions: "tx_rel (settles {}) (sendActions F t msgs infl)"
proof -
  have "settles {} s (snd (sendActions F t msgs infl s))" for s
  proof -
    have rel: "tx_rel (settles {}) (filter_pending F [] msgs)" by (intro tx_rules) simp
    obtain q u where q: "filter_pending F [] msgs s = (q, u)" by fastforce
    have su: "settles {} s u" by (rule tx_relD [OF rel q])
    have fail: "tx_rel (settles {}) (recordFailure F ps ids h r)" for ps ids h r by (intro tx_rules) simp
    show ?thesis
    proof (cases q)
      case (Inl e)
      then show ?thesis
        using su q by (simp add: sendActions_def filterAndMarkPending_def tx_bind_apply tx_error_def tx_handle_apply tx_fail_apply)
    next
      case (Inr pending)
      have d: "distinct (map am_event pending)" "\<forall>p\<in>set pending. \<not> decided_at u (am_event p)"
        using filter_pending_ok [OF q [unfolded Inr]] undecided_pending [OF q [unfolded Inr]] by (auto simp: left_over_def)
      have "settles {} u (snd (send_chunks F t r pending infl u))" for r
        by (rule settles_chunks [where pending = pending, OF _ d]) (auto simp: prod_eq_iff)
      moreover have "tx_rel (settles {}) (tx_seq (or_else infl (recordFailure F pending (idsOf pending) '''' x)) (tx_return infl))" for x
        by (intro tx_rules or_else_forward fail)
      ultimately have "settles {} u (snd ((if pending = [] then tx_return infl
         else case tg_resolver t of
           None \<Rightarrow> tx_seq (or_else infl (recordFailure F pending (idsOf pending) '''' (tg_name t @ '': contract not configured''))) (tx_return infl)
         | Some r \<Rightarrow> send_chunks F t r pending infl) u))"
        by (auto simp: tx_return_apply settles_same tx_rel_def split: option.split)
      then show ?thesis
        using stl.R_trans [OF su] q Inr by (simp add: sendActions_def filterAndMarkPending_def tx_bind_apply tx_error_def tx_handle_apply)
    qed
  qed
  then show ?thesis by (simp add: tx_rel_def)
qed

lemma settles_send: "tx_rel (settles {}) (Send F msgs)"
proof -
  have "tx_rel (settles {}) (send_segments F segs infl)" for segs infl
    by (induction segs arbitrary: infl) (auto split: segmentKind.split intro!: tx_rules settles_actions)
  then show ?thesis by (simp add: Send_def)
qed

lemma settles_drain: "settles {} (pu_adapter p) (pu_adapter (drainSendSubmit F p))"
proof (cases "ba_msgs (pu_batcher p) = []")
  case False
  obtain r a where r: "Send F (ba_msgs (pu_batcher p)) (pu_adapter p) = (r, a)" by fastforce
  then have "settles {} (pu_adapter p) a" by (rule tx_relD [OF settles_send])
  then show ?thesis using False r by (cases r) (auto simp: drainSendSubmit_def Drain_def)
qed (simp add: drainSendSubmit_def Drain_def settles_same)

lemma settles_message: "settles {} (pu_adapter p) (pu_adapter (onMessage F X K m p))"
  using settles_drain [of "p\<lparr>pu_fetched := pu_fetched p @ [m]\<rparr>" F]
    settles_drain [of "p\<lparr>pu_fetched := pu_fetched p @ [m], pu_batcher := b\<rparr>" F for b]
  by (auto simp: onMessage_def Let_def settles_same split: sum.split)

lemma settles_step: "consumer_step F X K w p p' \<Longrightarrow> settles {} (pu_adapter p) (pu_adapter p')"
  by (induction rule: consumer_step.induct)
    (auto dest: tx_relD [OF settles_publish] tx_relD [OF settles_confirm]
      simp: settles_drain settles_message settles_same settles_reconcile [unfolded tx_rel_def, rule_format])

section \<open>The service and the adapter together\<close>

text \<open>
  One step of the system: an administrator drafts or submits a key action, or tries to; the
  service does anything else, which leaves key actions and the mirror alone; the adapter takes
  one of its steps, or is restarted. The mirror is one table of the common database. The clock
  that a submission is stamped with is later than the stamps before.
\<close>

inductive key_step :: "flusher \<Rightarrow> crypto \<Rightarrow> codec \<Rightarrow> nat \<Rightarrow> wms_db \<times> pump \<Rightarrow> wms_db \<times> pump \<Rightarrow> bool"
  for F :: flusher and X :: crypto and K :: codec and window :: nat where
  Register: "key_step F X K window (s, p) (snd (DraftKeyRegister X chain E u k s), p)"
| Revoke: "key_step F X K window (s, p) (snd (DraftKeyRevoke X chain E u k s), p)"
| SubmitKey: "(\<And>b t. b \<in> set (key_actions s) \<Longrightarrow> ka_submitted b = Some t \<Longrightarrow> t < clock E 0) \<Longrightarrow>
    key_step F X K window (s, p) (snd (SubmitKeyAction X E rp os u aid a s), p)"
| Other: "key_actions s' = key_actions s \<Longrightarrow> onchain_events s' = onchain_events s \<Longrightarrow> key_step F X K window (s, p) (s', p)"
| Adapter: "consumer_step F X K window p p' \<Longrightarrow>
    key_step F X K window (s, p) (s\<lparr>onchain_events := ad_events (pu_adapter p')\<rparr>, p')"
| Restart: "key_step F X K window (s, p) (s, started (pu_adapter p) maxSize timeout)"

abbreviation key_runs :: "flusher \<Rightarrow> crypto \<Rightarrow> codec \<Rightarrow> nat \<Rightarrow> wms_db \<times> pump \<Rightarrow> wms_db \<times> pump \<Rightarrow> bool" where
  "key_runs F X K window \<equiv> (key_step F X K window)\<^sup>*\<^sup>*"

definition keys_serial :: "wms_db \<times> pump \<Rightarrow> bool" where
  "keys_serial = (\<lambda>(s, p). onchain_events s = ad_events (pu_adapter p) \<and> actions_serial s)"

lemma waiting_undecided:
  "waiting s a \<longleftrightarrow> ka_submitted a \<noteq> None \<and> (case mirror_row (onchain_events s) (ka_id a) of None \<Rightarrow> True | Some e \<Rightarrow> \<not> decided e)"
  by (auto simp: waiting_def key_action_state_def onchain_row_def mirror_row_def decided_def ConfirmationStateOf_def Let_def
      split: option.splits onchain_status.splits)

lemma serial_same:
  "actions_serial s \<Longrightarrow> key_actions s' = key_actions s \<Longrightarrow> onchain_events s' = onchain_events s \<Longrightarrow> actions_serial s'"
  by (simp add: actions_serial_def waiting_undecided)

text \<open>The adapter can only end a wait.\<close>

lemma serial_adapter:
  assumes "actions_serial s" "onchain_events s = ad_events a" "settles {} a a'"
  shows "actions_serial (s\<lparr>onchain_events := ad_events a'\<rparr>)"
proof -
  have kept: "\<not> decided_at a i" if "\<not> decided_at a' i" for i using that assms(3) by (auto simp: settles_def)
  have "waiting s x" if "waiting (s\<lparr>onchain_events := ad_events a'\<rparr>) x" for x
    using that assms(2) kept [of "ka_id x"] unfolding waiting_undecided decided_at_def by (auto split: option.splits)
  then show ?thesis using assms(1) by (fastforce simp: actions_serial_def)
qed

text \<open>A draft only adds an action that is not submitted.\<close>

definition drafts_only :: "wms_db \<Rightarrow> wms_db \<Rightarrow> bool" where
  "drafts_only s s' \<longleftrightarrow> onchain_events s' = onchain_events s
     \<and> (\<forall>a\<in>set (key_actions s'). a \<in> set (key_actions s) \<or> ka_submitted a = None)
     \<and> (distinct (map ka_id (key_actions s)) \<longrightarrow> distinct (map ka_id (key_actions s')))"

lemma drafts_trans: "drafts_only s t \<Longrightarrow> drafts_only t u \<Longrightarrow> drafts_only s u"
  unfolding drafts_only_def by (intro conjI ballI impI) (metis, metis, blast)

interpretation dro: tx_preorder drafts_only
  by unfold_locales (simp add: drafts_only_def, rule drafts_trans)

lemma drafts_same [tx_rules]:
  "tx_rel drafts_only (UpdatePasskeyStatus c st)" "tx_rel drafts_only (authorize roles u)"
  "tx_rel drafts_only (requireNoConfirmation org p b)"
proof -
  show "tx_rel drafts_only (UpdatePasskeyStatus c st)" by (auto simp: tx_rel_def UpdatePasskeyStatus_def tx_simps drafts_only_def)
qed (unfold authorize_def GetMember_def requireNoConfirmation_def, (intro tx_rules)+)

lemma drafts_insert [tx_rules]: "ka_submitted a = None \<Longrightarrow> tx_rel drafts_only (InsertKeyAction a)"
  by (auto simp: tx_rel_def InsertKeyAction_def tx_simps drafts_only_def)

lemma drafts_sync [tx_rules]: "tx_rel drafts_only (syncStatuses X chain keys)"
proof -
  have "tx_rel drafts_only (store_refreshed X st p)" for st p unfolding store_refreshed_def Let_def by (intro tx_rules)
  then show ?thesis unfolding syncStatuses_def by (intro tx_rules)
qed

lemma drafts_target [tx_rules]:
  "tx_rel drafts_only (pendingOperatorTarget X chain org k)" "tx_rel drafts_only (activeOperatorTarget X chain org k)"
  "tx_rel drafts_only (ActiveSigner X chain u)"
  unfolding pendingOperatorTarget_def activeOperatorTarget_def operatorTarget_def ActiveSigner_def confirmActive_def
  by (intro tx_rules)+

lemma drafts_draft:
  "tx_rel drafts_only (DraftKeyRegister X chain E u k)" "tx_rel drafts_only (DraftKeyRevoke X chain E u k)"
  unfolding DraftKeyRegister_def DraftKeyRevoke_def draftKeyAction_def Let_def by (intro tx_rules; simp)+

lemma serial_drafts:
  assumes "actions_serial s" "drafts_only s s'" shows "actions_serial s'"
proof -
  have w: "waiting s' a \<longleftrightarrow> waiting s a" for a using assms(2) by (simp add: waiting_undecided drafts_only_def)
  have old: "a \<in> set (key_actions s)" if "a \<in> set (key_actions s')" "ka_submitted a \<noteq> None" for a
    using assms(2) that by (auto simp: drafts_only_def)
  show ?thesis
    using assms old unfolding actions_serial_def w drafts_only_def by (auto simp: waiting_def)
qed

lemma SubmitKeyAction_failed:
  assumes "SubmitKeyAction X E rp os u aid a s = (Inl e, s')" shows "s' = s"
proof -
  have w: "fst (SubmitKeyAction_tx now k s) = Inl e \<Longrightarrow> snd (SubmitKeyAction_tx now k s) = s" for now k
    unfolding SubmitKeyAction_tx_def WithTx_apply by (auto split: sum.splits)
  show ?thesis
    using assms
    by (auto simp: SubmitKeyAction_def authorize_def GetMember_def tx_simps Let_def w split: if_splits sum.splits option.splits)
qed

section \<open>Every run\<close>

lemma key_step_serial:
  assumes "key_step F X K w c c'" "keys_serial c" shows "keys_serial c'"
  using assms
proof cases
  case (Register s p chain E u k)
  then show ?thesis
    using assms(2) serial_drafts drafts_draft(1) [of X chain E u k] by (auto simp: keys_serial_def tx_rel_def drafts_only_def)
next
  case (Revoke s p chain E u k)
  then show ?thesis
    using assms(2) serial_drafts drafts_draft(2) [of X chain E u k] by (auto simp: keys_serial_def tx_rel_def drafts_only_def)
next
  case (SubmitKey s E p rp os u aid a)
  obtain r t where r: "SubmitKeyAction X E rp os u aid a s = (r, t)" by fastforce
  have "keys_serial (t, p)"
  proof (cases r)
    case (Inl e)
    have "t = s" by (rule SubmitKeyAction_failed [OF r [unfolded Inl]])
    then show ?thesis using SubmitKey(1) assms(2) by simp
  next
    case (Inr v)
    have "onchain_events t = onchain_events s"
      using SubmitKeyAction_ok [OF r [unfolded Inr]] SubmitKeyAction_tx_ok(2) by metis
    then show ?thesis
      using SubmitKeyAction_serial [OF _ SubmitKey(3) r [unfolded Inr]] SubmitKey(1) assms(2) by (simp add: keys_serial_def)
  qed
  then show ?thesis using SubmitKey(2) r by simp
next
  case (Other s' s p)
  then show ?thesis using assms(2) serial_same by (auto simp: keys_serial_def)
next
  case (Adapter p p' s)
  then show ?thesis
    using assms(2) serial_adapter [OF _ _ settles_step [OF Adapter(3)]] by (auto simp: keys_serial_def)
next
  case (Restart s p maxSize timeout)
  then show ?thesis using assms(2) by (simp add: keys_serial_def started_def)
qed

lemma key_runs_serial: "key_runs F X K w c c' \<Longrightarrow> keys_serial c \<Longrightarrow> keys_serial c'"
  by (induction rule: rtranclp_induct) (auto intro: key_step_serial)

text \<open>C33: one key action at a time. Start with a mirror that the service and the adapter share and with
  key actions of which none is submitted, and let both run, in any interleaving, with any answers of
  the node, the broker, the registry and the database, and with restarts of the adapter: at every
  moment at most one submitted action of a key waits for the chain, and it is the latest submitted
  one of that key. The clock that stamps the submissions is assumed not to stand still or go back
  from one submission to the next.\<close>

theorem one_key_action_waits:
  assumes "key_runs F X K w (s, p) (s', p')" "onchain_events s = ad_events (pu_adapter p)"
    "distinct (map ka_id (key_actions s))" "\<forall>a\<in>set (key_actions s). ka_submitted a = None"
    and "a \<in> set (key_actions s')" "b \<in> set (key_actions s')" "ka_target a = ka_target b" "a \<noteq> b"
    and "waiting s' a" "ka_submitted b \<noteq> None"
  shows "\<not> waiting s' b \<and> the (ka_submitted b) < the (ka_submitted a)"
proof -
  have "keys_serial (s, p)" using assms(2-4) by (auto simp: keys_serial_def actions_serial_def)
  then have "actions_serial s'" using key_runs_serial [OF assms(1)] by (simp add: keys_serial_def)
  then have later: "waiting s' x \<Longrightarrow> ka_submitted y \<noteq> None \<Longrightarrow> x \<in> set (key_actions s') \<Longrightarrow> y \<in> set (key_actions s') \<Longrightarrow>
      ka_target x = ka_target y \<Longrightarrow> x \<noteq> y \<Longrightarrow> the (ka_submitted y) < the (ka_submitted x)" for x y
    unfolding actions_serial_def by blast
  have "the (ka_submitted b) < the (ka_submitted a)" using later [of a b] assms(5-) by simp
  moreover have "ka_submitted a \<noteq> None" using assms(9) by (simp add: waiting_def)
  ultimately show ?thesis using later [of b a] assms(5-) by fastforce
qed

section \<open>A run\<close>

text \<open>
  Two drafts for one key. The first is submitted and fails, because the adapter has no registry
  configured; then the second is submitted and waits.
\<close>

definition two_drafts :: wms_db where
  "two_drafts = demo_key_db\<lparr>key_actions := [demo_key_action\<lparr>ka_id := 66\<rparr>, demo_key_action\<lparr>ka_id := 67\<rparr>]\<rparr>"

definition demo_submit :: "int \<Rightarrow> uuid \<Rightarrow> wms_db \<Rightarrow> wms_db" where
  "demo_submit now i s = snd (SubmitKeyAction demo_crypto (demo_env\<lparr>clock := \<lambda>_. now\<rparr>) ''wms'' [''https://wms''] 2 i demo_assertion s)"

definition demo_key_mail :: kafka_message where
  "demo_key_mail = demo_good\<lparr>km_key := ''B'', km_headers := [(''id'', ''B''), (''aggregate_type'', ''signed_action'')]\<rparr>"

definition key_reader :: codec where
  "key_reader = demo_reader\<lparr>cc_json_envelope := \<lambda>_. Some (demo_envelope\<lparr>nv_action_id := ''B'', nv_action_type := 5,
     nv_subject_key := Some (Hex32 0, Hex32 0)\<rparr>)\<rparr>"

lemma demo_parse_key:
  "ParseMessage X key_reader demo_key_mail = Inr (demo_key_message\<lparr>am_kafka := demo_key_mail\<rparr>)"
proof -
  have "of_char (CHR ''B'') = (66 :: uuid)" by code_simp
  then show ?thesis
    by (simp add: ParseMessage_def parseSignedAction_def demo_key_mail_def demo_good_def headerValue_def aggregateSignedAction_def key_reader_def
      demo_reader_def Let_def demo_envelope_def action_types toKeyAction_def authOf_def decodeHex32_Hex32 decodeHex_def has_prefix_def
      demo_key_message_def demo_call_def)
qed

definition failed_key_pump :: pump where
  "failed_key_pump = onMessage demo_flusher demo_crypto key_reader demo_key_mail (started demo_adapter 1 5000)"

lemma failed_key_row:
  "\<exists>e. ad_events (pu_adapter failed_key_pump) = [e] \<and> oe_event e = 66 \<and> oe_status e = OnchainFailed"
proof -
  have a: "demo_adapter\<lparr>ad_seeded := False\<rparr> = demo_adapter" by (simp add: demo_adapter_def)
  have k: "keyTarget demo_flusher = \<lparr>tg_name = ''applyKeyActions'', tg_resolver = None, tg_pack = tg_pack (keyTarget demo_flusher),
      tg_gas_floor = tg_gas_floor (keyTarget demo_flusher)\<rparr>"
    by (simp add: keyTarget_def demo_flusher_sel)
  then have r: "tg_resolver (keyTarget demo_flusher) = None" by (metis actionTarget.select_convs(2))
  show ?thesis
    by (simp add: failed_key_pump_def onMessage_def demo_parse_key started_def a clock_now_def Add_def NewBatcher_def ShouldFlush_def
        drainSendSubmit_def Drain_def Send_def splitSegments_def segmentOf_def sendActions_def filterAndMarkPending_def Let_def store_defs
        recordFailure_def PublishAll_def r idsOf_def demo_world_sel demo_flusher_sel demo_adapter_def demo_key_message_def
        sql_update_def aggregateSignedAction_def)
qed

lemma demo_submit_first:
  "key_actions (demo_submit 10 66 two_drafts) = [demo_key_action\<lparr>ka_id := 66, ka_submitted := Some 10\<rparr>, demo_key_action\<lparr>ka_id := 67\<rparr>]
     \<and> passkey_credentials (demo_submit 10 66 two_drafts) = passkey_credentials demo_key_db
     \<and> users (demo_submit 10 66 two_drafts) = users demo_key_db
     \<and> organizations (demo_submit 10 66 two_drafts) = organizations demo_key_db
     \<and> map ob_event (outbox_events (demo_submit 10 66 two_drafts)) = [66]"
proof -
  have "as_credential demo_assertion = [1]" by (simp add: demo_assertion_def)
  then show ?thesis
    using demo_Verify
    by (simp add: demo_submit_def two_drafts_def SubmitKeyAction_def SubmitKeyAction_tx_def tx_simps authorize_def GetMember_def
        KeyAction_def PasskeyByCredentialID_def credential_status_def demo_key_db_def demo_key_action_def
        demo_passkey_def keyActionInFlight_def submitted_for_def key_action_blocked_def action_types
        empty_db_def Let_def sql_update_def)
qed

text \<open>The database after the adapter has mirrored the failure, and after the second submission.\<close>

definition after_failure :: wms_db where
  "after_failure = (demo_submit 10 66 two_drafts)\<lparr>onchain_events := ad_events (pu_adapter failed_key_pump)\<rparr>"

lemma demo_submit_second:
  "key_actions (demo_submit 20 67 after_failure)
     = [demo_key_action\<lparr>ka_id := 66, ka_submitted := Some 10\<rparr>, demo_key_action\<lparr>ka_id := 67, ka_submitted := Some 20\<rparr>]
   \<and> onchain_events (demo_submit 20 67 after_failure) = ad_events (pu_adapter failed_key_pump)"
proof -
  obtain e where e: "ad_events (pu_adapter failed_key_pump) = [e]" "oe_event e = 66" "oe_status e = OnchainFailed"
    using failed_key_row by blast
  have c: "as_credential demo_assertion = [1]" by (simp add: demo_assertion_def)
  have o: "67 \<notin> ob_event ` set (outbox_events (demo_submit 10 66 two_drafts))"
    by (subst list.set_map [symmetric], simp only: demo_submit_first) simp
  define t where "t = demo_submit 10 66 two_drafts"
  have s: "after_failure = t\<lparr>onchain_events := [e]\<rparr>" by (simp add: after_failure_def t_def e(1))
  show ?thesis
    unfolding e(1) s
    using demo_Verify c e(2,3) demo_submit_first o unfolding t_def [symmetric]
    by (simp add: demo_submit_def SubmitKeyAction_def SubmitKeyAction_tx_def tx_simps authorize_def GetMember_def
        KeyAction_def PasskeyByCredentialID_def credential_status_def demo_key_db_def demo_key_action_def
        demo_passkey_def keyActionInFlight_def submitted_for_def key_action_blocked_def action_types key_action_state_def
        onchain_row_def ConfirmationStateOf_def empty_db_def Let_def sql_update_def)
qed

lemma demo_key_run:
  "key_runs demo_flusher demo_crypto key_reader 1 (two_drafts, started demo_adapter 1 5000)
     (demo_submit 20 67 after_failure, failed_key_pump)"
proof -
  let ?step = "key_step demo_flusher demo_crypto key_reader 1"
  have "?step (two_drafts, started demo_adapter 1 5000) (demo_submit 10 66 two_drafts, started demo_adapter 1 5000)"
    unfolding demo_submit_def by (rule SubmitKey) (auto simp: two_drafts_def demo_key_action_def)
  moreover have "?step (demo_submit 10 66 two_drafts, started demo_adapter 1 5000) (after_failure, failed_key_pump)"
    unfolding after_failure_def failed_key_pump_def
    by (intro Adapter consumer_step.Fetch) (simp_all add: started_def)
  moreover have "?step (after_failure, failed_key_pump) (demo_submit 20 67 after_failure, failed_key_pump)"
    unfolding demo_submit_def
    by (rule SubmitKey) (use demo_submit_first in \<open>auto simp: after_failure_def demo_key_action_def\<close>)
  ultimately show ?thesis by (meson converse_rtranclp_into_rtranclp rtranclp.rtrancl_refl)
qed

theorem one_key_action_waits_witness:
  "\<exists>s' p' a b. key_runs demo_flusher demo_crypto key_reader 1 (two_drafts, started demo_adapter 1 5000) (s', p')
     \<and> key_actions s' = [b, a] \<and> ka_id b = 66 \<and> ka_id a = 67 \<and> ka_target a = ka_target b
     \<and> waiting s' a \<and> ka_submitted b \<noteq> None \<and> \<not> waiting s' b \<and> the (ka_submitted b) < the (ka_submitted a)"
proof -
  let ?s = "demo_submit 20 67 after_failure"
  let ?b = "demo_key_action\<lparr>ka_id := 66, ka_submitted := Some 10\<rparr>" and ?a = "demo_key_action\<lparr>ka_id := 67, ka_submitted := Some 20\<rparr>"
  obtain e where e: "ad_events (pu_adapter failed_key_pump) = [e]" "oe_event e = 66" using failed_key_row by blast
  have w: "waiting ?s ?a" using demo_submit_second e by (simp add: waiting_undecided mirror_row_def)
  have "\<not> waiting ?s ?b \<and> the (ka_submitted ?b) < the (ka_submitted ?a)"
    by (rule one_key_action_waits [OF demo_key_run, where a = ?a])
      (use demo_submit_second w in \<open>auto simp: two_drafts_def demo_key_action_def demo_key_db_def empty_db_def started_def demo_adapter_def\<close>)
  then show ?thesis
    using demo_submit_second demo_key_run w
    by (intro exI [of _ ?s] exI [of _ failed_key_pump] exI [of _ ?a] exI [of _ ?b]) simp
qed

end
