(* ===== verification/Spec2Isabelle.thy ===== *)
theory Spec2Isabelle
  imports ReceivingFlow PutawayFlow AssemblyFlow ShippingFlow Passkeys ConsumerOrder AuditFlow
    RouterFlow DispatchFlow AnalyticsFlow Binding KeyRuns
begin

text \<open>
  A verification development for \<^verbatim>\<open>avalanche-wms\<close>, a warehouse system whose operators
  sign each step of a product's way through the warehouse with a passkey; the signed
  actions are mirrored to a chain contract.

  \<^bold>\<open>The program.\<close> The WMS (\<^verbatim>\<open>src/wms\<close>, Go) keeps the warehouse in PostgreSQL. Each of
  the stages receiving, putaway, assembly (picking) and shipping drafts a signed operation,
  verifies the operator's WebAuthn assertions, and in one transaction changes the
  warehouse and writes one outbox event per signed action. The ledger adapter
  (\<^verbatim>\<open>src/ledger-adapter\<close>, Go) reads the events from Kafka, sends them to the contract and
  mirrors their outcome in \<^verbatim>\<open>public.onchain_events\<close>, which gates the next stages. An audit
  compares what the database holds with what the contract has logged.

  \<^bold>\<open>How it is modelled.\<close> The database is the record \<open>wms_db\<close>, one list of rows per table,
  in insertion order. An operation is a state transformer \<open>tx\<close> that returns a sum: the
  error, or the result. A transaction (\<open>WithTx\<close>) restores the state it began with when
  its body fails. Transactions of the WMS run one after the other: row locks are reads, and
  an advisory lock with the statements after it is one step. The clock, fresh identifiers
  and random salts of a call are the record \<open>call_env\<close>, indexed by call site. In the WMS
  faults of the infrastructure (a lost connection, a malformed row) are not modelled; in the
  adapter, which is built around them, every call of the store, of the node and of Kafka may
  fail as the record \<open>world\<close> says, indexed by the number of the call; a transaction may be in the
  hands of the node although the call that sent it failed (\<open>ad_lost\<close>), and every poll of a
  receipt takes the time the \<open>world\<close> gives it. A handler is a
  function from a state to a reply (status, and error code or data) and a new state.

  \<^bold>\<open>Parameters.\<close> What is not under \<^verbatim>\<open>src/\<close> is an argument of the definitions that use it:
  \<^item> \<open>crypto\<close> (SignedAction): SHA-256, Keccak-256, ECDSA on P-256, ASN.1, JSON strings and
    the text of a UUID; \<open>ecdsa_laws\<close> states what is relied on.
  \<^item> \<open>webauthn_lib\<close> and \<open>registry\<close> (Passkeys): the go-webauthn library, and the answers of
    the registry of keys behind the adapter.
  \<^item> \<open>codec\<close> (AdapterMessage), \<open>world\<close> and \<open>abi\<close> (ChainClient): JSON, the node, the clock and
    faults of the adapter, the ABI coder; \<open>node\<close> and \<open>audit_abi\<close> (AuditStore) for the audit.
  \<^item> \<open>auth_lib\<close> (Auth): the JWT and bcrypt libraries; \<open>auth_laws\<close> states what is relied on.
  \<^item> the UUID parser, the collation of the database, the zones of the two clocks, and the
    columns \<open>created\<close> and \<open>updated\<close> that the rows of the model do not hold (Router's \<open>server\<close>).

  \<^bold>\<open>Theories.\<close>
  \<^item> \<open>Prelude\<close>: words and bytes, the transaction monad and its rules, tables
    (locale \<open>sql_table\<close>), relations a transaction keeps (locale \<open>tx_preorder\<close>).
    \<open>Calendar\<close>: the dates, padded numbers and number reading of Go's library.
  \<^item> \<open>Domain\<close>: the rows of \<^verbatim>\<open>internal/domain\<close> and of the migrations, the database.
  \<^item> \<open>SignedAction\<close>: \<^verbatim>\<open>internal/signedaction\<close>: what is hashed, signed and verified; the
    hashes bind what they cover, or a collision is shown.
  \<^item> \<open>SignedOps\<close>: \<^verbatim>\<open>internal/signedops\<close>: operations, their parts, storage and outbox;
    the locale \<open>lock_once\<close> states what every submit promises.
  \<^item> \<open>LedgerGate\<close>: \<^verbatim>\<open>internal/ledger/chain_status.go\<close>.
  \<^item> \<open>Passkeys\<close>: \<^verbatim>\<open>internal/passkeys\<close>: keys, their registry mirror, key actions.
  \<^item> \<open>SignedSubmit\<close>: the code the four draft and submit operations share. \<open>Stock\<close>: the order
    in which the rows of the warehouse move forward.
  \<^item> \<open>ReceivingStore\<close>, \<open>Receiving\<close>, \<open>ReceivingFlow\<close>: \<^verbatim>\<open>internal/receiving\<close>: gate, table,
    signed close.
  \<^item> \<open>Putaway\<close>, \<open>PutawayFlow\<close>: \<^verbatim>\<open>internal/putaway\<close>: the placement of a basket.
  \<^item> \<open>AssemblyStore\<close>, \<open>Assembly\<close>, \<open>AssemblyFlow\<close>: \<^verbatim>\<open>internal/assembly\<close>: allocation,
    picking, unloading.
  \<^item> \<open>Shipping\<close>, \<open>ShippingFlow\<close>: \<^verbatim>\<open>internal/shipping\<close>: the gate and the signed shipment.
  \<^item> \<open>AdapterMessage\<close>, \<open>ChainClient\<close>, \<open>EventStore\<close>, \<open>Consumer\<close>, \<open>ConsumerLoop\<close>: the
    adapter: parsing (\<^verbatim>\<open>message.go\<close>), sending (\<^verbatim>\<open>internal/chain\<close>), the mirror
    (\<^verbatim>\<open>internal/store\<close>), batches, confirmation, reconciliation, and the loop as the step
    relation \<open>consumer_step\<close>. \<open>ConsumerFlow\<close>: the mirror only moves forward. \<open>SendFlow\<close>:
    chunks, nonces, gas, receipts and the trace of every message. \<open>ConsumerOrder\<close>: what a
    committed offset stands for, and two runs in which one overtakes a lost message.
    \<open>KeyRuns\<close>: the service and the adapter interleaved over the mirror they share; what the
    chain has decided stays decided, and one action of a key waits at a time.
  \<^item> \<open>AuditStore\<close>, \<open>Auditor\<close>, \<open>AuditFlow\<close>: \<^verbatim>\<open>internal/audit\<close>: both sides and their
    comparison; an audit without findings is agreement, and a placement carried through the
    service, the adapter and the contract is audited without findings. \<open>Binding\<close>: a challenge
    binds the items and the details of the action it was built for.
  \<^item> \<open>Auth\<close>, \<open>AuthFlow\<close>: \<^verbatim>\<open>internal/auth\<close>: users, tokens and the middleware.
  \<^item> \<open>Dispatches\<close>, \<open>DispatchFlow\<close>: \<^verbatim>\<open>internal/dispatches\<close>, \<^verbatim>\<open>internal/destinations\<close>: the
    codes of trips, and how one creation at midnight blocks a day; listings.
  \<^item> \<open>Analytics\<close>, \<open>AnalyticsFlow\<close>: \<^verbatim>\<open>internal/analytics\<close>: the reports count every event
    once. \<open>Products\<close>: \<^verbatim>\<open>internal/products\<close>: recent products and timelines.
  \<^item> \<open>Http\<close>: \<^verbatim>\<open>platform/httputil\<close>, the shape of a handler and the endpoints of
    \<^verbatim>\<open>internal/auth\<close>; \<open>OperationsHttp\<close>: \<^verbatim>\<open>signedops/http.go\<close>; \<open>ReceivingHttp\<close>, \<open>PutawayHttp\<close>,
    \<open>AssemblyHttp\<close>, \<open>ShippingHttp\<close>, \<open>PasskeysHttp\<close>: the handlers of the packages, named
    \<^verbatim>\<open>X_http\<close> after the method \<^verbatim>\<open>X\<close>; \<open>Router\<close>: the routes of \<^verbatim>\<open>cmd/wms/main.go\<close> as one
    function. \<open>RouterFlow\<close>: who is let in, and who can change anything.

  \<^bold>\<open>Loops.\<close> Every loop is structural or has a measure: the reading of a calendar year, the
  parts of an operation, the chunks of a batch, and the polling of a receipt, which the
  timeout of the context bounds. The loop of the consumer is a step relation and its
  properties hold in every reachable state. No definition takes fuel.

  \<^bold>\<open>Interleaving.\<close> One step of \<open>consumer_step\<close> is one message read, one \<^verbatim>\<open>Send\<close>, one
  confirmation of a batch or one dead letter; confirmations within a batch run in any order
  the \<open>world\<close> gives. Two WMS transactions that interleave below the level of a transaction
  are not modelled; nor are writes of the adapter between the queries of one report, which
  \<open>GetOnchain\<close> sends one after the other and the model answers from one state. \<open>key_step\<close> of
  \<open>KeyRuns\<close> interleaves whole operations of the service with steps of the adapter.

  \<^bold>\<open>Deviations.\<close> Upper-casing and case folding cover ASCII letters, where Go folds Unicode.
  The index of a part is a natural number, in the table a \<^verbatim>\<open>smallint\<close>. Rows that the
  \<^verbatim>\<open>ORDER BY\<close> of a query does not separate keep the order of their insertion. The confirmation
  rate is the exact quotient.

  \<^bold>\<open>Not modelled.\<close> Start-up, configuration, the health check and connections
  (\<^verbatim>\<open>cmd\<close>, \<^verbatim>\<open>config\<close>, \<^verbatim>\<open>platform/postgres\<close>, \<^verbatim>\<open>platform/kafka\<close>): they wire the parts above
  and read the environment. The HTTP client and server between WMS and adapter
  (\<^verbatim>\<open>ledger/client.go\<close>, the adapter's \<^verbatim>\<open>handler\<close>, \<^verbatim>\<open>GetKey\<close>), the key management client
  and the command-line tools (\<^verbatim>\<open>kms-init\<close>, \<^verbatim>\<open>registry-cli\<close>, \<^verbatim>\<open>blaster\<close>) and \<^verbatim>\<open>deploy\<close>: requests to
  other services and files, without a state of their own. Message texts, headers, body size
  limits and log lines of handlers; the detail text of a finding of the audit and its cache
  of block times. The Solidity contract and the TypeScript frontend are other programs; what
  the contract checks of an action is \<open>VerifyOnChain\<close>, and what it logs is a parameter.
\<close>

end
